(* ===== verification/Prelude.thy ===== *)
theory Prelude
  imports Main "HOL-Library.AList" "HOL-Library.Multiset" "HOL-Library.Log_Nat"
begin

text \<open>
  Shared vocabulary of the development: Go's machine integers, ASCII string
  helpers, decimal printing and parsing, Go maps with their unspecified
  iteration order, and the outcome type of every operation that can fail.
  Each group comes with the generic lemmas the component theories need; the
  rewrite rules among them are declared for the simplifier once, here, and the
  per-component facts are gathered in the collections declared below.
\<close>

named_theorems go_defs "definitions the component proofs unfold"
named_theorems inv_intros "one fact per operation: it keeps the invariant"

subsection \<open>Outcomes\<close>

text \<open>
  A Go function that returns \<open>(value, error)\<close> has the outcomes \<open>Ok\<close> and \<open>Err\<close>.
  A runtime panic (nil dereference, index out of range) is \<open>Panic\<close>, and a loop
  that never returns is \<open>Diverge\<close>.
\<close>

datatype 'a res = Ok 'a | Err string | Panic string | Diverge

fun is_ok :: "'a res \<Rightarrow> bool" where
  "is_ok (Ok _) = True"
| "is_ok _ = False"

fun map_res :: "('a \<Rightarrow> 'b) \<Rightarrow> 'a res \<Rightarrow> 'b res" where
  "map_res f (Ok a) = Ok (f a)"
| "map_res f (Err e) = Err e"
| "map_res f (Panic p) = Panic p"
| "map_res f Diverge = Diverge"

lemma is_ok_iff: "is_ok r \<longleftrightarrow> (\<exists>a. r = Ok a)"
  by (cases r) auto

text \<open>Go's run-time panics, by the message the runtime prints.\<close>

definition nil_deref :: string where
  "nil_deref = ''invalid memory address or nil pointer dereference''"

definition index_out_of_range :: string where
  "index_out_of_range = ''index out of range''"

definition slice_out_of_range :: string where
  "slice_out_of_range = ''slice bounds out of range''"

definition nil_map_write :: string where
  "nil_map_write = ''assignment to entry in nil map''"

subsection \<open>64-bit integers\<close>

text \<open>
  Go's \<open>int\<close> and \<open>int64\<close> are 64-bit two's complement on the supported
  platforms. They are modelled as \<open>int\<close> with the wrap-around written out;
  \<open>u64\<close> is the conversion \<open>uint64(x)\<close>.
\<close>

definition i64 :: "int \<Rightarrow> int" where
  "i64 x = (x + 2 ^ 63) mod 2 ^ 64 - 2 ^ 63"

definition u64 :: "int \<Rightarrow> int" where
  "u64 x = x mod 2 ^ 64"

definition in_i64 :: "int \<Rightarrow> bool" where
  "in_i64 x \<longleftrightarrow> - (2 ^ 63) \<le> x \<and> x < 2 ^ 63"

lemma i64_id [simp]: "in_i64 x \<Longrightarrow> i64 x = x"
  by (auto simp: i64_def in_i64_def)

lemma in_i64_i64 [simp]: "in_i64 (i64 x)"
  by (simp add: i64_def in_i64_def)

lemma u64_id: "0 \<le> x \<Longrightarrow> x < 2 ^ 64 \<Longrightarrow> u64 x = x"
  by (simp add: u64_def)

lemma u64_neg: "- (2 ^ 63) \<le> x \<Longrightarrow> x < 0 \<Longrightarrow> 2 ^ 63 \<le> u64 x"
proof -
  assume a: "- (2 ^ 63) \<le> x" "x < 0"
  have "x mod 2 ^ 64 = (x + 2 ^ 64) mod 2 ^ 64" by simp
  also have "\<dots> = x + 2 ^ 64" using a by (intro mod_pos_pos_trivial) auto
  finally show ?thesis using a by (simp add: u64_def)
qed

subsection \<open>Decimal printing and parsing\<close>

definition digit_char :: "nat \<Rightarrow> char" where
  "digit_char d = ''0123456789'' ! d"

fun digit_val :: "char \<Rightarrow> nat option" where
  "digit_val c =
     (if CHR ''0'' = c then Some 0 else if CHR ''1'' = c then Some 1
      else if CHR ''2'' = c then Some 2 else if CHR ''3'' = c then Some 3
      else if CHR ''4'' = c then Some 4 else if CHR ''5'' = c then Some 5
      else if CHR ''6'' = c then Some 6 else if CHR ''7'' = c then Some 7
      else if CHR ''8'' = c then Some 8 else if CHR ''9'' = c then Some 9
      else None)"

declare digit_val.simps [simp del]

fun nat_digits :: "nat \<Rightarrow> string" where
  "nat_digits n = (if n < 10 then [digit_char n] else nat_digits (n div 10) @ [digit_char (n mod 10)])"

declare nat_digits.simps [simp del]

text \<open>\<open>fmt\<close>'s \<open>%d\<close> verb.\<close>

definition itoa :: "int \<Rightarrow> string" where
  "itoa x = (if x < 0 then CHR ''-'' # nat_digits (nat (- x)) else nat_digits (nat x))"

fun digits_value :: "nat \<Rightarrow> string \<Rightarrow> nat option" where
  "digits_value acc [] = Some acc"
| "digits_value acc (c # cs) =
     (case digit_val c of None \<Rightarrow> None | Some d \<Rightarrow> digits_value (10 * acc + d) cs)"

text \<open>
  \<open>strconv.Atoi\<close>: an optional sign, at least one decimal digit and nothing else;
  a value outside the 64-bit range is an error.
\<close>

definition parse_sign :: "string \<Rightarrow> bool \<times> string" where
  "parse_sign s =
     (case s of
        [] \<Rightarrow> (False, [])
      | c # cs \<Rightarrow> if c = CHR ''-'' then (True, cs) else if c = CHR ''+'' then (False, cs) else (False, s))"

definition atoi :: "string \<Rightarrow> int option" where
  "atoi s =
     (let (neg, ds) = parse_sign s
      in if ds = [] then None
         else (case digits_value 0 ds of
                 None \<Rightarrow> None
               | Some n \<Rightarrow> (let x = (if neg then - int n else int n)
                            in if in_i64 x then Some x else None)))"

lemma digit_val_digit_char: "d < 10 \<Longrightarrow> digit_val (digit_char d) = Some d"
proof -
  assume "d < 10"
  then have "d \<in> {0, 1, 2, 3, 4, 5, 6, 7, 8, 9}" by auto
  then show ?thesis by (auto simp: digit_val.simps digit_char_def)
qed

lemma digits_value_append:
  "digits_value acc (xs @ ys) =
     (case digits_value acc xs of None \<Rightarrow> None | Some a \<Rightarrow> digits_value a ys)"
  by (induction xs arbitrary: acc) (auto split: option.splits)

lemma digits_value_nat_digits: "digits_value 0 (nat_digits n) = Some n"
proof (induction n rule: nat_digits.induct)
  case (1 n)
  then show ?case
    by (subst nat_digits.simps)
      (auto simp: digits_value_append digit_val_digit_char)
qed

lemma nat_digits_hd: "\<exists>d < 10. \<exists>cs. nat_digits n = digit_char d # cs"
proof (induction n rule: nat_digits.induct)
  case (1 n)
  then show ?case
    by (subst nat_digits.simps, cases "n < 10") auto
qed

lemma digit_char_not_sign: "d < 10 \<Longrightarrow> digit_char d \<noteq> CHR ''-'' \<and> digit_char d \<noteq> CHR ''+''"
proof -
  assume "d < 10"
  then have "d \<in> {0, 1, 2, 3, 4, 5, 6, 7, 8, 9}" by auto
  then show ?thesis by (auto simp: digit_char_def)
qed

lemma nat_digits_not_Nil [simp]: "nat_digits n \<noteq> []"
  using nat_digits_hd [of n] by auto

lemma parse_sign_nat_digits: "parse_sign (nat_digits n) = (False, nat_digits n)"
proof -
  obtain d cs where d: "d < 10" "nat_digits n = digit_char d # cs"
    using nat_digits_hd by blast
  then show ?thesis using digit_char_not_sign [of d] by (simp add: parse_sign_def)
qed

lemma parse_sign_itoa: "parse_sign (itoa x) = (x < 0, nat_digits (nat \<bar>x\<bar>))"
  using parse_sign_nat_digits [of "nat x"] by (simp add: itoa_def) (simp add: parse_sign_def)

lemma atoi_itoa: "in_i64 x \<Longrightarrow> atoi (itoa x) = Some x"
  by (simp add: atoi_def parse_sign_itoa digits_value_nat_digits Let_def)

lemma atoi_in_i64: "atoi s = Some x \<Longrightarrow> in_i64 x"
  by (auto simp: atoi_def Let_def split: prod.splits if_splits option.splits)

subsection \<open>ASCII letter case\<close>

text \<open>
  Command words and options are compared without regard to case
  (\<open>strings.EqualFold\<close>, \<open>strings.ToLower\<close>), always against an ASCII literal of
  the program. A Go string is a byte sequence in UTF-8. Besides the ASCII letters, two
  code points fold to an ASCII letter (U+017F, bytes C5 BF, to \<open>s\<close>; U+212A, bytes
  E2 84 AA, to \<open>k\<close>), and two have an ASCII lower-case form (U+0130, bytes C4 B0, to
  \<open>i\<close>; U+212A to \<open>k\<close>). Every other non-ASCII byte is left as it is, which
  never makes a comparison with an ASCII word succeed.
\<close>

definition ascii_lower :: "char \<Rightarrow> char" where
  "ascii_lower c =
     (let n = (of_char c :: nat) in if 65 \<le> n \<and> n \<le> 90 then char_of (n + 32) else c)"

definition ascii_upper :: "char \<Rightarrow> char" where
  "ascii_upper c =
     (let n = (of_char c :: nat) in if 97 \<le> n \<and> n \<le> 122 then char_of (n - 32) else c)"

fun fold_key :: "string \<Rightarrow> string" where
  "fold_key [] = []"
| "fold_key (a # cs) =
     (case cs of
        b # ds \<Rightarrow>
          if a = CHR 0xC5 \<and> b = CHR 0xBF then CHR ''s'' # fold_key ds
          else (case ds of
                  c # es \<Rightarrow>
                    if a = CHR 0xE2 \<and> b = CHR 0x84 \<and> c = CHR 0xAA then CHR ''k'' # fold_key es
                    else ascii_lower a # fold_key cs
                | [] \<Rightarrow> ascii_lower a # fold_key cs)
      | [] \<Rightarrow> [ascii_lower a])"

declare fold_key.simps(2) [simp del]

definition equal_fold :: "string \<Rightarrow> string \<Rightarrow> bool" where
  "equal_fold s t \<longleftrightarrow> fold_key s = fold_key t"

fun to_lower :: "string \<Rightarrow> string" where
  "to_lower [] = []"
| "to_lower (a # cs) =
     (case cs of
        b # ds \<Rightarrow>
          if a = CHR 0xC4 \<and> b = CHR 0xB0 then CHR ''i'' # to_lower ds
          else (case ds of
                  c # es \<Rightarrow>
                    if a = CHR 0xE2 \<and> b = CHR 0x84 \<and> c = CHR 0xAA then CHR ''k'' # to_lower es
                    else ascii_lower a # to_lower cs
                | [] \<Rightarrow> ascii_lower a # to_lower cs)
      | [] \<Rightarrow> [ascii_lower a])"

declare to_lower.simps(2) [simp del]

lemmas case_simps = fold_key.simps(2) to_lower.simps(2) ascii_lower_def equal_fold_def

lemma equal_fold_refl [simp]: "equal_fold s s"
  by (simp add: equal_fold_def)

text \<open>
  \<open>strings.ToUpper\<close>: two code points have an ASCII upper-case form (U+0131, bytes C4 B1, and
  U+017F); other non-ASCII text is left as it is.
\<close>

fun to_upper :: "string \<Rightarrow> string" where
  "to_upper [] = []"
| "to_upper (a # cs) =
     (case cs of
        b # ds \<Rightarrow>
          if a = CHR 0xC4 \<and> b = CHR 0xB1 then CHR ''I'' # to_upper ds
          else if a = CHR 0xC5 \<and> b = CHR 0xBF then CHR ''S'' # to_upper ds
          else ascii_upper a # to_upper cs
      | [] \<Rightarrow> [ascii_upper a])"

declare to_upper.simps(2) [simp del]

definition crlf :: string where
  "crlf = [CHR 0x0D, CHR 0x0A]"

subsection \<open>Go maps\<close>

text \<open>
  A Go map is an association list with distinct keys: \<open>map_of\<close> reads it,
  \<open>AList.update\<close> is \<open>m[k] = v\<close>, \<open>AList.delete\<close> is \<open>delete(m, k)\<close>, \<open>[]\<close> is
  \<open>clear(m)\<close> and \<open>length\<close> is \<open>len(m)\<close>. The position of an entry carries no
  meaning: the order in which a \<open>range\<close> loop visits the entries is chosen
  afresh, by the environment, each time (\<open>permute\<close> below).
\<close>

type_synonym ('k, 'v) gomap = "('k \<times> 'v) list"

definition gm_keys :: "('k, 'v) gomap \<Rightarrow> 'k list" where
  "gm_keys m = map fst m"

definition gm_wf :: "('k, 'v) gomap \<Rightarrow> bool" where
  "gm_wf m \<longleftrightarrow> distinct (map fst m)"

lemma gm_wf_Nil [simp]: "gm_wf []"
  by (simp add: gm_wf_def)

lemma gm_wf_update [simp]: "gm_wf m \<Longrightarrow> gm_wf (AList.update k v m)"
  by (simp add: gm_wf_def distinct_update)

lemma gm_wf_delete [simp]: "gm_wf m \<Longrightarrow> gm_wf (AList.delete k m)"
  by (simp add: gm_wf_def distinct_delete)

lemma map_of_update [simp]: "map_of (AList.update k v m) = (map_of m)(k \<mapsto> v)"
  by (rule update_conv')

lemma map_of_delete [simp]: "map_of (AList.delete k m) = (map_of m)(k := None)"
  by (rule delete_conv')

lemma gm_keys_dom: "set (gm_keys m) = dom (map_of m)"
  by (simp add: gm_keys_def dom_map_of_conv_image_fst)

lemma gm_keys_update: "set (gm_keys (AList.update k v m)) = insert k (set (gm_keys m))"
  by (simp add: gm_keys_dom)

lemma gm_keys_delete: "set (gm_keys (AList.delete k m)) = set (gm_keys m) - {k}"
  by (auto simp: gm_keys_dom)

lemma gm_length_update:
  "gm_wf m \<Longrightarrow> length (AList.update k v m) = (if map_of m k = None then Suc (length m) else length m)"
  by (induction m) (auto simp: gm_wf_def split: if_splits)

subsection \<open>The environment's choices\<close>

text \<open>
  \<open>permute c xs\<close> is the arrangement of \<open>xs\<close> that the number \<open>c\<close> codes (its digits
  in the factorial base say which remaining element comes next). It is a
  permutation for every \<open>c\<close>, and every permutation has a code, so quantifying over
  \<open>c\<close> quantifies over all iteration orders.
\<close>

function permute :: "nat \<Rightarrow> 'a list \<Rightarrow> 'a list" where
  "permute c [] = []"
| "permute c (x # xs) =
     (let n = Suc (length xs); i = c mod n; ys = x # xs
      in ys ! i # permute (c div n) (take i ys @ drop (Suc i) ys))"
  by pat_completeness auto
termination
proof (relation "measure (length \<circ> snd)")
  fix c :: nat and x :: 'a and xs n i ys
  assume n: "n = Suc (length xs)" and i: "i = c mod n" and ys: "ys = x # xs"
  have "i < length ys" by (simp add: i n ys)
  then show "((c div n, take i ys @ drop (Suc i) ys), c, x # xs) \<in> measure (length \<circ> snd)"
    by (simp add: ys)
qed simp

declare permute.simps(2) [simp del]

lemma mset_pick:
  assumes "i < length ys"
  shows "add_mset (ys ! i) (mset (take i ys @ drop (Suc i) ys)) = mset ys"
proof -
  have "ys = take i ys @ ys ! i # drop (Suc i) ys"
    using assms by (rule id_take_nth_drop)
  then have "mset ys = mset (take i ys @ ys ! i # drop (Suc i) ys)" by simp
  then show ?thesis by simp
qed

lemma mset_permute [simp]: "mset (permute c xs) = mset xs"
proof (induction c xs rule: permute.induct)
  case (2 c x xs)
  let ?i = "c mod Suc (length xs)"
  have "mset (permute c (x # xs)) =
          add_mset ((x # xs) ! ?i) (mset (take ?i (x # xs) @ drop (Suc ?i) (x # xs)))"
    using 2 by (simp add: permute.simps(2) Let_def)
  also have "\<dots> = mset (x # xs)" by (rule mset_pick) simp
  finally show ?case .
qed simp

lemma set_permute [simp]: "set (permute c xs) = set xs"
  by (metis mset_permute set_mset_mset)

lemma length_permute [simp]: "length (permute c xs) = length xs"
  by (metis mset_permute size_mset)

lemma distinct_permute [simp]: "distinct (permute c xs) = distinct xs"
  using mset_permute [of c xs] mset_eq_imp_distinct_iff by blast

lemma permute_complete: "mset ys = mset xs \<Longrightarrow> \<exists>c. permute c xs = ys"
proof (induction ys arbitrary: xs)
  case Nil
  then show ?case by simp
next
  case (Cons y ys)
  then have "y \<in> set xs" by (metis list.set_intros(1) set_mset_mset)
  then obtain i where i: "i < length xs" "xs ! i = y" by (auto simp: in_set_conv_nth)
  obtain x xs' where xs: "xs = x # xs'" using i by (cases xs) auto
  let ?rest = "take i xs @ drop (Suc i) xs"
  have "add_mset y (mset ?rest) = mset xs" using mset_pick [of i xs] i by simp
  then have "add_mset y (mset ys) = add_mset y (mset ?rest)" using Cons.prems by simp
  then have "mset ys = mset ?rest" by (simp only: add_mset_add_mset_same_iff)
  then obtain c' where c': "permute c' ?rest = ys" using Cons.IH by blast
  let ?c = "c' * length xs + i"
  have "?c mod Suc (length xs') = i" "?c div Suc (length xs') = c'"
    using i by (simp_all add: xs del: mult_Suc_right)
  then have "permute ?c xs = y # ys"
    using i c' by (simp only: xs permute.simps(2) Let_def)
  then show ?case by blast
qed

text \<open>
  The environment's choices are an infinite stream of numbers; each \<open>range\<close> loop
  over a map and each \<open>rand.Intn\<close> consumes one.
\<close>

type_synonym coins = "nat \<Rightarrow> nat"

definition next_coins :: "coins \<Rightarrow> coins" where
  "next_coins cs = (\<lambda>i. cs (Suc i))"

definition intn :: "nat \<Rightarrow> nat \<Rightarrow> nat" where
  "intn c n = c mod n"

lemma intn_less [simp]: "0 < n \<Longrightarrow> intn c n < n"
  by (simp add: intn_def)

subsection \<open>Slices\<close>

text \<open>
  \<open>slice_at\<close> is Go's \<open>xs[i]\<close> on a slice and \<open>slice_range\<close> is \<open>xs[i:j]\<close> where the
  capacity is the length; both panic outside the bounds.
\<close>

definition slice_at :: "'a list \<Rightarrow> int \<Rightarrow> 'a res" where
  "slice_at xs i = (if 0 \<le> i \<and> i < int (length xs) then Ok (xs ! nat i) else Panic index_out_of_range)"

definition slice_range :: "'a list \<Rightarrow> int \<Rightarrow> int \<Rightarrow> 'a list res" where
  "slice_range xs i j =
     (if 0 \<le> i \<and> i \<le> j \<and> j \<le> int (length xs) then Ok (take (nat (j - i)) (drop (nat i) xs))
      else Panic slice_out_of_range)"

text \<open>\<open>slices.IndexFunc\<close> for a predicate without effects; -1 when nothing matches.\<close>

fun index_func :: "('a \<Rightarrow> bool) \<Rightarrow> 'a list \<Rightarrow> int" where
  "index_func P [] = -1"
| "index_func P (x # xs) = (if P x then 0 else let i = index_func P xs in if i < 0 then i else i + 1)"

lemma index_func_ge: "-1 \<le> index_func P xs"
  by (induction xs) (auto simp: Let_def)

lemma index_func_neg_iff: "index_func P xs < 0 \<longleftrightarrow> (\<forall>x\<in>set xs. \<not> P x)"
  by (induction xs) (auto simp: Let_def)

lemma index_func_nth:
  "0 \<le> index_func P xs \<Longrightarrow>
     nat (index_func P xs) < length xs \<and> P (xs ! nat (index_func P xs))"
proof (induction xs)
  case (Cons x xs)
  then show ?case by (auto simp: Let_def nat_add_distrib split: if_splits)
qed simp

end
