(* ===== verification/GoFloat.thy ===== *)
theory GoFloat
  imports Complex_Main Prelude
begin

text \<open>
  The numbers a command argument can denote: \<open>big.ParseFloat(s, 10, 256, _)\<close> as
  \<open>internal/utils.go\<close> calls it, rounding to a given precision, and the conversion to
  \<open>float64\<close>. A finite float is the rational number it denotes, except for the
  negative zero; rounding is to nearest, ties to even, and is executable.
\<close>

datatype float64 = FNaN | FInf bool | FNegZero | FFin rat

datatype bignum = BInf bool | BFin rat

definition pow2 :: "int \<Rightarrow> rat" where
  "pow2 e = (if 0 \<le> e then 2 ^ nat e else 1 / 2 ^ nat (- e))"

definition pow10 :: "int \<Rightarrow> rat" where
  "pow10 e = (if 0 \<le> e then 10 ^ nat e else 1 / 10 ^ nat (- e))"

text \<open>The exponent \<open>e\<close> with \<open>2\<^sup>e \<le> q < 2\<^sup>e\<^sup>+\<^sup>1\<close>, for a positive \<open>q\<close>.\<close>

definition ilog2 :: "rat \<Rightarrow> int" where
  "ilog2 q =
     (let (n, d) = quotient_of q; k = bitlen n - bitlen d
      in if pow2 k \<le> q then k else k - 1)"

definition round_half_even :: "rat \<Rightarrow> int" where
  "round_half_even q =
     (let f = \<lfloor>q\<rfloor>; r = q - of_int f
      in if r < 1 / 2 then f
         else if r > 1 / 2 then f + 1
         else if even f then f else f + 1)"

text \<open>Round a magnitude to \<open>p\<close> significant bits, the last one not below \<open>2\<^sup>m\<^sup>i\<^sup>n\<close>.\<close>

definition round_mag :: "nat \<Rightarrow> int option \<Rightarrow> rat \<Rightarrow> rat" where
  "round_mag p lo q =
     (if q \<le> 0 then 0
      else let u = ilog2 q - (int p - 1);
               v = (case lo of None \<Rightarrow> u | Some l \<Rightarrow> max l u)
           in of_int (round_half_even (q / pow2 v)) * pow2 v)"

definition round_prec :: "nat \<Rightarrow> rat \<Rightarrow> rat" where
  "round_prec p q = (if q < 0 then - round_mag p None (- q) else round_mag p None q)"

text \<open>
  The nearest \<open>float64\<close>: 53 bits, least exponent -1074, and a magnitude that rounds
  to \<open>2\<^sup>1\<^sup>0\<^sup>2\<^sup>4\<close> or more is an infinity.
\<close>

definition to_float64 :: "rat \<Rightarrow> float64" where
  "to_float64 q =
     (let m = round_mag 53 (Some (- 1074)) \<bar>q\<bar>
      in if pow2 1024 \<le> m then FInf (q < 0)
         else if q < 0 then (if m = 0 then FNegZero else FFin (- m)) else FFin m)"

subsection \<open>Scanning a decimal number\<close>

text \<open>
  The mantissa: digits with at most one point. The result is the value of the digits,
  their number, the number of fraction digits and the unread input.
\<close>

fun scan_mant :: "string \<Rightarrow> nat \<Rightarrow> nat \<Rightarrow> nat \<Rightarrow> bool \<Rightarrow> nat \<times> nat \<times> nat \<times> string" where
  "scan_mant [] v n f dot = (v, n, f, [])"
| "scan_mant (c # cs) v n f dot =
     (if c = CHR ''.'' \<and> \<not> dot then scan_mant cs v n f True
      else (case digit_val c of
              None \<Rightarrow> (v, n, f, c # cs)
            | Some d \<Rightarrow> scan_mant cs (10 * v + d) (Suc n) (if dot then Suc f else f) dot))"

fun scan_digits :: "string \<Rightarrow> nat \<Rightarrow> nat \<Rightarrow> nat \<times> nat \<times> string" where
  "scan_digits [] v n = (v, n, [])"
| "scan_digits (c # cs) v n =
     (case digit_val c of None \<Rightarrow> (v, n, c # cs) | Some d \<Rightarrow> scan_digits cs (10 * v + d) (Suc n))"

text \<open>
  The exponent: \<open>e\<close> or \<open>E\<close> with base ten, \<open>p\<close> or \<open>P\<close> with base two, then an optional
  sign and at least one digit. The result is the exponent, whether its base is ten,
  and the unread input.
\<close>

definition scan_exp :: "string \<Rightarrow> (int \<times> bool \<times> string) option" where
  "scan_exp s =
     (case s of
        [] \<Rightarrow> Some (0, True, [])
      | c # cs \<Rightarrow>
          if c \<in> set ''eEpP'' then
            (let (neg, ds) = parse_sign cs; (v, n, rest) = scan_digits ds 0 0;
                 x = (if neg then - int v else int v)
             in if n = 0 \<or> \<not> in_i64 x then None else Some (x, c \<in> set ''eE'', rest))
          else Some (0, True, s))"

definition scan_number :: "string \<Rightarrow> rat option" where
  "scan_number s =
     (let (neg, s1) = parse_sign s; (v, n, f, s2) = scan_mant s1 0 0 0 False
      in if n = 0 then None
         else (case scan_exp s2 of
                 None \<Rightarrow> None
               | Some (x, ten, s3) \<Rightarrow>
                   if s3 \<noteq> [] then None
                   else if v = 0 then Some 0
                   else (let e2 = bitlen (int v) - int f + x
                         in if e2 < - (2 ^ 31) \<or> 2 ^ 31 - 1 < e2 then None
                            else let q = (if ten then of_nat v * pow10 (x - int f)
                                          else of_nat v * pow10 (- int f) * pow2 x)
                                 in Some (if neg then - q else q))))"

definition big_parse :: "string \<Rightarrow> bignum option" where
  "big_parse s =
     (if s \<in> {''Inf'', ''inf'', ''+Inf'', ''+inf''} then Some (BInf False)
      else if s \<in> {''-Inf'', ''-inf''} then Some (BInf True)
      else map_option (\<lambda>q. BFin (round_prec 256 q)) (scan_number s))"

text \<open>\<open>(*big.Float).Int64\<close>: truncate towards zero, saturate at the ends of the range.\<close>

definition sat_i64 :: "int \<Rightarrow> int" where
  "sat_i64 x = (if x < - (2 ^ 63) then - (2 ^ 63) else if 2 ^ 63 \<le> x then 2 ^ 63 - 1 else x)"

lemma sat_i64_id [simp]: "in_i64 x \<Longrightarrow> sat_i64 x = x"
  by (simp add: sat_i64_def in_i64_def)

lemma in_i64_sat [simp]: "in_i64 (sat_i64 x)"
  by (simp add: sat_i64_def in_i64_def)

subsection \<open>Integers survive rounding\<close>

lemma pow2_pos [simp]: "0 < pow2 e"
  by (simp add: pow2_def)

lemma round_half_even_of_int [simp]: "round_half_even (of_int z) = z"
  by (simp add: round_half_even_def)

lemma pow2_nonpos: "e \<le> 0 \<Longrightarrow> x / pow2 e = x * 2 ^ nat (- e)"
  by (cases "e = 0") (auto simp: pow2_def)

lemma ilog2_le:
  assumes "0 < z" and "z < 2 ^ p"
  shows "ilog2 (of_int z) < int p"
proof -
  have q: "quotient_of (of_int z) = (z, 1)" by simp
  have b1: "bitlen (1::int) = 1" by (simp add: bitlen_def floorlog_def)
  have bz: "bitlen z \<le> int p"
    using assms by (simp add: bitlen_le_iff_power)
  show ?thesis
  proof (cases "pow2 (bitlen z - 1) \<le> (of_int z :: rat)")
    case True
    then show ?thesis using bz by (simp add: ilog2_def q b1)
  next
    case False
    then show ?thesis using bz by (simp add: ilog2_def q b1)
  qed
qed

lemma round_mag_of_int:
  assumes "0 \<le> z" and "z < 2 ^ p"
  shows "round_mag p None (of_int z) = of_int z"
proof (cases "z = 0")
  case False
  let ?u = "ilog2 (of_int z) - (int p - 1)"
  have u: "?u \<le> 0" using ilog2_le [of z p] assms False by simp
  have "(of_int z :: rat) / pow2 ?u = of_int (z * 2 ^ nat (- ?u))"
    using u by (simp add: pow2_nonpos)
  then have "of_int (round_half_even (of_int z / pow2 ?u)) * pow2 ?u = (of_int z / pow2 ?u) * pow2 ?u"
    by (metis round_half_even_of_int)
  also have "\<dots> = of_int z" using pow2_pos [of ?u] by (simp add: less_imp_neq [symmetric])
  finally show ?thesis using assms False by (simp add: round_mag_def Let_def)
qed (simp add: round_mag_def)

lemma round_prec_of_int: "\<bar>z\<bar> < 2 ^ p \<Longrightarrow> round_prec p (of_int z) = of_int z"
  using round_mag_of_int [of z p] round_mag_of_int [of "- z" p]
  by (auto simp: round_prec_def)

lemma scan_mant_digits:
  "digits_value v s = Some w \<Longrightarrow> scan_mant s v n f False = (w, n + length s, f, [])"
proof (induction s arbitrary: v n)
  case (Cons c s)
  have "digit_val CHR ''.'' = None" by (simp add: digit_val.simps)
  with Cons show ?case by (auto split: option.splits)
qed simp

lemma scan_number_itoa: "in_i64 x \<Longrightarrow> scan_number (itoa x) = Some (of_int x)"
proof -
  assume x: "in_i64 x"
  let ?n = "nat \<bar>x\<bar>"
  have m: "scan_mant (nat_digits ?n) 0 0 0 False = (?n, length (nat_digits ?n), 0, [])"
    using scan_mant_digits [OF digits_value_nat_digits, of ?n 0 0] by simp
  have b: "x \<noteq> 0 \<Longrightarrow> 0 < bitlen \<bar>x\<bar> \<and> bitlen \<bar>x\<bar> \<le> 64"
  proof -
    assume "x \<noteq> 0"
    then have "bitlen \<bar>x\<bar> \<noteq> 0" by (simp add: bitlen_eq_zero_iff)
    then have "0 < bitlen \<bar>x\<bar>" using bitlen_nonneg [of "\<bar>x\<bar>"] by linarith
    moreover have "\<bar>x\<bar> < 2 ^ 64" using x by (auto simp: in_i64_def)
    then have "bitlen \<bar>x\<bar> \<le> 64" by (simp add: bitlen_le_iff_power)
    ultimately show ?thesis by simp
  qed
  show ?thesis
  proof (cases "x = 0")
    case True
    then show ?thesis using m by (simp add: scan_number_def parse_sign_itoa scan_exp_def)
  next
    case False
    with b have "\<not> bitlen \<bar>x\<bar> < - 2147483648" "\<not> 2147483647 < bitlen \<bar>x\<bar>" by auto
    then show ?thesis
      using m False by (simp add: scan_number_def parse_sign_itoa scan_exp_def Let_def pow10_def)
  qed
qed

lemma itoa_not_inf:
  "itoa x \<notin> {''Inf'', ''inf'', ''+Inf'', ''+inf''}" "itoa x \<notin> {''-Inf'', ''-inf''}"
proof -
  obtain d cs where d: "d < 10" "nat_digits (nat \<bar>x\<bar>) = digit_char d # cs"
    using nat_digits_hd by blast
  then have "d \<in> {0, 1, 2, 3, 4, 5, 6, 7, 8, 9}" by auto
  then have "digit_char d \<notin> {CHR ''I'', CHR ''i'', CHR ''+'', CHR ''-''}"
    by (auto simp: digit_char_def)
  then show "itoa x \<notin> {''Inf'', ''inf'', ''+Inf'', ''+inf''}" "itoa x \<notin> {''-Inf'', ''-inf''}"
    using d by (auto simp: itoa_def split: if_splits)
qed

lemma big_parse_itoa: "in_i64 x \<Longrightarrow> big_parse (itoa x) = Some (BFin (of_int x))"
proof -
  assume x: "in_i64 x"
  have "\<bar>x\<bar> < 2 ^ 256" using x by (auto simp: in_i64_def)
  then have "round_prec 256 (of_int x) = of_int x" by (rule round_prec_of_int)
  then show ?thesis
    using itoa_not_inf [of x] scan_number_itoa [OF x] by (simp only: big_parse_def) simp
qed

end
