(* ===== verification/GoFloatOps.thy ===== *)
theory GoFloatOps
  imports GoFloat
begin

text \<open>
  The operations on \<open>float64\<close> that the handlers use: comparison, addition, multiplication,
  conversion from an integer, and the functions of \<open>strconv\<close> and \<open>fmt\<close> that parse and
  print a float. All of them are computed exactly on rationals and rounded once.
\<close>

subsection \<open>Arithmetic and comparison\<close>

definition float_of_int :: "int \<Rightarrow> float64" where
  "float_of_int i = to_float64 (of_int i)"

fun f_neg :: "float64 \<Rightarrow> bool" where
  "f_neg FNaN = False"
| "f_neg (FInf n) = n"
| "f_neg FNegZero = True"
| "f_neg (FFin q) = (q < 0)"

text \<open>The value of a finite float.\<close>

fun f_val :: "float64 \<Rightarrow> rat option" where
  "f_val FNegZero = Some 0"
| "f_val (FFin q) = Some q"
| "f_val _ = None"

definition f_add :: "float64 \<Rightarrow> float64 \<Rightarrow> float64" where
  "f_add x y =
     (case (f_val x, f_val y) of
        (Some a, Some b) \<Rightarrow> if x = FNegZero \<and> y = FNegZero then FNegZero else to_float64 (a + b)
      | (Some _, None) \<Rightarrow> y
      | (None, Some _) \<Rightarrow> x
      | (None, None) \<Rightarrow> if x = y then x else FNaN)"

definition f_mul :: "float64 \<Rightarrow> float64 \<Rightarrow> float64" where
  "f_mul x y =
     (let neg = (f_neg x \<noteq> f_neg y)
      in if x = FNaN \<or> y = FNaN then FNaN
         else case (f_val x, f_val y) of
           (Some a, Some b) \<Rightarrow>
             if a * b = 0 then (if neg then FNegZero else FFin 0) else to_float64 (a * b)
         | (Some a, None) \<Rightarrow> if a = 0 then FNaN else FInf neg
         | (None, Some b) \<Rightarrow> if b = 0 then FNaN else FInf neg
         | (None, None) \<Rightarrow> FInf neg)"

text \<open>\<open>x < y\<close> and \<open>x == y\<close>; both are false when an operand is not a number.\<close>

definition f_less :: "float64 \<Rightarrow> float64 \<Rightarrow> bool" where
  "f_less x y =
     (case (f_val x, f_val y) of
        (Some a, Some b) \<Rightarrow> a < b
      | (Some _, None) \<Rightarrow> y = FInf False
      | (None, Some _) \<Rightarrow> x = FInf True
      | (None, None) \<Rightarrow> x = FInf True \<and> y = FInf False)"

definition f_eq :: "float64 \<Rightarrow> float64 \<Rightarrow> bool" where
  "f_eq x y \<longleftrightarrow> x \<noteq> FNaN \<and> y \<noteq> FNaN \<and> (x = y \<or> f_val x \<noteq> None \<and> f_val x = f_val y)"

definition f_le :: "float64 \<Rightarrow> float64 \<Rightarrow> bool" where
  "f_le x y \<longleftrightarrow> f_less x y \<or> f_eq x y"

text \<open>\<open>cmp.Compare\<close>: a NaN is less than any other value and equal to itself.\<close>

definition f_compare :: "float64 \<Rightarrow> float64 \<Rightarrow> int" where
  "f_compare x y =
     (if x = FNaN then (if y = FNaN then 0 else - 1)
      else if y = FNaN then 1
      else if f_less x y then - 1
      else if f_less y x then 1
      else 0)"

lemma f_less_irrefl [simp]: "\<not> f_less x x"
  by (cases x) (auto simp: f_less_def)

lemma f_less_trans: "f_less x y \<Longrightarrow> f_less y z \<Longrightarrow> f_less x z"
  by (cases x; cases y; cases z) (auto simp: f_less_def split: if_splits)

lemma f_less_asym: "f_less x y \<Longrightarrow> \<not> f_less y x"
  using f_less_trans [of x y x] by auto

lemma f_le_linear: "x \<noteq> FNaN \<Longrightarrow> y \<noteq> FNaN \<Longrightarrow> f_le x y \<longleftrightarrow> \<not> f_less y x"
  by (cases x; cases y) (auto simp: f_le_def f_eq_def f_less_def)

lemma f_compare_le: "f_compare x y \<le> 0 \<longleftrightarrow> x = FNaN \<or> y \<noteq> FNaN \<and> \<not> f_less y x"
  using f_less_asym [of x y] by (auto simp: f_compare_def)

text \<open>\<open>cmp.Compare\<close> orders all floats: it is total and transitive.\<close>

lemma f_compare_total: "f_compare x y \<le> 0 \<or> f_compare y x \<le> 0"
  using f_less_asym [of x y] by (auto simp: f_compare_le)

lemma f_compare_trans: "f_compare x y \<le> 0 \<Longrightarrow> f_compare y z \<le> 0 \<Longrightarrow> f_compare x z \<le> 0"
  by (cases x; cases y; cases z) (auto simp: f_compare_le f_less_def split: if_splits)

subsection \<open>Parsing\<close>

text \<open>
  \<open>strconv.ParseFloat(s, 64)\<close>: decimal or hexadecimal, with underscores between digits, or
  one of the words for infinity and NaN. A value too large is an error. The exponent stops
  growing above 10000, as in the library.
\<close>

definition lower_is :: "char \<Rightarrow> char \<Rightarrow> bool" where
  "lower_is l c \<longleftrightarrow> ascii_lower c = l"

definition hex_val :: "char \<Rightarrow> nat option" where
  "hex_val c =
     (case digit_val c of
        Some d \<Rightarrow> Some d
      | None \<Rightarrow>
          if lower_is CHR ''a'' c then Some 10 else if lower_is CHR ''b'' c then Some 11
          else if lower_is CHR ''c'' c then Some 12 else if lower_is CHR ''d'' c then Some 13
          else if lower_is CHR ''e'' c then Some 14 else if lower_is CHR ''f'' c then Some 15
          else None)"

fun scan_float_mant :: "bool \<Rightarrow> string \<Rightarrow> nat \<Rightarrow> nat \<Rightarrow> nat \<Rightarrow> bool \<Rightarrow> nat \<times> nat \<times> nat \<times> string" where
  "scan_float_mant hex [] v n f dot = (v, n, f, [])"
| "scan_float_mant hex (c # cs) v n f dot =
     (if c = CHR ''_'' then scan_float_mant hex cs v n f dot
      else if c = CHR ''.'' \<and> \<not> dot then scan_float_mant hex cs v n f True
      else (case (if hex then hex_val c else digit_val c) of
              None \<Rightarrow> (v, n, f, c # cs)
            | Some d \<Rightarrow>
                scan_float_mant hex cs ((if hex then 16 else 10) * v + d) (Suc n)
                  (if dot then Suc f else f) dot))"

fun scan_float_exp :: "string \<Rightarrow> nat \<Rightarrow> nat \<times> string" where
  "scan_float_exp [] e = (e, [])"
| "scan_float_exp (c # cs) e =
     (if c = CHR ''_'' then scan_float_exp cs e
      else (case digit_val c of
              None \<Rightarrow> (e, c # cs)
            | Some d \<Rightarrow> scan_float_exp cs (if e < 10000 then 10 * e + d else e)))"

text \<open>
  \<open>underscoreOK\<close>: an underscore has a digit on both sides; a base prefix counts as a digit.
  The state is the previous character: a digit, an underscore or another one.
\<close>

datatype prev_char = PrevDigit | PrevUnderscore | PrevOther

fun underscores_ok :: "bool \<Rightarrow> prev_char \<Rightarrow> string \<Rightarrow> bool" where
  "underscores_ok hex p [] = (p \<noteq> PrevUnderscore)"
| "underscores_ok hex p (c # cs) =
     (if (if hex then hex_val c else digit_val c) \<noteq> None then underscores_ok hex PrevDigit cs
      else if c = CHR ''_'' then p = PrevDigit \<and> underscores_ok hex PrevUnderscore cs
      else p \<noteq> PrevUnderscore \<and> underscores_ok hex PrevOther cs)"

definition hex_prefix :: "string \<Rightarrow> bool" where
  "hex_prefix s =
     (case s of c # d # e # cs \<Rightarrow> c = CHR ''0'' \<and> lower_is CHR ''x'' d | _ \<Rightarrow> False)"

text \<open>The magnitude of an unsigned numeral.\<close>

definition scan_float :: "string \<Rightarrow> rat option" where
  "scan_float s =
     (let hex = hex_prefix s; (v, n, f, s1) = scan_float_mant hex (if hex then drop 2 s else s) 0 0 0 False;
          scale = (\<lambda>e. if hex then of_nat v * pow2 (e - 4 * int f) else of_nat v * pow10 (e - int f))
      in if n = 0 \<or> CHR ''_'' \<in> set s \<and>
            \<not> (if hex then underscores_ok True PrevDigit (drop 2 s) else underscores_ok False PrevOther s)
         then None
         else (case s1 of
                 [] \<Rightarrow> if hex then None else Some (scale 0)
               | c # s2 \<Rightarrow>
                   if \<not> lower_is (if hex then CHR ''p'' else CHR ''e'') c then None
                   else (let (neg, s3) = parse_sign s2
                         in if s3 = [] \<or> digit_val (hd s3) = None then None
                            else (let (e, rest) = scan_float_exp s3 0
                                  in if rest \<noteq> [] then None
                                     else Some (scale (if neg then - int e else int e))))))"

definition parse_float :: "string \<Rightarrow> float64 option" where
  "parse_float s =
     (let (neg, s1) = parse_sign s; l = map ascii_lower s
      in if map ascii_lower s1 \<in> {''inf'', ''infinity''} then Some (FInf neg)
         else if l = ''nan'' then Some FNaN
         else (case scan_float s1 of
                 None \<Rightarrow> None
               | Some q \<Rightarrow>
                   (case to_float64 (if neg then - q else q) of
                      FInf _ \<Rightarrow> None
                    | x \<Rightarrow> Some (if neg \<and> q = 0 then FNegZero else x))))"

subsection \<open>Printing\<close>

text \<open>The exponent \<open>e\<close> with \<open>10\<^sup>e \<le> q < 10\<^sup>e\<^sup>+\<^sup>1\<close>, for a positive \<open>q\<close>.\<close>

definition ilog10 :: "rat \<Rightarrow> int" where
  "ilog10 q =
     (let (n, d) = quotient_of q;
          k = int (length (nat_digits (nat n))) - int (length (nat_digits (nat d)))
      in if pow10 k \<le> q then k else k - 1)"

text \<open>
  The shortest decimal that denotes the float, and the nearest of these to it: decimals of one
  digit are tried first, then of two, and so on up to the exact value.
\<close>

definition decimals_at :: "rat \<Rightarrow> nat \<Rightarrow> (nat \<times> int) list" where
  "decimals_at q n =
     (let k = ilog10 q - (int n - 1); d = \<lfloor>q / pow10 k\<rfloor>;
          near = round_half_even (q / pow10 k);
          cands = (if near = d then [d, d + 1] else [d + 1, d])
      in map (\<lambda>d. (nat d, k)) (filter (\<lambda>d. to_float64 (of_int d * pow10 k) = FFin q) cands))"

fun first_decimal :: "rat \<Rightarrow> nat list \<Rightarrow> (nat \<times> int) option" where
  "first_decimal q [] = None"
| "first_decimal q (n # ns) =
     (case decimals_at q n of [] \<Rightarrow> first_decimal q ns | d # ds \<Rightarrow> Some d)"

definition shortest_decimal :: "rat \<Rightarrow> nat \<times> int" where
  "shortest_decimal q =
     (case first_decimal q [1..<nat (ilog10 q + bitlen (snd (quotient_of q)) + 2)] of
        Some r \<Rightarrow> r
      | None \<Rightarrow> (0, 0))"

text \<open>A decimal \<open>d \<sqdot> 10\<^sup>-\<^sup>p\<close> without an exponent, its trailing zeros dropped.\<close>

fun trim_zeros :: "nat \<Rightarrow> nat \<Rightarrow> nat \<times> nat" where
  "trim_zeros d 0 = (d, 0)"
| "trim_zeros d (Suc p) = (if d mod 10 = 0 then trim_zeros (d div 10) p else (d, Suc p))"

definition pad_digits :: "nat \<Rightarrow> nat \<Rightarrow> string" where
  "pad_digits p d = replicate (p - length (nat_digits d)) CHR ''0'' @ nat_digits d"

definition decimal_places :: "nat \<Rightarrow> nat \<Rightarrow> string" where
  "decimal_places d p =
     nat_digits (d div 10 ^ p) @ (if p = 0 then [] else CHR ''.'' # pad_digits p (d mod 10 ^ p))"

definition print_decimal :: "nat \<times> int \<Rightarrow> string" where
  "print_decimal dk =
     (let (d, k) = dk
      in if 0 \<le> k then nat_digits (d * 10 ^ nat k)
         else let (d', p) = trim_zeros d (nat (- k)) in decimal_places d' p)"

text \<open>\<open>strconv.FormatFloat(x, 'f', -1, 64)\<close>.\<close>

fun format_float :: "float64 \<Rightarrow> string" where
  "format_float FNaN = ''NaN''"
| "format_float (FInf neg) = (if neg then ''-Inf'' else ''+Inf'')"
| "format_float FNegZero = ''-0''"
| "format_float (FFin q) =
     (if q = 0 then ''0''
      else (if q < 0 then ''-'' else []) @ print_decimal (shortest_decimal \<bar>q\<bar>))"

declare format_float.simps(4) [simp del]

text \<open>\<open>fmt\<close>'s \<open>%f\<close> verb: six places.\<close>

fun format_fixed :: "float64 \<Rightarrow> string" where
  "format_fixed FNaN = ''NaN''"
| "format_fixed (FInf neg) = (if neg then ''-Inf'' else ''+Inf'')"
| "format_fixed FNegZero = ''-0.000000''"
| "format_fixed (FFin q) =
     (if q < 0 then ''-'' else []) @
     decimal_places (nat (round_half_even (\<bar>q\<bar> * 10 ^ 6))) 6"

declare format_fixed.simps(4) [simp del]

end
