(* ===== verification/ModuleTypes.thy ===== *)
theory ModuleTypes
  imports GoFloat
begin

text \<open>
  The data of the access control and publish/subscribe modules (\<open>internal/modules/acl\<close>,
  \<open>internal/modules/pubsub\<close>), of a connection and of the third-party libraries the modules rest
  on. A pointer to a connection is a number, or None where it is nil. A pointer to a user is its index among all
  users ever created, since a connection keeps pointing to a user that was deleted.
\<close>

subsection \<open>Libraries\<close>

text \<open>
  Parameters of the model: compiling a glob pattern (\<open>github.com/gobwas/glob\<close>; the compiled
  pattern is its matching function, and a malformed pattern has none), the SHA-256 digest in
  hexadecimal, and opening and decoding or encoding and writing the file of the access control
  list (\<open>encoding/json\<close>, \<open>gopkg.in/yaml.v3\<close>). \<open>read_value\<close> reads a value from the bytes of a
  message or reply, and \<open>read_messages\<close> the messages of a file, with the error that ends them if one
  does (\<open>github.com/tidwall/resp\<close>). Of a value the model keeps what the library's methods answer:
  whether it is null, the name of its type, its reading as a string, an integer, a float and a
  boolean, and its elements.
\<close>

record password =
  PasswordType :: string
  PasswordValue :: string

record user =
  Username :: string
  Enabled :: bool
  NoPassword :: bool
  NoKeys :: bool
  Passwords :: "password list"
  IncludedCategories :: "string list"
  ExcludedCategories :: "string list"
  IncludedCommands :: "string list"
  ExcludedCommands :: "string list"
  IncludedReadKeys :: "string list"
  IncludedWriteKeys :: "string list"
  IncludedPubSubChannels :: "string list"
  ExcludedPubSubChannels :: "string list"

datatype rvalue =
  RValue (v_null: bool) (v_type: string) (v_string: string) (v_integer: int) (v_float: float64) (v_bool: bool)
    (v_array: "rvalue list")

record libs =
  glob_compile :: "string \<Rightarrow> (string \<Rightarrow> bool) option"
  sha256_hex :: "string \<Rightarrow> string"
  load_users :: "string \<Rightarrow> user list \<times> string option"
  save_users :: "string \<Rightarrow> user list \<Rightarrow> unit res"
  read_value :: "string \<Rightarrow> rvalue res"
  read_messages :: "string \<Rightarrow> string list \<times> string option"

subsection \<open>Access control\<close>

record acl_connection =
  Authenticated :: bool
  ConnUser :: nat

record acl_config =
  RequirePass :: bool
  ServerPassword :: string
  AclConfig :: string

text \<open>\<open>user_heap\<close> holds all users, \<open>Users\<close> those of the list, \<open>Closing\<close> the connections that were told to end.\<close>

record acl =
  user_heap :: "user list"
  Users :: "nat list"
  Connections :: "(nat option, acl_connection) gomap"
  AclSettings :: acl_config
  GlobPatterns :: "(string, string \<Rightarrow> bool) gomap"
  Closing :: "nat list"

subsection \<open>Publish and subscribe\<close>

datatype resp_value = RespString string | RespInt int

text \<open>
  A channel has a compiled pattern when it is a pattern channel. \<open>messageChan\<close> holds the messages
  that were sent and not yet taken by the goroutine of the channel.
\<close>

record channel =
  channel_name :: string
  channel_pattern :: "(string \<Rightarrow> bool) option"
  subscribers :: "nat list"
  messageChan :: "string list"

text \<open>
  \<open>writers\<close> are the goroutines that were started to write a message to a connection and have not
  run yet, \<open>written_to\<close> is what was written to connections, in order.
\<close>

record pubsub =
  channels :: "channel list"
  writers :: "(nat \<times> resp_value list) list"
  written_to :: "(nat \<times> resp_value list) list"

subsection \<open>The append-only log\<close>

text \<open>The file of the log, None where the store has none, and the database its last command was for.\<close>

record append_store =
  currentDatabase :: int
  log_file :: "string option"

subsection \<open>Connections and the server\<close>

record conn_info =
  ConnId :: int
  ConnName :: string
  ConnProtocol :: int
  ConnDatabase :: int

record server_info =
  Server :: string
  Version :: string
  InfoId :: string
  Mode :: string
  Role :: string
  Modules :: "string list"
  MemoryUsed :: int
  InfoMaxMemory :: int

text \<open>What a handler sees of the command table: names, module and categories.\<close>

record command_info =
  InfoName :: string
  InfoModule :: string
  InfoCategories :: "string list"
  InfoSubs :: "(string \<times> string \<times> string list) list"

end
