(* ===== verification/GoValues.thy ===== *)
theory GoValues
  imports GoFloatOps ModuleTypes
begin

text \<open>
  The data every component shares (\<open>internal/types.go\<close>): the values a key can hold, key
  data and its memory accounting, the record of functions a command handler receives,
  and the construction of RESP replies. Values that the code holds through a pointer
  and mutates in place (sets) live in a heap; a value then is an address.
\<close>

subsection \<open>Values\<close>

type_synonym addr = nat

text \<open>\<open>set.Set\<close>: the keys of the member map and the separately maintained length.\<close>

record goset =
  members :: "string list"
  set_length :: int

text \<open>
  What an \<open>interface{}\<close> of the program holds. \<open>VSlice\<close> is a slice of \<open>interface{}\<close> whose elements are
  strings: no handler makes one, but decoding the JSON text of a list does.
\<close>

datatype go_value =
    VNil
  | VInt int
  | VInt64 int
  | VFloat float64
  | VStr string
  | VHash "(string \<times> go_value) list"
  | VList "string list"
  | VSet addr
  | VZSet "(string \<times> float64) list"
  | VSlice "string list"

definition AdaptType :: "string \<Rightarrow> go_value" where
  "AdaptType s =
     (case big_parse s of
        None \<Rightarrow> VStr s
      | Some (BInf neg) \<Rightarrow> VFloat (FInf neg)
      | Some (BFin q) \<Rightarrow>
          if q = of_int \<lfloor>q\<rfloor> then VInt (sat_i64 \<lfloor>q\<rfloor>) else VFloat (to_float64 q))"

lemma AdaptType_itoa [simp]: "in_i64 x \<Longrightarrow> AdaptType (itoa x) = VInt x"
  by (simp add: AdaptType_def big_parse_itoa)

fun as_int :: "go_value \<Rightarrow> int option" where
  "as_int (VInt i) = Some i"
| "as_int _ = None"

fun as_list :: "go_value \<Rightarrow> string list option" where
  "as_list (VList l) = Some l"
| "as_list _ = None"

fun as_set :: "go_value \<Rightarrow> addr option" where
  "as_set (VSet a) = Some a"
| "as_set _ = None"

fun as_hash :: "go_value \<Rightarrow> (string \<times> go_value) list option" where
  "as_hash (VHash h) = Some h"
| "as_hash _ = None"

fun as_zset :: "go_value \<Rightarrow> (string \<times> float64) list option" where
  "as_zset (VZSet z) = Some z"
| "as_zset _ = None"

lemma as_hash_Some [simp]: "as_hash v = Some h \<longleftrightarrow> v = VHash h"
  by (cases v) auto

lemma as_zset_Some [simp]: "as_zset v = Some z \<longleftrightarrow> v = VZSet z"
  by (cases v) auto

lemma as_list_Some [simp]: "as_list v = Some l \<longleftrightarrow> v = VList l"
  by (cases v) auto

lemma as_set_Some [simp]: "as_set v = Some a \<longleftrightarrow> v = VSet a"
  by (cases v) auto

subsection \<open>Key data and memory accounting\<close>

text \<open>The zero \<open>time.Time\<close> is \<open>None\<close>; any other time is in nanoseconds.\<close>

type_synonym gotime = "int option"

record keydata =
  Value :: go_value
  ExpireAt :: gotime

type_synonym heap = "addr \<Rightarrow> goset option"

text \<open>\<open>unsafe.Sizeof\<close> of the types involved, on a 64-bit platform.\<close>

definition sizeof_time :: int where "sizeof_time = 24"
definition sizeof_string :: int where "sizeof_string = 16"
definition sizeof_int :: int where "sizeof_int = 8"
definition sizeof_pointer :: int where "sizeof_pointer = 8"
definition sizeof_interface :: int where "sizeof_interface = 16"

lemmas sizeof_defs = sizeof_time_def sizeof_string_def sizeof_int_def sizeof_pointer_def
  sizeof_interface_def

definition Set_GetMem :: "goset \<Rightarrow> int" where
  "Set_GetMem s =
     sizeof_pointer + sizeof_pointer +
     sum_list (map (\<lambda>k. sizeof_string + int (length k) + sizeof_interface) (members s))"

definition sizeof_member_object :: int where "sizeof_member_object = 32"

text \<open>A sorted set: the members with their scores (\<open>Exists\<close> is true of every member).\<close>

definition SortedSet_GetMem :: "(string \<times> float64) list \<Rightarrow> int" where
  "SortedSet_GetMem z =
     sizeof_pointer +
     sum_list (map (\<lambda>(v, x). sizeof_string + int (length v) + sizeof_member_object +
                              sizeof_string + int (length v)) z)"

text \<open>What a field of a hash contributes, by its type; other types contribute nothing.\<close>

fun hash_value_mem :: "go_value \<Rightarrow> int" where
  "hash_value_mem (VInt _) = sizeof_int"
| "hash_value_mem (VFloat _) = 8"
| "hash_value_mem (VInt64 _) = 8"
| "hash_value_mem (VStr s) = sizeof_string + int (length s)"
| "hash_value_mem _ = 0"

fun KeyData_GetMem :: "heap \<Rightarrow> keydata \<Rightarrow> int res" where
  "KeyData_GetMem h k =
     (case Value k of
        VNil \<Rightarrow> Ok sizeof_time
      | VInt _ \<Rightarrow> Ok (sizeof_time + sizeof_int)
      | VFloat _ \<Rightarrow> Ok (sizeof_time + 8)
      | VInt64 _ \<Rightarrow> Ok (sizeof_time + 8)
      | VStr s \<Rightarrow> Ok (sizeof_time + sizeof_string + int (length s))
      | VHash m \<Rightarrow>
          Ok (sizeof_time + sizeof_pointer +
              sum_list (map (\<lambda>(f, v). sizeof_string + int (length f) + hash_value_mem v) m))
      | VList l \<Rightarrow>
          Ok (sizeof_time + sum_list (map (\<lambda>s. sizeof_string + int (length s)) l))
      | VSet a \<Rightarrow>
          (case h a of
             None \<Rightarrow> Panic nil_deref
           | Some s \<Rightarrow> Ok (sizeof_time + Set_GetMem s))
      | VZSet z \<Rightarrow> Ok (sizeof_time + SortedSet_GetMem z)
      | VSlice _ \<Rightarrow> Err ''ERROR: type []interface {} is not supported in method KeyData.GetMem()'')"

declare KeyData_GetMem.simps [simp del]

definition value_ok :: "heap \<Rightarrow> go_value \<Rightarrow> bool" where
  "value_ok h v = (case v of VSet a \<Rightarrow> h a \<noteq> None | VSlice _ \<Rightarrow> False | VHash m \<Rightarrow> gm_wf m | VZSet z \<Rightarrow> gm_wf z | _ \<Rightarrow> True)"

lemma KeyData_GetMem_Ok: "value_ok h (Value k) \<Longrightarrow> \<exists>m. KeyData_GetMem h k = Ok m"
  by (cases "Value k") (auto simp: KeyData_GetMem.simps value_ok_def)

subsection \<open>The world a handler runs in\<close>

text \<open>
  The heap of sets, the environment's remaining choices, and the server's own state
  (a parameter: handlers only reach it through the functions they are given).
\<close>

record 's world =
  heap :: heap
  next_addr :: addr
  coins :: coins
  srv :: 's

definition alloc :: "goset \<Rightarrow> 's world \<Rightarrow> addr \<times> 's world" where
  "alloc s w = (next_addr w, w\<lparr>heap := (heap w)(next_addr w \<mapsto> s), next_addr := Suc (next_addr w)\<rparr>)"

definition put_set :: "addr \<Rightarrow> goset \<Rightarrow> 's world \<Rightarrow> 's world" where
  "put_set a s w = w\<lparr>heap := (heap w)(a \<mapsto> s)\<rparr>"

definition flip :: "'s world \<Rightarrow> nat \<times> 's world" where
  "flip w = (coins w 0, w\<lparr>coins := next_coins (coins w)\<rparr>)"

text \<open>A \<open>range\<close> loop over a map visits its entries in an order of the environment's choosing.\<close>

definition go_range :: "'a list \<Rightarrow> 's world \<Rightarrow> 'a list \<times> 's world" where
  "go_range xs w = (let (c, w1) = flip w in (permute c xs, w1))"

lemma flip_simps [simp]:
  "heap (snd (flip w)) = heap w" "next_addr (snd (flip w)) = next_addr w"
  "srv (snd (flip w)) = srv w"
  by (simp_all add: flip_def)

lemma go_range_simps [simp]:
  "mset (fst (go_range xs w)) = mset xs" "set (fst (go_range xs w)) = set xs"
  "heap (snd (go_range xs w)) = heap w" "next_addr (snd (go_range xs w)) = next_addr w"
  "srv (snd (go_range xs w)) = srv w"
  by (simp_all add: go_range_def flip_def)

subsection \<open>Handlers\<close>

record ctx =
  ServerID :: string
  ConnectionName :: string
  Protocol :: int
  Database :: int
  ConnectionID :: string

text \<open>
  \<open>ReadEnd\<close> is not a field of the code: where \<open>ReadKeys\<close> is a subslice of the command it shares the
  command's memory, and this is the index at which it ends. It is given where there are write
  keys too, which are then appended to it.
\<close>

record key_result =
  Channels :: "string list"
  ReadKeys :: "string list"
  WriteKeys :: "string list"
  ReadEnd :: "nat option"

text \<open>
  The functions of \<open>HandlerFuncParams\<close> that the modelled handlers call. \<open>WriteThrough\<close> is not
  one of them: a list or a hash read through \<open>GetValues\<close> shares its memory with the store, so
  that an assignment to an element is seen in the store at once. Lists and hashes are values
  here, and a handler that assigns to one in place says so with this field. \<open>GetACL\<close> and
  \<open>GetPubSub\<close> return pointers to state shared with the server: it is read, and what a handler
  changes is put back with \<open>PutACL\<close> and \<open>PutPubSub\<close>.
\<close>

record 's params =
  Context :: ctx
  Command :: "string list"
  KeysExist :: "ctx \<Rightarrow> string list \<Rightarrow> 's world \<Rightarrow> (string, bool) gomap"
  GetExpiry :: "ctx \<Rightarrow> string \<Rightarrow> 's world \<Rightarrow> gotime"
  GetValues :: "ctx \<Rightarrow> string list \<Rightarrow> 's world \<Rightarrow> (string, go_value) gomap res \<times> 's world"
  SetValues :: "ctx \<Rightarrow> (string, go_value) gomap \<Rightarrow> 's world \<Rightarrow> unit res \<times> 's world"
  SetExpiry :: "ctx \<Rightarrow> string \<Rightarrow> gotime \<Rightarrow> bool \<Rightarrow> 's world \<Rightarrow> unit res \<times> 's world"
  DeleteKey :: "ctx \<Rightarrow> string \<Rightarrow> 's world \<Rightarrow> unit res \<times> 's world"
  WriteThrough :: "ctx \<Rightarrow> string \<Rightarrow> go_value \<Rightarrow> 's world \<Rightarrow> 's world"
  ClockNow :: "'s world \<Rightarrow> int"
  FlushDBs :: "int \<Rightarrow> 's world \<Rightarrow> unit res \<times> 's world"
  RandomKey :: "ctx \<Rightarrow> 's world \<Rightarrow> string \<times> 's world"
  TouchKeys :: "ctx \<Rightarrow> string list \<Rightarrow> 's world \<Rightarrow> int res \<times> 's world"
  ObjectFrequency :: "ctx \<Rightarrow> string \<Rightarrow> 's world \<Rightarrow> int res"
  ObjectIdleTime :: "ctx \<Rightarrow> string \<Rightarrow> 's world \<Rightarrow> float64 res \<times> 's world"
  SwapDatabases :: "int \<Rightarrow> int \<Rightarrow> 's world \<Rightarrow> 's world"
  Connection :: "nat option"
  Libs :: "'s world \<Rightarrow> libs"
  GetACL :: "'s world \<Rightarrow> acl"
  PutACL :: "acl \<Rightarrow> 's world \<Rightarrow> 's world"
  GetPubSub :: "'s world \<Rightarrow> pubsub"
  PutPubSub :: "pubsub \<Rightarrow> 's world \<Rightarrow> 's world"
  GetAllCommands :: "'s world \<Rightarrow> command_info list"
  GetServerInfo :: "'s world \<Rightarrow> server_info"
  GetConnectionInfo :: "nat option \<Rightarrow> 's world \<Rightarrow> conn_info"
  SetConnectionInfo :: "nat option \<Rightarrow> string \<Rightarrow> int \<Rightarrow> int \<Rightarrow> 's world \<Rightarrow> 's world"
  TakeSnapshot :: "'s world \<Rightarrow> unit res \<times> 's world"
  GetLatestSnapshotTime :: "'s world \<Rightarrow> int"
  RewriteAOF :: "'s world \<Rightarrow> unit res \<times> 's world"
  LoadModule :: "string \<Rightarrow> string list \<Rightarrow> 's world \<Rightarrow> unit res \<times> 's world"
  UnloadModule :: "string \<Rightarrow> 's world \<Rightarrow> 's world"
  ListModules :: "'s world \<Rightarrow> string list"

type_synonym 's handler = "'s params \<Rightarrow> 's world \<Rightarrow> string res \<times> 's world"

text \<open>The entries of the command tables, less their descriptions.\<close>

record 's sub_command =
  SubCommandName :: string
  SubModule :: string
  SubCategories :: "string list"
  SubSync :: bool
  SubKeyExtractionFunc :: "string list \<Rightarrow> key_result res"
  SubHandlerFunc :: "'s handler"

record 's command =
  CommandName :: string
  Module :: string
  Categories :: "string list"
  SubCommands :: "'s sub_command list"
  Sync :: bool
  KeyExtractionFunc :: "string list \<Rightarrow> key_result res"
  HandlerFunc :: "'s handler"

text \<open>The two commonest shapes of a key extraction result.\<close>

definition reads_of :: "string list \<Rightarrow> key_result" where
  "reads_of ks = \<lparr>Channels = [], ReadKeys = ks, WriteKeys = [], ReadEnd = None\<rparr>"

definition writes_of :: "string list \<Rightarrow> key_result" where
  "writes_of ks = \<lparr>Channels = [], ReadKeys = [], WriteKeys = ks, ReadEnd = None\<rparr>"

definition no_keys :: key_result where
  "no_keys = \<lparr>Channels = [], ReadKeys = [], WriteKeys = [], ReadEnd = None\<rparr>"

definition channels_of :: "string list \<Rightarrow> key_result" where
  "channels_of cs = \<lparr>Channels = cs, ReadKeys = [], WriteKeys = [], ReadEnd = None\<rparr>"

lemma key_result_simps [simp]:
  "ReadKeys (reads_of ks) = ks" "WriteKeys (reads_of ks) = []" "Channels (reads_of ks) = []"
  "ReadKeys (writes_of ks) = []" "WriteKeys (writes_of ks) = ks" "Channels (writes_of ks) = []"
  "ReadEnd (reads_of ks) = None" "ReadEnd (writes_of ks) = None"
  by (simp_all add: reads_of_def writes_of_def)

text \<open>A table row for a command without subcommands.\<close>

definition mk_command ::
    "string \<Rightarrow> string \<Rightarrow> string list \<Rightarrow> bool \<Rightarrow> (string list \<Rightarrow> key_result res) \<Rightarrow> 's handler \<Rightarrow> 's command" where
  "mk_command name md cats sync kf h =
     \<lparr>CommandName = name, Module = md, Categories = cats, SubCommands = [], Sync = sync,
      KeyExtractionFunc = kf, HandlerFunc = h\<rparr>"

text \<open>Sequencing with early return: an error, a panic or divergence ends the handler.\<close>

definition and_then :: "'a res \<times> 'w \<Rightarrow> ('a \<Rightarrow> 'w \<Rightarrow> 'b res \<times> 'w) \<Rightarrow> 'b res \<times> 'w" where
  "and_then m f =
     (case fst m of
        Ok a \<Rightarrow> f a (snd m)
      | Err e \<Rightarrow> (Err e, snd m)
      | Panic e \<Rightarrow> (Panic e, snd m)
      | Diverge \<Rightarrow> (Diverge, snd m))"

lemma and_then_simps [simp]:
  "and_then (Ok a, w) f = f a w" "and_then (Err e, w) f = (Err e, w)"
  "and_then (Panic e, w) f = (Panic e, w)" "and_then (Diverge, w) f = (Diverge, w)"
  by (simp_all add: and_then_def)

text \<open>Reading a Go map with the element type's zero value for an absent key.\<close>

definition gm_bool :: "(string, bool) gomap \<Rightarrow> string \<Rightarrow> bool" where
  "gm_bool m k = (map_of m k = Some True)"

definition gm_value :: "(string, go_value) gomap \<Rightarrow> string \<Rightarrow> go_value" where
  "gm_value m k = (case map_of m k of None \<Rightarrow> VNil | Some v \<Rightarrow> v)"

subsection \<open>RESP replies\<close>

definition resp_int :: "int \<Rightarrow> string" where
  "resp_int n = '':'' @ itoa n @ crlf"

definition resp_bulk :: "string \<Rightarrow> string" where
  "resp_bulk s = ''$'' @ itoa (int (length s)) @ crlf @ s @ crlf"

definition resp_nil :: string where
  "resp_nil = ''$-1'' @ crlf"

definition resp_nil_array :: string where
  "resp_nil_array = ''*-1'' @ crlf"

definition OkResponse :: string where
  "OkResponse = ''+OK'' @ crlf"

definition WrongArgsResponse :: string where
  "WrongArgsResponse = ''wrong number of arguments''"

definition array_head :: "int \<Rightarrow> string" where
  "array_head n = ''*'' @ itoa n @ crlf"

text \<open>The RESP encoding of an array of bulk strings.\<close>

definition resp_array :: "string list \<Rightarrow> string" where
  "resp_array xs = array_head (int (length xs)) @ concat (map resp_bulk xs)"

text \<open>
  The loop by which the set handlers build an array: the header without its line
  end, then every element preceded by a line end, and a final line end when
  the loop reaches the last element (so not for an empty array).
\<close>

definition elems_reply :: "string list \<Rightarrow> string" where
  "elems_reply xs =
     ''*'' @ itoa (int (length xs)) @
     concat (map (\<lambda>e. crlf @ ''$'' @ itoa (int (length e)) @ crlf @ e) xs) @
     (if xs = [] then [] else crlf)"

lemma crlf_rotate:
  "concat (map (\<lambda>e. crlf @ f e) xs) @ crlf = crlf @ concat (map (\<lambda>e. f e @ crlf) xs)"
  by (induction xs) auto

lemma elems_reply_nonempty: "xs \<noteq> [] \<Longrightarrow> elems_reply xs = resp_array xs"
  using crlf_rotate [of "\<lambda>e. ''$'' @ itoa (int (length e)) @ crlf @ e" xs]
  by (simp add: elems_reply_def resp_array_def array_head_def resp_bulk_def [abs_def])

lemma elems_reply_empty: "elems_reply [] = ''*0''"
  by (simp add: elems_reply_def itoa_def nat_digits.simps digit_char_def)

end
