(* ===== verification/SetData.thy ===== *)
theory SetData
  imports GoValues
begin

text \<open>
  The set type (\<open>internal/modules/set/set.go\<close>): a member map with a separately kept
  length. The methods on one set are functions on its contents; the functions that
  return or modify sets through pointers (\<open>Intersection\<close>, \<open>Union\<close>, \<open>Subtract\<close>, \<open>Move\<close>)
  work on the heap. The lemmas show that the length always is the number of members,
  and that each operation has its set-theoretic meaning for every iteration order and
  every random draw.
\<close>

subsection \<open>One set\<close>

definition Set_Contains :: "goset \<Rightarrow> string \<Rightarrow> bool" where
  "Set_Contains s e = (e \<in> set (members s))"

text \<open>The loop of \<open>Add\<close>: members so far and the count of elements that were new.\<close>

fun add_loop :: "string list \<Rightarrow> int \<Rightarrow> string list \<Rightarrow> string list \<times> int" where
  "add_loop ms n [] = (ms, n)"
| "add_loop ms n (e # es) =
     (if e \<in> set ms then add_loop ms n es else add_loop (ms @ [e]) (n + 1) es)"

definition Set_Add :: "goset \<Rightarrow> string list \<Rightarrow> goset \<times> int" where
  "Set_Add s es =
     (let (ms, n) = add_loop (members s) 0 es
      in (s\<lparr>members := ms, set_length := set_length s + n\<rparr>, n))"

definition NewSet :: "string list \<Rightarrow> goset" where
  "NewSet es = fst (Set_Add \<lparr>members = [], set_length = 0\<rparr> es)"

definition Set_GetAll :: "goset \<Rightarrow> 's world \<Rightarrow> string list \<times> 's world" where
  "Set_GetAll s w = go_range (members s) w"

definition Set_Cardinality :: "goset \<Rightarrow> int" where
  "Set_Cardinality s = set_length s"

fun remove_loop :: "string list \<Rightarrow> int \<Rightarrow> string list \<Rightarrow> string list \<times> int" where
  "remove_loop ms n [] = (ms, n)"
| "remove_loop ms n (e # es) =
     (if e \<in> set ms then remove_loop (List.remove1 e ms) (n + 1) es else remove_loop ms n es)"

definition Set_Remove :: "goset \<Rightarrow> string list \<Rightarrow> goset \<times> int" where
  "Set_Remove s es =
     (let (ms, n) = remove_loop (members s) 0 es
      in (s\<lparr>members := ms, set_length := set_length s - n\<rparr>, n))"

definition AbsInt :: "int \<Rightarrow> int" where
  "AbsInt n = (if n < 0 then i64 (- n) else n)"

definition intn_panic :: string where
  "intn_panic = ''invalid argument to Intn''"

text \<open>
  \<open>GetRandom\<close> with a negative count: \<open>n\<close> draws with repetition.
\<close>

fun draw_repeat :: "nat \<Rightarrow> string list \<Rightarrow> coins \<Rightarrow> string list \<times> coins" where
  "draw_repeat 0 keys cs = ([], cs)"
| "draw_repeat (Suc n) keys cs =
     (let (res, cs') = draw_repeat n keys (next_coins cs)
      in (keys ! intn (cs 0) (length keys) # res, cs'))"

text \<open>
  \<open>GetRandom\<close> with a positive count: draw until \<open>n\<close> more keys have been taken. A key
  already taken is drawn again without an end in sight, so the loop is a partial
  function; a taken key is deleted from the candidates.
\<close>

partial_function (option) draw_distinct ::
    "nat \<Rightarrow> string list \<Rightarrow> string list \<Rightarrow> coins \<Rightarrow> (string list res \<times> coins) option" where
  "draw_distinct n acc keys cs =
     (if n = 0 then Some (Ok acc, cs)
      else if keys = [] then Some (Panic intn_panic, cs)
      else let e = keys ! intn (cs 0) (length keys)
           in if e \<in> set acc then draw_distinct n acc keys (next_coins cs)
              else draw_distinct (n - 1) (acc @ [e]) (filter (\<lambda>k. k \<noteq> e) keys) (next_coins cs))"

definition Set_GetRandom :: "goset \<Rightarrow> int \<Rightarrow> 's world \<Rightarrow> string list res \<times> 's world" where
  "Set_GetRandom s n w =
     (let (keys, w1) = Set_GetAll s w
      in if n = 0 then (Ok [], w1)
         else if Set_Cardinality s \<le> AbsInt n then (Ok keys, w1)
         else if n < 0
         then (if 0 < AbsInt n \<and> keys = [] then (Panic intn_panic, w1)
               else let (res, cs) = draw_repeat (nat (AbsInt n)) keys (coins w1)
                    in (Ok res, w1\<lparr>coins := cs\<rparr>))
         else (case draw_distinct (nat (AbsInt n)) [] keys (coins w1) of
                 None \<Rightarrow> (Diverge, w1)
               | Some (res, cs) \<Rightarrow> (res, w1\<lparr>coins := cs\<rparr>)))"

definition Set_Pop :: "goset \<Rightarrow> int \<Rightarrow> 's world \<Rightarrow> (string list \<times> goset) res \<times> 's world" where
  "Set_Pop s n w =
     and_then (Set_GetRandom s n w) (\<lambda>keys w1. (Ok (keys, fst (Set_Remove s keys)), w1))"

subsection \<open>Facts about one set\<close>

text \<open>The invariant of the type: distinct members, and the length is their number.\<close>

definition set_wf :: "goset \<Rightarrow> bool" where
  "set_wf s \<longleftrightarrow> distinct (members s) \<and> set_length s = int (length (members s))"

lemma add_loop_set: "set (fst (add_loop ms n es)) = set ms \<union> set es"
  by (induction ms n es rule: add_loop.induct) auto

lemma add_loop_distinct: "distinct (fst (add_loop ms n es)) = distinct ms"
  by (induction ms n es rule: add_loop.induct) auto

lemma add_loop_count:
  "snd (add_loop ms n es) - n = int (length (fst (add_loop ms n es))) - int (length ms)"
  by (induction ms n es rule: add_loop.induct) auto

lemma remove_loop_distinct: "distinct ms \<Longrightarrow> distinct (fst (remove_loop ms n es))"
  by (induction ms n es rule: remove_loop.induct) auto

lemma remove_loop_set: "distinct ms \<Longrightarrow> set (fst (remove_loop ms n es)) = set ms - set es"
  by (induction ms n es rule: remove_loop.induct) auto

lemma remove_loop_count:
  "snd (remove_loop ms n es) - n = int (length ms) - int (length (fst (remove_loop ms n es)))"
proof (induction ms n es rule: remove_loop.induct)
  case (2 ms n e es)
  have "e \<in> set ms \<Longrightarrow> int (length (List.remove1 e ms)) = int (length ms) - 1"
    using length_pos_if_in_set [of e ms] by (simp add: length_remove1 of_nat_diff Suc_le_eq)
  with 2 show ?case by auto
qed simp

lemma Set_Add_members [simp]: "set (members (fst (Set_Add s es))) = set (members s) \<union> set es"
  by (simp add: Set_Add_def add_loop_set case_prod_beta)

lemma Set_Add_wf [inv_intros]: "set_wf s \<Longrightarrow> set_wf (fst (Set_Add s es))"
  using add_loop_distinct [of "members s" 0 es] add_loop_count [of "members s" 0 es]
  by (auto simp: Set_Add_def set_wf_def split: prod.splits)

lemma Set_Add_count:
  assumes "set_wf s"
  shows "snd (Set_Add s es) = int (card (set es - set (members s)))"
proof -
  let ?ms = "fst (add_loop (members s) 0 es)"
  have d: "distinct (members s)" "distinct ?ms"
    using assms by (simp_all add: set_wf_def add_loop_distinct)
  have "snd (add_loop (members s) 0 es) = int (card (set ?ms)) - int (card (set (members s)))"
    using add_loop_count [of "members s" 0 es] d by (simp add: distinct_card)
  also have "card (set ?ms) = card (set (members s)) + card (set es - set (members s))"
    by (simp add: add_loop_set card_Un_disjoint [symmetric])
  finally show ?thesis by (simp add: Set_Add_def case_prod_beta)
qed

lemma NewSet_wf [simp, inv_intros]: "set_wf (NewSet es)"
  unfolding NewSet_def by (rule Set_Add_wf) (simp add: set_wf_def)

lemma NewSet_members [simp]: "set (members (NewSet es)) = set es"
  by (simp add: NewSet_def)

lemma Set_Remove_wf [inv_intros]: "set_wf s \<Longrightarrow> set_wf (fst (Set_Remove s es))"
  using remove_loop_distinct [of "members s" 0 es] remove_loop_count [of "members s" 0 es]
  by (simp add: Set_Remove_def set_wf_def case_prod_beta)

lemma Set_Remove_members [simp]:
  "set_wf s \<Longrightarrow> set (members (fst (Set_Remove s es))) = set (members s) - set es"
  by (simp add: Set_Remove_def set_wf_def remove_loop_set case_prod_beta)

lemma Set_Remove_count:
  assumes "set_wf s"
  shows "snd (Set_Remove s es) = int (card (set es \<inter> set (members s)))"
proof -
  let ?ms = "fst (remove_loop (members s) 0 es)"
  have d: "distinct (members s)" "distinct ?ms"
    using assms by (simp_all add: set_wf_def remove_loop_distinct)
  have st: "set ?ms = set (members s) - set es" using d(1) by (rule remove_loop_set)
  have "int (card (set (members s))) = int (card (set ?ms)) + int (card (set es \<inter> set (members s)))"
    using card_Int_Diff [of "set (members s)" "set es"] by (simp add: st Int_commute)
  moreover have "snd (remove_loop (members s) 0 es) = int (card (set (members s))) - int (card (set ?ms))"
    using remove_loop_count [of "members s" 0 es] d by (simp add: distinct_card)
  ultimately show ?thesis by (simp add: Set_Remove_def case_prod_beta)
qed

subsection \<open>Random members\<close>

lemma draw_repeat_spec:
  "0 < length keys \<Longrightarrow>
     length (fst (draw_repeat n keys cs)) = n \<and> set (fst (draw_repeat n keys cs)) \<subseteq> set keys"
  by (induction n keys cs rule: draw_repeat.induct) (auto simp: case_prod_beta)

text \<open>The draws of distinct members return, whatever the environment draws.\<close>

lemma draw_distinct_spec:
  assumes "n \<le> length keys" and "distinct keys" and "set keys \<inter> set acc = {}"
  shows "\<exists>res cs'. draw_distinct n acc keys cs = Some (Ok (acc @ res), cs') \<and>
           length res = n \<and> distinct res \<and> set res \<subseteq> set keys"
  using assms
proof (induction n arbitrary: acc keys cs)
  case 0
  then show ?case by (simp add: draw_distinct.simps)
next
  case (Suc n)
  let ?e = "keys ! intn (cs 0) (length keys)"
  let ?keys = "filter (\<lambda>k. k \<noteq> ?e) keys"
  have ne: "keys \<noteq> []" using Suc.prems by auto
  then have e: "?e \<in> set keys" by simp
  then have notin: "?e \<notin> set acc" using Suc.prems(3) by auto
  have "?keys = List.remove1 ?e keys" 
    using Suc.prems(2) by (auto simp: distinct_remove1_removeAll removeAll_filter_not_eq intro: filter_cong)
  then have "n \<le> length ?keys" using Suc.prems(1) e by (simp add: length_remove1)
  moreover have "set ?keys \<inter> set (acc @ [?e]) = {}" using Suc.prems(3) by auto
  ultimately obtain res cs' where
    r: "draw_distinct n (acc @ [?e]) ?keys (next_coins cs) = Some (Ok ((acc @ [?e]) @ res), cs')"
       "length res = n" "distinct res" "set res \<subseteq> set ?keys"
    using Suc.IH [of ?keys "acc @ [?e]" "next_coins cs"] Suc.prems(2) by auto
  have "draw_distinct (Suc n) acc keys cs = Some (Ok (acc @ (?e # res)), cs')"
    using ne notin r(1) by (subst draw_distinct.simps) simp
  moreover have "distinct (?e # res)" "set (?e # res) \<subseteq> set keys" using r e by auto
  ultimately show ?case using r(2) by (metis length_Cons)
qed

subsection \<open>Sets behind pointers\<close>

definition deref_set :: "addr \<Rightarrow> 's world \<Rightarrow> (goset \<Rightarrow> 'b res \<times> 's world) \<Rightarrow> 'b res \<times> 's world" where
  "deref_set a w f = (case heap w a of None \<Rightarrow> (Panic nil_deref, w) | Some s \<Rightarrow> f s)"

text \<open>\<open>Subtract\<close>: the members of the other sets that are in the copy are collected, then removed.\<close>

fun subtract_collect :: "goset \<Rightarrow> goset list \<Rightarrow> 's world \<Rightarrow> string list \<times> 's world" where
  "subtract_collect diff [] w = ([], w)"
| "subtract_collect diff (s # ss) w =
     (let (ks, w1) = go_range (members s) w; (rest, w2) = subtract_collect diff ss w1
      in (filter (Set_Contains diff) ks @ rest, w2))"

definition Set_Subtract :: "goset \<Rightarrow> goset list \<Rightarrow> 's world \<Rightarrow> goset \<times> 's world" where
  "Set_Subtract s others w =
     (let (elems, w1) = Set_GetAll s w; diff = NewSet elems;
          (rm, w2) = subtract_collect diff others w1
      in (fst (Set_Remove diff rm), w2))"

definition Set_Move :: "addr \<Rightarrow> addr \<Rightarrow> string \<Rightarrow> 's world \<Rightarrow> int res \<times> 's world" where
  "Set_Move a b e w =
     deref_set a w (\<lambda>s.
       if \<not> Set_Contains s e then (Ok 0, w)
       else let w1 = put_set a (fst (Set_Remove s [e])) w
            in deref_set b w1 (\<lambda>d. (Ok 1, put_set b (fst (Set_Add d [e])) w1)))"

text \<open>The two-set case of \<open>Intersection\<close>: stop when the limit is reached.\<close>

fun inter_loop :: "int \<Rightarrow> goset \<Rightarrow> string list \<Rightarrow> goset \<Rightarrow> goset \<times> bool" where
  "inter_loop limit b [] acc = (acc, False)"
| "inter_loop limit b (m # ms) acc =
     (if 0 < limit \<and> limit \<le> Set_Cardinality acc then (acc, True)
      else inter_loop limit b ms (if Set_Contains b m then fst (Set_Add acc [m]) else acc))"

text \<open>
  \<open>Intersection\<close> and \<open>Union\<close>. A call without sets recurses on two empty slices for ever.
\<close>

function Intersection :: "int \<Rightarrow> addr list \<Rightarrow> 's world \<Rightarrow> (addr \<times> bool) res \<times> 's world" where
  "Intersection limit sets w =
     (case sets of
        [] \<Rightarrow> (Diverge, w)
      | [a] \<Rightarrow> (Ok (a, False), w)
      | [a, b] \<Rightarrow>
          deref_set a w (\<lambda>s. deref_set b w (\<lambda>t.
            let (ms, w1) = Set_GetAll s w;
                (r, stop) = inter_loop limit t ms (NewSet []);
                (addr, w2) = alloc r w1
            in (Ok (addr, stop), w2)))
      | _ \<Rightarrow>
          and_then (Intersection limit (take (length sets div 2) sets) w) (\<lambda>(left, stop) w1.
            if stop then (Ok (left, stop), w1)
            else and_then (Intersection limit (drop (length sets div 2) sets) w1) (\<lambda>(right, stop) w2.
              if stop then (Ok (right, stop), w2)
              else Intersection limit [left, right] w2)))"
  by pat_completeness auto
termination
  by (relation "measure (\<lambda>(limit, sets, w). length sets)") auto

function Union :: "addr list \<Rightarrow> 's world \<Rightarrow> addr res \<times> 's world" where
  "Union sets w =
     (case sets of
        [] \<Rightarrow> (Diverge, w)
      | [a] \<Rightarrow> (Ok a, w)
      | [a, b] \<Rightarrow>
          deref_set a w (\<lambda>s. deref_set b w (\<lambda>t.
            let (es, w1) = Set_GetAll t w
            in (Ok a, put_set a (fst (Set_Add s es)) w1)))
      | _ \<Rightarrow>
          and_then (Union (take (length sets div 2) sets) w) (\<lambda>left w1.
            and_then (Union (drop (length sets div 2) sets) w1) (\<lambda>right w2.
              Union [left, right] w2)))"
  by pat_completeness auto
termination
  by (relation "measure (\<lambda>(sets, w). length sets)") auto

declare Intersection.simps [simp del] Union.simps [simp del]

lemma Intersection_none: "Intersection limit [] w = (Diverge, w)"
  by (subst Intersection.simps) simp

lemma Intersection_one: "Intersection limit [a] w = (Ok (a, False), w)"
  by (subst Intersection.simps) simp

lemma Intersection_two:
  "Intersection limit [a, b] w =
     deref_set a w (\<lambda>s. deref_set b w (\<lambda>t.
       let (ms, w1) = Set_GetAll s w;
           (r, stop) = inter_loop limit t ms (NewSet []);
           (addr, w2) = alloc r w1
       in (Ok (addr, stop), w2)))"
  by (subst Intersection.simps) simp

lemma Intersection_more:
  "2 < length sets \<Longrightarrow> Intersection limit sets w =
     and_then (Intersection limit (take (length sets div 2) sets) w) (\<lambda>(left, stop) w1.
       if stop then (Ok (left, stop), w1)
       else and_then (Intersection limit (drop (length sets div 2) sets) w1) (\<lambda>(right, stop) w2.
         if stop then (Ok (right, stop), w2)
         else Intersection limit [left, right] w2))"
  by (subst Intersection.simps) (auto split: list.split)

lemma Union_none: "Union [] w = (Diverge, w)"
  by (subst Union.simps) simp

lemma Union_one: "Union [a] w = (Ok a, w)"
  by (subst Union.simps) simp

lemma Union_two:
  "Union [a, b] w =
     deref_set a w (\<lambda>s. deref_set b w (\<lambda>t.
       let (es, w1) = Set_GetAll t w
       in (Ok a, put_set a (fst (Set_Add s es)) w1)))"
  by (subst Union.simps) simp

lemma Union_more:
  "2 < length sets \<Longrightarrow> Union sets w =
     and_then (Union (take (length sets div 2) sets) w) (\<lambda>left w1.
       and_then (Union (drop (length sets div 2) sets) w1) (\<lambda>right w2.
         Union [left, right] w2))"
  by (subst Union.simps) (auto split: list.split)


text \<open>The heap holds well-formed sets only, below the next free address.\<close>

definition heap_wf :: "'s world \<Rightarrow> bool" where
  "heap_wf w \<longleftrightarrow> (\<forall>a s. heap w a = Some s \<longrightarrow> a < next_addr w \<and> set_wf s)"

definition live :: "'s world \<Rightarrow> addr \<Rightarrow> bool" where
  "live w a \<longleftrightarrow> heap w a \<noteq> None"

definition set_at :: "'s world \<Rightarrow> addr \<Rightarrow> string set" where
  "set_at w a = (case heap w a of None \<Rightarrow> {} | Some s \<Rightarrow> set (members s))"

lemma heap_wfD: "heap_wf w \<Longrightarrow> heap w a = Some s \<Longrightarrow> set_wf s"
  by (simp add: heap_wf_def)

lemma heap_wf_fresh: "heap_wf w \<Longrightarrow> heap w (next_addr w) = None"
  by (metis heap_wf_def nless_le not_None_eq)

lemma heap_wf_alloc: "heap_wf w \<Longrightarrow> set_wf s \<Longrightarrow> heap_wf (snd (alloc s w))"
  by (auto simp: heap_wf_def alloc_def less_SucI)

lemma heap_wf_put: "heap_wf w \<Longrightarrow> live w a \<Longrightarrow> set_wf s \<Longrightarrow> heap_wf (put_set a s w)"
  by (auto simp: heap_wf_def put_set_def live_def)

lemma heap_wf_range [simp]: "heap_wf (snd (go_range xs w)) = heap_wf w"
  by (simp add: heap_wf_def)

lemma put_set_simps [simp]:
  "heap (put_set a s w) = (heap w)(a \<mapsto> s)" "srv (put_set a s w) = srv w"
  "next_addr (put_set a s w) = next_addr w"
  by (simp_all add: put_set_def)

text \<open>
  What a step may do to the heap besides producing its result: \<open>extends\<close> adds sets at
  new addresses and leaves the old ones alone.
\<close>

definition extends :: "'s world \<Rightarrow> 's world \<Rightarrow> bool" where
  "extends w w' \<longleftrightarrow> srv w' = srv w \<and> next_addr w \<le> next_addr w' \<and>
     (\<forall>a. heap w a \<noteq> None \<longrightarrow> heap w' a = heap w a)"

lemma extends_refl [simp]: "extends w w"
  by (simp add: extends_def)

lemma extends_trans [trans]: "extends w w1 \<Longrightarrow> extends w1 w2 \<Longrightarrow> extends w w2"
  by (auto simp: extends_def)

lemma extends_live: "extends w w' \<Longrightarrow> live w a \<Longrightarrow> live w' a"
  by (auto simp: extends_def live_def)

lemma extends_set_at: "extends w w' \<Longrightarrow> live w a \<Longrightarrow> set_at w' a = set_at w a"
  by (auto simp: extends_def live_def set_at_def)

lemma extends_range [simp]: "extends w (snd (go_range xs w))"
  by (simp add: extends_def)

lemma extends_alloc: "heap_wf w \<Longrightarrow> extends w (snd (alloc s w))"
  using heap_wf_fresh [of w] by (auto simp: extends_def alloc_def)

subsection \<open>Difference\<close>

lemma subtract_collect_spec:
  "set (fst (subtract_collect diff ss w)) = {k. Set_Contains diff k} \<inter> (\<Union>s\<in>set ss. set (members s)) \<and>
   extends w (snd (subtract_collect diff ss w)) \<and>
   heap_wf (snd (subtract_collect diff ss w)) = heap_wf w"
proof (induction ss arbitrary: w)
  case (Cons s ss)
  let ?w1 = "snd (go_range (members s) w)"
  have "extends w ?w1" by simp
  with Cons [of ?w1] show ?case
    using extends_trans [of w ?w1] by (auto simp: case_prod_beta)
qed simp

lemma Set_Subtract_spec:
  assumes "set_wf s"
  shows "set (members (fst (Set_Subtract s ss w))) = set (members s) - (\<Union>t\<in>set ss. set (members t))"
    and "set_wf (fst (Set_Subtract s ss w))"
    and "extends w (snd (Set_Subtract s ss w))"
    and "heap_wf (snd (Set_Subtract s ss w)) = heap_wf w"
proof -
  let ?w1 = "snd (go_range (members s) w)"
  let ?diff = "NewSet (fst (go_range (members s) w))"
  have e: "extends w ?w1" by simp
  note c = subtract_collect_spec [of ?diff ss ?w1]
  show "set (members (fst (Set_Subtract s ss w))) = set (members s) - (\<Union>t\<in>set ss. set (members t))"
    using c by (auto simp: Set_Subtract_def Set_GetAll_def case_prod_beta Let_def Set_Contains_def)
  show "set_wf (fst (Set_Subtract s ss w))"
    by (simp add: Set_Subtract_def case_prod_beta Let_def Set_Remove_wf)
  show "extends w (snd (Set_Subtract s ss w))"
    using c extends_trans [OF e] by (simp add: Set_Subtract_def Set_GetAll_def case_prod_beta Let_def)
  show "heap_wf (snd (Set_Subtract s ss w)) = heap_wf w"
    using c by (simp add: Set_Subtract_def Set_GetAll_def case_prod_beta Let_def)
qed

subsection \<open>Intersection\<close>

lemma inter_loop_unlimited:
  "set_wf acc \<Longrightarrow> limit \<le> 0 \<Longrightarrow>
     \<not> snd (inter_loop limit b ms acc) \<and> set_wf (fst (inter_loop limit b ms acc)) \<and>
     set (members (fst (inter_loop limit b ms acc))) =
       set (members acc) \<union> (set ms \<inter> set (members b))"
  by (induction limit b ms acc rule: inter_loop.induct) (auto simp: Set_Contains_def Set_Add_wf)

text \<open>The specification of one call, for \<open>limit = 0\<close> (no limit).\<close>

definition inter_spec :: "addr list \<Rightarrow> 's world \<Rightarrow> (addr \<times> bool) res \<times> 's world \<Rightarrow> bool" where
  "inter_spec sets w out \<longleftrightarrow>
     (\<exists>a w'. out = (Ok (a, False), w') \<and> heap_wf w' \<and> live w' a \<and> extends w w' \<and>
        set_at w' a = (\<Inter>x\<in>set sets. set_at w x))"

lemma inter_two:
  assumes "heap_wf w" "live w a" "live w b"
  shows "inter_spec [a, b] w (Intersection 0 [a, b] w)"
proof -
  obtain s t where st: "heap w a = Some s" "heap w b = Some t"
    using assms by (auto simp: live_def)
  let ?w1 = "snd (go_range (members s) w)"
  let ?out = "inter_loop 0 t (fst (go_range (members s) w)) (NewSet [])"
  have o: "\<not> snd ?out" "set_wf (fst ?out)"
    "set (members (fst ?out)) = set (members s) \<inter> set (members t)"
    using inter_loop_unlimited [of "NewSet []" 0 t "fst (go_range (members s) w)"] by auto
  have wf1: "heap_wf ?w1" using assms by simp
  have "extends w (snd (alloc (fst ?out) ?w1))"
    using extends_trans [OF extends_range extends_alloc [OF wf1]] by blast
  moreover have "heap_wf (snd (alloc (fst ?out) ?w1))" using wf1 o(2) by (rule heap_wf_alloc)
  moreover have "Intersection 0 [a, b] w =
      (Ok (fst (alloc (fst ?out) ?w1), False), snd (alloc (fst ?out) ?w1))"
    using st o(1) by (simp add: Intersection_two deref_set_def Set_GetAll_def case_prod_beta Let_def)
  ultimately show ?thesis
    using o(3) st by (auto simp: inter_spec_def live_def set_at_def alloc_def)
qed

lemma Intersection_spec:
  "sets \<noteq> [] \<Longrightarrow> heap_wf w \<Longrightarrow> \<forall>x\<in>set sets. live w x \<Longrightarrow>
     inter_spec sets w (Intersection 0 sets w)"
proof (induction "length sets" arbitrary: sets w rule: less_induct)
  case less
  show ?case
  proof (cases "2 < length sets")
    case False
    then consider a where "sets = [a]" | a b where "sets = [a, b]"
      using less.prems(1) by (cases sets; cases "tl sets"; cases "tl (tl sets)") auto
    then show ?thesis
    proof cases
      case 1
      then show ?thesis using less.prems by (simp add: inter_spec_def Intersection_one)
    next
      case 2
      then show ?thesis using less.prems by (auto intro: inter_two)
    qed
  next
    case True
    let ?l = "take (length sets div 2) sets" and ?r = "drop (length sets div 2) sets"
    have len: "length ?l < length sets" "length ?r < length sets" "?l \<noteq> []" "?r \<noteq> []"
      using True by auto
    have sub: "set ?l \<subseteq> set sets" "set ?r \<subseteq> set sets" "set sets = set ?l \<union> set ?r"
      by (auto dest: in_set_takeD in_set_dropD) (metis Un_iff append_take_drop_id set_append)
    obtain l w1 where L: "Intersection 0 ?l w = (Ok (l, False), w1)" "heap_wf w1" "live w1 l"
      "extends w w1" "set_at w1 l = (\<Inter>x\<in>set ?l. set_at w x)"
      using less.hyps [OF len(1) len(3) less.prems(2)] less.prems(3) sub(1)
      unfolding inter_spec_def by blast
    have live1: "\<forall>x\<in>set ?r. live w1 x"
      using L(4) less.prems(3) sub(2) by (blast intro: extends_live)
    obtain r w2 where R: "Intersection 0 ?r w1 = (Ok (r, False), w2)" "heap_wf w2" "live w2 r"
      "extends w1 w2" "set_at w2 r = (\<Inter>x\<in>set ?r. set_at w1 x)"
      using less.hyps [OF len(2) len(4) L(2) live1] unfolding inter_spec_def by blast
    have eqr: "(\<Inter>x\<in>set ?r. set_at w1 x) = (\<Inter>x\<in>set ?r. set_at w x)"
      using less.prems(3) sub(2) L(4) by (intro INF_cong refl extends_set_at) auto
    have "inter_spec [l, r] w2 (Intersection 0 [l, r] w2)"
      by (rule inter_two [OF R(2) extends_live [OF R(4) L(3)] R(3)])
    then obtain a w' where A: "Intersection 0 [l, r] w2 = (Ok (a, False), w')" "heap_wf w'" "live w' a"
      "extends w2 w'" "set_at w' a = set_at w2 l \<inter> set_at w2 r"
      unfolding inter_spec_def by auto
    have "set_at w2 l = set_at w1 l" using R(4) L(3) by (rule extends_set_at)
    then have "set_at w' a = (\<Inter>x\<in>set sets. set_at w x)"
      using A(5) L(5) R(5) eqr sub(3) by (auto simp del: set_append)
    moreover have "extends w w'" using L(4) R(4) A(4) by (blast intro: extends_trans)
    ultimately show ?thesis
      using A(1-3) L(1) R(1) True by (simp add: inter_spec_def Intersection_more)
  qed
qed

text \<open>With a limit, two sets: the size of the result is the smaller of the limit and the full size.\<close>

lemma inter_loop_limited:
  assumes "0 < limit" "set_wf acc" "distinct ms" "set ms \<inter> set (members acc) = {}"
    "set_length acc \<le> limit"
  shows "set_wf (fst (inter_loop limit b ms acc)) \<and>
     set (members (fst (inter_loop limit b ms acc))) \<subseteq> set (members acc) \<union> (set ms \<inter> set (members b)) \<and>
     set_length (fst (inter_loop limit b ms acc)) =
       min limit (set_length acc + int (card (set ms \<inter> set (members b))))"
  using assms
proof (induction limit b ms acc rule: inter_loop.induct)
  case (2 limit b m ms acc)
  show ?case
  proof (cases "limit \<le> set_length acc")
    case True
    with "2.prems" show ?thesis by (auto simp: Set_Cardinality_def)
  next
    case False
    let ?acc = "if Set_Contains b m then fst (Set_Add acc [m]) else acc"
    have len: "set_length ?acc = set_length acc + (if Set_Contains b m then 1 else 0)"
      using "2.prems"(4) by (auto simp: Set_Add_def)
    have wf: "set_wf ?acc" using "2.prems"(2) by (simp add: Set_Add_wf)
    have dj: "set ms \<inter> set (members ?acc) = {}" using "2.prems"(3,4) by auto
    have card: "int (card (set (m # ms) \<inter> set (members b))) =
        (if Set_Contains b m then 1 else 0) + int (card (set ms \<inter> set (members b)))"
      using "2.prems"(3) by (simp add: Set_Contains_def)
    have sub: "set (members ?acc) \<subseteq> set (members acc) \<union> ({m} \<inter> set (members b))"
      by (auto simp: Set_Contains_def)
    have "\<not> (0 < limit \<and> limit \<le> Set_Cardinality acc)" using False by (simp add: Set_Cardinality_def)
    note IH = "2.IH" [OF this "2.prems"(1) wf _ dj]
    have "set_length ?acc \<le> limit" using False len "2.prems"(5) by (simp split: if_splits)
    then show ?thesis
      using IH "2.prems"(1,3) False sub card len by (auto simp: Set_Cardinality_def)
  qed
qed (simp add: min_def)

subsection \<open>Union\<close>

text \<open>
  \<open>Union\<close> returns the first set it is given, with the members of all of them added to
  it: its result is right, and the sets it was given have changed.
\<close>

definition union_post :: "addr list \<Rightarrow> 's world \<Rightarrow> 's world \<Rightarrow> bool" where
  "union_post sets w w' \<longleftrightarrow>
     heap_wf w' \<and> srv w' = srv w \<and> next_addr w' = next_addr w \<and>
     (\<forall>a. live w' a = live w a) \<and> (\<forall>a. set_at w a \<subseteq> set_at w' a) \<and>
     (\<forall>a\<in>set sets. set_at w' a \<subseteq> (\<Union>x\<in>set sets. set_at w x)) \<and>
     (\<forall>a. a \<notin> set sets \<longrightarrow> heap w' a = heap w a) \<and>
     set_at w' (hd sets) = (\<Union>x\<in>set sets. set_at w x)"

definition union_spec :: "addr list \<Rightarrow> 's world \<Rightarrow> addr res \<times> 's world \<Rightarrow> bool" where
  "union_spec sets w out \<longleftrightarrow> (\<exists>w'. out = (Ok (hd sets), w') \<and> union_post sets w w')"

lemma union_postD:
  assumes "union_post sets w w'"
  shows "heap_wf w'" "srv w' = srv w" "next_addr w' = next_addr w" "live w' a = live w a"
    "set_at w a \<subseteq> set_at w' a"
    "a \<in> set sets \<Longrightarrow> set_at w' a \<subseteq> (\<Union>x\<in>set sets. set_at w x)"
    "a \<notin> set sets \<Longrightarrow> heap w' a = heap w a"
    "set_at w' (hd sets) = (\<Union>x\<in>set sets. set_at w x)"
  using assms by (simp_all add: union_post_def)

lemma union_specE:
  assumes "union_spec sets w out"
  obtains w' where "out = (Ok (hd sets), w')" "union_post sets w w'"
  using assms by (auto simp: union_spec_def)

text \<open>No set given to \<open>Union\<close> gets a member that none of them had.\<close>

lemma union_post_within:
  assumes "union_post sets w w'" "set sets \<subseteq> A" "\<forall>x\<in>A. set_at w x \<subseteq> U" "a \<in> A"
  shows "set_at w' a \<subseteq> U"
proof (cases "a \<in> set sets")
  case True
  have "(\<Union>x\<in>set sets. set_at w x) \<subseteq> U" using assms(2,3) by blast
  then show ?thesis using union_postD(6) [OF assms(1) True] by simp
next
  case False
  then have "set_at w' a = set_at w a" using union_postD(7) [OF assms(1)] by (simp add: set_at_def)
  then show ?thesis using assms(3,4) by simp
qed

lemma union_two:
  assumes "heap_wf w" "live w a" "live w b"
  shows "union_spec [a, b] w (Union [a, b] w)"
proof -
  obtain s t where st: "heap w a = Some s" "heap w b = Some t"
    using assms by (auto simp: live_def)
  let ?w1 = "snd (go_range (members t) w)" and ?es = "fst (go_range (members t) w)"
  let ?u = "fst (Set_Add s ?es)"
  have "heap_wf (put_set a ?u ?w1)"
    using assms st by (intro heap_wf_put Set_Add_wf heap_wfD [OF assms(1) st(1)]) (auto simp: live_def)
  moreover have "Union [a, b] w = (Ok a, put_set a ?u w\<lparr>coins := next_coins (coins w)\<rparr>)"
    using st by (simp add: Union_two deref_set_def Set_GetAll_def put_set_def go_range_def flip_def)
  moreover have "put_set a ?u w\<lparr>coins := next_coins (coins w)\<rparr> = put_set a ?u ?w1"
    by (simp add: put_set_def go_range_def flip_def)
  ultimately show ?thesis
    using st by (auto simp: union_spec_def union_post_def live_def set_at_def)
qed

lemma take_drop_halves:
  assumes "2 < length sets"
  shows "length (take (length sets div 2) sets) < length sets"
    and "length (drop (length sets div 2) sets) < length sets"
    and "take (length sets div 2) sets \<noteq> []" and "drop (length sets div 2) sets \<noteq> []"
    and "set (take (length sets div 2) sets) \<union> set (drop (length sets div 2) sets) = set sets"
    and "hd (take (length sets div 2) sets) = hd sets"
proof -
  show "set (take (length sets div 2) sets) \<union> set (drop (length sets div 2) sets) = set sets"
    by (metis append_take_drop_id set_append)
qed (use assms in \<open>auto simp: hd_take\<close>)

lemma Union_spec:
  "sets \<noteq> [] \<Longrightarrow> heap_wf w \<Longrightarrow> \<forall>x\<in>set sets. live w x \<Longrightarrow> union_spec sets w (Union sets w)"
proof (induction "length sets" arbitrary: sets w rule: less_induct)
  case less
  show ?case
  proof (cases "2 < length sets")
    case False
    then consider a where "sets = [a]" | a b where "sets = [a, b]"
      using less.prems(1) by (cases sets; cases "tl sets"; cases "tl (tl sets)") auto
    then show ?thesis
    proof cases
      case 1
      then show ?thesis using less.prems by (simp add: union_spec_def union_post_def Union_one)
    next
      case 2
      then show ?thesis using less.prems by (auto intro: union_two)
    qed
  next
    case True
    define l r where lr: "l = take (length sets div 2) sets" "r = drop (length sets div 2) sets"
    let ?U = "\<Union>x\<in>set sets. set_at w x"
    note h = take_drop_halves [OF True, folded lr]
    have sub: "set l \<subseteq> set sets" "set r \<subseteq> set sets" using h(5) by blast+
    have livel: "\<forall>x\<in>set l. live w x" using less.prems(3) sub by blast
    obtain w1 where L: "Union l w = (Ok (hd l), w1)" "union_post l w w1"
      using less.hyps [OF h(1) h(3) less.prems(2) livel] by (rule union_specE)
    have liver: "\<forall>x\<in>set r. live w1 x" using less.prems(3) sub union_postD(4) [OF L(2)] by blast
    obtain w2 where R: "Union r w1 = (Ok (hd r), w2)" "union_post r w1 w2"
      using less.hyps [OF h(2) h(4) union_postD(1) [OF L(2)] liver] by (rule union_specE)
    have hds: "hd l \<in> set sets" "hd r \<in> set sets" using h(3,4) sub by auto
    have live2: "live w2 (hd l)" "live w2 (hd r)"
      using hds less.prems(3) union_postD(4) [OF L(2)] union_postD(4) [OF R(2)] by blast+
    obtain w' where A: "Union [hd l, hd r] w2 = (Ok (hd l), w')" "union_post [hd l, hd r] w2 w'"
      using union_two [OF union_postD(1) [OF R(2)] live2] by (rule union_specE) simp
    have in1: "\<forall>x\<in>set sets. set_at w1 x \<subseteq> ?U" using union_post_within [OF L(2) sub(1)] by blast
    have in2: "\<forall>x\<in>set sets. set_at w2 x \<subseteq> ?U" using union_post_within [OF R(2) sub(2) in1] by blast
    have "set [hd l, hd r] \<subseteq> set sets" using hds by simp
    note in3 = union_post_within [OF A(2) this in2]
    have "?U \<subseteq> set_at w' (hd l)"
    proof
      fix e assume "e \<in> ?U"
      then obtain x where x: "x \<in> set l \<or> x \<in> set r" "e \<in> set_at w x" using h(5) by blast
      have "e \<in> set_at w2 (hd l) \<or> e \<in> set_at w2 (hd r)"
        using x(1)
      proof
        assume "x \<in> set l"
        then have "e \<in> set_at w1 (hd l)" using x(2) union_postD(8) [OF L(2)] by blast
        then show ?thesis using union_postD(5) [OF R(2)] by blast
      next
        assume "x \<in> set r"
        moreover have "e \<in> set_at w1 x" using x(2) union_postD(5) [OF L(2)] by blast
        ultimately show ?thesis using union_postD(8) [OF R(2)] by blast
      qed
      then show "e \<in> set_at w' (hd l)" using union_postD(8) [OF A(2)] by simp
    qed
    then have res: "set_at w' (hd sets) = ?U" using in3 [OF hds(1)] h(6) by simp
    have frame: "heap w' a = heap w a" if "a \<notin> set sets" for a
    proof -
      have "a \<notin> set l" "a \<notin> set r" "a \<notin> set [hd l, hd r]" using that sub hds by auto
      then show ?thesis
        using union_postD(7) [OF L(2)] union_postD(7) [OF R(2)] union_postD(7) [OF A(2)] by simp
    qed
    have "union_post sets w w'"
      unfolding union_post_def
      using res frame in3 union_postD(1-5) [OF A(2)] union_postD(2-5) [OF R(2)] union_postD(2-5) [OF L(2)]
      by (simp add: subset_trans) (meson subset_trans)
    then show ?thesis
      using A(1) L(1) R(1) h(6) True by (simp add: union_spec_def Union_more lr)
  qed
qed

end
