(* ===== verification/GoHeap.thy ===== *)
theory GoHeap
  imports Prelude
begin

text \<open>
  Go's \<open>container/heap\<close>, over a slice and the \<open>Less\<close> of the element type. Both eviction
  caches store in each entry its position in the slice; \<open>Swap\<close> keeps it up to date, so
  the operations take the function \<open>setix\<close> that writes it. The locale \<open>go_heap\<close> states
  what the package asks of \<open>Less\<close> and proves, once for all caches, that every
  operation keeps the heap order and the multiset of payloads, and that \<open>Pop\<close> takes a
  least element.
\<close>

definition parent :: "nat \<Rightarrow> nat" where
  "parent j = (j - 1) div 2"

definition heap_swap :: "(nat \<Rightarrow> 'a \<Rightarrow> 'a) \<Rightarrow> nat \<Rightarrow> nat \<Rightarrow> 'a list \<Rightarrow> 'a list" where
  "heap_swap setix i j xs = xs[i := setix i (xs ! j), j := setix j (xs ! i)]"

lemma length_heap_swap [simp]: "length (heap_swap setix i j xs) = length xs"
  by (simp add: heap_swap_def)

lemma heap_swap_nth:
  "i < length xs \<Longrightarrow> j < length xs \<Longrightarrow>
     heap_swap setix i j xs ! k =
       (if k = j then setix j (xs ! i) else if k = i then setix i (xs ! j) else xs ! k)"
  by (auto simp: heap_swap_def nth_list_update)

function heap_up :: "('a \<Rightarrow> 'a \<Rightarrow> bool) \<Rightarrow> (nat \<Rightarrow> 'a \<Rightarrow> 'a) \<Rightarrow> nat \<Rightarrow> 'a list \<Rightarrow> 'a list" where
  "heap_up lt setix j xs =
     (let i = parent j
      in if i = j \<or> \<not> lt (xs ! j) (xs ! i) then xs
         else heap_up lt setix i (heap_swap setix i j xs))"
  by pat_completeness auto
termination
  by (relation "measure (\<lambda>(lt, setix, j, xs). j)") (auto simp: parent_def)

text \<open>\<open>down\<close> also says where the element ended up (Go returns whether it moved).\<close>

function heap_down ::
    "('a \<Rightarrow> 'a \<Rightarrow> bool) \<Rightarrow> (nat \<Rightarrow> 'a \<Rightarrow> 'a) \<Rightarrow> nat \<Rightarrow> nat \<Rightarrow> 'a list \<Rightarrow> 'a list \<times> nat" where
  "heap_down lt setix n i xs =
     (let j1 = 2 * i + 1
      in if n \<le> j1 then (xs, i)
         else let j = (if j1 + 1 < n \<and> lt (xs ! (j1 + 1)) (xs ! j1) then j1 + 1 else j1)
              in if \<not> lt (xs ! j) (xs ! i) then (xs, i)
                 else heap_down lt setix n j (heap_swap setix i j xs))"
  by pat_completeness auto
termination
  by (relation "measure (\<lambda>(lt, setix, n, i, xs). n - i)") (auto split: if_splits)

declare heap_up.simps [simp del] heap_down.simps [simp del]

definition heap_push :: "('a \<Rightarrow> 'a \<Rightarrow> bool) \<Rightarrow> (nat \<Rightarrow> 'a \<Rightarrow> 'a) \<Rightarrow> 'a \<Rightarrow> 'a list \<Rightarrow> 'a list" where
  "heap_push lt setix x xs = heap_up lt setix (length xs) (xs @ [x])"

text \<open>\<open>Pop\<close> and \<open>Remove\<close> leave the element to take at the end; \<open>h.Pop()\<close> cuts it off.\<close>

definition heap_pop :: "('a \<Rightarrow> 'a \<Rightarrow> bool) \<Rightarrow> (nat \<Rightarrow> 'a \<Rightarrow> 'a) \<Rightarrow> 'a list \<Rightarrow> 'a \<times> 'a list" where
  "heap_pop lt setix xs =
     (let n = length xs - 1; ys = fst (heap_down lt setix n 0 (heap_swap setix 0 n xs))
      in (last ys, butlast ys))"

definition heap_fix :: "('a \<Rightarrow> 'a \<Rightarrow> bool) \<Rightarrow> (nat \<Rightarrow> 'a \<Rightarrow> 'a) \<Rightarrow> nat \<Rightarrow> nat \<Rightarrow> 'a list \<Rightarrow> 'a list" where
  "heap_fix lt setix n i xs =
     (let (ys, k) = heap_down lt setix n i xs
      in if i < k then ys else heap_up lt setix i ys)"

definition heap_remove :: "('a \<Rightarrow> 'a \<Rightarrow> bool) \<Rightarrow> (nat \<Rightarrow> 'a \<Rightarrow> 'a) \<Rightarrow> nat \<Rightarrow> 'a list \<Rightarrow> 'a \<times> 'a list" where
  "heap_remove lt setix i xs =
     (let n = length xs - 1;
          ys = (if n \<noteq> i then heap_fix lt setix n i (heap_swap setix i n xs) else xs)
      in (last ys, butlast ys))"

lemma length_heap_up [simp]: "length (heap_up lt setix j xs) = length xs"
  by (induction lt setix j xs rule: heap_up.induct) (subst heap_up.simps, simp add: Let_def)

lemma length_heap_down [simp]: "length (fst (heap_down lt setix n i xs)) = length xs"
  by (induction lt setix n i xs rule: heap_down.induct) (subst heap_down.simps, simp add: Let_def)

lemma heap_down_snd: "i \<le> snd (heap_down lt setix n i xs)"
proof (induction lt setix n i xs rule: heap_down.induct)
  case (1 lt setix n i xs)
  then show ?case
    by (subst heap_down.simps) (fastforce simp: Let_def split: if_splits)
qed

text \<open>\<open>down\<close> over the first \<open>n\<close> slots does not touch the others.\<close>

lemma heap_down_beyond:
  "i < n \<Longrightarrow> n \<le> length xs \<Longrightarrow> n \<le> k \<Longrightarrow> fst (heap_down lt setix n i xs) ! k = xs ! k"
proof (induction lt setix n i xs rule: heap_down.induct)
  case (1 lt setix n i xs)
  then show ?case
    by (subst heap_down.simps) (auto simp: Let_def heap_swap_nth)
qed

lemma heap_up_beyond: "j < length xs \<Longrightarrow> j < k \<Longrightarrow> heap_up lt setix j xs ! k = xs ! k"
proof (induction lt setix j xs rule: heap_up.induct)
  case (1 lt setix j xs)
  have "parent j \<le> j" by (simp add: parent_def)
  with 1 show ?case
    by (subst heap_up.simps) (auto simp: Let_def heap_swap_nth)
qed

lemma heap_fix_beyond:
  "i < n \<Longrightarrow> n \<le> length xs \<Longrightarrow> n \<le> k \<Longrightarrow> heap_fix lt setix n i xs ! k = xs ! k"
  by (simp add: heap_fix_def case_prod_beta heap_up_beyond heap_down_beyond)

lemma parent_less: "0 < j \<Longrightarrow> parent j < j"
  by (simp add: parent_def)

lemma parent_eq_iff: "parent j = j \<longleftrightarrow> j = 0"
  by (auto simp: parent_def)

lemma parent_child: "0 < k \<Longrightarrow> parent k = i \<longleftrightarrow> k = 2 * i + 1 \<or> k = 2 * i + 2"
  by (auto simp: parent_def)

locale go_heap =
  fixes lt :: "'a \<Rightarrow> 'a \<Rightarrow> bool" and setix :: "nat \<Rightarrow> 'a \<Rightarrow> 'a" and ix :: "'a \<Rightarrow> nat"
    and payload :: "'a \<Rightarrow> 'p"
  assumes lt_asym: "lt a b \<Longrightarrow> \<not> lt b a"
    and ge_trans: "\<not> lt b a \<Longrightarrow> \<not> lt c b \<Longrightarrow> \<not> lt c a"
    and lt_payload: "payload a = payload a' \<Longrightarrow> payload b = payload b' \<Longrightarrow> lt a b = lt a' b'"
    and payload_setix: "payload (setix i a) = payload a"
    and ix_setix: "ix (setix i a) = i"
begin

lemma lt_setix: "lt (setix i a) b = lt a b" "lt a (setix i b) = lt a b"
  by (rule lt_payload; simp add: payload_setix)+

text \<open>Heap order among the first \<open>n\<close> slots: no element is less than its parent.\<close>

definition heap_on :: "nat \<Rightarrow> 'a list \<Rightarrow> bool" where
  "heap_on n xs \<longleftrightarrow> (\<forall>k. 0 < k \<and> k < n \<longrightarrow> \<not> lt (xs ! k) (xs ! parent k))"

text \<open>The order with one slot \<open>j\<close> out of place: \<open>up\<close> starts and continues from such a slice.\<close>

definition up_ok :: "nat \<Rightarrow> nat \<Rightarrow> 'a list \<Rightarrow> bool" where
  "up_ok n j xs \<longleftrightarrow>
     (\<forall>k. 0 < k \<and> k < n \<and> k \<noteq> j \<longrightarrow> \<not> lt (xs ! k) (xs ! parent k)) \<and>
     (\<forall>k. 0 < k \<and> k < n \<and> parent k = j \<and> 0 < j \<longrightarrow> \<not> lt (xs ! k) (xs ! parent j))"

text \<open>The same for \<open>down\<close>: only the children of slot \<open>i\<close> may be less than it.\<close>

definition down_ok :: "nat \<Rightarrow> nat \<Rightarrow> 'a list \<Rightarrow> bool" where
  "down_ok n i xs \<longleftrightarrow>
     (\<forall>k. 0 < k \<and> k < n \<and> parent k \<noteq> i \<longrightarrow> \<not> lt (xs ! k) (xs ! parent k)) \<and>
     (\<forall>k. 0 < k \<and> k < n \<and> parent k = i \<and> 0 < i \<longrightarrow> \<not> lt (xs ! k) (xs ! parent i))"

lemma up_ok_swap:
  assumes "j < n" "n \<le> length xs" "up_ok n j xs" "0 < j" "lt (xs ! j) (xs ! parent j)"
  shows "up_ok n (parent j) (heap_swap setix (parent j) j xs)"
proof -
  let ?i = "parent j" and ?ys = "heap_swap setix (parent j) j xs"
  have ij: "?i < j" using assms(4) by (rule parent_less)
  have ys: "?ys ! k = (if k = j then setix j (xs ! ?i) else if k = ?i then setix ?i (xs ! j) else xs ! k)" for k
    using assms(1,2) ij by (intro heap_swap_nth) auto
  have le_ji: "\<not> lt (xs ! ?i) (xs ! j)" using assms(5) by (rule lt_asym)
  have A: "\<not> lt (xs ! k) (xs ! parent k)" if "0 < k" "k < n" "k \<noteq> j" for k
    using assms(3) that by (simp add: up_ok_def)
  have B: "\<not> lt (xs ! k) (xs ! ?i)" if "0 < k" "k < n" "parent k = j" for k
    using assms(3,4) that by (simp add: up_ok_def)
  have C: "\<not> lt (?ys ! k) (?ys ! parent k)" if k: "0 < k" "k < n" "k \<noteq> ?i" for k
  proof (cases "k = j")
    case True
    then show ?thesis using ij le_ji by (simp add: ys lt_setix)
  next
    case False
    then show ?thesis
      using A [OF k(1,2)] B [OF k(1,2)] k(3) ge_trans [OF le_ji, of "xs ! k"]
      by (auto simp: ys lt_setix)
  qed
  have D: "\<not> lt (?ys ! k) (?ys ! parent ?i)" if k: "0 < k" "k < n" "parent k = ?i" "0 < ?i" for k
  proof -
    have p: "parent ?i < ?i" "?i < n" using k(4) ij assms(1) by (auto intro: parent_less)
    then have i_ok: "\<not> lt (xs ! ?i) (xs ! parent ?i)" using A [of ?i] k(4) ij by simp
    have "\<not> lt (xs ! k) (xs ! parent ?i)" if "k \<noteq> j"
      using ge_trans [OF i_ok] A [OF k(1,2) that] k(3) by simp
    then show ?thesis using i_ok p ij k parent_less [OF k(1)] by (auto simp: ys lt_setix)
  qed
  show ?thesis using C D by (simp add: up_ok_def)
qed

lemma heap_up_heap_on:
  "j < n \<Longrightarrow> n \<le> length xs \<Longrightarrow> up_ok n j xs \<Longrightarrow> heap_on n (heap_up lt setix j xs)"
proof (induction "j" arbitrary: xs rule: less_induct)
  case (less j)
  show ?case
  proof (cases "j = 0 \<or> \<not> lt (xs ! j) (xs ! parent j)")
    case True
    then have "heap_up lt setix j xs = xs"
      by (subst heap_up.simps) (auto simp: Let_def parent_eq_iff)
    moreover have "heap_on n xs" using True less.prems(3) by (auto simp: heap_on_def up_ok_def)
    ultimately show ?thesis by simp
  next
    case False
    then have "heap_up lt setix j xs = heap_up lt setix (parent j) (heap_swap setix (parent j) j xs)"
      by (subst heap_up.simps) (simp add: Let_def parent_eq_iff)
    moreover have "parent j < j" using False by (simp add: parent_less)
    ultimately show ?thesis
      using less.IH [of "parent j" "heap_swap setix (parent j) j xs"] less.prems False
        up_ok_swap [OF less.prems] by simp
  qed
qed

text \<open>The child that \<open>down\<close> compares with: the lesser of the two, when there are two.\<close>

definition min_child :: "nat \<Rightarrow> nat \<Rightarrow> 'a list \<Rightarrow> nat" where
  "min_child n i xs =
     (if 2 * i + 2 < n \<and> lt (xs ! (2 * i + 2)) (xs ! (2 * i + 1)) then 2 * i + 2 else 2 * i + 1)"

lemma heap_down_unfold:
  "heap_down lt setix n i xs =
     (if n \<le> 2 * i + 1 \<or> \<not> lt (xs ! min_child n i xs) (xs ! i) then (xs, i)
      else heap_down lt setix n (min_child n i xs) (heap_swap setix i (min_child n i xs) xs))"
  by (subst heap_down.simps) (simp add: Let_def min_child_def)

lemma min_child_bounds:
  "2 * i + 1 < n \<Longrightarrow> i < min_child n i xs \<and> min_child n i xs < n \<and> parent (min_child n i xs) = i"
  by (auto simp: min_child_def parent_def)

lemma min_child_least:
  assumes "0 < k" "k < n" "parent k = i"
  shows "\<not> lt (xs ! k) (xs ! min_child n i xs)"
proof -
  have refl: "\<not> lt a a" for a using lt_asym [of a a] by blast
  have "k = 2 * i + 1 \<or> k = 2 * i + 2" using parent_child [OF assms(1)] assms(3) by blast
  then show ?thesis
  proof
    assume k: "k = 2 * i + 1"
    show ?thesis
    proof (cases "2 * i + 2 < n \<and> lt (xs ! (2 * i + 2)) (xs ! (2 * i + 1))")
      case True
      then show ?thesis using k lt_asym by (simp add: min_child_def)
    next
      case False
      then have "min_child n i xs = k" using k unfolding min_child_def by simp
      then show ?thesis using refl by simp
    qed
  next
    assume k: "k = 2 * i + 2"
    show ?thesis using assms(2) refl by (simp add: min_child_def k)
  qed
qed

lemma down_ok_swap:
  assumes "2 * i + 1 < n" "n \<le> length xs" "down_ok n i xs"
    and lt: "lt (xs ! min_child n i xs) (xs ! i)"
  shows "down_ok n (min_child n i xs) (heap_swap setix i (min_child n i xs) xs)"
proof -
  define j where "j = min_child n i xs"
  let ?ys = "heap_swap setix i j xs"
  have j: "i < j" "j < n" "parent j = i"
    using min_child_bounds [OF assms(1), of xs] by (simp_all add: j_def)
  have ys: "?ys ! k = (if k = j then setix j (xs ! i) else if k = i then setix i (xs ! j) else xs ! k)" for k
    using assms(2) j by (intro heap_swap_nth) auto
  have A: "\<not> lt (xs ! k) (xs ! parent k)" if "0 < k" "k < n" "parent k \<noteq> i" for k
    using assms(3) that by (simp add: down_ok_def)
  have B: "\<not> lt (xs ! k) (xs ! parent i)" if "0 < k" "k < n" "parent k = i" "0 < i" for k
    using assms(3) that by (simp add: down_ok_def)
  have C: "\<not> lt (?ys ! k) (?ys ! parent k)" if k: "0 < k" "k < n" "parent k \<noteq> j" for k
  proof -
    consider "k = i" | "k = j" | "k \<noteq> i" "k \<noteq> j" "parent k = i" | "k \<noteq> i" "k \<noteq> j" "parent k \<noteq> i"
      by blast
    then show ?thesis
    proof cases
      case 1
      then have "parent i < i" using k(1) by (simp add: parent_less)
      then show ?thesis using 1 B [of j] j k(1) by (simp add: ys lt_setix)
    next
      case 2
      have "\<not> lt (xs ! i) (xs ! j)" using lt_asym [OF lt] by (simp add: j_def)
      then show ?thesis using 2 j by (simp add: ys lt_setix)
    next
      case 3
      then have "\<not> lt (xs ! k) (xs ! j)"
        using min_child_least [OF k(1,2) 3(3), of xs] by (simp add: j_def)
      then show ?thesis using 3 j by (simp add: ys lt_setix)
    next
      case 4
      then show ?thesis using A [OF k(1,2) 4(3)] k(3) by (simp add: ys)
    qed
  qed
  have D: "\<not> lt (?ys ! k) (?ys ! parent j)" if k: "0 < k" "k < n" "parent k = j" for k
    using A [OF k(1,2)] k j parent_less [OF k(1)] by (simp add: ys lt_setix)
  show ?thesis using C D by (simp add: down_ok_def j_def)
qed

lemma down_ok_stop:
  assumes "down_ok n i xs" "n \<le> 2 * i + 1 \<or> \<not> lt (xs ! min_child n i xs) (xs ! i)"
  shows "heap_on n xs"
proof -
  have "\<not> lt (xs ! k) (xs ! i)" if k: "0 < k" "k < n" "parent k = i" for k
  proof -
    have "\<not> n \<le> 2 * i + 1" using k parent_child [OF k(1), of i] by auto
    then have "\<not> lt (xs ! min_child n i xs) (xs ! i)" using assms(2) by simp
    then show ?thesis using min_child_least [OF k, of xs] by (rule ge_trans)
  qed
  then show ?thesis using assms(1) by (auto simp: heap_on_def down_ok_def)
qed

lemma heap_down_heap_on:
  "n \<le> length xs \<Longrightarrow> down_ok n i xs \<Longrightarrow> heap_on n (fst (heap_down lt setix n i xs))"
proof (induction "n - i" arbitrary: i xs rule: less_induct)
  case less
  show ?case
  proof (cases "n \<le> 2 * i + 1 \<or> \<not> lt (xs ! min_child n i xs) (xs ! i)")
    case True
    then show ?thesis using down_ok_stop [OF less.prems(2) True] by (simp add: heap_down_unfold)
  next
    case False
    then have i: "2 * i + 1 < n" "lt (xs ! min_child n i xs) (xs ! i)" by auto
    let ?j = "min_child n i xs"
    have "n - ?j < n - i" using min_child_bounds [OF i(1), of xs] by linarith
    then have "heap_on n (fst (heap_down lt setix n ?j (heap_swap setix i ?j xs)))"
      using less.prems(1) down_ok_swap [OF i(1) less.prems i(2)] by (intro less.hyps) simp_all
    then show ?thesis using False by (subst heap_down_unfold) simp
  qed
qed

text \<open>
  \<open>Fix\<close> after slot \<open>i\<close> has been given any value: the rest of the slice is in order, and
  the children of \<open>i\<close> are not less than its parent.
\<close>

definition fix_ok :: "nat \<Rightarrow> nat \<Rightarrow> 'a list \<Rightarrow> bool" where
  "fix_ok n i xs \<longleftrightarrow>
     (\<forall>k. 0 < k \<and> k < n \<and> k \<noteq> i \<and> parent k \<noteq> i \<longrightarrow> \<not> lt (xs ! k) (xs ! parent k)) \<and>
     (\<forall>k. 0 < k \<and> k < n \<and> parent k = i \<and> 0 < i \<longrightarrow> \<not> lt (xs ! k) (xs ! parent i))"

lemma heap_fix_heap_on:
  assumes "i < n" "n \<le> length xs" "fix_ok n i xs"
  shows "heap_on n (heap_fix lt setix n i xs)"
proof (cases "n \<le> 2 * i + 1 \<or> \<not> lt (xs ! min_child n i xs) (xs ! i)")
  case True
  then have "heap_fix lt setix n i xs = heap_up lt setix i xs"
    by (simp add: heap_fix_def heap_down_unfold)
  moreover have "\<not> lt (xs ! k) (xs ! i)" if k: "0 < k" "k < n" "parent k = i" for k
  proof -
    have "\<not> lt (xs ! min_child n i xs) (xs ! i)" using True k parent_child [OF k(1), of i] by auto
    then show ?thesis using min_child_least [OF k, of xs] by (rule ge_trans)
  qed
  then have "up_ok n i xs" using assms(3) by (auto simp: up_ok_def fix_ok_def)
  ultimately show ?thesis using heap_up_heap_on [OF assms(1,2)] by simp
next
  case False
  let ?j = "min_child n i xs"
  have i: "2 * i + 1 < n" "lt (xs ! ?j) (xs ! i)" using False by auto
  note j = min_child_bounds [OF i(1), of xs]
  have "\<not> lt (xs ! i) (xs ! parent i)" if "0 < i"
  proof -
    have "\<not> lt (xs ! ?j) (xs ! parent i)" using assms(3) j that by (simp add: fix_ok_def)
    then show ?thesis using lt_asym [OF i(2)] by (rule ge_trans)
  qed
  then have "down_ok n i xs" using assms(1,3) by (auto simp: down_ok_def fix_ok_def)
  then have "heap_on n (fst (heap_down lt setix n i xs))" using assms(2) by (intro heap_down_heap_on)
  moreover have "i < snd (heap_down lt setix n i xs)"
  proof -
    have "?j \<le> snd (heap_down lt setix n ?j (heap_swap setix i ?j xs))" by (rule heap_down_snd)
    then show ?thesis using j False by (subst heap_down_unfold) simp
  qed
  ultimately show ?thesis by (simp add: heap_fix_def case_prod_beta)
qed

subsection \<open>Nothing is lost, and positions are recorded\<close>

definition idx_ok :: "'a list \<Rightarrow> bool" where
  "idx_ok xs \<longleftrightarrow> (\<forall>k<length xs. ix (xs ! k) = k)"

abbreviation payloads :: "'a list \<Rightarrow> 'p multiset" where
  "payloads xs \<equiv> mset (map payload xs)"

lemma payloads_swap:
  assumes "i < length xs" "j < length xs"
  shows "payloads (heap_swap setix i j xs) = payloads xs"
proof -
  have "map payload (heap_swap setix i j xs) =
      (map payload xs)[i := map payload xs ! j, j := map payload xs ! i]"
    using assms by (simp add: heap_swap_def map_update payload_setix)
  then show ?thesis using assms mset_swap [of j "map payload xs" i] by simp
qed

lemma idx_swap: "idx_ok xs \<Longrightarrow> i < length xs \<Longrightarrow> j < length xs \<Longrightarrow> idx_ok (heap_swap setix i j xs)"
  by (auto simp: idx_ok_def heap_swap_nth ix_setix)

lemma payloads_up: "j < length xs \<Longrightarrow> payloads (heap_up lt setix j xs) = payloads xs"
proof (induction j arbitrary: xs rule: less_induct)
  case (less j)
  show ?case
  proof (cases "j = 0 \<or> \<not> lt (xs ! j) (xs ! parent j)")
    case False
    then show ?thesis
      using less.IH [of "parent j"] less.prems parent_less [of j] payloads_swap [of "parent j" xs j]
      by (subst heap_up.simps) (simp add: Let_def parent_eq_iff)
  qed (subst heap_up.simps, auto simp: Let_def parent_eq_iff)
qed

lemma idx_up: "j < length xs \<Longrightarrow> idx_ok xs \<Longrightarrow> idx_ok (heap_up lt setix j xs)"
proof (induction j arbitrary: xs rule: less_induct)
  case (less j)
  show ?case
  proof (cases "j = 0 \<or> \<not> lt (xs ! j) (xs ! parent j)")
    case False
    then show ?thesis
      using less.IH [of "parent j"] less.prems parent_less [of j] idx_swap [of xs "parent j" j]
      by (subst heap_up.simps) (simp add: Let_def parent_eq_iff)
  qed (use less.prems in \<open>subst heap_up.simps, auto simp: Let_def parent_eq_iff\<close>)
qed

lemma payloads_down:
  "n \<le> length xs \<Longrightarrow> payloads (fst (heap_down lt setix n i xs)) = payloads xs"
proof (induction "n - i" arbitrary: i xs rule: less_induct)
  case less
  show ?case
  proof (cases "n \<le> 2 * i + 1 \<or> \<not> lt (xs ! min_child n i xs) (xs ! i)")
    case False
    then have i: "2 * i + 1 < n" by simp
    then show ?thesis
      using less.hyps [of "min_child n i xs"] less.prems min_child_bounds [OF i, of xs] False
        payloads_swap [of i xs "min_child n i xs"]
      by (subst heap_down_unfold) (simp add: diff_less_mono2)
  qed (simp add: heap_down_unfold)
qed

lemma idx_down: "n \<le> length xs \<Longrightarrow> idx_ok xs \<Longrightarrow> idx_ok (fst (heap_down lt setix n i xs))"
proof (induction "n - i" arbitrary: i xs rule: less_induct)
  case less
  show ?case
  proof (cases "n \<le> 2 * i + 1 \<or> \<not> lt (xs ! min_child n i xs) (xs ! i)")
    case False
    then have i: "2 * i + 1 < n" by simp
    then show ?thesis
      using less.hyps [of "min_child n i xs"] less.prems min_child_bounds [OF i, of xs] False
        idx_swap [of xs i "min_child n i xs"]
      by (subst heap_down_unfold) (simp add: diff_less_mono2)
  qed (use less.prems in \<open>simp add: heap_down_unfold\<close>)
qed

subsection \<open>The operations of the package\<close>

definition heap_ok :: "'a list \<Rightarrow> bool" where
  "heap_ok xs \<longleftrightarrow> heap_on (length xs) xs \<and> idx_ok xs"

lemma heap_ok_Nil [simp]: "heap_ok []"
  by (simp add: heap_ok_def heap_on_def idx_ok_def)

lemma heap_root_least:
  assumes "heap_on n xs" "k < n"
  shows "\<not> lt (xs ! k) (xs ! 0)"
  using assms(2)
proof (induction k rule: less_induct)
  case (less k)
  show ?case
  proof (cases "k = 0")
    case True
    then show ?thesis using lt_asym by blast
  next
    case False
    then have "\<not> lt (xs ! parent k) (xs ! 0)" using less parent_less [of k] by simp
    moreover have "\<not> lt (xs ! k) (xs ! parent k)" using False less.prems assms(1) by (simp add: heap_on_def)
    ultimately show ?thesis by (rule ge_trans)
  qed
qed

lemma heap_push_ok:
  assumes "heap_ok xs" "ix x = length xs"
  shows "heap_ok (heap_push lt setix x xs)" "payloads (heap_push lt setix x xs) = add_mset (payload x) (payloads xs)"
proof -
  let ?n = "length xs" and ?ys = "xs @ [x]"
  have p: "parent k < ?n" if "0 < k" "k < Suc ?n" for k using that parent_less [of k] by simp
  have "\<not> lt (?ys ! k) (?ys ! parent k)" if "0 < k" "k < ?n" for k
    using assms(1) that p [of k] by (simp add: heap_ok_def heap_on_def nth_append)
  moreover have "\<not> (0 < k \<and> k < Suc ?n \<and> parent k = ?n)" for k using p [of k] by auto
  ultimately have "up_ok (Suc ?n) ?n ?ys"
    unfolding up_ok_def by (metis less_antisym)
  then have "heap_on (Suc ?n) (heap_up lt setix ?n ?ys)" by (intro heap_up_heap_on) auto
  moreover have "idx_ok (heap_up lt setix ?n ?ys)"
    using assms by (intro idx_up) (auto simp: heap_ok_def idx_ok_def nth_append less_Suc_eq)
  ultimately show "heap_ok (heap_push lt setix x xs)" by (simp add: heap_ok_def heap_push_def)
  show "payloads (heap_push lt setix x xs) = add_mset (payload x) (payloads xs)"
    using payloads_up [of ?n ?ys] by (simp add: heap_push_def)
qed

lemma heap_on_cong: "heap_on n xs \<Longrightarrow> (\<And>k. k < n \<Longrightarrow> payload (ys ! k) = payload (xs ! k)) \<Longrightarrow> heap_on n ys"
  unfolding heap_on_def by (metis lt_payload order.strict_trans parent_less)

lemma heap_on_butlast: "heap_on (length xs - 1) xs \<Longrightarrow> heap_on (length (butlast xs)) (butlast xs)"
  by (rule heap_on_cong) (simp_all add: nth_butlast)

lemma cut_last:
  assumes "xs \<noteq> []" "heap_on (length xs - 1) xs" "idx_ok xs"
  shows "heap_ok (butlast xs)" "add_mset (payload (last xs)) (payloads (butlast xs)) = payloads xs"
proof -
  show "heap_ok (butlast xs)"
    using assms heap_on_butlast [of xs] by (auto simp: heap_ok_def idx_ok_def nth_butlast)
  have "payloads xs = payloads (butlast xs @ [last xs])" using assms(1) by simp
  then show "add_mset (payload (last xs)) (payloads (butlast xs)) = payloads xs"
    by (simp del: append_butlast_last_id)
qed

lemma heap_fix_facts:
  assumes "i < n" "n \<le> length xs"
  shows "length (heap_fix lt setix n i xs) = length xs"
    and "payloads (heap_fix lt setix n i xs) = payloads xs"
    and "idx_ok xs \<Longrightarrow> idx_ok (heap_fix lt setix n i xs)"
  using assms payloads_down [of n xs i] idx_down [of n xs i]
    payloads_up [of i "fst (heap_down lt setix n i xs)"] idx_up [of i "fst (heap_down lt setix n i xs)"]
  by (auto simp: heap_fix_def case_prod_beta)

lemma heap_fix_ok:
  assumes "heap_ok xs" "i < length xs" "ix x = i"
  shows "heap_ok (heap_fix lt setix (length xs) i (xs[i := x]))"
    "payloads (heap_fix lt setix (length xs) i (xs[i := x])) = payloads (xs[i := x])"
proof -
  have "fix_ok (length xs) i (xs[i := x])"
  proof -
    have h: "\<not> lt (xs ! k) (xs ! parent k)" if "0 < k" "k < length xs" for k
      using that assms(1) by (simp add: heap_ok_def heap_on_def)
    have "\<not> lt (xs[i := x] ! k) (xs[i := x] ! parent i)"
      if "0 < k" "k < length xs" "parent k = i" "0 < i" for k
      using ge_trans [OF h [OF that(4) assms(2)], of "xs ! k"] h [of k] that parent_less [of k] parent_less [of i]
      by simp
    then show ?thesis using h by (auto simp: fix_ok_def)
  qed
  then have "heap_on (length xs) (heap_fix lt setix (length xs) i (xs[i := x]))"
    using assms(2) by (intro heap_fix_heap_on) auto
  moreover have "idx_ok (xs[i := x])" using assms by (auto simp: heap_ok_def idx_ok_def nth_list_update)
  ultimately show "heap_ok (heap_fix lt setix (length xs) i (xs[i := x]))"
    using assms(2) heap_fix_facts [of i "length xs" "xs[i := x]"] by (simp add: heap_ok_def)
  show "payloads (heap_fix lt setix (length xs) i (xs[i := x])) = payloads (xs[i := x])"
    using assms(2) heap_fix_facts(2) [of i "length xs" "xs[i := x]"] by simp
qed

lemma heap_pop_ok:
  assumes "heap_ok xs" "xs \<noteq> []"
  shows "heap_ok (snd (heap_pop lt setix xs))"
    and "add_mset (payload (fst (heap_pop lt setix xs))) (payloads (snd (heap_pop lt setix xs))) = payloads xs"
    and "payload (fst (heap_pop lt setix xs)) = payload (xs ! 0)"
proof -
  define n ys0 where n: "n = length xs - 1" and ys0: "ys0 = heap_swap setix 0 n xs"
  define ys where "ys = fst (heap_down lt setix n 0 ys0)"
  have len: "0 < length xs" "n < length xs" "length ys = length xs" "length ys0 = length xs"
    using assms(2) by (simp_all add: n ys_def ys0)
  then have ne: "ys \<noteq> []" by auto
  have idx: "idx_ok ys"
    using assms(1) len unfolding ys_def ys0 by (intro idx_down idx_swap) (auto simp: heap_ok_def)
  have nth0: "ys0 ! k = (if k = n then setix n (xs ! 0) else if k = 0 then setix 0 (xs ! n) else xs ! k)" for k
    unfolding ys0 using len by (intro heap_swap_nth) auto
  have "\<not> lt (ys0 ! k) (ys0 ! parent k)" if k: "0 < k" "k < n" "parent k \<noteq> 0" for k
  proof -
    have "parent k < n" using parent_less [OF k(1)] k(2) by simp
    then have "ys0 ! k = xs ! k" "ys0 ! parent k = xs ! parent k" using k nth0 by auto
    then show ?thesis using assms(1) k len(2) by (simp add: heap_ok_def heap_on_def)
  qed
  then have "down_ok n 0 ys0" by (simp add: down_ok_def)
  then have "heap_on n ys" using len unfolding ys_def by (intro heap_down_heap_on) auto
  moreover have "payloads ys = payloads xs"
    using payloads_down [of n ys0 0] payloads_swap [of 0 xs n] len by (simp add: ys_def ys0)
  moreover have "ys ! n = ys0 ! n"
  proof (cases "n = 0")
    case True
    have "heap_down lt setix 0 0 ys0 = (ys0, 0)" by (subst heap_down_unfold) simp
    then show ?thesis using True by (simp add: ys_def)
  next
    case False
    then show ?thesis using heap_down_beyond [of 0 n ys0 n] len by (simp add: ys_def)
  qed
  then have "last ys = setix n (xs ! 0)"
    using len nth0 ne by (simp add: last_conv_nth n)
  moreover have "heap_pop lt setix xs = (last ys, butlast ys)"
    by (simp add: heap_pop_def Let_def ys_def ys0 n)
  ultimately show "heap_ok (snd (heap_pop lt setix xs))"
    "add_mset (payload (fst (heap_pop lt setix xs))) (payloads (snd (heap_pop lt setix xs))) = payloads xs"
    "payload (fst (heap_pop lt setix xs)) = payload (xs ! 0)"
    using cut_last [OF ne] len idx by (simp_all add: n payload_setix)
qed

text \<open>No element that stays is less than the one \<open>Pop\<close> takes.\<close>

lemma heap_pop_least:
  assumes "heap_ok xs" "xs \<noteq> []" "y \<in> set (snd (heap_pop lt setix xs))"
  shows "\<not> lt y (fst (heap_pop lt setix xs))"
proof -
  have "payload y \<in># payloads xs"
  proof -
    have "payload y \<in># payloads (snd (heap_pop lt setix xs))" using assms(3) by simp
    then have "payload y \<in># add_mset (payload (fst (heap_pop lt setix xs))) (payloads (snd (heap_pop lt setix xs)))"
      by simp
    then show ?thesis by (simp only: heap_pop_ok(2) [OF assms(1,2)])
  qed
  then obtain k where k: "k < length xs" "payload (xs ! k) = payload y"
    by (auto simp: in_set_conv_nth)
  have "\<not> lt (xs ! k) (xs ! 0)"
    using assms(1) k(1) by (intro heap_root_least) (auto simp: heap_ok_def)
  then show ?thesis
    using lt_payload [OF k(2) [symmetric] heap_pop_ok(3) [OF assms(1,2)]] by simp
qed

lemma heap_remove_ok:
  assumes "heap_ok xs" "i < length xs"
  shows "heap_ok (snd (heap_remove lt setix i xs))"
    and "add_mset (payload (fst (heap_remove lt setix i xs))) (payloads (snd (heap_remove lt setix i xs))) = payloads xs"
    and "payload (fst (heap_remove lt setix i xs)) = payload (xs ! i)"
proof -
  define n where n: "n = length xs - 1"
  define ys0 where ys0: "ys0 = heap_swap setix i n xs"
  define ys where "ys = (if n \<noteq> i then heap_fix lt setix n i ys0 else xs)"
  have len: "n < length xs" "i \<le> n" "length ys0 = length xs" using assms(2) by (auto simp: n ys0)
  have nth0: "ys0 ! k = (if k = n then setix n (xs ! i) else if k = i then setix i (xs ! n) else xs ! k)" for k
    unfolding ys0 using assms(2) len by (intro heap_swap_nth) auto
  have h: "\<not> lt (xs ! k) (xs ! parent k)" if "0 < k" "k < length xs" for k
    using that assms(1) by (simp add: heap_ok_def heap_on_def)
  have hn: "heap_on n ys \<and> length ys = length xs \<and> idx_ok ys \<and> payloads ys = payloads xs \<and>
      payload (ys ! n) = payload (xs ! i)"
  proof (cases "n = i")
    case True
    then show ?thesis using assms by (auto simp: ys_def heap_ok_def heap_on_def n)
  next
    case False
    then have i: "i < n" using len by simp
    have "\<not> lt (ys0 ! k) (ys0 ! parent k)" if "0 < k" "k < n" "k \<noteq> i" "parent k \<noteq> i" for k
      using that h [of k] parent_less [of k] len nth0 by simp
    moreover have "\<not> lt (ys0 ! k) (ys0 ! parent i)" if "0 < k" "k < n" "parent k = i" "0 < i" for k
      using ge_trans [OF h [OF that(4) assms(2)], of "xs ! k"] h [of k] that parent_less [of k]
        parent_less [of i] len nth0 by simp
    ultimately have "heap_on n (heap_fix lt setix n i ys0)"
      using i len by (intro heap_fix_heap_on) (auto simp: fix_ok_def)
    moreover have "idx_ok ys0" using assms len unfolding ys0 by (intro idx_swap) (auto simp: heap_ok_def)
    moreover have "payloads ys0 = payloads xs" using payloads_swap assms(2) len(1) by (simp add: ys0)
    ultimately show ?thesis
      using heap_fix_facts [of i n ys0] heap_fix_beyond [of i n ys0 n] nth0 i len False
      by (simp add: ys_def payload_setix)
  qed
  then have ne: "ys \<noteq> []" using assms(2) by auto
  then have "last ys = ys ! n" using hn by (simp add: last_conv_nth n)
  moreover have "heap_remove lt setix i xs = (last ys, butlast ys)"
    by (simp add: heap_remove_def Let_def ys_def ys0 n)
  ultimately show "heap_ok (snd (heap_remove lt setix i xs))"
    "add_mset (payload (fst (heap_remove lt setix i xs))) (payloads (snd (heap_remove lt setix i xs))) = payloads xs"
    "payload (fst (heap_remove lt setix i xs)) = payload (xs ! i)"
    using cut_last [OF ne] hn by (simp_all add: n)
qed

end

end
