(* ===== verification/Eviction.thy ===== *)
theory Eviction
  imports GoHeap
begin

text \<open>
  The two eviction caches (\<open>internal/eviction\<close>): heaps of entries, one entry per key for
  the LFU cache, ordered by access count; for the LRU cache ordered by access time. The
  slice of entries holds pointers, and \<open>Flush\<close> sets each of them to nil without
  shortening the slice, so a slot is an option and an operation that meets a nil slot
  panics. The milliseconds \<open>time.Now().UnixMilli()\<close> are an argument \<open>now\<close>.
\<close>

text \<open>
  \<open>slices.IndexFunc(entries, key matches)\<close>: the scan dereferences every slot up to the
  first match.
\<close>

fun find_entry :: "('e \<Rightarrow> bool) \<Rightarrow> 'e option list \<Rightarrow> nat option res" where
  "find_entry P [] = Ok None"
| "find_entry P (None # es) = Panic nil_deref"
| "find_entry P (Some e # es) = (if P e then Ok (Some 0) else map_res (map_option Suc) (find_entry P es))"

text \<open>
  A heap operation compares and swaps slots. In every state the caches reach, either no slot is nil,
  or all are (after \<open>Flush\<close>) and then the first comparison or swap panics.
\<close>

definition on_entries :: "'e option list \<Rightarrow> ('e list \<Rightarrow> 'b res) \<Rightarrow> 'b res" where
  "on_entries es f = (case those es of None \<Rightarrow> Panic nil_deref | Some xs \<Rightarrow> f xs)"

lemma those_map_Some [simp]: "those (map Some xs) = Some xs"
  by (induction xs) auto

lemma those_SomeD: "those es = Some xs \<Longrightarrow> es = map Some xs"
  by (induction es arbitrary: xs) (auto split: option.splits)

lemma on_entries_map [simp]: "on_entries (map Some xs) f = f xs"
  by (simp add: on_entries_def)

lemma on_entries_nil: "None \<in> set es \<Longrightarrow> on_entries es f = Panic nil_deref"
  by (cases "those es") (auto simp: on_entries_def dest: those_SomeD)

lemma find_entry_map:
  "find_entry P (map Some xs) =
     Ok (if \<exists>x\<in>set xs. P x then Some (nat (index_func P xs)) else None)"
proof (induction xs)
  case (Cons x xs)
  have i: "(\<exists>y\<in>set xs. P y) \<longleftrightarrow> 0 \<le> index_func P xs"
    using index_func_neg_iff [of P xs] by (meson linorder_not_less)
  show ?case
    using Cons.IH by (cases "P x") (simp_all add: i Let_def nat_add_distrib)
qed simp

lemma find_entry_nil: "None \<in> set es \<Longrightarrow> set es \<subseteq> {None} \<Longrightarrow> find_entry P es = Panic nil_deref"
  by (cases es) auto

subsection \<open>The LFU cache\<close>

record entry_lfu =
  lfu_key :: string
  lfu_count :: int
  lfu_added :: int
  lfu_index :: nat

record cache_lfu =
  lfu_keys :: "(string, bool) gomap"
  lfu_entries :: "entry_lfu option list"

definition NewCacheLFU :: cache_lfu where
  "NewCacheLFU = \<lparr>lfu_keys = [], lfu_entries = []\<rparr>"

definition LFU_Less :: "entry_lfu \<Rightarrow> entry_lfu \<Rightarrow> bool" where
  "LFU_Less a b =
     (if lfu_count a = lfu_count b then lfu_added b < lfu_added a else lfu_count a < lfu_count b)"

definition LFU_setix :: "nat \<Rightarrow> entry_lfu \<Rightarrow> entry_lfu" where
  "LFU_setix i e = e\<lparr>lfu_index := i\<rparr>"

definition LFU_GetCount :: "string \<Rightarrow> cache_lfu \<Rightarrow> int res" where
  "LFU_GetCount key c =
     (case find_entry (\<lambda>e. lfu_key e = key) (lfu_entries c) of
        Ok (Some i) \<Rightarrow> Ok (lfu_count (the (lfu_entries c ! i)))
      | Ok None \<Rightarrow> Err (''Key: '' @ key @ '' does not exist.'')
      | Panic p \<Rightarrow> Panic p
      | _ \<Rightarrow> Panic nil_deref)"

definition LFU_Flush :: "cache_lfu \<Rightarrow> cache_lfu" where
  "LFU_Flush c = \<lparr>lfu_keys = [], lfu_entries = map (\<lambda>_. None) (lfu_entries c)\<rparr>"

definition LFU_Len :: "cache_lfu \<Rightarrow> nat" where
  "LFU_Len c = length (lfu_entries c)"

definition LFU_contains :: "string \<Rightarrow> cache_lfu \<Rightarrow> bool" where
  "LFU_contains key c \<longleftrightarrow> map_of (lfu_keys c) key \<noteq> None"

text \<open>\<open>heap.Push(cache, key)\<close>: append an entry with count 1, record the key, sift up.\<close>

definition LFU_HeapPush :: "int \<Rightarrow> string \<Rightarrow> cache_lfu \<Rightarrow> cache_lfu res" where
  "LFU_HeapPush now key c =
     on_entries (lfu_entries c) (\<lambda>es.
       let e = \<lparr>lfu_key = key, lfu_count = 1, lfu_added = now, lfu_index = length es\<rparr>
       in Ok \<lparr>lfu_keys = AList.update key True (lfu_keys c),
              lfu_entries = map Some (heap_push LFU_Less LFU_setix e es)\<rparr>)"

text \<open>\<open>heap.Pop(cache)\<close>; the slice has no slot -1.\<close>

definition LFU_HeapPop :: "cache_lfu \<Rightarrow> (string \<times> cache_lfu) res" where
  "LFU_HeapPop c =
     on_entries (lfu_entries c) (\<lambda>es.
       if es = [] then Panic index_out_of_range
       else let (e, es') = heap_pop LFU_Less LFU_setix es
            in Ok (lfu_key e, \<lparr>lfu_keys = AList.delete (lfu_key e) (lfu_keys c),
                               lfu_entries = map Some es'\<rparr>))"

definition LFU_Update :: "int \<Rightarrow> string \<Rightarrow> cache_lfu \<Rightarrow> cache_lfu res" where
  "LFU_Update now key c =
     (if \<not> LFU_contains key c then LFU_HeapPush now key c
      else case find_entry (\<lambda>e. lfu_key e = key) (lfu_entries c) of
             Ok (Some i) \<Rightarrow>
               on_entries (lfu_entries c) (\<lambda>es.
                 let e = es ! i
                 in Ok (c\<lparr>lfu_entries := map Some (heap_fix LFU_Less LFU_setix (length es) i
                          (es[i := e\<lparr>lfu_count := lfu_count e + 1\<rparr>]))\<rparr>))
           | Ok None \<Rightarrow> Panic index_out_of_range
           | _ \<Rightarrow> Panic nil_deref)"

definition LFU_Delete :: "string \<Rightarrow> cache_lfu \<Rightarrow> cache_lfu res" where
  "LFU_Delete key c =
     (case find_entry (\<lambda>e. lfu_key e = key) (lfu_entries c) of
        Ok (Some i) \<Rightarrow>
          on_entries (lfu_entries c) (\<lambda>es.
            let (e, es') = heap_remove LFU_Less LFU_setix (lfu_index (es ! i)) es
            in Ok \<lparr>lfu_keys = AList.delete (lfu_key e) (lfu_keys c), lfu_entries = map Some es'\<rparr>)
      | Ok None \<Rightarrow> Ok c
      | _ \<Rightarrow> Panic nil_deref)"

subsection \<open>The LRU cache\<close>

record entry_lru =
  lru_key :: string
  lru_time :: int
  lru_index :: nat

record cache_lru =
  lru_keys :: "(string, bool) gomap"
  lru_entries :: "entry_lru option list"

definition NewCacheLRU :: cache_lru where
  "NewCacheLRU = \<lparr>lru_keys = [], lru_entries = []\<rparr>"

definition LRU_Less :: "entry_lru \<Rightarrow> entry_lru \<Rightarrow> bool" where
  "LRU_Less a b \<longleftrightarrow> lru_time b < lru_time a"

definition LRU_setix :: "nat \<Rightarrow> entry_lru \<Rightarrow> entry_lru" where
  "LRU_setix i e = e\<lparr>lru_index := i\<rparr>"

definition LRU_GetTime :: "string \<Rightarrow> cache_lru \<Rightarrow> int res" where
  "LRU_GetTime key c =
     (case find_entry (\<lambda>e. lru_key e = key) (lru_entries c) of
        Ok (Some i) \<Rightarrow> Ok (lru_time (the (lru_entries c ! i)))
      | Ok None \<Rightarrow> Err (''Error: key '' @ key @ '' does not exist.'')
      | Panic p \<Rightarrow> Panic p
      | _ \<Rightarrow> Panic nil_deref)"

definition LRU_Flush :: "cache_lru \<Rightarrow> cache_lru" where
  "LRU_Flush c = \<lparr>lru_keys = [], lru_entries = map (\<lambda>_. None) (lru_entries c)\<rparr>"

definition LRU_Len :: "cache_lru \<Rightarrow> nat" where
  "LRU_Len c = length (lru_entries c)"

definition LRU_contains :: "string \<Rightarrow> cache_lru \<Rightarrow> bool" where
  "LRU_contains key c \<longleftrightarrow> map_of (lru_keys c) key \<noteq> None"

text \<open>\<open>heap.Push(cache, key)\<close>: unlike the LFU cache's, this \<open>Push\<close> does not record the key.\<close>

definition LRU_HeapPush :: "int \<Rightarrow> string \<Rightarrow> cache_lru \<Rightarrow> cache_lru res" where
  "LRU_HeapPush now key c =
     on_entries (lru_entries c) (\<lambda>es.
       let e = \<lparr>lru_key = key, lru_time = now, lru_index = length es\<rparr>
       in Ok (c\<lparr>lru_entries := map Some (heap_push LRU_Less LRU_setix e es)\<rparr>))"

definition LRU_HeapPop :: "cache_lru \<Rightarrow> (string \<times> cache_lru) res" where
  "LRU_HeapPop c =
     on_entries (lru_entries c) (\<lambda>es.
       if es = [] then Panic index_out_of_range
       else let (e, es') = heap_pop LRU_Less LRU_setix es
            in Ok (lru_key e, \<lparr>lru_keys = AList.delete (lru_key e) (lru_keys c),
                               lru_entries = map Some es'\<rparr>))"

text \<open>
  \<open>Update\<close> goes on after the push: it finds the first entry of the key, gives it the
  current time and restores the order.
\<close>

definition LRU_touch :: "int \<Rightarrow> string \<Rightarrow> cache_lru \<Rightarrow> cache_lru res" where
  "LRU_touch now key c =
     (case find_entry (\<lambda>e. lru_key e = key) (lru_entries c) of
        Ok (Some i) \<Rightarrow>
          on_entries (lru_entries c) (\<lambda>es.
            Ok (c\<lparr>lru_entries := map Some (heap_fix LRU_Less LRU_setix (length es) i
                    (es[i := (es ! i)\<lparr>lru_time := now\<rparr>]))\<rparr>))
      | Ok None \<Rightarrow> Panic index_out_of_range
      | _ \<Rightarrow> Panic nil_deref)"

definition LRU_Update :: "int \<Rightarrow> int \<Rightarrow> string \<Rightarrow> cache_lru \<Rightarrow> cache_lru res" where
  "LRU_Update now1 now2 key c =
     (if LRU_contains key c then LRU_touch now2 key c
      else case LRU_HeapPush now1 key c of
             Ok c1 \<Rightarrow> LRU_touch now2 key c1
           | Err e \<Rightarrow> Err e
           | Panic p \<Rightarrow> Panic p
           | Diverge \<Rightarrow> Diverge)"

definition LRU_Delete :: "string \<Rightarrow> cache_lru \<Rightarrow> cache_lru res" where
  "LRU_Delete key c =
     (case find_entry (\<lambda>e. lru_key e = key) (lru_entries c) of
        Ok (Some i) \<Rightarrow>
          on_entries (lru_entries c) (\<lambda>es.
            let (e, es') = heap_remove LRU_Less LRU_setix (lru_index (es ! i)) es
            in Ok \<lparr>lru_keys = AList.delete (lru_key e) (lru_keys c), lru_entries = map Some es'\<rparr>)
      | Ok None \<Rightarrow> Ok c
      | _ \<Rightarrow> Panic nil_deref)"

subsection \<open>Both caches are heaps\<close>

definition LFU_payload :: "entry_lfu \<Rightarrow> string \<times> int \<times> int" where
  "LFU_payload e = (lfu_key e, lfu_count e, lfu_added e)"

definition LRU_payload :: "entry_lru \<Rightarrow> string \<times> int" where
  "LRU_payload e = (lru_key e, lru_time e)"

interpretation lfu: go_heap LFU_Less LFU_setix lfu_index LFU_payload
  by unfold_locales (auto simp: LFU_Less_def LFU_setix_def LFU_payload_def split: if_splits)

interpretation lru: go_heap LRU_Less LRU_setix lru_index LRU_payload
  by unfold_locales (auto simp: LRU_Less_def LRU_setix_def LRU_payload_def)

text \<open>The entries, of a cache without nil slots.\<close>

definition slots :: "'e option list \<Rightarrow> 'e list" where
  "slots es = map the es"

lemma slots_map_Some [simp]: "slots (map Some es) = es"
  by (simp add: slots_def comp_def)

text \<open>
  The state of a cache between flushes: no nil slot, a heap with recorded positions, and
  for the LFU cache one entry per recorded key.
\<close>

definition lfu_inv :: "cache_lfu \<Rightarrow> bool" where
  "lfu_inv c \<longleftrightarrow>
     (\<exists>es. lfu_entries c = map Some es \<and> lfu.heap_ok es \<and> distinct (map lfu_key es) \<and>
        dom (map_of (lfu_keys c)) = set (map lfu_key es))"

definition lru_inv :: "cache_lru \<Rightarrow> bool" where
  "lru_inv c \<longleftrightarrow> (\<exists>es. lru_entries c = map Some es \<and> lru.heap_ok es \<and> lru_keys c = [])"

lemma lfu_inv_new [inv_intros]: "lfu_inv NewCacheLFU"
  by (simp add: lfu_inv_def NewCacheLFU_def)

lemma lru_inv_new [inv_intros]: "lru_inv NewCacheLRU"
  by (simp add: lru_inv_def NewCacheLRU_def)

text \<open>The keys of a heap are determined by its payloads.\<close>

lemma lfu_keys_payloads: "mset (map lfu_key es) = image_mset fst (lfu.payloads es)"
  by (simp add: LFU_payload_def multiset.map_comp comp_def)

lemma lru_keys_payloads: "mset (map lru_key es) = image_mset fst (lru.payloads es)"
  by (simp add: LRU_payload_def multiset.map_comp comp_def)

lemma distinct_mset_map: "mset (map f xs) = mset (map f ys) \<Longrightarrow> distinct (map f xs) = distinct (map f ys)"
  by (rule mset_eq_imp_distinct_iff)

lemma set_mset_map: "mset (map f xs) = mset (map f ys) \<Longrightarrow> set (map f xs) = set (map f ys)"
  by (rule mset_eq_setD)

lemma lfu_push_inv:
  assumes "lfu_inv c" "map_of (lfu_keys c) key = None"
  shows "\<exists>c'. LFU_HeapPush now key c = Ok c' \<and> lfu_inv c'"
proof -
  obtain es where es: "lfu_entries c = map Some es" "lfu.heap_ok es" "distinct (map lfu_key es)"
    "dom (map_of (lfu_keys c)) = set (map lfu_key es)"
    using assms(1) by (auto simp: lfu_inv_def)
  let ?e = "\<lparr>lfu_key = key, lfu_count = 1, lfu_added = now, lfu_index = length es\<rparr>"
  let ?es = "heap_push LFU_Less LFU_setix ?e es"
  have ok: "lfu.heap_ok ?es" "lfu.payloads ?es = add_mset (LFU_payload ?e) (lfu.payloads es)"
    using lfu.heap_push_ok [OF es(2), of ?e] by simp_all
  have keys: "mset (map lfu_key ?es) = mset (map lfu_key (?e # es))"
    unfolding lfu_keys_payloads ok(2) by (simp add: LFU_payload_def)
  have new: "key \<notin> set (map lfu_key es)" using es(4) assms(2) by (metis domIff)
  have "distinct (map lfu_key ?es)" "set (map lfu_key ?es) = insert key (set (map lfu_key es))"
    using distinct_mset_map [OF keys] set_mset_map [OF keys] es(3) new by simp_all
  then show ?thesis
    using es ok(1) by (simp add: LFU_HeapPush_def lfu_inv_def)
qed

lemma find_key:
  assumes "k \<in> set (map f es)"
  obtains i where "find_entry (\<lambda>e. f e = k) (map Some es) = Ok (Some i)" "i < length es" "f (es ! i) = k"
proof -
  have "\<exists>x\<in>set es. f x = k" using assms by auto
  moreover from this have "0 \<le> index_func (\<lambda>e. f e = k) es"
    using index_func_neg_iff [of "\<lambda>e. f e = k" es] by force
  ultimately show ?thesis
    using that index_func_nth [of "\<lambda>e. f e = k" es] by (simp add: find_entry_map)
qed

lemma find_no_key: "k \<notin> set (map f es) \<Longrightarrow> find_entry (\<lambda>e. f e = k) (map Some es) = Ok None"
  by (auto simp: find_entry_map)

lemma lfu_bump_inv:
  assumes "lfu_inv c" "map_of (lfu_keys c) key \<noteq> None"
  shows "\<exists>c'. LFU_Update now key c = Ok c' \<and> lfu_inv c'"
proof -
  obtain es where es: "lfu_entries c = map Some es" "lfu.heap_ok es" "distinct (map lfu_key es)"
    "dom (map_of (lfu_keys c)) = set (map lfu_key es)"
    using assms(1) by (auto simp: lfu_inv_def)
  have "key \<in> set (map lfu_key es)" using assms(2) es(4) by (metis domIff)
  then obtain i where i: "find_entry (\<lambda>e. lfu_key e = key) (map Some es) = Ok (Some i)"
    "i < length es" "lfu_key (es ! i) = key" by (rule find_key)
  let ?e = "(es ! i)\<lparr>lfu_count := lfu_count (es ! i) + 1\<rparr>"
  let ?es = "heap_fix LFU_Less LFU_setix (length es) i (es[i := ?e])"
  have "lfu_index (es ! i) = i" using es(2) i(2) by (simp add: lfu.heap_ok_def lfu.idx_ok_def)
  then have ok: "lfu.heap_ok ?es" "lfu.payloads ?es = lfu.payloads (es[i := ?e])"
    using lfu.heap_fix_ok [OF es(2) i(2), of ?e] by simp_all
  have "map lfu_key (es[i := ?e]) = map lfu_key es"
    using i(2) by (simp add: map_update list_update_same_conv)
  then have keys: "mset (map lfu_key ?es) = mset (map lfu_key es)"
    unfolding lfu_keys_payloads ok(2) by (metis lfu_keys_payloads)
  have "LFU_Update now key c = Ok (c\<lparr>lfu_entries := map Some ?es\<rparr>)"
    using assms(2) i es(1) by (simp add: LFU_Update_def LFU_contains_def Let_def)
  then show ?thesis
    using es ok(1) distinct_mset_map [OF keys] set_mset_map [OF keys] by (simp add: lfu_inv_def)
qed

lemma LFU_Update_inv: "lfu_inv c \<Longrightarrow> \<exists>c'. LFU_Update now key c = Ok c' \<and> lfu_inv c'"
  using lfu_push_inv [of c key now] lfu_bump_inv [of c key now]
  by (cases "map_of (lfu_keys c) key") (auto simp: LFU_Update_def LFU_contains_def)

text \<open>What is left of the entries after taking one out, for both caches.\<close>

lemma lfu_taken:
  assumes "lfu_inv c" "lfu_entries c = map Some es"
    and ok: "lfu.heap_ok es'" "add_mset (LFU_payload e) (lfu.payloads es') = lfu.payloads es"
  shows "lfu_inv \<lparr>lfu_keys = AList.delete (lfu_key e) (lfu_keys c), lfu_entries = map Some es'\<rparr>"
proof -
  have es: "distinct (map lfu_key es)" "dom (map_of (lfu_keys c)) = set (map lfu_key es)"
    using assms(1,2) by (auto simp: lfu_inv_def inj_map_eq_map)
  have keys: "mset (map lfu_key (e # es')) = mset (map lfu_key es)"
    unfolding lfu_keys_payloads ok(2) [symmetric] by (simp add: LFU_payload_def)
  have "distinct (map lfu_key (e # es'))" "set (map lfu_key (e # es')) = set (map lfu_key es)"
    using distinct_mset_map [OF keys] set_mset_map [OF keys] es(1) by simp_all
  then have "distinct (map lfu_key es')" "dom (map_of (lfu_keys c)) - {lfu_key e} = set (map lfu_key es')"
    unfolding es(2) by (simp, simp del: set_map) (metis Diff_insert_absorb)
  then show ?thesis using ok(1) by (simp add: lfu_inv_def)
qed

lemma LFU_Delete_inv:
  assumes "lfu_inv c"
  shows "\<exists>c'. LFU_Delete key c = Ok c' \<and> lfu_inv c' \<and>
           dom (map_of (lfu_keys c')) = dom (map_of (lfu_keys c)) - {key}"
proof -
  obtain es where es: "lfu_entries c = map Some es" "lfu.heap_ok es"
    "dom (map_of (lfu_keys c)) = set (map lfu_key es)"
    using assms by (auto simp: lfu_inv_def)
  show ?thesis
  proof (cases "key \<in> set (map lfu_key es)")
    case False
    then show ?thesis using find_no_key [OF False] es(1,3) assms by (simp add: LFU_Delete_def)
  next
    case True
    then obtain i where i: "find_entry (\<lambda>e. lfu_key e = key) (map Some es) = Ok (Some i)"
      "i < length es" "lfu_key (es ! i) = key" by (rule find_key)
    have ix: "lfu_index (es ! i) = i" using es(2) i(2) by (simp add: lfu.heap_ok_def lfu.idx_ok_def)
    let ?r = "heap_remove LFU_Less LFU_setix i es"
    note rm = lfu.heap_remove_ok [OF es(2) i(2)]
    have "lfu_key (fst ?r) = key" using rm(3) i(3) by (simp add: LFU_payload_def)
    moreover have "LFU_Delete key c = Ok \<lparr>lfu_keys = AList.delete (lfu_key (fst ?r)) (lfu_keys c),
        lfu_entries = map Some (snd ?r)\<rparr>"
      using i es(1) ix by (simp add: LFU_Delete_def case_prod_beta)
    ultimately show ?thesis using lfu_taken [OF assms es(1) rm(1,2)] by simp
  qed
qed

lemma lfu_inv_card: "lfu_inv c \<Longrightarrow> LFU_Len c = card (dom (map_of (lfu_keys c)))"
proof -
  assume "lfu_inv c"
  then obtain es where "lfu_entries c = map Some es" "distinct (map lfu_key es)"
    "dom (map_of (lfu_keys c)) = set (map lfu_key es)" by (auto simp: lfu_inv_def)
  then show ?thesis using distinct_card [of "map lfu_key es"] by (simp add: LFU_Len_def)
qed

text \<open>
  \<open>Pop\<close> on a cache with entries returns a key, keeps the invariant, and no entry that
  stays has a smaller count, nor the same count and a later time of addition.
\<close>

lemma LFU_HeapPop_spec:
  assumes "lfu_inv c" "lfu_entries c \<noteq> []"
  shows "\<exists>e c'. LFU_HeapPop c = Ok (lfu_key e, c') \<and> lfu_inv c' \<and>
     LFU_payload e \<in> set (map LFU_payload (slots (lfu_entries c))) \<and>
     dom (map_of (lfu_keys c')) = dom (map_of (lfu_keys c)) - {lfu_key e} \<and>
     (\<forall>x. Some x \<in> set (lfu_entries c') \<longrightarrow> \<not> LFU_Less x e)"
proof -
  obtain es where es: "lfu_entries c = map Some es" "lfu.heap_ok es"
    using assms(1) by (auto simp: lfu_inv_def)
  then have ne: "es \<noteq> []" using assms(2) by auto
  let ?r = "heap_pop LFU_Less LFU_setix es"
  note pop = lfu.heap_pop_ok [OF es(2) ne]
  have "LFU_HeapPop c = Ok (lfu_key (fst ?r), \<lparr>lfu_keys = AList.delete (lfu_key (fst ?r)) (lfu_keys c),
      lfu_entries = map Some (snd ?r)\<rparr>)"
    using es(1) ne by (simp add: LFU_HeapPop_def case_prod_beta)
  moreover have "\<forall>x\<in>set (snd ?r). \<not> LFU_Less x (fst ?r)"
    using lfu.heap_pop_least [OF es(2) ne] by blast
  moreover have "LFU_payload (fst ?r) \<in># lfu.payloads es" by (metis pop(2) union_single_eq_member)
  ultimately show ?thesis
    using lfu_taken [OF assms(1) es(1) pop(1,2)] es(1) by auto
qed

lemma LRU_touch_spec:
  assumes "lru_inv c" "key \<in> set (map lru_key (slots (lru_entries c)))"
  shows "\<exists>c'. LRU_touch now key c = Ok c' \<and> lru_inv c' \<and>
     mset (map lru_key (slots (lru_entries c'))) = mset (map lru_key (slots (lru_entries c))) \<and>
     (key, now) \<in> set (map LRU_payload (slots (lru_entries c')))"
proof -
  obtain es where es: "lru_entries c = map Some es" "lru.heap_ok es" "lru_keys c = []"
    using assms(1) by (auto simp: lru_inv_def)
  have "key \<in> set (map lru_key es)" using assms(2) es(1) by simp
  then obtain i where i: "find_entry (\<lambda>e. lru_key e = key) (map Some es) = Ok (Some i)"
    "i < length es" "lru_key (es ! i) = key" by (rule find_key)
  let ?e = "(es ! i)\<lparr>lru_time := now\<rparr>"
  let ?es = "heap_fix LRU_Less LRU_setix (length es) i (es[i := ?e])"
  have "lru_index (es ! i) = i" using es(2) i(2) by (simp add: lru.heap_ok_def lru.idx_ok_def)
  then have ok: "lru.heap_ok ?es" "lru.payloads ?es = lru.payloads (es[i := ?e])"
    using lru.heap_fix_ok [OF es(2) i(2), of ?e] by simp_all
  have "map lru_key (es[i := ?e]) = map lru_key es"
    using i(2) by (simp add: map_update list_update_same_conv)
  then have keys: "mset (map lru_key ?es) = mset (map lru_key es)"
    unfolding lru_keys_payloads ok(2) by (metis lru_keys_payloads)
  have "LRU_payload ?e \<in># lru.payloads ?es"
    unfolding ok(2) using set_update_memI [OF i(2), of ?e] by simp
  then have "(key, now) \<in> set (map LRU_payload ?es)" using i(3) by (simp add: LRU_payload_def)
  moreover have "LRU_touch now key c = Ok (c\<lparr>lru_entries := map Some ?es\<rparr>)"
    using i es(1) by (simp add: LRU_touch_def)
  ultimately show ?thesis using es ok(1) keys by (simp add: lru_inv_def)
qed

text \<open>
  Every update of the LRU cache adds one more entry of the key, because \<open>Push\<close> does not
  record the key in the map that \<open>contains\<close> reads.
\<close>

lemma LRU_Update_spec:
  assumes "lru_inv c"
  shows "\<exists>c'. LRU_Update now1 now2 key c = Ok c' \<and> lru_inv c' \<and>
     mset (map lru_key (slots (lru_entries c'))) =
       add_mset key (mset (map lru_key (slots (lru_entries c))))"
proof -
  obtain es where es: "lru_entries c = map Some es" "lru.heap_ok es" "lru_keys c = []"
    using assms(1) by (auto simp: lru_inv_def)
  let ?e = "\<lparr>lru_key = key, lru_time = now1, lru_index = length es\<rparr>"
  let ?es = "heap_push LRU_Less LRU_setix ?e es"
  let ?c1 = "c\<lparr>lru_entries := map Some ?es\<rparr>"
  have ok: "lru.heap_ok ?es" "lru.payloads ?es = add_mset (LRU_payload ?e) (lru.payloads es)"
    using lru.heap_push_ok [OF es(2), of ?e] by simp_all
  have keys: "mset (map lru_key ?es) = add_mset key (mset (map lru_key es))"
    unfolding lru_keys_payloads ok(2) by (simp add: LRU_payload_def)
  have inv1: "lru_inv ?c1" using ok(1) es(3) by (simp add: lru_inv_def)
  have "key \<in># mset (map lru_key ?es)" unfolding keys by simp
  then have "key \<in> set (map lru_key (slots (lru_entries ?c1)))" by simp
  from LRU_touch_spec [OF inv1 this, of now2] obtain c' where
    c': "LRU_touch now2 key ?c1 = Ok c'" "lru_inv c'"
      "mset (map lru_key (slots (lru_entries c'))) = mset (map lru_key (slots (lru_entries ?c1)))"
    by blast
  have "LRU_Update now1 now2 key c = Ok c'"
    using es c'(1) by (simp add: LRU_Update_def LRU_contains_def LRU_HeapPush_def Let_def)
  then show ?thesis using c'(2,3) keys es(1) by simp
qed

lemma LRU_HeapPop_spec:
  assumes "lru_inv c" "lru_entries c \<noteq> []"
  shows "\<exists>e c'. LRU_HeapPop c = Ok (lru_key e, c') \<and> lru_inv c' \<and>
     LRU_payload e \<in> set (map LRU_payload (slots (lru_entries c))) \<and>
     mset (map lru_key (slots (lru_entries c))) =
       add_mset (lru_key e) (mset (map lru_key (slots (lru_entries c')))) \<and>
     (\<forall>x. Some x \<in> set (lru_entries c') \<longrightarrow> lru_time x \<le> lru_time e)"
proof -
  obtain es where es: "lru_entries c = map Some es" "lru.heap_ok es" "lru_keys c = []"
    using assms(1) by (auto simp: lru_inv_def)
  then have ne: "es \<noteq> []" using assms(2) by auto
  let ?r = "heap_pop LRU_Less LRU_setix es"
  note pop = lru.heap_pop_ok [OF es(2) ne]
  have "LRU_HeapPop c = Ok (lru_key (fst ?r), \<lparr>lru_keys = [], lru_entries = map Some (snd ?r)\<rparr>)"
    using es(1,3) ne by (simp add: LRU_HeapPop_def case_prod_beta)
  moreover have "\<forall>x\<in>set (snd ?r). lru_time x \<le> lru_time (fst ?r)"
    using lru.heap_pop_least [OF es(2) ne] by (force simp: LRU_Less_def)
  moreover have "LRU_payload (fst ?r) \<in># lru.payloads es" by (metis pop(2) union_single_eq_member)
  moreover have "mset (map lru_key es) = add_mset (lru_key (fst ?r)) (mset (map lru_key (snd ?r)))"
    unfolding lru_keys_payloads pop(2) [symmetric] by (simp add: LRU_payload_def)
  ultimately show ?thesis
    using pop(1) es(1) by (intro exI [of _ "fst ?r"] exI conjI) (auto simp: lru_inv_def)
qed

lemma LRU_Delete_inv:
  assumes "lru_inv c"
  shows "\<exists>c'. LRU_Delete key c = Ok c' \<and> lru_inv c' \<and> LRU_Len c' \<le> LRU_Len c"
proof -
  obtain es where es: "lru_entries c = map Some es" "lru.heap_ok es" "lru_keys c = []"
    using assms by (auto simp: lru_inv_def)
  show ?thesis
  proof (cases "key \<in> set (map lru_key es)")
    case False
    then show ?thesis using find_no_key [OF False] es(1) assms by (simp add: LRU_Delete_def)
  next
    case True
    then obtain i where i: "find_entry (\<lambda>e. lru_key e = key) (map Some es) = Ok (Some i)"
      "i < length es" "lru_key (es ! i) = key" by (rule find_key)
    have "lru_index (es ! i) = i" using es(2) i(2) by (simp add: lru.heap_ok_def lru.idx_ok_def)
    note rm = lru.heap_remove_ok [OF es(2) i(2)]
    have "length (snd (heap_remove LRU_Less LRU_setix i es)) \<le> length es"
      using arg_cong [OF rm(2), of size] by simp
    with \<open>lru_index (es ! i) = i\<close> show ?thesis
      using i es rm(1) by (simp add: LRU_Delete_def lru_inv_def case_prod_beta LRU_Len_def)
  qed
qed

subsection \<open>After a flush\<close>

text \<open>\<open>clear\<close> on the slice of entries leaves nil slots behind, and the caches never recover.\<close>

lemma LFU_flush_panics:
  assumes "lfu_entries c \<noteq> []"
  shows "LFU_Update now key (LFU_Flush c) = Panic nil_deref"
    and "LFU_Delete key (LFU_Flush c) = Panic nil_deref"
    and "LFU_GetCount key (LFU_Flush c) = Panic nil_deref"
    and "LFU_HeapPop (LFU_Flush c) = Panic nil_deref"
  using assms by (cases "lfu_entries c";
    simp add: LFU_Flush_def LFU_Update_def LFU_contains_def LFU_HeapPush_def LFU_Delete_def
      LFU_GetCount_def LFU_HeapPop_def on_entries_def)+

lemma LRU_flush_panics:
  assumes "lru_entries c \<noteq> []"
  shows "LRU_Update now1 now2 key (LRU_Flush c) = Panic nil_deref"
    and "LRU_Delete key (LRU_Flush c) = Panic nil_deref"
    and "LRU_GetTime key (LRU_Flush c) = Panic nil_deref"
    and "LRU_HeapPop (LRU_Flush c) = Panic nil_deref"
  using assms by (cases "lru_entries c";
    simp add: LRU_Flush_def LRU_Update_def LRU_contains_def LRU_HeapPush_def LRU_Delete_def
      LRU_GetTime_def LRU_HeapPop_def on_entries_def)+

end
