(* ===== verification/Keyspace.thy ===== *)
theory Keyspace
  imports SetData Eviction
begin

text \<open>
  The keyspace (\<open>sugardb/keyspace.go\<close>): the store of the logical databases, the memory
  counter, the list of volatile keys and the eviction caches of each database, and the
  functions through which handlers reach them. A function runs under the store lock, so it is
  one step; a goroutine it starts is recorded as a task that runs later. In cluster mode a
  deletion goes to the raft library, whose answer is the environment's (\<open>raft_apply\<close>).
\<close>

subsection \<open>The server\<close>

record config =
  MaxMemory :: int
  EvictionPolicy :: string
  EvictionSample :: int
  BootstrapCluster :: bool
  JoinAddr :: string
  ConfigServerID :: string
  ForwardCommand :: bool

datatype apply_request =
    DeleteKeyRequest string int int string \<comment> \<open>server id, protocol, database, key\<close>
  | CommandRequest string string int int "string list" \<comment> \<open>server id, connection id, protocol, database, command\<close>

datatype task =
    UpdateKeys ctx "string list" \<comment> \<open>one call of \<open>updateKeysInCache\<close>\<close>
  | UpdateEach ctx "string list" \<comment> \<open>one call for each key\<close>

type_synonym saved_state = "(int, (string, keydata) gomap) gomap"

record server =
  config :: config
  store :: "(int, (string, keydata) gomap) gomap"
  memUsed :: int
  keysWithExpiry :: "(int, string list) gomap"
  lfuCache :: "(int, cache_lfu) gomap"
  lruCache :: "(int, cache_lru) gomap"
  tcpClients :: "(nat option, conn_info) gomap"
  embedded :: conn_info
  clockNow :: int \<comment> \<open>\<open>server.clock.Now()\<close>, nanoseconds\<close>
  wallMillis :: int \<comment> \<open>\<open>time.Now().UnixMilli()\<close>\<close>
  changeCount :: int \<comment> \<open>the snapshot engine's count of changes\<close>
  raftLeader :: bool
  raft_apply :: "apply_request list \<Rightarrow> apply_request \<Rightarrow> string res"
  raftLog :: "apply_request list"
  forwarded :: "(int \<times> string) list" \<comment> \<open>\<open>memberList.ForwardDeleteKey\<close>\<close>
  tasks :: "task list"
  acl :: acl
  pubSub :: pubsub
  commands :: "command_info list"
  libs :: libs
  forwardedCommands :: "string list" \<comment> \<open>\<open>memberList.ForwardDataMutation\<close>\<close>
  appendStore :: append_store
  preambleFile :: "saved_state option option" \<comment> \<open>None without a file, Some None when it is empty\<close>
  manifestFile :: "(int \<times> string) option option" \<comment> \<open>time and hash of the latest snapshot; Some None when it is empty\<close>
  snapshotFiles :: "(int, saved_state \<times> int) gomap" \<comment> \<open>the snapshots by their time\<close>
  md5_sum :: "saved_state \<times> int \<Rightarrow> string" \<comment> \<open>of the JSON text\<close>
  snapshotInProgress :: bool
  rewriteAOFInProgress :: bool
  stateCopyInProgress :: bool
  stateMutationInProgress :: bool
  latestSnapshotMilliseconds :: int
  snapshotsStarted :: int
  connId :: int

type_synonym sworld = "server world"

definition upd :: "(server \<Rightarrow> server) \<Rightarrow> sworld \<Rightarrow> sworld" where
  "upd f w = w\<lparr>srv := f (srv w)\<rparr>"

text \<open>Reading \<open>store[database]\<close>; a missing database reads as an empty map.\<close>

definition db_of :: "server \<Rightarrow> int \<Rightarrow> (string, keydata) gomap" where
  "db_of s d = (case map_of (store s) d of None \<Rightarrow> [] | Some m \<Rightarrow> m)"

definition lookup_key :: "server \<Rightarrow> int \<Rightarrow> string \<Rightarrow> keydata option" where
  "lookup_key s d k = map_of (db_of s d) k"

definition put_key :: "int \<Rightarrow> string \<Rightarrow> keydata \<Rightarrow> server \<Rightarrow> server" where
  "put_key d k v s = s\<lparr>store := AList.update d (AList.update k v (db_of s d)) (store s)\<rparr>"

text \<open>\<open>delete(server.store[database], key)\<close>: deleting from a nil map does nothing.\<close>

definition drop_key :: "int \<Rightarrow> string \<Rightarrow> server \<Rightarrow> server" where
  "drop_key d k s =
     (case map_of (store s) d of
        None \<Rightarrow> s
      | Some m \<Rightarrow> s\<lparr>store := AList.update d (AList.delete k m) (store s)\<rparr>)"

definition volatile_keys :: "server \<Rightarrow> int \<Rightarrow> string list" where
  "volatile_keys s d = (case map_of (keysWithExpiry s) d of None \<Rightarrow> [] | Some ks \<Rightarrow> ks)"

definition isInCluster :: "server \<Rightarrow> bool" where
  "isInCluster s \<longleftrightarrow> BootstrapCluster (config s) \<or> JoinAddr (config s) \<noteq> ''''"

definition NoEviction :: string where "NoEviction = ''noeviction''"
definition AllKeysLRU :: string where "AllKeysLRU = ''allkeys-lru''"
definition AllKeysLFU :: string where "AllKeysLFU = ''allkeys-lfu''"
definition VolatileLRU :: string where "VolatileLRU = ''volatile-lru''"
definition VolatileLFU :: string where "VolatileLFU = ''volatile-lfu''"
definition AllKeysRandom :: string where "AllKeysRandom = ''allkeys-random''"
definition VolatileRandom :: string where "VolatileRandom = ''volatile-random''"

definition IsMaxMemoryExceeded :: "int \<Rightarrow> int \<Rightarrow> bool" where
  "IsMaxMemoryExceeded used limit \<longleftrightarrow> limit \<noteq> 0 \<and> limit \<le> u64 used"

subsection \<open>Databases\<close>

definition createDatabase :: "int \<Rightarrow> server \<Rightarrow> server" where
  "createDatabase d s =
     s\<lparr>store := AList.update d [] (store s),
       keysWithExpiry := AList.update d [] (keysWithExpiry s),
       lfuCache := AList.update d NewCacheLFU (lfuCache s),
       lruCache := AList.update d NewCacheLRU (lruCache s)\<rparr>"

definition ensure_db :: "int \<Rightarrow> server \<Rightarrow> server" where
  "ensure_db d s = (if map_of (store s) d = None then createDatabase d s else s)"

text \<open>\<open>SwapDBs\<close>: the clients of each database move to the other one.\<close>

definition swap_info :: "int \<Rightarrow> int \<Rightarrow> conn_info \<Rightarrow> conn_info" where
  "swap_info d1 d2 i =
     (if ConnDatabase i = d1 then i\<lparr>ConnDatabase := d2\<rparr>
      else if ConnDatabase i = d2 then i\<lparr>ConnDatabase := d1\<rparr>
      else i)"

definition SwapDBs :: "int \<Rightarrow> int \<Rightarrow> server \<Rightarrow> server" where
  "SwapDBs d1 d2 s =
     (if d1 = d2 then s
      else let s1 = ensure_db d2 (ensure_db d1 s)
           in s1\<lparr>tcpClients := map (\<lambda>(c, i). (c, swap_info d1 d2 i)) (tcpClients s1)\<rparr>)"

text \<open>
  \<open>Flush\<close> of one database: a database without caches makes the access to their mutex panic.
\<close>

definition flush_db :: "int \<Rightarrow> server \<Rightarrow> unit res \<times> server" where
  "flush_db d s =
     (let s1 = (if map_of (store s) d = None then s else s\<lparr>store := AList.update d [] (store s)\<rparr>);
          s2 = (case map_of (keysWithExpiry s1) d of
                  None \<Rightarrow> s1
                | Some ks \<Rightarrow> s1\<lparr>keysWithExpiry := AList.update d (map (\<lambda>_. []) ks) (keysWithExpiry s1)\<rparr>)
      in case map_of (lfuCache s2) d of
           None \<Rightarrow> (Panic nil_deref, s2)
         | Some c \<Rightarrow>
             (let s3 = s2\<lparr>lfuCache := AList.update d (LFU_Flush c) (lfuCache s2)\<rparr>
              in case map_of (lruCache s3) d of
                   None \<Rightarrow> (Panic nil_deref, s3)
                 | Some c' \<Rightarrow> (Ok (), s3\<lparr>lruCache := AList.update d (LRU_Flush c') (lruCache s3)\<rparr>)))"

fun flush_all :: "int list \<Rightarrow> sworld \<Rightarrow> unit res \<times> sworld" where
  "flush_all [] w = (Ok (), w)"
| "flush_all (d # ds) w =
     (let (r, s) = flush_db d (srv w)
      in and_then (r, w\<lparr>srv := s\<rparr>) (\<lambda>_ w1. flush_all ds w1))"

definition Flush :: "int \<Rightarrow> sworld \<Rightarrow> unit res \<times> sworld" where
  "Flush d w =
     (if d = -1
      then let (ds, w1) = go_range (gm_keys (store (srv w))) w in flush_all ds w1
      else flush_all [d] w)"

subsection \<open>Reading\<close>

definition keysExist :: "ctx \<Rightarrow> string list \<Rightarrow> sworld \<Rightarrow> (string, bool) gomap" where
  "keysExist cx ks w =
     fold (\<lambda>k m. AList.update k (lookup_key (srv w) (Database cx) k \<noteq> None) m) ks []"

definition getExpiry :: "ctx \<Rightarrow> string \<Rightarrow> sworld \<Rightarrow> gotime" where
  "getExpiry cx k w =
     (case lookup_key (srv w) (Database cx) k of None \<Rightarrow> None | Some e \<Rightarrow> ExpireAt e)"

definition expired :: "server \<Rightarrow> keydata \<Rightarrow> bool" where
  "expired s e = (case ExpireAt e of None \<Rightarrow> False | Some t \<Rightarrow> t < clockNow s)"

subsection \<open>Deleting\<close>

definition zero_keydata :: keydata where
  "zero_keydata = \<lparr>Value = VNil, ExpireAt = None\<rparr>"

text \<open>The cache of the database forgets the key, under the LFU or LRU policies only.\<close>

definition cache_delete :: "int \<Rightarrow> string \<Rightarrow> server \<Rightarrow> unit res \<times> server" where
  "cache_delete d k s =
     (if EvictionPolicy (config s) \<in> {AllKeysLFU, VolatileLFU}
      then (case map_of (lfuCache s) d of
              None \<Rightarrow> (Panic nil_deref, s)
            | Some c \<Rightarrow>
                (case LFU_Delete k c of
                   Ok c' \<Rightarrow> (Ok (), s\<lparr>lfuCache := AList.update d c' (lfuCache s)\<rparr>)
                 | _ \<Rightarrow> (Panic nil_deref, s)))
      else if EvictionPolicy (config s) \<in> {AllKeysLRU, VolatileLRU}
      then (case map_of (lruCache s) d of
              None \<Rightarrow> (Panic nil_deref, s)
            | Some c \<Rightarrow>
                (case LRU_Delete k c of
                   Ok c' \<Rightarrow> (Ok (), s\<lparr>lruCache := AList.update d c' (lruCache s)\<rparr>)
                 | _ \<Rightarrow> (Panic nil_deref, s)))
      else (Ok (), s))"

definition deleteKey :: "ctx \<Rightarrow> string \<Rightarrow> sworld \<Rightarrow> unit res \<times> sworld" where
  "deleteKey cx k w =
     (let d = Database cx;
          data = (case lookup_key (srv w) d k of None \<Rightarrow> zero_keydata | Some e \<Rightarrow> e)
      in and_then (KeyData_GetMem (heap w) data, w) (\<lambda>mem w.
           let s = srv w;
               s1 = s\<lparr>memUsed := i64 (memUsed s - mem - sizeof_string - int (length k))\<rparr>;
               s2 = drop_key d k s1;
               s3 = s2\<lparr>keysWithExpiry :=
                       AList.update d (filter (\<lambda>x. x \<noteq> k) (volatile_keys s2 d)) (keysWithExpiry s2)\<rparr>;
               (r, s4) = cache_delete d k s3
           in (r, w\<lparr>srv := s4\<rparr>)))"

definition raftApplyDeleteKey :: "ctx \<Rightarrow> string \<Rightarrow> sworld \<Rightarrow> unit res \<times> sworld" where
  "raftApplyDeleteKey cx k w =
     (let req = DeleteKeyRequest (ServerID cx) (Protocol cx) (Database cx) k; s = srv w
      in (map_res (\<lambda>_. ()) (raft_apply s (raftLog s) req), w\<lparr>srv := s\<lparr>raftLog := raftLog s @ [req]\<rparr>\<rparr>))"

subsection \<open>Reading values\<close>

text \<open>
  One key of \<open>getValues\<close>: a key past its expiry reads as nil and is deleted, or its
  deletion is sent to the cluster; an error of that is only logged.
\<close>

definition read_key :: "ctx \<Rightarrow> string \<Rightarrow> sworld \<Rightarrow> go_value res \<times> sworld" where
  "read_key cx k w =
     (case lookup_key (srv w) (Database cx) k of
        None \<Rightarrow> (Ok VNil, w)
      | Some e \<Rightarrow>
          if \<not> expired (srv w) e then (Ok (Value e), w)
          else
            (let (r, w1) =
               (if \<not> isInCluster (srv w) then deleteKey cx k w
                else if raftLeader (srv w) then raftApplyDeleteKey cx k w
                else (Ok (), upd (\<lambda>s. s\<lparr>forwarded := forwarded s @ [(Database cx, k)]\<rparr>) w))
             in (case r of
                   Ok _ \<Rightarrow> (Ok VNil, w1)
                 | Err _ \<Rightarrow> (Ok VNil, w1)
                 | Panic p \<Rightarrow> (Panic p, w1)
                 | Diverge \<Rightarrow> (Diverge, w1))))"

fun read_keys :: "ctx \<Rightarrow> string list \<Rightarrow> (string, go_value) gomap \<Rightarrow> sworld \<Rightarrow>
    (string, go_value) gomap res \<times> sworld" where
  "read_keys cx [] m w = (Ok m, w)"
| "read_keys cx (k # ks) m w =
     and_then (read_key cx k w) (\<lambda>v w1. read_keys cx ks (AList.update k v m) w1)"

definition getValues :: "ctx \<Rightarrow> string list \<Rightarrow> sworld \<Rightarrow> (string, go_value) gomap res \<times> sworld" where
  "getValues cx ks w =
     and_then (read_keys cx ks [] w) (\<lambda>m w1.
       (Ok m, upd (\<lambda>s. s\<lparr>tasks := tasks s @ [UpdateKeys cx ks]\<rparr>) w1))"

subsection \<open>Writing values\<close>

text \<open>
  One entry of \<open>setValues\<close>: the expiry time of the key is kept, the memory of the new
  entry is added to the counter, and in standalone mode the change is counted.
\<close>

definition write_key :: "ctx \<Rightarrow> string \<Rightarrow> go_value \<Rightarrow> sworld \<Rightarrow> unit res \<times> sworld" where
  "write_key cx k v w =
     (let d = Database cx; s = srv w;
          ex = (case lookup_key s d k of None \<Rightarrow> None | Some e \<Rightarrow> ExpireAt e);
          data = \<lparr>Value = v, ExpireAt = ex\<rparr>;
          s1 = put_key d k data s
      in and_then (KeyData_GetMem (heap w) data, w\<lparr>srv := s1\<rparr>) (\<lambda>mem w1.
           (Ok (), upd (\<lambda>s. s\<lparr>memUsed := i64 (memUsed s + mem + sizeof_string + int (length k)),
                              changeCount := changeCount s + (if isInCluster s then 0 else 1)\<rparr>) w1)))"

fun write_keys :: "ctx \<Rightarrow> (string, go_value) gomap \<Rightarrow> sworld \<Rightarrow> unit res \<times> sworld" where
  "write_keys cx [] w = (Ok (), w)"
| "write_keys cx ((k, v) # es) w = and_then (write_key cx k v w) (\<lambda>_ w1. write_keys cx es w1)"

definition max_memory_error :: string where
  "max_memory_error = ''max memory reached, key value not set''"

definition setValues :: "ctx \<Rightarrow> (string, go_value) gomap \<Rightarrow> sworld \<Rightarrow> unit res \<times> sworld" where
  "setValues cx entries w =
     (let s = srv w
      in if IsMaxMemoryExceeded (memUsed s) (MaxMemory (config s)) \<and> EvictionPolicy (config s) = NoEviction
         then (Err max_memory_error, w)
         else let w1 = upd (ensure_db (Database cx)) w; (es, w2) = go_range entries w1
              in and_then (write_keys cx es w2) (\<lambda>_ w3.
                   (Ok (), upd (\<lambda>s. s\<lparr>tasks := tasks s @ [UpdateEach cx (gm_keys entries)]\<rparr>) w3)))"

definition setExpiry :: "ctx \<Rightarrow> string \<Rightarrow> gotime \<Rightarrow> bool \<Rightarrow> sworld \<Rightarrow> unit res \<times> sworld" where
  "setExpiry cx k t touch w =
     (let d = Database cx; s = srv w
      in if map_of (store s) d = None then (Panic nil_map_write, w)
         else
           let v = (case lookup_key s d k of None \<Rightarrow> VNil | Some e \<Rightarrow> Value e);
               s1 = put_key d k \<lparr>Value = v, ExpireAt = t\<rparr> s;
               ks = volatile_keys s1 d;
               s2 = (if k \<in> set ks then s1
                     else s1\<lparr>keysWithExpiry := AList.update d (ks @ [k]) (keysWithExpiry s1)\<rparr>);
               s3 = (if touch then s2\<lparr>tasks := tasks s2 @ [UpdateKeys cx [k]]\<rparr> else s2)
           in (Ok (), w\<lparr>srv := s3\<rparr>))"

end
