(* ===== verification/KeyspaceInv.thy ===== *)
theory KeyspaceInv
  imports Keyspace
begin

text \<open>
  What the keyspace functions keep true between the store, the volatile keys and the
  caches, and what each of them does to the key it is given. The invariant is
  established by \<open>createDatabase\<close> and kept by every function except \<open>Flush\<close> of a
  database whose caches are not empty (see \<open>LFU_flush_panics\<close>).
\<close>

subsection \<open>Frame equations\<close>

lemma upd_simps [simp]:
  "srv (upd f w) = f (srv w)" "heap (upd f w) = heap w"
  "next_addr (upd f w) = next_addr w" "coins (upd f w) = coins w"
  by (simp_all add: upd_def)

lemma db_of_put [simp]:
  "db_of (put_key d k v s) d' = (if d' = d then AList.update k v (db_of s d) else db_of s d')"
  by (simp add: db_of_def put_key_def)

lemma lookup_put [simp]:
  "lookup_key (put_key d k v s) d' k' = (if d' = d \<and> k' = k then Some v else lookup_key s d' k')"
  by (simp add: lookup_key_def)

lemma db_of_drop [simp]:
  "db_of (drop_key d k s) d' = (if d' = d then AList.delete k (db_of s d) else db_of s d')"
  by (auto simp: db_of_def drop_key_def split: option.splits)

lemma lookup_drop [simp]:
  "lookup_key (drop_key d k s) d' k' = (if d' = d \<and> k' = k then None else lookup_key s d' k')"
  by (simp add: lookup_key_def)

lemma put_key_frame [simp]:
  "keysWithExpiry (put_key d k v s) = keysWithExpiry s" "lfuCache (put_key d k v s) = lfuCache s"
  "lruCache (put_key d k v s) = lruCache s" "config (put_key d k v s) = config s"
  "clockNow (put_key d k v s) = clockNow s" "volatile_keys (put_key d k v s) d' = volatile_keys s d'"
  by (simp_all add: put_key_def volatile_keys_def)

lemma drop_key_frame [simp]:
  "keysWithExpiry (drop_key d k s) = keysWithExpiry s" "lfuCache (drop_key d k s) = lfuCache s"
  "lruCache (drop_key d k s) = lruCache s" "config (drop_key d k s) = config s"
  "clockNow (drop_key d k s) = clockNow s" "volatile_keys (drop_key d k s) d' = volatile_keys s d'"
  by (simp_all add: drop_key_def volatile_keys_def split: option.split)

lemma dom_store_put [simp]: "dom (map_of (store (put_key d k v s))) = insert d (dom (map_of (store s)))"
  by (simp add: put_key_def)

lemma dom_store_drop [simp]: "dom (map_of (store (drop_key d k s))) = dom (map_of (store s))"
  by (auto simp: drop_key_def split: option.split)

text \<open>Functions of the state that depend on single fields only.\<close>

lemma lookup_cong: "store s' = store s \<Longrightarrow> lookup_key s' = lookup_key s"
  by (simp add: fun_eq_iff lookup_key_def db_of_def)

lemma volatile_cong: "keysWithExpiry s' = keysWithExpiry s \<Longrightarrow> volatile_keys s' = volatile_keys s"
  by (simp add: fun_eq_iff volatile_keys_def)

lemma cache_delete_frame [simp]:
  "store (snd (cache_delete d k s)) = store s"
  "keysWithExpiry (snd (cache_delete d k s)) = keysWithExpiry s"
  "config (snd (cache_delete d k s)) = config s"
  "clockNow (snd (cache_delete d k s)) = clockNow s"
  "memUsed (snd (cache_delete d k s)) = memUsed s"
  by (simp_all add: cache_delete_def split: option.split res.split)

subsection \<open>The invariant\<close>

definition store_inv :: "server \<Rightarrow> bool" where
  "store_inv s \<longleftrightarrow>
     gm_wf (store s) \<and> (\<forall>d. gm_wf (db_of s d)) \<and>
     dom (map_of (store s)) \<subseteq> dom (map_of (keysWithExpiry s)) \<and>
     dom (map_of (lfuCache s)) = dom (map_of (store s)) \<and>
     dom (map_of (lruCache s)) = dom (map_of (store s))"

definition caches_inv :: "server \<Rightarrow> bool" where
  "caches_inv s \<longleftrightarrow>
     (\<forall>d c. map_of (lfuCache s) d = Some c \<longrightarrow> lfu_inv c) \<and>
     (\<forall>d c. map_of (lruCache s) d = Some c \<longrightarrow> lru_inv c)"

definition volatile_inv :: "server \<Rightarrow> bool" where
  "volatile_inv s \<longleftrightarrow>
     (\<forall>d. distinct (volatile_keys s d)) \<and>
     (\<forall>d k. k \<in> set (volatile_keys s d) \<longrightarrow> lookup_key s d k \<noteq> None) \<and>
     (\<forall>d k e. lookup_key s d k = Some e \<and> ExpireAt e \<noteq> None \<longrightarrow> k \<in> set (volatile_keys s d))"

definition values_inv :: "sworld \<Rightarrow> bool" where
  "values_inv w \<longleftrightarrow> (\<forall>d k e. lookup_key (srv w) d k = Some e \<longrightarrow> value_ok (heap w) (Value e))"

definition sinv :: "sworld \<Rightarrow> bool" where
  "sinv w \<longleftrightarrow> heap_wf w \<and> store_inv (srv w) \<and> caches_inv (srv w) \<and> volatile_inv (srv w) \<and> values_inv w"

lemmas sinv_defs = sinv_def store_inv_def caches_inv_def volatile_inv_def values_inv_def

lemma sinvD:
  assumes "sinv w"
  shows "heap_wf w" "store_inv (srv w)" "caches_inv (srv w)" "volatile_inv (srv w)" "values_inv w"
  using assms by (simp_all add: sinv_def)

text \<open>The invariant does not depend on the other fields of the server.\<close>

lemma sinv_cong:
  assumes "sinv w" "heap w' = heap w" "next_addr w' = next_addr w"
    and "store (srv w') = store (srv w)" "keysWithExpiry (srv w') = keysWithExpiry (srv w)"
    and "lfuCache (srv w') = lfuCache (srv w)" "lruCache (srv w') = lruCache (srv w)"
  shows "sinv w'"
  using assms
  by (simp add: sinv_defs heap_wf_def lookup_cong [OF assms(4)] volatile_cong [OF assms(5)] db_of_def)

lemma value_ok_mono: "value_ok h v \<Longrightarrow> (\<And>a. h a \<noteq> None \<Longrightarrow> h' a \<noteq> None) \<Longrightarrow> value_ok h' v"
  by (auto simp: value_ok_def split: go_value.splits)

lemma sinv_heap:
  assumes "sinv w" "heap_wf w'" "srv w' = srv w" "\<And>a. live w a \<Longrightarrow> live w' a"
  shows "sinv w'"
  using assms value_ok_mono [of "heap w" _ "heap w'"] by (auto simp: sinv_def values_inv_def live_def)

lemma sinv_init: "heap_wf w \<Longrightarrow> store (srv w) = [] \<Longrightarrow> keysWithExpiry (srv w) = [] \<Longrightarrow>
    lfuCache (srv w) = [] \<Longrightarrow> lruCache (srv w) = [] \<Longrightarrow> sinv w"
  by (simp add: sinv_defs db_of_def lookup_key_def volatile_keys_def)

lemma lookup_createDatabase [simp]:
  "lookup_key (createDatabase d s) d' k = (if d' = d then None else lookup_key s d' k)"
  by (simp add: createDatabase_def lookup_key_def db_of_def)

lemma volatile_createDatabase [simp]:
  "volatile_keys (createDatabase d s) d' = (if d' = d then [] else volatile_keys s d')"
  by (simp add: createDatabase_def volatile_keys_def)

lemma lookup_no_db: "map_of (store s) d = None \<Longrightarrow> lookup_key s d k = None"
  by (simp add: lookup_key_def db_of_def)

lemma lookup_ensure_db [simp]: "lookup_key (ensure_db d s) d' k = lookup_key s d' k"
  by (auto simp: ensure_db_def lookup_no_db)

lemma ensure_db_frame [simp]:
  "config (ensure_db d s) = config s" "clockNow (ensure_db d s) = clockNow s"
  "memUsed (ensure_db d s) = memUsed s" "tcpClients (ensure_db d s) = tcpClients s"
  by (simp_all add: ensure_db_def createDatabase_def)

lemma ensure_db_dom: "d \<in> dom (map_of (store (ensure_db d s)))"
  by (auto simp: ensure_db_def createDatabase_def)

lemma sinv_ensure_db [inv_intros]: "sinv w \<Longrightarrow> sinv (upd (ensure_db d) w)"
proof (cases "map_of (store (srv w)) d")
  case None
  moreover assume "sinv w"
  ultimately show ?thesis
    by (simp add: sinv_defs heap_wf_def ensure_db_def)
      (auto simp: createDatabase_def db_of_def inv_intros)
qed (simp add: ensure_db_def sinv_defs heap_wf_def)

lemma sinv_put_key:
  assumes "sinv w" "map_of (store (srv w)) d \<noteq> None" "value_ok (heap w) (Value e)"
    and "k \<in> set (volatile_keys (srv w) d) \<or> ExpireAt e = None"
  shows "sinv (upd (put_key d k e) w)"
proof -
  have "d \<in> dom (map_of (store (srv w)))" using assms(2) by auto
  then have "insert d (dom (map_of (store (srv w)))) = dom (map_of (store (srv w)))" by auto
  then show ?thesis
    using assms by (simp add: sinv_defs heap_wf_def) (auto simp: put_key_def)
qed

subsection \<open>Deleting\<close>

definition volatile_drop :: "int \<Rightarrow> string \<Rightarrow> server \<Rightarrow> server" where
  "volatile_drop d k s =
     s\<lparr>keysWithExpiry := AList.update d (filter (\<lambda>x. x \<noteq> k) (volatile_keys s d)) (keysWithExpiry s)\<rparr>"

lemma volatile_drop_simps [simp]:
  "lookup_key (volatile_drop d k s) = lookup_key s"
  "volatile_keys (volatile_drop d k s) d' =
     (if d' = d then filter (\<lambda>x. x \<noteq> k) (volatile_keys s d) else volatile_keys s d')"
  "store (volatile_drop d k s) = store s" "config (volatile_drop d k s) = config s"
  "memUsed (volatile_drop d k s) = memUsed s" "clockNow (volatile_drop d k s) = clockNow s"
  "lfuCache (volatile_drop d k s) = lfuCache s" "lruCache (volatile_drop d k s) = lruCache s"
  "db_of (volatile_drop d k s) = db_of s"
  "dom (map_of (keysWithExpiry (volatile_drop d k s))) = insert d (dom (map_of (keysWithExpiry s)))"
  by (auto simp: volatile_drop_def lookup_key_def db_of_def volatile_keys_def fun_eq_iff)

lemma gm_wf_drop_key: "gm_wf (store s) \<Longrightarrow> gm_wf (store (drop_key d k s))"
  by (simp add: drop_key_def split: option.split)

lemma sinv_drop_key:
  assumes "sinv w" "map_of (store (srv w)) d \<noteq> None"
  shows "sinv (upd (\<lambda>s. volatile_drop d k (drop_key d k s)) w)"
proof -
  have "d \<in> dom (map_of (store (srv w)))" using assms(2) by auto
  then have "insert d (dom (map_of (store (srv w)))) = dom (map_of (store (srv w)))" by auto
  then show ?thesis
    using assms by (simp add: sinv_defs heap_wf_def gm_wf_drop_key subset_insertI2)
qed

lemma cache_delete_ok:
  assumes "store_inv s" "caches_inv s" "map_of (store s) d \<noteq> None"
  shows "fst (cache_delete d k s) = Ok () \<and> store_inv (snd (cache_delete d k s)) \<and>
    caches_inv (snd (cache_delete d k s))"
proof -
  have "d \<in> dom (map_of (lfuCache s))" "d \<in> dom (map_of (lruCache s))"
    using assms(1,3) unfolding store_inv_def by auto
  then obtain c c' where c: "map_of (lfuCache s) d = Some c" "map_of (lruCache s) d = Some c'" by auto
  then have inv: "lfu_inv c" "lru_inv c'" using assms(2) unfolding caches_inv_def by auto
  obtain c1 where c1: "LFU_Delete k c = Ok c1" "lfu_inv c1" using LFU_Delete_inv [OF inv(1), of k] by auto
  obtain c2 where c2: "LRU_Delete k c' = Ok c2" "lru_inv c2" using LRU_Delete_inv [OF inv(2), of k] by auto
  have dom: "insert d (dom (map_of (lfuCache s))) = dom (map_of (store s))"
    "insert d (dom (map_of (lruCache s))) = dom (map_of (store s))"
    using assms(1) c unfolding store_inv_def by auto
  show ?thesis
    using assms(1,2) c(1,2) c1 c2 dom
    by (auto simp: cache_delete_def store_inv_def caches_inv_def db_of_def)
qed

lemma sinv_cache_delete:
  assumes "sinv w" "map_of (store (srv w)) d \<noteq> None"
  shows "fst (cache_delete d k (srv w)) = Ok ()" "sinv (w\<lparr>srv := snd (cache_delete d k (srv w))\<rparr>)"
  using cache_delete_ok [of "srv w" d k] assms
  by (simp_all add: sinv_def volatile_inv_def values_inv_def heap_wf_def
      lookup_cong [of "snd (cache_delete d k (srv w))" "srv w"]
      volatile_cong [of "snd (cache_delete d k (srv w))" "srv w"])

text \<open>\<open>deleteKey\<close>, written with the steps above.\<close>

lemma deleteKey_unfold:
  assumes "KeyData_GetMem (heap w) (case lookup_key (srv w) (Database cx) k of None \<Rightarrow> zero_keydata | Some e \<Rightarrow> e) = Ok mem"
  shows "deleteKey cx k w =
    (let s = volatile_drop (Database cx) k (drop_key (Database cx) k
               ((srv w)\<lparr>memUsed := i64 (memUsed (srv w) - mem - sizeof_string - int (length k))\<rparr>))
     in (fst (cache_delete (Database cx) k s), w\<lparr>srv := snd (cache_delete (Database cx) k s)\<rparr>))"
  using assms by (simp add: deleteKey_def volatile_drop_def Let_def case_prod_beta)

lemma lookup_db_exists: "lookup_key s d k = Some e \<Longrightarrow> map_of (store s) d \<noteq> None"
  by (auto simp: lookup_key_def db_of_def split: option.splits)

lemma lookup_memUsed [simp]:
  "lookup_key (s\<lparr>memUsed := m\<rparr>) = lookup_key s" "volatile_keys (s\<lparr>memUsed := m\<rparr>) = volatile_keys s"
  by (simp_all add: fun_eq_iff lookup_key_def db_of_def volatile_keys_def)

lemma deleteKey_spec:
  assumes "sinv w" "map_of (store (srv w)) (Database cx) \<noteq> None"
  shows "\<exists>w' mem. deleteKey cx k w = (Ok (), w') \<and> sinv w' \<and> heap w' = heap w \<and>
    next_addr w' = next_addr w \<and> coins w' = coins w \<and>
    lookup_key (srv w') = (\<lambda>d k'. if d = Database cx \<and> k' = k then None else lookup_key (srv w) d k') \<and>
    volatile_keys (srv w') (Database cx) = filter (\<lambda>x. x \<noteq> k) (volatile_keys (srv w) (Database cx)) \<and>
    KeyData_GetMem (heap w) (case lookup_key (srv w) (Database cx) k of None \<Rightarrow> zero_keydata | Some e \<Rightarrow> e) = Ok mem \<and>
    memUsed (srv w') = i64 (memUsed (srv w) - mem - sizeof_string - int (length k)) \<and>
    clockNow (srv w') = clockNow (srv w) \<and> config (srv w') = config (srv w)"
proof -
  let ?d = "Database cx"
  let ?e = "case lookup_key (srv w) ?d k of None \<Rightarrow> zero_keydata | Some e \<Rightarrow> e"
  have "value_ok (heap w) (Value ?e)"
    using sinvD(5) [OF assms(1)]
    by (auto simp: values_inv_def zero_keydata_def value_ok_def [of _ VNil] split: option.split)
  then obtain mem where mem: "KeyData_GetMem (heap w) ?e = Ok mem" using KeyData_GetMem_Ok by blast
  let ?w1 = "upd (\<lambda>s. s\<lparr>memUsed := i64 (memUsed (srv w) - mem - sizeof_string - int (length k))\<rparr>) w"
  have w1: "sinv ?w1" "map_of (store (srv ?w1)) ?d \<noteq> None"
    using sinv_cong [OF assms(1), of ?w1] assms(2) by simp_all
  let ?w2 = "upd (\<lambda>s. volatile_drop ?d k (drop_key ?d k s)) ?w1"
  have w2: "sinv ?w2" by (rule sinv_drop_key [OF w1])
  have d2: "map_of (store (srv ?w2)) ?d \<noteq> None"
    using assms(2) by (auto simp: drop_key_def)
  have del: "deleteKey cx k w = (Ok (), ?w2\<lparr>srv := snd (cache_delete ?d k (srv ?w2))\<rparr>)"
    using deleteKey_unfold [OF mem] sinv_cache_delete(1) [OF w2 d2, of k] by (simp add: Let_def upd_def)
  let ?w' = "?w2\<lparr>srv := snd (cache_delete ?d k (srv ?w2))\<rparr>"
  have lk: "lookup_key (srv ?w') = lookup_key (srv ?w2)" "volatile_keys (srv ?w') = volatile_keys (srv ?w2)"
    by (intro lookup_cong volatile_cong; simp)+
  have "memUsed (drop_key d k s) = memUsed s" for d k s by (simp add: drop_key_def split: option.split)
  then show ?thesis
    using del mem sinv_cache_delete(2) [OF w2 d2, of k] lk by (intro exI [of _ ?w'] exI [of _ mem]) (simp add: fun_eq_iff)
qed

subsection \<open>Reading\<close>

lemma map_res_sane: "(\<exists>a. r = Ok a) \<or> (\<exists>e. r = Err e) \<Longrightarrow>
    map_res (\<lambda>_. ()) r = Ok () \<or> (\<exists>e. map_res (\<lambda>_. ()) r = Err e)"
  by auto

definition raft_sane :: "server \<Rightarrow> bool" where
  "raft_sane s \<longleftrightarrow> (\<forall>l r. (\<exists>a. raft_apply s l r = Ok a) \<or> (\<exists>e. raft_apply s l r = Err e))"

text \<open>What a key holds: its value and whether it is past its expiry time.\<close>

definition entry_of :: "ctx \<Rightarrow> sworld \<Rightarrow> string \<Rightarrow> (go_value \<times> bool) option" where
  "entry_of cx w k =
     (case lookup_key (srv w) (Database cx) k of None \<Rightarrow> None | Some e \<Rightarrow> Some (Value e, expired (srv w) e))"

definition live_value :: "(go_value \<times> bool) option \<Rightarrow> go_value" where
  "live_value x = (case x of Some (v, False) \<Rightarrow> v | _ \<Rightarrow> VNil)"

definition gone :: "(go_value \<times> bool) option \<Rightarrow> bool" where
  "gone x = (case x of None \<Rightarrow> True | Some (v, b) \<Rightarrow> b)"

lemma live_value_simps [simp]:
  "live_value None = VNil" "live_value (Some (v, False)) = v" "live_value (Some (v, True)) = VNil"
  by (simp_all add: live_value_def)

lemma gone_simps [simp]: "gone None" "gone (Some (v, b)) \<longleftrightarrow> b"
  by (simp_all add: gone_def)

text \<open>
  Reading leaves every entry in place, except that entries past their expiry time may be
  removed.
\<close>

definition reaped :: "(string \<Rightarrow> (go_value \<times> bool) option) \<Rightarrow> (string \<Rightarrow> (go_value \<times> bool) option) \<Rightarrow> bool" where
  "reaped e e' \<longleftrightarrow> (\<forall>k. e' k = e k \<or> e' k = None \<and> gone (e k))"

lemma reaped_refl [simp]: "reaped e e"
  by (simp add: reaped_def)

lemma reaped_trans: "reaped e e' \<Longrightarrow> reaped e' e'' \<Longrightarrow> reaped e e''"
  unfolding reaped_def by metis

lemma live_value_gone: "gone x \<Longrightarrow> live_value x = VNil"
  by (simp add: gone_def live_value_def split: option.splits prod.splits bool.splits)

lemma reaped_live: "reaped e e' \<Longrightarrow> live_value (e' k) = live_value (e k)"
  unfolding reaped_def using live_value_gone live_value_simps(1) by metis

definition reads :: "sworld \<Rightarrow> sworld \<Rightarrow> bool" where
  "reads w w' \<longleftrightarrow> sinv w' \<and> heap w' = heap w \<and> next_addr w' = next_addr w \<and>
     clockNow (srv w') = clockNow (srv w) \<and> config (srv w') = config (srv w) \<and>
     raft_sane (srv w') \<and> (in_i64 (memUsed (srv w)) \<longrightarrow> in_i64 (memUsed (srv w'))) \<and>
     (\<forall>cx. reaped (entry_of cx w) (entry_of cx w'))"

lemma reads_trans: "reads w w1 \<Longrightarrow> reads w1 w2 \<Longrightarrow> reads w w2"
  by (auto simp: reads_def intro: reaped_trans)

lemma expired_cong: "clockNow s' = clockNow s \<Longrightarrow> expired s' = expired s"
  by (rule ext) (simp add: expired_def split: option.split)

lemma entry_of_frame:
  "store (srv w') = store (srv w) \<Longrightarrow> clockNow (srv w') = clockNow (srv w) \<Longrightarrow> entry_of cx w' = entry_of cx w"
  using lookup_cong [of "srv w'" "srv w"] expired_cong [of "srv w'" "srv w"]
  by (auto simp: entry_of_def fun_eq_iff split: option.split)

lemma entry_of_cong: "srv w' = srv w \<Longrightarrow> entry_of cx w' = entry_of cx w"
  by (rule entry_of_frame) simp_all

lemma reads_frame:
  assumes "sinv w" "raft_sane (srv w)" "heap w' = heap w" "next_addr w' = next_addr w"
    and "store (srv w') = store (srv w)" "keysWithExpiry (srv w') = keysWithExpiry (srv w)"
    and "lfuCache (srv w') = lfuCache (srv w)" "lruCache (srv w') = lruCache (srv w)"
    and "clockNow (srv w') = clockNow (srv w)" "config (srv w') = config (srv w)"
    and "raft_apply (srv w') = raft_apply (srv w)" "memUsed (srv w') = memUsed (srv w)"
  shows "reads w w'"
  using assms(2-4,9-12) sinv_cong [OF assms(1,3-8)] entry_of_frame [OF assms(5,9)]
  by (simp add: reads_def raft_sane_def)

lemma reads_self: "sinv w \<Longrightarrow> raft_sane (srv w) \<Longrightarrow> reads w w"
  by (simp add: reads_def)

lemma raft_apply_frame [simp]:
  "raft_apply (drop_key d k s) = raft_apply s" "raft_apply (snd (cache_delete d k s)) = raft_apply s"
  "raft_apply (put_key d k v s) = raft_apply s" "raft_apply (volatile_drop d k s) = raft_apply s"
  "raft_apply (ensure_db d s) = raft_apply s"
  by (simp_all add: drop_key_def cache_delete_def put_key_def volatile_drop_def ensure_db_def
      createDatabase_def split: option.split res.split)

lemma deleteKey_raft [simp]: "raft_apply (srv (snd (deleteKey cx k w))) = raft_apply (srv w)"
  by (simp add: deleteKey_def and_then_def case_prod_beta Let_def split: res.split)

lemma read_key_spec:
  assumes "sinv w" "raft_sane (srv w)"
  shows "\<exists>w'. read_key cx k w = (Ok (live_value (entry_of cx w k)), w') \<and> reads w w'"
proof -
  let ?d = "Database cx"
  show ?thesis
  proof (cases "lookup_key (srv w) ?d k")
    case None
    then show ?thesis using reads_self [OF assms] by (simp add: read_key_def entry_of_def)
  next
    case (Some e)
    have ent: "entry_of cx w k = Some (Value e, expired (srv w) e)" using Some by (simp add: entry_of_def)
    consider "\<not> expired (srv w) e" | "expired (srv w) e" "\<not> isInCluster (srv w)"
      | "expired (srv w) e" "isInCluster (srv w)" "raftLeader (srv w)"
      | "expired (srv w) e" "isInCluster (srv w)" "\<not> raftLeader (srv w)" by blast
    then show ?thesis
    proof cases
      case 1
      then show ?thesis using Some ent reads_self [OF assms] by (simp add: read_key_def)
    next
      case 2
      obtain w' where w': "deleteKey cx k w = (Ok (), w')" "sinv w'" "heap w' = heap w"
        "next_addr w' = next_addr w"
        "lookup_key (srv w') = (\<lambda>d k'. if d = ?d \<and> k' = k then None else lookup_key (srv w) d k')"
        "clockNow (srv w') = clockNow (srv w)" "config (srv w') = config (srv w)"
        "in_i64 (memUsed (srv w'))"
        using deleteKey_spec [OF assms(1) lookup_db_exists [OF Some], of k] by (elim exE conjE) simp
      have "raft_sane (srv w')" using deleteKey_raft [of cx k w] w'(1) assms(2) by (simp add: raft_sane_def)
      moreover have "reaped (entry_of c w) (entry_of c w')" for c
        using Some 2(1) expired_cong [OF w'(6)] by (auto simp: reaped_def entry_of_def w'(5) split: option.split)
      ultimately have "reads w w'" using w' by (simp add: reads_def)
      then show ?thesis using Some 2 ent w'(1) by (simp add: read_key_def)
    next
      case 3
      let ?w' = "snd (raftApplyDeleteKey cx k w)"
      have "reads w ?w'"
        by (rule reads_frame [OF assms]) (simp_all add: raftApplyDeleteKey_def Let_def)
      moreover have "fst (raftApplyDeleteKey cx k w) = Ok () \<or> (\<exists>x. fst (raftApplyDeleteKey cx k w) = Err x)"
        unfolding raftApplyDeleteKey_def Let_def fst_conv
        using assms(2) by (intro map_res_sane) (simp add: raft_sane_def)
      ultimately show ?thesis
        using Some 3 ent by (auto simp: read_key_def split: res.split prod.split)
    next
      case 4
      let ?w' = "upd (\<lambda>s. s\<lparr>forwarded := forwarded s @ [(?d, k)]\<rparr>) w"
      have "reads w ?w'"
        by (rule reads_frame [OF assms]) simp_all
      then show ?thesis using Some 4 ent by (simp add: read_key_def)
    qed
  qed
qed

lemma reaped_gone: "reaped e e' \<Longrightarrow> gone (e k) \<Longrightarrow> gone (e' k)"
  unfolding reaped_def using gone_simps(1) by metis

lemma read_keys_spec:
  assumes "sinv w" "raft_sane (srv w)"
  shows "\<exists>m' w'. read_keys cx ks m w = (Ok m', w') \<and> reads w w' \<and>
    (\<forall>k. gm_value m' k = (if k \<in> set ks then live_value (entry_of cx w k) else gm_value m k)) \<and>
    dom (map_of m') = set ks \<union> dom (map_of m)"
  using assms
proof (induction ks arbitrary: m w)
  case Nil
  then show ?case by (simp add: reads_self)
next
  case (Cons k ks)
  obtain w1 where w1: "read_key cx k w = (Ok (live_value (entry_of cx w k)), w1)" "reads w w1"
    using read_key_spec [OF Cons.prems] by blast
  let ?m = "AList.update k (live_value (entry_of cx w k)) m"
  have s1: "sinv w1" "raft_sane (srv w1)" using w1(2) by (simp_all add: reads_def)
  obtain m' w2 where w2: "read_keys cx ks ?m w1 = (Ok m', w2)" "reads w1 w2"
    "\<And>k. gm_value m' k = (if k \<in> set ks then live_value (entry_of cx w1 k) else gm_value ?m k)"
    "dom (map_of m') = set ks \<union> dom (map_of ?m)"
    using Cons.IH [OF s1, of ?m] by blast
  have "live_value (entry_of cx w1 k') = live_value (entry_of cx w k')" for k'
    using w1(2) by (simp add: reads_def reaped_live)
  then have "gm_value m' k' = (if k' \<in> set (k # ks) then live_value (entry_of cx w k') else gm_value m k')" for k'
    using w2(3) [of k'] by (simp add: gm_value_def)
  then show ?case
    using w1(1) w2(1,4) reads_trans [OF w1(2) w2(2)] by (intro exI [of _ m'] exI [of _ w2]) auto
qed

lemma getValues_spec:
  assumes "sinv w" "raft_sane (srv w)"
  shows "\<exists>m w'. getValues cx ks w = (Ok m, w') \<and> reads w w' \<and>
    (\<forall>k. gm_value m k = (if k \<in> set ks then live_value (entry_of cx w k) else VNil)) \<and>
    dom (map_of m) = set ks"
proof -
  obtain m w1 where w1: "read_keys cx ks [] w = (Ok m, w1)" "reads w w1"
    "\<forall>k. gm_value m k = (if k \<in> set ks then live_value (entry_of cx w k) else gm_value [] k)"
    "dom (map_of m) = set ks"
    using read_keys_spec [OF assms, of cx ks "[]"] by auto
  have "reads w1 (upd (\<lambda>s. s\<lparr>tasks := tasks s @ [UpdateKeys cx ks]\<rparr>) w1)"
    using w1(2) by (intro reads_frame) (simp_all add: reads_def)
  from reads_trans [OF w1(2) this] show ?thesis
    using w1(1,3,4) by (simp add: getValues_def gm_value_def [of "[]"])
qed

lemma keysExist_spec: "gm_bool (keysExist cx ks w) k \<longleftrightarrow> k \<in> set ks \<and> entry_of cx w k \<noteq> None"
proof -
  have "map_of (fold (\<lambda>k m. AList.update k (f k) m) ks m) k = (if k \<in> set ks then Some (f k) else map_of m k)"
    for f :: "string \<Rightarrow> bool" and m
    by (induction ks arbitrary: m) auto
  then show ?thesis
    by (simp add: keysExist_def gm_bool_def entry_of_def split: option.split)
qed

subsection \<open>Writing\<close>

text \<open>
  What a write through \<open>setValues\<close> leaves: the entries written hold the new values with the
  expiry state they had, all others are untouched.
\<close>

definition written :: "(string, go_value) gomap \<Rightarrow> (string \<Rightarrow> (go_value \<times> bool) option) \<Rightarrow>
    (string \<Rightarrow> (go_value \<times> bool) option)" where
  "written es e k =
     (case map_of es k of
        None \<Rightarrow> e k
      | Some v \<Rightarrow> Some (v, (case e k of None \<Rightarrow> False | Some (_, b) \<Rightarrow> b)))"

definition mem_added :: "heap \<Rightarrow> string \<Rightarrow> go_value \<Rightarrow> int" where
  "mem_added h k v =
     (case KeyData_GetMem h \<lparr>Value = v, ExpireAt = None\<rparr> of Ok m \<Rightarrow> m | _ \<Rightarrow> 0)
     + sizeof_string + int (length k)"

lemma KeyData_GetMem_value: "Value e = Value e' \<Longrightarrow> KeyData_GetMem h e = KeyData_GetMem h e'"
  by (simp add: KeyData_GetMem.simps)

definition writes :: "sworld \<Rightarrow> sworld \<Rightarrow> bool" where
  "writes w w' \<longleftrightarrow> sinv w' \<and> heap w' = heap w \<and> next_addr w' = next_addr w \<and>
     clockNow (srv w') = clockNow (srv w) \<and> config (srv w') = config (srv w) \<and>
     raft_apply (srv w') = raft_apply (srv w)"

lemma entry_of_put:
  "entry_of cx (upd (put_key (Database cx) k e) w) =
     (entry_of cx w)(k := Some (Value e, expired (srv w) e))"
proof -
  have "expired (put_key (Database cx) k e (srv w)) = expired (srv w)" by (rule expired_cong) simp
  then show ?thesis by (auto simp: entry_of_def fun_eq_iff split: option.split)
qed

lemma write_key_spec:
  assumes "sinv w" "map_of (store (srv w)) (Database cx) \<noteq> None" "value_ok (heap w) v"
  shows "\<exists>w'. write_key cx k v w = (Ok (), w') \<and> writes w w' \<and>
    map_of (store (srv w')) (Database cx) \<noteq> None \<and>
    entry_of cx w' = written [(k, v)] (entry_of cx w) \<and>
    (\<forall>c. Database c \<noteq> Database cx \<longrightarrow> entry_of c w' = entry_of c w) \<and>
    memUsed (srv w') = i64 (memUsed (srv w) + mem_added (heap w) k v)"
proof -
  let ?d = "Database cx"
  define ex where "ex = (case lookup_key (srv w) ?d k of None \<Rightarrow> None | Some e \<Rightarrow> ExpireAt e)"
  define e where "e = \<lparr>Value = v, ExpireAt = ex\<rparr>"
  let ?w1 = "upd (put_key ?d k e) w"
  have vol: "k \<in> set (volatile_keys (srv w) ?d) \<or> ExpireAt e = None"
    using sinvD(4) [OF assms(1)] by (auto simp: volatile_inv_def e_def ex_def split: option.split)
  have w1: "sinv ?w1" by (rule sinv_put_key [OF assms(1,2)]) (use assms(3) vol in \<open>simp_all add: e_def\<close>)
  obtain mem where mem: "KeyData_GetMem (heap w) e = Ok mem"
    using KeyData_GetMem_Ok [of "heap w" e] assms(3) by (auto simp: e_def)
  have added: "mem_added (heap w) k v = mem + sizeof_string + int (length k)"
    using mem KeyData_GetMem_value [of "\<lparr>Value = v, ExpireAt = None\<rparr>" e "heap w"]
    by (simp add: mem_added_def e_def)
  let ?f = "\<lambda>s. s\<lparr>memUsed := i64 (memUsed s + mem + sizeof_string + int (length k)),
       changeCount := changeCount s + (if isInCluster s then 0 else 1)\<rparr>"
  have wk: "write_key cx k v w = (Ok (), upd ?f ?w1)"
    using mem by (simp add: write_key_def Let_def e_def ex_def upd_def)
  have exb: "expired (srv w) e = (case entry_of cx w k of None \<Rightarrow> False | Some (_, b) \<Rightarrow> b)"
    by (simp add: expired_def e_def ex_def entry_of_def split: option.split)
  have e1: "entry_of cx (upd ?f ?w1) = (entry_of cx w)(k := Some (v, expired (srv w) e))"
    using entry_of_frame [of "upd ?f ?w1" ?w1 cx] entry_of_put [of cx k e w] by (simp add: e_def)
  have e2: "entry_of c (upd ?f ?w1) = entry_of c w" if "Database c \<noteq> ?d" for c
    using entry_of_frame [of "upd ?f ?w1" ?w1 c] that expired_cong [of "srv ?w1" "srv w"]
    by (auto simp: entry_of_def fun_eq_iff split: option.split)
  have st: "sinv (upd ?f ?w1)" by (rule sinv_cong [OF w1]) simp_all
  have mu: "memUsed (put_key ?d k e s) = memUsed s" for s by (simp add: put_key_def)
  have db: "map_of (store (put_key ?d k e (srv w))) ?d \<noteq> None" by (simp add: put_key_def)
  show ?thesis
    unfolding wk
    using st e1 e2 exb db by (intro exI [of _ "upd ?f ?w1"])
      (simp add: writes_def written_def fun_eq_iff added mu add.assoc)
qed

lemma entry_of_db: "entry_of cx w = entry_of c w" if "Database cx = Database c"
  using that by (simp add: entry_of_def fun_eq_iff)

lemma writes_trans: "writes w w1 \<Longrightarrow> writes w1 w2 \<Longrightarrow> writes w w2"
  by (simp add: writes_def)

lemma written_Cons:
  assumes "gm_wf ((k, v) # es)"
  shows "written es (written [(k, v)] e) = written ((k, v) # es) e"
proof -
  have "map_of es k = None" using assms by (simp add: gm_wf_def map_of_eq_None_iff)
  then show ?thesis by (intro ext) (simp add: written_def split: option.split)
qed

text \<open>The memory counter is a signed 64-bit integer: the additions wrap around at that width.\<close>

lemma i64_add: "i64 (i64 a + b) = i64 (a + b)"
  by (simp add: i64_def) presburger

lemma write_keys_spec:
  assumes "sinv w" "map_of (store (srv w)) (Database cx) \<noteq> None"
    and "\<And>v. v \<in> snd ` set es \<Longrightarrow> value_ok (heap w) v" "gm_wf es" "in_i64 (memUsed (srv w))"
  shows "\<exists>w'. write_keys cx es w = (Ok (), w') \<and> writes w w' \<and>
    entry_of cx w' = written es (entry_of cx w) \<and>
    (\<forall>c. Database c \<noteq> Database cx \<longrightarrow> entry_of c w' = entry_of c w) \<and>
    memUsed (srv w') = i64 (memUsed (srv w) + sum_list (map (\<lambda>(k, v). mem_added (heap w) k v) es))"
  using assms
proof (induction es arbitrary: w)
  case Nil
  then show ?case by (simp add: writes_def written_def)
next
  case (Cons x es)
  obtain k v where x: "x = (k, v)" by (cases x)
  obtain w1 where w1: "write_key cx k v w = (Ok (), w1)" "writes w w1"
    "map_of (store (srv w1)) (Database cx) \<noteq> None"
    "entry_of cx w1 = written [(k, v)] (entry_of cx w)"
    "\<And>c. Database c \<noteq> Database cx \<Longrightarrow> entry_of c w1 = entry_of c w"
    "memUsed (srv w1) = i64 (memUsed (srv w) + mem_added (heap w) k v)"
    using write_key_spec [OF Cons.prems(1,2), of v k] Cons.prems(3) x by auto
  have h: "heap w1 = heap w" "sinv w1" using w1(2) by (simp_all add: writes_def)
  have "in_i64 (memUsed (srv w1))" using w1(6) by simp
  then obtain w2 where w2: "write_keys cx es w1 = (Ok (), w2)" "writes w1 w2"
    "entry_of cx w2 = written es (entry_of cx w1)"
    "\<And>c. Database c \<noteq> Database cx \<Longrightarrow> entry_of c w2 = entry_of c w1"
    "memUsed (srv w2) = i64 (memUsed (srv w1) + sum_list (map (\<lambda>(k, v). mem_added (heap w1) k v) es))"
    using Cons.IH [OF h(2) w1(3)] Cons.prems(3,4) h(1) x by (auto simp: gm_wf_def)
  have wr: "written es (written [(k, v)] (entry_of cx w)) = written (x # es) (entry_of cx w)"
    using written_Cons Cons.prems(4) x by simp
  show ?case
    using w1 w2 wr h(1) writes_trans [OF w1(2) w2(2)] x
    by (intro exI [of _ w2]) (simp add: i64_add add.assoc)
qed

lemma map_of_mset:
  assumes "gm_wf xs" "mset ys = mset xs"
  shows "gm_wf ys" "map_of ys = map_of xs"
proof -
  have "mset (map fst ys) = mset (map fst xs)" using assms(2) by simp
  then show "gm_wf ys" using assms(1) mset_eq_imp_distinct_iff unfolding gm_wf_def by blast
  then show "map_of ys = map_of xs"
    using assms mset_eq_setD [OF assms(2)] by (metis gm_wf_def map_of_inject_set)
qed

lemma setValues_spec:
  assumes "sinv w" "in_i64 (memUsed (srv w))" "\<And>v. v \<in> snd ` set es \<Longrightarrow> value_ok (heap w) v" "gm_wf es"
    and "\<not> (IsMaxMemoryExceeded (memUsed (srv w)) (MaxMemory (config (srv w))) \<and>
            EvictionPolicy (config (srv w)) = NoEviction)"
  shows "\<exists>w'. setValues cx es w = (Ok (), w') \<and> writes w w' \<and>
    entry_of cx w' = written es (entry_of cx w) \<and>
    (\<forall>c. Database c \<noteq> Database cx \<longrightarrow> entry_of c w' = entry_of c w) \<and>
    memUsed (srv w') = i64 (memUsed (srv w) + sum_list (map (\<lambda>(k, v). mem_added (heap w) k v) es))"
proof -
  let ?w1 = "upd (ensure_db (Database cx)) w"
  let ?es = "fst (go_range es ?w1)"
  let ?w2 = "snd (go_range es ?w1)"
  have m: "mset ?es = mset es" "gm_wf ?es" "map_of ?es = map_of es"
    using map_of_mset [OF assms(4), of ?es] by simp_all
  have w2: "sinv ?w2"
    by (rule sinv_cong [OF sinv_ensure_db [OF assms(1), of "Database cx"]]) simp_all
  have d: "map_of (store (srv ?w2)) (Database cx) \<noteq> None"
    using ensure_db_dom [of "Database cx" "srv w"] by auto
  have ent: "entry_of c ?w2 = entry_of c w" for c
    using expired_cong [of "srv ?w2" "srv w"] by (auto simp: entry_of_def fun_eq_iff split: option.split)
  have v: "\<And>v. v \<in> snd ` set ?es \<Longrightarrow> value_ok (heap ?w2) v" using assms(3) by simp
  obtain w3 where w3: "write_keys cx ?es ?w2 = (Ok (), w3)" "writes ?w2 w3"
    "entry_of cx w3 = written ?es (entry_of cx ?w2)"
    "\<And>c. Database c \<noteq> Database cx \<Longrightarrow> entry_of c w3 = entry_of c ?w2"
    "memUsed (srv w3) = i64 (memUsed (srv ?w2) + sum_list (map (\<lambda>(k, v). mem_added (heap ?w2) k v) ?es))"
    using write_keys_spec [OF w2 d v m(2)] assms(2) by auto
  let ?w4 = "upd (\<lambda>s. s\<lparr>tasks := tasks s @ [UpdateEach cx (gm_keys es)]\<rparr>) w3"
  have s4: "sinv ?w4" using w3(2) by (auto simp: writes_def intro!: sinv_cong [of w3 ?w4])
  have "mset (map f ?es) = mset (map f es)" for f :: "string \<times> go_value \<Rightarrow> int" using m(1) by simp
  then have sum: "sum_list (map f ?es) = sum_list (map f es)" for f :: "string \<times> go_value \<Rightarrow> int"
    by (metis sum_mset_sum_list)
  have wr: "written ?es = written es" by (simp add: written_def fun_eq_iff m(3))
  have sv: "setValues cx es w = and_then (write_keys cx ?es ?w2) (\<lambda>_ w3.
      (Ok (), upd (\<lambda>s. s\<lparr>tasks := tasks s @ [UpdateEach cx (gm_keys es)]\<rparr>) w3))"
    unfolding setValues_def Let_def case_prod_beta using assms(5) by (simp only: if_False)
  then have "setValues cx es w = (Ok (), ?w4)" by (simp only: w3(1) and_then_simps)
  moreover have "writes w ?w4" using w3(2) s4 by (simp add: writes_def)
  moreover have "entry_of c ?w4 = entry_of c w3" for c by (rule entry_of_frame) simp_all
  moreover have "entry_of cx w3 = written es (entry_of cx w)" using w3(3) ent wr by simp
  moreover have "\<forall>c. Database c \<noteq> Database cx \<longrightarrow> entry_of c w3 = entry_of c w" using w3(4) ent by simp
  moreover have "memUsed (srv w3) = i64 (memUsed (srv w) + sum_list (map (\<lambda>(k, v). mem_added (heap w) k v) es))"
    using w3(5) sum by simp
  ultimately show ?thesis by (intro exI [of _ ?w4]) simp
qed

subsection \<open>Expiry times\<close>

lemma setExpiry_spec:
  assumes "sinv w" "lookup_key (srv w) (Database cx) k = Some e"
  shows "\<exists>w'. setExpiry cx k t touch w = (Ok (), w') \<and> writes w w' \<and>
    (\<forall>d k'. lookup_key (srv w') d k' =
       (if d = Database cx \<and> k' = k then Some \<lparr>Value = Value e, ExpireAt = t\<rparr> else lookup_key (srv w) d k')) \<and>
    memUsed (srv w') = memUsed (srv w)"
proof -
  let ?d = "Database cx"
  let ?vol = "\<lambda>s. if k \<in> set (volatile_keys s ?d) then s
    else s\<lparr>keysWithExpiry := AList.update ?d (volatile_keys s ?d @ [k]) (keysWithExpiry s)\<rparr>"
  have db: "map_of (store (srv w)) ?d \<noteq> None" by (rule lookup_db_exists [OF assms(2)])
  then have "?d \<in> dom (map_of (store (srv w)))" by auto
  then have dom: "insert ?d (dom (map_of (store (srv w)))) = dom (map_of (store (srv w)))" by auto
  let ?w1 = "upd ?vol w"
  have lk: "lookup_key (srv ?w1) = lookup_key (srv w)" by (rule lookup_cong) simp
  have vk: "volatile_keys (srv ?w1) d =
      (if d = ?d \<and> k \<notin> set (volatile_keys (srv w) d) then volatile_keys (srv w) d @ [k] else volatile_keys (srv w) d)" for d
    by (simp add: volatile_keys_def)
  have w1: "sinv ?w1"
    unfolding sinv_defs lk vk using assms dom
    by (auto simp: sinv_defs heap_wf_def db_of_def)
  let ?e = "\<lparr>Value = Value e, ExpireAt = t\<rparr>"
  let ?w2 = "upd (put_key ?d k ?e) ?w1"
  have "value_ok (heap w) (Value e)" using sinvD(5) [OF assms(1)] assms(2) unfolding values_inv_def by blast
  then have w2: "sinv ?w2" using w1 db vk by (auto intro!: sinv_put_key)
  let ?w3 = "upd (\<lambda>s. if touch then s\<lparr>tasks := tasks s @ [UpdateKeys cx [k]]\<rparr> else s) ?w2"
  have db_kwe: "db_of (s\<lparr>keysWithExpiry := x\<rparr>) = db_of s" for s :: server and x
    by (simp add: db_of_def fun_eq_iff)
  have volatile_keys_store: "volatile_keys (s\<lparr>store := x\<rparr>) = volatile_keys s" for s :: server and x
    by (simp add: volatile_keys_def fun_eq_iff)
  have sv: "setExpiry cx k t touch w = (Ok (), ?w3)"
    using db assms(2) db_kwe by (simp add: setExpiry_def Let_def upd_def put_key_def volatile_keys_store)
  have w3: "sinv ?w3" by (rule sinv_cong [OF w2]) simp_all
  have "lookup_key (srv ?w3) = lookup_key (srv ?w2)" by (rule lookup_cong) simp
  then have l3: "lookup_key (srv ?w3) d k' =
      (if d = ?d \<and> k' = k then Some ?e else lookup_key (srv w) d k')" for d k'
    using lk by simp
  have "memUsed (put_key d k e s) = memUsed s" for d k e s by (simp add: put_key_def)
  then show ?thesis
    unfolding sv using w3 l3 by (intro exI [of _ ?w3]) (simp add: writes_def)
qed

subsection \<open>Databases\<close>

lemma SwapDBs_spec:
  assumes "sinv w"
  shows "sinv (upd (SwapDBs d1 d2) w)" "entry_of cx (upd (SwapDBs d1 d2) w) = entry_of cx w"
proof -
  let ?w1 = "upd (ensure_db d2) (upd (ensure_db d1) w)"
  let ?w2 = "upd (\<lambda>s. s\<lparr>tcpClients := map (\<lambda>(c, i). (c, swap_info d1 d2 i)) (tcpClients s)\<rparr>) ?w1"
  have w1: "sinv ?w1" by (intro sinv_ensure_db assms)
  have w2: "sinv ?w2" by (rule sinv_cong [OF w1]) simp_all
  have eq: "upd (SwapDBs d1 d2) w = (if d1 = d2 then w else ?w2)"
    by (simp add: SwapDBs_def Let_def upd_def)
  show "sinv (upd (SwapDBs d1 d2) w)" using eq w2 assms by simp
  have "entry_of cx ?w2 = entry_of cx ?w1" by (rule entry_of_frame) simp_all
  moreover have "entry_of cx ?w1 = entry_of cx w"
    using expired_cong [of "srv ?w1" "srv w"] by (auto simp: entry_of_def fun_eq_iff split: option.split)
  ultimately show "entry_of cx (upd (SwapDBs d1 d2) w) = entry_of cx w" using eq by simp
qed

text \<open>Swapping twice gives every client its database back.\<close>

lemma swap_info_involutive: "swap_info d1 d2 (swap_info d1 d2 i) = i"
  by (simp add: swap_info_def)

lemma SwapDBs_clients:
  "map_of (tcpClients (SwapDBs d1 d2 s)) c = map_option (swap_info d1 d2) (map_of (tcpClients s) c)"
proof -
  have "swap_info d d = id" for d by (simp add: swap_info_def fun_eq_iff)
  then show ?thesis
    by (simp add: SwapDBs_def Let_def map_of_map option.map_id)
qed

end
