(* ===== verification/Memory.thy ===== *)
theory Memory
  imports KeyspaceInv
begin

text \<open>
  Memory management of the keyspace (\<open>sugardb/keyspace.go\<close>, second half): the goroutines that
  touch keys in the caches and evict keys above the memory limit, the sampling of volatile
  keys, and the queries on the caches. A loop of the code that may run forever is a
  \<open>partial_function\<close>; where it does not return, its caller's result is \<open>Diverge\<close>.
\<close>

subsection \<open>Helpers\<close>

definition below_max :: "server \<Rightarrow> bool" where
  "below_max s \<longleftrightarrow> u64 (memUsed s) < MaxMemory (config s)"

text \<open>The three-way branch that every eviction shares: delete here, through raft, or not at all.\<close>

definition evict_one :: "ctx \<Rightarrow> string \<Rightarrow> sworld \<Rightarrow> unit res \<times> sworld" where
  "evict_one cx k w =
     (if \<not> isInCluster (srv w) then deleteKey cx k w
      else if raftLeader (srv w) then raftApplyDeleteKey cx k w
      else (Ok (), w))"

definition wrap_err :: "string \<Rightarrow> 'a res \<Rightarrow> 'a res" where
  "wrap_err p r = (case r of Err e \<Rightarrow> Err (p @ e) | _ \<Rightarrow> r)"

definition returned :: "('a res \<times> 'w) option \<Rightarrow> 'w \<Rightarrow> 'a res \<times> 'w" where
  "returned r w = (case r of None \<Rightarrow> (Diverge, w) | Some x \<Rightarrow> x)"

text \<open>\<open>time.Now().UnixMilli()\<close>: the clock may have advanced since it was last read.\<close>

definition now_millis :: "sworld \<Rightarrow> int \<times> sworld" where
  "now_millis w =
     (let (c, w1) = flip w; t = wallMillis (srv w1) + int c
      in (t, upd (\<lambda>s. s\<lparr>wallMillis := t\<rparr>) w1))"

subsection \<open>Evicting above the memory limit\<close>

partial_function (option) lfu_evict_loop :: "ctx \<Rightarrow> sworld \<Rightarrow> (unit res \<times> sworld) option" where
  "lfu_evict_loop cx w =
     (case map_of (lfuCache (srv w)) (Database cx) of
        None \<Rightarrow> Some (Panic nil_deref, w)
      | Some c \<Rightarrow>
          if LFU_Len c = 0 then Some (Err ''adjustMemoryUsage -> LFU cache empty'', w)
          else (case LFU_HeapPop c of
                  Ok kc \<Rightarrow>
                    (let w1 = upd (\<lambda>s. s\<lparr>lfuCache := AList.update (Database cx) (snd kc) (lfuCache s)\<rparr>) w;
                         rw = evict_one cx (fst kc) w1
                     in (case fst rw of
                           Ok _ \<Rightarrow> if below_max (srv (snd rw)) then Some (Ok (), snd rw)
                                   else lfu_evict_loop cx (snd rw)
                         | _ \<Rightarrow> Some (wrap_err ''adjustMemoryUsage -> LFU cache eviction: '' (fst rw), snd rw)))
                | _ \<Rightarrow> Some (Panic nil_deref, w)))"

partial_function (option) lru_evict_loop :: "ctx \<Rightarrow> sworld \<Rightarrow> (unit res \<times> sworld) option" where
  "lru_evict_loop cx w =
     (case map_of (lruCache (srv w)) (Database cx) of
        None \<Rightarrow> Some (Panic nil_deref, w)
      | Some c \<Rightarrow>
          if LRU_Len c = 0 then Some (Err ''adjustMemoryUsage -> LRU cache empty'', w)
          else (case LRU_HeapPop c of
                  Ok kc \<Rightarrow>
                    (let w1 = upd (\<lambda>s. s\<lparr>lruCache := AList.update (Database cx) (snd kc) (lruCache s)\<rparr>) w;
                         rw = evict_one cx (fst kc) w1
                     in (case fst rw of
                           Ok _ \<Rightarrow> if below_max (srv (snd rw)) then Some (Ok (), snd rw)
                                   else lru_evict_loop cx (snd rw)
                         | _ \<Rightarrow> Some (wrap_err ''adjustMemoryUsage -> LRU cache eviction: '' (fst rw), snd rw)))
                | _ \<Rightarrow> Some (Panic nil_deref, w)))"

text \<open>
  The random policy draws an index below the number of databases, not of keys, and evicts
  the key the iteration over the database meets there, if there is one.
\<close>

partial_function (option) random_evict_loop :: "ctx \<Rightarrow> sworld \<Rightarrow> (unit res \<times> sworld) option" where
  "random_evict_loop cx w =
     (if store (srv w) = [] then Some (Err ''adjustMemoryUsage -> all keys random: no keys to evict'', w)
      else
        (let cw = flip w;
             idx = intn (fst cw) (length (store (srv w)));
             kw = go_range (gm_keys (db_of (srv w) (Database cx))) (snd cw)
         in if idx < length (fst kw)
            then (let rw = evict_one cx (fst kw ! idx) (snd kw)
                  in (case fst rw of
                        Ok _ \<Rightarrow> if below_max (srv (snd rw)) then Some (Ok (), snd rw)
                                else random_evict_loop cx (snd rw)
                      | _ \<Rightarrow> Some (wrap_err ''adjustMemoryUsage -> all keys random: '' (fst rw), snd rw)))
            else random_evict_loop cx (snd kw)))"

text \<open>The volatile policy draws below the number of databases too.\<close>

partial_function (option) volatile_evict_loop :: "ctx \<Rightarrow> sworld \<Rightarrow> (unit res \<times> sworld) option" where
  "volatile_evict_loop cx w =
     (if keysWithExpiry (srv w) = [] then Some (Panic intn_panic, w)
      else
        (let cw = flip w;
             idx = intn (fst cw) (length (keysWithExpiry (srv w)));
             ks = volatile_keys (srv w) (Database cx)
         in if length ks \<le> idx then Some (Panic index_out_of_range, snd cw)
            else (let rw = evict_one cx (ks ! idx) (snd cw)
                  in (case fst rw of
                        Ok _ \<Rightarrow> if below_max (srv (snd rw)) then Some (Ok (), snd rw)
                                else volatile_evict_loop cx (snd rw)
                      | _ \<Rightarrow> Some (wrap_err ''adjustMemoryUsage -> volatile keys random: '' (fst rw), snd rw)))))"

definition adjustMemoryUsage :: "ctx \<Rightarrow> sworld \<Rightarrow> unit res \<times> sworld" where
  "adjustMemoryUsage cx w =
     (let s = srv w; policy = to_lower (EvictionPolicy (config s))
      in if MaxMemory (config s) = 0 \<or> below_max s then (Ok (), w)
         else if policy \<in> {AllKeysLFU, VolatileLFU} then returned (lfu_evict_loop cx w) w
         else if policy \<in> {AllKeysLRU, VolatileLRU} then returned (lru_evict_loop cx w) w
         else if policy = AllKeysRandom then returned (random_evict_loop cx w) w
         else if policy = VolatileRandom then returned (volatile_evict_loop cx w) w
         else (Ok (), w))"

subsection \<open>Touching keys\<close>

definition lfu_touch :: "ctx \<Rightarrow> string \<Rightarrow> sworld \<Rightarrow> unit res \<times> sworld" where
  "lfu_touch cx k w =
     (case map_of (lfuCache (srv w)) (Database cx) of
        None \<Rightarrow> (Panic nil_deref, w)
      | Some c \<Rightarrow>
          (let (now, w1) = now_millis w
           in and_then (LFU_Update now k c, w1) (\<lambda>c' w2.
                (Ok (), upd (\<lambda>s. s\<lparr>lfuCache := AList.update (Database cx) c' (lfuCache s)\<rparr>) w2))))"

definition lru_touch :: "ctx \<Rightarrow> string \<Rightarrow> sworld \<Rightarrow> unit res \<times> sworld" where
  "lru_touch cx k w =
     (case map_of (lruCache (srv w)) (Database cx) of
        None \<Rightarrow> (Panic nil_deref, w)
      | Some c \<Rightarrow>
          (let (now1, w1) = now_millis w; (now2, w2) = now_millis w1
           in and_then (LRU_Update now1 now2 k c, w2) (\<lambda>c' w3.
                (Ok (), upd (\<lambda>s. s\<lparr>lruCache := AList.update (Database cx) c' (lruCache s)\<rparr>) w3))))"

text \<open>One key of \<open>updateKeysInCache\<close>; the volatile policies only lock the cache of other keys.\<close>

definition touch_key :: "ctx \<Rightarrow> string \<Rightarrow> keydata \<Rightarrow> sworld \<Rightarrow> unit res \<times> sworld" where
  "touch_key cx k e w =
     (let policy = to_lower (EvictionPolicy (config (srv w))); d = Database cx
      in if policy = AllKeysLFU then lfu_touch cx k w
         else if policy = AllKeysLRU then lru_touch cx k w
         else if policy = VolatileLFU then
           (if map_of (lfuCache (srv w)) d = None then (Panic nil_deref, w)
            else if ExpireAt e \<noteq> None then lfu_touch cx k w else (Ok (), w))
         else if policy = VolatileLRU then
           (if map_of (lruCache (srv w)) d = None then (Panic nil_deref, w)
            else if ExpireAt e \<noteq> None then lru_touch cx k w else (Ok (), w))
         else (Ok (), w))"

fun touch_keys :: "ctx \<Rightarrow> string list \<Rightarrow> int \<Rightarrow> sworld \<Rightarrow> int res \<times> sworld" where
  "touch_keys cx [] n w = (Ok n, w)"
| "touch_keys cx (k # ks) n w =
     (case lookup_key (srv w) (Database cx) k of
        None \<Rightarrow> touch_keys cx ks n w
      | Some e \<Rightarrow> and_then (touch_key cx k e w) (\<lambda>_ w1. touch_keys cx ks (n + 1) w1))"

text \<open>
  A goroutine per database adjusts the memory; they are run one after the other, in an order
  of the environment's choosing. All of them run; the first error is the result.
\<close>

fun adjust_all :: "ctx \<Rightarrow> int list \<Rightarrow> sworld \<Rightarrow> unit res \<times> sworld" where
  "adjust_all cx [] w = (Ok (), w)"
| "adjust_all cx (d # ds) w =
     (let (r, w1) = adjustMemoryUsage (cx\<lparr>Database := d\<rparr>) w
      in (case r of
            Ok _ \<Rightarrow> adjust_all cx ds w1
          | Err e \<Rightarrow>
              (let (r2, w2) = adjust_all cx ds w1
               in ((case r2 of
                      Panic p \<Rightarrow> Panic p
                    | Diverge \<Rightarrow> Diverge
                    | _ \<Rightarrow> Err (''adjustMemoryUsage database '' @ itoa d @ '', error: '' @ e)), w2))
          | _ \<Rightarrow> (r, w1)))"

definition updateKeysInCache :: "ctx \<Rightarrow> string list \<Rightarrow> sworld \<Rightarrow> int res \<times> sworld" where
  "updateKeysInCache cx ks w =
     (if isInCluster (srv w) then (Ok 0, w)
      else if MaxMemory (config (srv w)) = 0 then (Ok 0, w)
      else and_then (touch_keys cx ks 0 w) (\<lambda>n w1.
             let (ds, w2) = go_range (gm_keys (store (srv w1))) w1;
                 (r, w3) = adjust_all cx ds w2
             in and_then (wrap_err ''adjustMemoryUsage error: '' r, w3) (\<lambda>_ w4. (Ok n, w4))))"

text \<open>A goroutine started by the keyspace functions runs; its error is only logged.\<close>

fun touch_each :: "ctx \<Rightarrow> string list \<Rightarrow> sworld \<Rightarrow> unit res \<times> sworld" where
  "touch_each cx [] w = (Ok (), w)"
| "touch_each cx (k # ks) w =
     (let (r, w1) = updateKeysInCache cx [k] w
      in (case r of
            Panic p \<Rightarrow> (Panic p, w1)
          | Diverge \<Rightarrow> (Diverge, w1)
          | _ \<Rightarrow> touch_each cx ks w1))"

fun run_task :: "task \<Rightarrow> sworld \<Rightarrow> unit res \<times> sworld" where
  "run_task (UpdateKeys cx ks) w =
     (let (r, w1) = updateKeysInCache cx ks w
      in ((case r of Panic p \<Rightarrow> Panic p | Diverge \<Rightarrow> Diverge | _ \<Rightarrow> Ok ()), w1))"
| "run_task (UpdateEach cx ks) w =
     (let (order, w1) = go_range ks w in touch_each cx order w1)"

subsection \<open>Sampling volatile keys\<close>

text \<open>
  One slot of the sample: draw until a key comes that is not in the array yet. The array
  starts as empty strings, and the index is drawn below the number of databases.
\<close>

partial_function (option) draw_volatile ::
    "int \<Rightarrow> string list \<Rightarrow> sworld \<Rightarrow> (string res \<times> sworld) option" where
  "draw_volatile d keys w =
     (if keysWithExpiry (srv w) = [] then Some (Panic intn_panic, w)
      else
        (let cw = flip w;
             idx = intn (fst cw) (length (keysWithExpiry (srv w)));
             ks = volatile_keys (srv w) d
         in if length ks \<le> idx then Some (Panic index_out_of_range, snd cw)
            else if ks ! idx \<in> set keys then draw_volatile d keys (snd cw)
            else Some (Ok (ks ! idx), snd cw)))"

text \<open>The slots from \<open>i\<close> on; \<open>n\<close> of them are left.\<close>

fun sample_volatile :: "int \<Rightarrow> nat \<Rightarrow> nat \<Rightarrow> string list \<Rightarrow> sworld \<Rightarrow> string list res \<times> sworld" where
  "sample_volatile d i 0 keys w = (Ok keys, w)"
| "sample_volatile d i (Suc n) keys w =
     and_then (returned (draw_volatile d keys w) w) (\<lambda>k w1.
       sample_volatile d (Suc i) n (keys[i := k]) w1)"

fun evict_sampled :: "ctx \<Rightarrow> string list \<Rightarrow> int \<Rightarrow> sworld \<Rightarrow> int res \<times> sworld" where
  "evict_sampled cx [] n w = (Ok n, w)"
| "evict_sampled cx (k # ks) n w =
     (let (r, w1) = evict_one cx k w
      in and_then
           (wrap_err (''evictKeysWithExpiredTTL -> '' @
              (if isInCluster (srv w) then ''cluster delete: '' else ''standalone delete: '')) r, w1)
           (\<lambda>_ w2. evict_sampled cx ks (n + 1) w2))"

definition sample_size :: "int \<Rightarrow> server \<Rightarrow> nat" where
  "sample_size d s =
     (if int (length (volatile_keys s d)) < EvictionSample (config s)
      then length (keysWithExpiry s)
      else nat (EvictionSample (config s)))"

text \<open>
  The call made while the store lock is held samples again and then waits for the lock.
\<close>

definition evict_ttl_locked :: "ctx \<Rightarrow> sworld \<Rightarrow> unit res \<times> sworld" where
  "evict_ttl_locked cx w =
     (if isInCluster (srv w) \<and> \<not> raftLeader (srv w) then (Ok (), w)
      else let n = sample_size (Database cx) (srv w)
           in and_then (sample_volatile (Database cx) 0 n (replicate n '''') w) (\<lambda>_ w1. (Diverge, w1)))"

definition evictKeysWithExpiredTTL :: "ctx \<Rightarrow> sworld \<Rightarrow> unit res \<times> sworld" where
  "evictKeysWithExpiredTTL cx w =
     (if isInCluster (srv w) \<and> \<not> raftLeader (srv w) then (Ok (), w)
      else
        let n = sample_size (Database cx) (srv w)
        in and_then (sample_volatile (Database cx) 0 n (replicate n '''') w) (\<lambda>keys w1.
           and_then (evict_sampled cx keys 0 w1) (\<lambda>deleted w2.
             if n = 0 then (Ok (), w2)
             else if 20 \<le> (deleted div int n) * 100 then evict_ttl_locked cx w2
             else (Ok (), w2))))"

subsection \<open>Queries\<close>

definition randomKey :: "ctx \<Rightarrow> sworld \<Rightarrow> string \<times> sworld" where
  "randomKey cx w =
     (let ks = gm_keys (db_of (srv w) (Database cx))
      in if ks = [] then ('''', w)
         else let (c, w1) = flip w; (order, w2) = go_range ks w1
              in (order ! intn c (length ks), w2))"

definition getObjectFreq :: "ctx \<Rightarrow> string \<Rightarrow> sworld \<Rightarrow> int res" where
  "getObjectFreq cx k w =
     (case map_of (lfuCache (srv w)) (Database cx) of
        None \<Rightarrow> Panic nil_deref
      | Some c \<Rightarrow> LFU_GetCount k c)"

text \<open>
  The idle time, from the recorded millisecond to the current nanosecond, as a number of
  seconds: the whole seconds plus the rest divided by a thousand million, each rounded.
\<close>

definition duration_seconds :: "int \<Rightarrow> float64" where
  "duration_seconds d =
     (let s = (if d < 0 then - ((- d) div 10 ^ 9) else d div 10 ^ 9)
      in f_add (float_of_int s) (to_float64 (of_int (d - s * 10 ^ 9) / 10 ^ 9)))"

definition getObjectIdleTime :: "ctx \<Rightarrow> string \<Rightarrow> sworld \<Rightarrow> float64 res \<times> sworld" where
  "getObjectIdleTime cx k w =
     (case map_of (lruCache (srv w)) (Database cx) of
        None \<Rightarrow> (Panic nil_deref, w)
      | Some c \<Rightarrow>
          and_then (LRU_GetTime k c, w) (\<lambda>t w1.
            let (now, w2) = now_millis w1; (ns, w3) = flip w2
            in (Ok (duration_seconds (sat_i64 (now * 10 ^ 6 + int (ns mod 10 ^ 6) - t * 10 ^ 6))), w3)))"

end
