(* ===== verification/MemoryInv.thy ===== *)
theory MemoryInv
  imports Memory
begin

text \<open>
  What the memory management keeps true and when it returns. Under the LFU and LRU
  policies the eviction loops end, below the limit or with an empty cache, and keep the
  invariant of the keyspace. The random policies and the sampling of volatile keys do not
  end, or panic, on states that occur; the lemmas of the last two sections say which.
\<close>

subsection \<open>One eviction\<close>

lemma cache_delete_len:
  assumes "caches_inv s" "fst (cache_delete d k s) = Ok ()"
  shows "map_of (lfuCache s) d = Some c \<Longrightarrow>
      \<exists>c'. map_of (lfuCache (snd (cache_delete d k s))) d = Some c' \<and> LFU_Len c' \<le> LFU_Len c"
    and "map_of (lruCache s) d = Some c2 \<Longrightarrow>
      \<exists>c'. map_of (lruCache (snd (cache_delete d k s))) d = Some c' \<and> LRU_Len c' \<le> LRU_Len c2"
proof -
  assume c: "map_of (lfuCache s) d = Some c"
  then have "lfu_inv c" using assms(1) by (simp add: caches_inv_def)
  then obtain c' where c': "LFU_Delete k c = Ok c'" "lfu_inv c'"
    "dom (map_of (lfu_keys c')) = dom (map_of (lfu_keys c)) - {k}" using LFU_Delete_inv by blast
  have "LFU_Len c' \<le> LFU_Len c"
    unfolding lfu_inv_card [OF c'(2)] lfu_inv_card [OF \<open>lfu_inv c\<close>] c'(3)
    by (intro card_mono finite_dom_map_of) auto
  then show "\<exists>c'. map_of (lfuCache (snd (cache_delete d k s))) d = Some c' \<and> LFU_Len c' \<le> LFU_Len c"
    using c c' by (simp add: cache_delete_def split: option.split res.split)
next
  assume c: "map_of (lruCache s) d = Some c2"
  then have "lru_inv c2" using assms(1) by (simp add: caches_inv_def)
  then obtain c' where c': "LRU_Delete k c2 = Ok c'" "LRU_Len c' \<le> LRU_Len c2"
    using LRU_Delete_inv by blast
  then show "\<exists>c'. map_of (lruCache (snd (cache_delete d k s))) d = Some c' \<and> LRU_Len c' \<le> LRU_Len c2"
    using c c' by (simp add: cache_delete_def split: option.split res.split)
qed

lemma deleteKey_caches:
  assumes "sinv w" "deleteKey cx k w = (Ok (), w')"
  shows "map_of (lfuCache (srv w)) (Database cx) = Some c \<Longrightarrow>
      \<exists>c'. map_of (lfuCache (srv w')) (Database cx) = Some c' \<and> LFU_Len c' \<le> LFU_Len c"
    and "map_of (lruCache (srv w)) (Database cx) = Some c2 \<Longrightarrow>
      \<exists>c'. map_of (lruCache (srv w')) (Database cx) = Some c' \<and> LRU_Len c' \<le> LRU_Len c2"
proof -
  let ?d = "Database cx"
  let ?e = "case lookup_key (srv w) ?d k of None \<Rightarrow> zero_keydata | Some e \<Rightarrow> e"
  obtain mem where mem: "KeyData_GetMem (heap w) ?e = Ok mem"
    using assms(2) by (cases "KeyData_GetMem (heap w) ?e") (simp_all add: deleteKey_def Let_def)
  define s where "s = volatile_drop ?d k (drop_key ?d k
      ((srv w)\<lparr>memUsed := i64 (memUsed (srv w) - mem - sizeof_string - int (length k))\<rparr>))"
  have s: "lfuCache s = lfuCache (srv w)" "lruCache s = lruCache (srv w)" by (simp_all add: s_def)
  have "caches_inv s" using sinvD(3) [OF assms(1)] by (simp add: caches_inv_def s)
  moreover have "fst (cache_delete ?d k s) = Ok ()" "srv w' = snd (cache_delete ?d k s)"
    using assms(2) deleteKey_unfold [OF mem] by (auto simp: s_def Let_def)
  ultimately show "map_of (lfuCache (srv w)) ?d = Some c \<Longrightarrow>
      \<exists>c'. map_of (lfuCache (srv w')) ?d = Some c' \<and> LFU_Len c' \<le> LFU_Len c"
    "map_of (lruCache (srv w)) ?d = Some c2 \<Longrightarrow>
      \<exists>c'. map_of (lruCache (srv w')) ?d = Some c' \<and> LRU_Len c' \<le> LRU_Len c2"
    using cache_delete_len [of s ?d k] by (simp_all add: s)
qed

lemma db_caches:
  assumes "sinv w"
  shows "map_of (store (srv w)) d \<noteq> None \<longleftrightarrow> map_of (lfuCache (srv w)) d \<noteq> None"
    and "map_of (store (srv w)) d \<noteq> None \<longleftrightarrow> map_of (lruCache (srv w)) d \<noteq> None"
  using sinvD(2) [OF assms] unfolding store_inv_def by (metis domIff)+

lemma sinv_set_lfu:
  assumes "sinv w" "map_of (lfuCache (srv w)) d = Some c0" "lfu_inv c"
  shows "sinv (upd (\<lambda>s. s\<lparr>lfuCache := AList.update d c (lfuCache s)\<rparr>) w)"
proof -
  let ?w' = "upd (\<lambda>s. s\<lparr>lfuCache := AList.update d c (lfuCache s)\<rparr>) w"
  have "d \<in> dom (map_of (lfuCache (srv w)))" using assms(2) by auto
  then have "insert d (dom (map_of (lfuCache (srv w)))) = dom (map_of (lfuCache (srv w)))" by auto
  moreover have "lookup_key (srv ?w') = lookup_key (srv w)" "volatile_keys (srv ?w') = volatile_keys (srv w)"
    by (intro lookup_cong volatile_cong; simp)+
  ultimately show ?thesis
    using assms by (simp add: sinv_defs heap_wf_def db_of_def)
qed

lemma sinv_set_lru:
  assumes "sinv w" "map_of (lruCache (srv w)) d = Some c0" "lru_inv c"
  shows "sinv (upd (\<lambda>s. s\<lparr>lruCache := AList.update d c (lruCache s)\<rparr>) w)"
proof -
  let ?w' = "upd (\<lambda>s. s\<lparr>lruCache := AList.update d c (lruCache s)\<rparr>) w"
  have "d \<in> dom (map_of (lruCache (srv w)))" using assms(2) by auto
  then have "insert d (dom (map_of (lruCache (srv w)))) = dom (map_of (lruCache (srv w)))" by auto
  moreover have "lookup_key (srv ?w') = lookup_key (srv w)" "volatile_keys (srv ?w') = volatile_keys (srv w)"
    by (intro lookup_cong volatile_cong; simp)+
  ultimately show ?thesis
    using assms by (simp add: sinv_defs heap_wf_def db_of_def)
qed

text \<open>
  What eviction may do to a world: delete keys, and nothing else that handlers can see.
\<close>

definition evicts :: "sworld \<Rightarrow> sworld \<Rightarrow> bool" where
  "evicts w w' \<longleftrightarrow> sinv w' \<and> heap w' = heap w \<and> next_addr w' = next_addr w \<and>
     clockNow (srv w') = clockNow (srv w) \<and> config (srv w') = config (srv w) \<and>
     (\<forall>d k. lookup_key (srv w') d k = lookup_key (srv w) d k \<or> lookup_key (srv w') d k = None) \<and>
     (\<forall>d. map_of (store (srv w')) d \<noteq> None \<longleftrightarrow> map_of (store (srv w)) d \<noteq> None)"

lemma evicts_refl: "sinv w \<Longrightarrow> evicts w w"
  by (simp add: evicts_def)

lemma evicts_trans: "evicts w w1 \<Longrightarrow> evicts w1 w2 \<Longrightarrow> evicts w w2"
  unfolding evicts_def by metis

lemma evicts_frame:
  assumes "sinv w'" "heap w' = heap w" "next_addr w' = next_addr w" "store (srv w') = store (srv w)"
    "clockNow (srv w') = clockNow (srv w)" "config (srv w') = config (srv w)"
  shows "evicts w w'"
  using assms lookup_cong [OF assms(4)] by (simp add: evicts_def)

lemma isInCluster_cong: "config s' = config s \<Longrightarrow> isInCluster s' = isInCluster s"
  by (simp add: isInCluster_def)

lemma deleteKey_store_dom:
  "map_of (store (srv (snd (deleteKey cx k w)))) d \<noteq> None \<longleftrightarrow> map_of (store (srv w)) d \<noteq> None"
proof -
  have "dom (map_of (store (srv (snd (deleteKey cx k w))))) = dom (map_of (store (srv w)))"
    by (simp add: deleteKey_def and_then_def case_prod_beta Let_def split: res.split)
  then show ?thesis by (metis domIff)
qed

lemma evict_one_ok:
  assumes "sinv w" "\<not> isInCluster (srv w)" "map_of (store (srv w)) (Database cx) \<noteq> None"
  shows "\<exists>w'. evict_one cx k w = (Ok (), w') \<and> evicts w w' \<and>
    lookup_key (srv w') (Database cx) k = None \<and>
    volatile_keys (srv w') (Database cx) = filter (\<lambda>x. x \<noteq> k) (volatile_keys (srv w) (Database cx)) \<and>
    (\<forall>c. map_of (lfuCache (srv w)) (Database cx) = Some c \<longrightarrow>
       (\<exists>c'. map_of (lfuCache (srv w')) (Database cx) = Some c' \<and> LFU_Len c' \<le> LFU_Len c)) \<and>
    (\<forall>c. map_of (lruCache (srv w)) (Database cx) = Some c \<longrightarrow>
       (\<exists>c'. map_of (lruCache (srv w')) (Database cx) = Some c' \<and> LRU_Len c' \<le> LRU_Len c))"
proof -
  obtain w' where w': "deleteKey cx k w = (Ok (), w')" "sinv w'" "heap w' = heap w" "next_addr w' = next_addr w"
    "lookup_key (srv w') = (\<lambda>d k'. if d = Database cx \<and> k' = k then None else lookup_key (srv w) d k')"
    "volatile_keys (srv w') (Database cx) = filter (\<lambda>x. x \<noteq> k) (volatile_keys (srv w) (Database cx))"
    "clockNow (srv w') = clockNow (srv w)" "config (srv w') = config (srv w)"
    using deleteKey_spec [OF assms(1,3), of k] by blast
  have "evicts w w'"
    using w' deleteKey_store_dom [of cx k w] by (auto simp: evicts_def)
  then show ?thesis
    using w'(1,5,6) assms(2) deleteKey_caches [OF assms(1) w'(1)] by (simp add: evict_one_def)
qed

subsection \<open>The loops of the LFU and LRU policies end\<close>

lemma lfu_evict_loop_ok:
  assumes "sinv w" "\<not> isInCluster (srv w)" "map_of (lfuCache (srv w)) (Database cx) = Some c"
  shows "\<exists>r w'. lfu_evict_loop cx w = Some (r, w') \<and> evicts w w' \<and>
     (r = Ok () \<and> below_max (srv w') \<or>
      r = Err ''adjustMemoryUsage -> LFU cache empty'' \<and>
      (\<exists>c'. map_of (lfuCache (srv w')) (Database cx) = Some c' \<and> LFU_Len c' = 0))"
  using assms
proof (induction "LFU_Len c" arbitrary: w c rule: less_induct)
  case less
  let ?d = "Database cx"
  show ?case
  proof (cases "LFU_Len c = 0")
    case True
    then show ?thesis using less.prems evicts_refl by (simp add: lfu_evict_loop.simps)
  next
    case False
    have inv: "lfu_inv c" using sinvD(3) [OF less.prems(1)] less.prems(3) by (simp add: caches_inv_def)
    obtain e c1 where pop: "LFU_HeapPop c = Ok (lfu_key e, c1)" "lfu_inv c1"
      "dom (map_of (lfu_keys c1)) = dom (map_of (lfu_keys c)) - {lfu_key e}"
      "LFU_payload e \<in> set (map LFU_payload (slots (lfu_entries c)))"
      using LFU_HeapPop_spec [OF inv] False by (auto simp: LFU_Len_def)
    have "lfu_key e \<in> dom (map_of (lfu_keys c))"
      using inv pop(4) by (auto simp: lfu_inv_def LFU_payload_def)
    then have len1: "LFU_Len c1 < LFU_Len c"
      unfolding lfu_inv_card [OF pop(2)] lfu_inv_card [OF inv] pop(3)
      by (intro psubset_card_mono finite_dom_map_of) auto
    let ?w1 = "upd (\<lambda>s. s\<lparr>lfuCache := AList.update ?d c1 (lfuCache s)\<rparr>) w"
    have w1: "sinv ?w1" by (rule sinv_set_lfu [OF less.prems(1,3) pop(2)])
    have cl1: "\<not> isInCluster (srv ?w1)" using less.prems(2) by (simp add: isInCluster_def)
    have d1: "map_of (store (srv ?w1)) ?d \<noteq> None" using db_caches(1) [OF less.prems(1)] less.prems(3) by simp
    obtain w2 c2 where w2: "evict_one cx (lfu_key e) ?w1 = (Ok (), w2)" "evicts ?w1 w2"
      "map_of (lfuCache (srv w2)) ?d = Some c2" "LFU_Len c2 \<le> LFU_Len c1"
      using evict_one_ok [OF w1 cl1 d1, of "lfu_key e"] by auto
    have ev: "evicts w w2" using evicts_trans [OF evicts_frame [OF w1, of w] w2(2)] by simp
    have step: "lfu_evict_loop cx w =
        (if below_max (srv w2) then Some (Ok (), w2) else lfu_evict_loop cx w2)"
      by (subst lfu_evict_loop.simps) (simp add: less.prems(3) False pop(1) w2(1))
    have cl2: "sinv w2" "\<not> isInCluster (srv w2)"
      using ev less.prems(2) isInCluster_cong [of "srv w2" "srv w"] by (simp_all add: evicts_def)
    have lt: "LFU_Len c2 < LFU_Len c" using len1 w2(4) by simp
    show ?thesis
      using less.hyps [OF lt cl2 w2(3)] ev evicts_trans [OF ev] step by auto
  qed
qed

lemma lru_evict_loop_ok:
  assumes "sinv w" "\<not> isInCluster (srv w)" "map_of (lruCache (srv w)) (Database cx) = Some c"
  shows "\<exists>r w'. lru_evict_loop cx w = Some (r, w') \<and> evicts w w' \<and>
     (r = Ok () \<and> below_max (srv w') \<or>
      r = Err ''adjustMemoryUsage -> LRU cache empty'' \<and>
      (\<exists>c'. map_of (lruCache (srv w')) (Database cx) = Some c' \<and> LRU_Len c' = 0))"
  using assms
proof (induction "LRU_Len c" arbitrary: w c rule: less_induct)
  case less
  let ?d = "Database cx"
  show ?case
  proof (cases "LRU_Len c = 0")
    case True
    then show ?thesis using less.prems evicts_refl by (simp add: lru_evict_loop.simps)
  next
    case False
    have inv: "lru_inv c" using sinvD(3) [OF less.prems(1)] less.prems(3) by (simp add: caches_inv_def)
    obtain e :: entry_lru and c1 where pop: "LRU_HeapPop c = Ok (lru_key e, c1)" "lru_inv c1"
      "mset (map lru_key (slots (lru_entries c))) =
       add_mset (lru_key e) (mset (map lru_key (slots (lru_entries c1))))"
      using LRU_HeapPop_spec [OF inv] False unfolding LRU_Len_def length_0_conv by blast
    have len1: "LRU_Len c1 < LRU_Len c"
      using arg_cong [OF pop(3), of size] by (simp add: LRU_Len_def slots_def)
    let ?w1 = "upd (\<lambda>s. s\<lparr>lruCache := AList.update ?d c1 (lruCache s)\<rparr>) w"
    have w1: "sinv ?w1" by (rule sinv_set_lru [OF less.prems(1,3) pop(2)])
    have cl1: "\<not> isInCluster (srv ?w1)" using less.prems(2) by (simp add: isInCluster_def)
    have d1: "map_of (store (srv ?w1)) ?d \<noteq> None" using db_caches(2) [OF less.prems(1)] less.prems(3) by simp
    obtain w2 c2 where w2: "evict_one cx (lru_key e) ?w1 = (Ok (), w2)" "evicts ?w1 w2"
      "map_of (lruCache (srv w2)) ?d = Some c2" "LRU_Len c2 \<le> LRU_Len c1"
      using evict_one_ok [OF w1 cl1 d1, of "lru_key e"] by auto
    have ev: "evicts w w2" using evicts_trans [OF evicts_frame [OF w1, of w] w2(2)] by simp
    have step: "lru_evict_loop cx w =
        (if below_max (srv w2) then Some (Ok (), w2) else lru_evict_loop cx w2)"
      by (subst lru_evict_loop.simps) (simp add: less.prems(3) False pop(1) w2(1))
    have cl2: "sinv w2" "\<not> isInCluster (srv w2)"
      using ev less.prems(2) isInCluster_cong [of "srv w2" "srv w"] by (simp_all add: evicts_def)
    have lt: "LRU_Len c2 < LRU_Len c" using len1 w2(4) by simp
    show ?thesis
      using less.hyps [OF lt cl2 w2(3)] ev evicts_trans [OF ev] step by auto
  qed
qed

definition random_policy :: "server \<Rightarrow> bool" where
  "random_policy s \<longleftrightarrow> to_lower (EvictionPolicy (config s)) \<in> {AllKeysRandom, VolatileRandom}"

text \<open>
  Under every policy but the random ones, adjusting the memory of a database returns, either
  with the memory below the limit, or with an error and the cache of the database empty.
\<close>

lemma adjustMemoryUsage_ok:
  assumes "sinv w" "\<not> isInCluster (srv w)" "map_of (store (srv w)) (Database cx) \<noteq> None"
    and "\<not> random_policy (srv w)"
  shows "\<exists>r w'. adjustMemoryUsage cx w = (r, w') \<and> evicts w w' \<and> (r = Ok () \<or> (\<exists>e. r = Err e))"
proof -
  obtain c c' where c: "map_of (lfuCache (srv w)) (Database cx) = Some c"
    "map_of (lruCache (srv w)) (Database cx) = Some c'"
    using db_caches [OF assms(1)] assms(3) by blast
  obtain r1 w1 where l: "lfu_evict_loop cx w = Some (r1, w1)" "evicts w w1" "r1 = Ok () \<or> (\<exists>e. r1 = Err e)"
    using lfu_evict_loop_ok [OF assms(1,2) c(1)] by blast
  obtain r2 w2 where m: "lru_evict_loop cx w = Some (r2, w2)" "evicts w w2" "r2 = Ok () \<or> (\<exists>e. r2 = Err e)"
    using lru_evict_loop_ok [OF assms(1,2) c(2)] by blast
  show ?thesis
    using l m evicts_refl [OF assms(1)] assms(4)
    by (simp add: adjustMemoryUsage_def Let_def returned_def random_policy_def)
qed

lemma adjust_all_ok:
  assumes "sinv w" "\<not> isInCluster (srv w)" "\<forall>d\<in>set ds. map_of (store (srv w)) d \<noteq> None"
    and "\<not> random_policy (srv w)"
  shows "\<exists>r w'. adjust_all cx ds w = (r, w') \<and> evicts w w' \<and> (r = Ok () \<or> (\<exists>e. r = Err e))"
  using assms
proof (induction ds arbitrary: w)
  case Nil
  then show ?case by (simp add: evicts_refl)
next
  case (Cons d ds)
  have d: "map_of (store (srv w)) (Database (cx\<lparr>Database := d\<rparr>)) \<noteq> None" using Cons.prems(3) by simp
  obtain r1 w1 where w1: "adjustMemoryUsage (cx\<lparr>Database := d\<rparr>) w = (r1, w1)" "evicts w w1"
    "r1 = Ok () \<or> (\<exists>e. r1 = Err e)"
    using adjustMemoryUsage_ok [OF Cons.prems(1,2) d Cons.prems(4)] by blast
  have p: "sinv w1" "\<not> isInCluster (srv w1)" "\<forall>d\<in>set ds. map_of (store (srv w1)) d \<noteq> None"
    "\<not> random_policy (srv w1)"
    using w1(2) Cons.prems(2-4) isInCluster_cong [of "srv w1" "srv w"]
    by (simp_all add: evicts_def random_policy_def)
  obtain r2 w2 where w2: "adjust_all cx ds w1 = (r2, w2)" "evicts w1 w2" "r2 = Ok () \<or> (\<exists>e. r2 = Err e)"
    using Cons.IH [OF p] by blast
  show ?case
    using w1 w2 evicts_trans [OF w1(2) w2(2)] by (auto simp: Let_def)
qed

subsection \<open>Touching keys keeps the invariant\<close>

lemma now_millis_simps [simp]:
  "heap (snd (now_millis w)) = heap w" "next_addr (snd (now_millis w)) = next_addr w"
  "store (srv (snd (now_millis w))) = store (srv w)"
  "lfuCache (srv (snd (now_millis w))) = lfuCache (srv w)"
  "lruCache (srv (snd (now_millis w))) = lruCache (srv w)"
  "keysWithExpiry (srv (snd (now_millis w))) = keysWithExpiry (srv w)"
  "config (srv (snd (now_millis w))) = config (srv w)"
  "clockNow (srv (snd (now_millis w))) = clockNow (srv w)"
  "memUsed (srv (snd (now_millis w))) = memUsed (srv w)"
  by (simp_all add: now_millis_def Let_def case_prod_beta)

lemma sinv_now_millis: "sinv w \<Longrightarrow> sinv (snd (now_millis w))"
  by (erule sinv_cong) simp_all

lemma lfu_touch_ok:
  assumes "sinv w" "map_of (store (srv w)) (Database cx) \<noteq> None"
  shows "\<exists>w'. lfu_touch cx k w = (Ok (), w') \<and> evicts w w' \<and> store (srv w') = store (srv w)"
proof -
  obtain c where c: "map_of (lfuCache (srv w)) (Database cx) = Some c"
    using db_caches(1) [OF assms(1)] assms(2) by blast
  then have "lfu_inv c" using sinvD(3) [OF assms(1)] by (simp add: caches_inv_def)
  then obtain c' where c': "LFU_Update (fst (now_millis w)) k c = Ok c'" "lfu_inv c'"
    using LFU_Update_inv by blast
  let ?w' = "upd (\<lambda>s. s\<lparr>lfuCache := AList.update (Database cx) c' (lfuCache s)\<rparr>) (snd (now_millis w))"
  have "sinv ?w'" by (rule sinv_set_lfu [OF sinv_now_millis [OF assms(1)] _ c'(2)]) (simp add: c)
  then have "evicts w ?w'" by (rule evicts_frame) simp_all
  then show ?thesis using c c' by (simp add: lfu_touch_def case_prod_beta)
qed

lemma lru_touch_ok:
  assumes "sinv w" "map_of (store (srv w)) (Database cx) \<noteq> None"
  shows "\<exists>w'. lru_touch cx k w = (Ok (), w') \<and> evicts w w' \<and> store (srv w') = store (srv w)"
proof -
  obtain c where c: "map_of (lruCache (srv w)) (Database cx) = Some c"
    using db_caches(2) [OF assms(1)] assms(2) by blast
  then have "lru_inv c" using sinvD(3) [OF assms(1)] by (simp add: caches_inv_def)
  then obtain c' where c': "LRU_Update (fst (now_millis w)) (fst (now_millis (snd (now_millis w)))) k c = Ok c'"
    "lru_inv c'" using LRU_Update_spec by blast
  let ?w2 = "snd (now_millis (snd (now_millis w)))"
  let ?w' = "upd (\<lambda>s. s\<lparr>lruCache := AList.update (Database cx) c' (lruCache s)\<rparr>) ?w2"
  have "sinv ?w2" by (intro sinv_now_millis assms(1))
  then have "sinv ?w'" by (rule sinv_set_lru [OF _ _ c'(2)]) (simp add: c)
  then have "evicts w ?w'" by (rule evicts_frame) simp_all
  then show ?thesis using c c' by (simp add: lru_touch_def case_prod_beta)
qed

lemma touch_keys_ok:
  assumes "sinv w"
  shows "\<exists>n' w'. touch_keys cx ks n w = (Ok n', w') \<and> evicts w w' \<and> store (srv w') = store (srv w) \<and>
    n' = n + int (length (filter (\<lambda>k. lookup_key (srv w) (Database cx) k \<noteq> None) ks))"
  using assms
proof (induction ks arbitrary: n w)
  case Nil
  then show ?case by (simp add: evicts_refl)
next
  case (Cons k ks)
  show ?case
  proof (cases "lookup_key (srv w) (Database cx) k")
    case None
    then show ?thesis using Cons.IH [OF Cons.prems, of n] by simp
  next
    case (Some e)
    have d: "map_of (store (srv w)) (Database cx) \<noteq> None" by (rule lookup_db_exists [OF Some])
    have "\<exists>w'. touch_key cx k e w = (Ok (), w') \<and> evicts w w' \<and> store (srv w') = store (srv w)"
      using lfu_touch_ok [OF Cons.prems d, of k] lru_touch_ok [OF Cons.prems d, of k]
        evicts_refl [OF Cons.prems] db_caches [OF Cons.prems, of "Database cx"] d
      by (auto simp: touch_key_def Let_def)
    then obtain w1 where w1: "touch_key cx k e w = (Ok (), w1)" "evicts w w1" "store (srv w1) = store (srv w)"
      by blast
    have "sinv w1" using w1(2) by (simp add: evicts_def)
    from Cons.IH [OF this, of "n + 1"] show ?thesis
      using Some w1 evicts_trans [OF w1(2)] lookup_cong [OF w1(3)] by auto
  qed
qed

lemma updateKeysInCache_ok:
  assumes "sinv w" "\<not> random_policy (srv w)"
  shows "\<exists>r w'. updateKeysInCache cx ks w = (r, w') \<and> evicts w w' \<and> ((\<exists>n. r = Ok n) \<or> (\<exists>e. r = Err e))"
proof (cases "isInCluster (srv w) \<or> MaxMemory (config (srv w)) = 0")
  case True
  then show ?thesis using evicts_refl [OF assms(1)] by (auto simp: updateKeysInCache_def)
next
  case False
  obtain n w1 where w1: "touch_keys cx ks 0 w = (Ok n, w1)" "evicts w w1" "store (srv w1) = store (srv w)"
    using touch_keys_ok [OF assms(1)] by blast
  let ?r = "go_range (gm_keys (store (srv w1))) w1"
  have s2: "sinv (snd ?r)" using w1(2) by (auto simp: evicts_def intro!: sinv_cong [of w1])
  have c2: "\<not> isInCluster (srv (snd ?r))" "\<not> random_policy (srv (snd ?r))"
    using w1(2) False assms(2) isInCluster_cong [of "srv w1" "srv w"]
    by (simp_all add: evicts_def random_policy_def)
  have d2: "\<forall>d\<in>set (fst ?r). map_of (store (srv (snd ?r))) d \<noteq> None"
    by (auto simp: gm_keys_def map_of_eq_None_iff)
  obtain r w3 where w3: "adjust_all cx (fst ?r) (snd ?r) = (r, w3)" "evicts (snd ?r) w3"
    "r = Ok () \<or> (\<exists>e. r = Err e)"
    using adjust_all_ok [OF s2 c2(1) d2 c2(2)] by blast
  have "evicts w w3"
    using evicts_trans [OF w1(2) evicts_trans [OF evicts_frame [OF s2] w3(2)]] by simp
  then show ?thesis
    using False w1(1) w3(1,3)
    by (auto simp: updateKeysInCache_def case_prod_beta wrap_err_def)
qed

lemma random_policy_cong: "config s' = config s \<Longrightarrow> random_policy s' = random_policy s"
  by (simp add: random_policy_def)

lemma touch_each_ok:
  assumes "sinv w" "\<not> random_policy (srv w)"
  shows "\<exists>w'. touch_each cx ks w = (Ok (), w') \<and> evicts w w'"
  using assms
proof (induction ks arbitrary: w)
  case Nil
  then show ?case by (simp add: evicts_refl)
next
  case (Cons k ks)
  obtain r w1 where w1: "updateKeysInCache cx [k] w = (r, w1)" "evicts w w1" "(\<exists>n. r = Ok n) \<or> (\<exists>e. r = Err e)"
    using updateKeysInCache_ok [OF Cons.prems] by blast
  have "sinv w1" "\<not> random_policy (srv w1)"
    using w1(2) Cons.prems(2) random_policy_cong [of "srv w1" "srv w"] by (simp_all add: evicts_def)
  then obtain w2 where "touch_each cx ks w1 = (Ok (), w2)" "evicts w1 w2" using Cons.IH by blast
  then show ?case using w1 evicts_trans [OF w1(2)] by auto
qed

lemma run_task_ok:
  assumes "sinv w" "\<not> random_policy (srv w)"
  shows "\<exists>w'. run_task t w = (Ok (), w') \<and> evicts w w'"
proof (cases t)
  case (UpdateKeys cx ks)
  then show ?thesis using updateKeysInCache_ok [OF assms, of cx ks] by auto
next
  case (UpdateEach cx ks)
  let ?r = "go_range ks w"
  have "sinv (snd ?r)" "\<not> random_policy (srv (snd ?r))"
    using assms by (auto intro!: sinv_cong [of w] simp: random_policy_def)
  then obtain w' where "touch_each cx (fst ?r) (snd ?r) = (Ok (), w')" "evicts (snd ?r) w'"
    using touch_each_ok by blast
  moreover have "evicts w (snd ?r)" by (rule evicts_frame) (use \<open>sinv (snd ?r)\<close> in simp_all)
  ultimately show ?thesis using UpdateEach evicts_trans by (auto simp: case_prod_beta)
qed

subsection \<open>Where the random policies do not end\<close>

text \<open>
  The loop of the all-keys policy stops at an empty server, not at an empty database: once
  the database has no key left and the memory counter is not below the limit it spins.
\<close>

lemma random_evict_loop_empty:
  assumes "store (srv w) \<noteq> []" "db_of (srv w) (Database cx) = []"
  shows "random_evict_loop cx w = None"
proof -
  have "store (srv w) \<noteq> [] \<longrightarrow> db_of (srv w) (Database cx) = [] \<longrightarrow> False"
    if "random_evict_loop cx w = Some r" for r
    using that
  proof (induction rule: random_evict_loop.raw_induct [rotated, consumes 1, case_names 1])
    case (1 loop cx w r)
    have ks: "fst (go_range (gm_keys (db_of (srv w) (Database cx))) (snd (flip w))) = []"
      if "db_of (srv w) (Database cx) = []"
      using that by (simp add: go_range_def case_prod_beta gm_keys_def)
    show ?case
    proof (intro impI)
      assume a: "store (srv w) \<noteq> []" "db_of (srv w) (Database cx) = []"
      then have "loop cx (snd (go_range (gm_keys (db_of (srv w) (Database cx))) (snd (flip w)))) = Some r"
        using 1(2) ks [OF a(2)] by (simp add: Let_def)
      from 1(1) [OF this] a show False by simp
    qed
  qed
  then show ?thesis using assms by (cases "random_evict_loop cx w") auto
qed

text \<open>The volatile policy indexes the volatile keys without looking at how many there are.\<close>

lemma volatile_evict_loop_panics:
  assumes "volatile_keys (srv w) (Database cx) = []"
  shows "\<exists>p w'. volatile_evict_loop cx w = Some (Panic p, w')"
  by (subst volatile_evict_loop.simps) (simp add: assms)

subsection \<open>Sampling never comes to a normal end\<close>

lemma draw_volatile_Some:
  assumes "draw_volatile d keys w = Some (r, w')"
  shows "srv w' = srv w \<and> heap w' = heap w \<and> next_addr w' = next_addr w \<and>
    (\<forall>e. r \<noteq> Err e) \<and> r \<noteq> Diverge \<and> (\<forall>k. r = Ok k \<longrightarrow> k \<in> set (volatile_keys (srv w) d) - set keys)"
proof -
  have "srv (snd rw) = srv w \<and> heap (snd rw) = heap w \<and> next_addr (snd rw) = next_addr w \<and>
    (\<forall>e. fst rw \<noteq> Err e) \<and> fst rw \<noteq> Diverge \<and>
    (\<forall>k. fst rw = Ok k \<longrightarrow> k \<in> set (volatile_keys (srv w) d) - set keys)"
    if "draw_volatile d keys w = Some rw" for rw
    using that
  proof (induction rule: draw_volatile.raw_induct [rotated, consumes 1, case_names 1])
    case (1 draw d keys w rw)
    let ?i = "intn (fst (flip w)) (length (keysWithExpiry (srv w)))"
    let ?ks = "volatile_keys (srv w) d"
    consider "keysWithExpiry (srv w) = []" | "keysWithExpiry (srv w) \<noteq> []" "length ?ks \<le> ?i"
      | "keysWithExpiry (srv w) \<noteq> []" "?i < length ?ks" "?ks ! ?i \<in> set keys"
      | "keysWithExpiry (srv w) \<noteq> []" "?i < length ?ks" "?ks ! ?i \<notin> set keys" by linarith
    then show ?case
    proof cases
      case 3
      then have "draw d keys (snd (flip w)) = Some rw" using 1(2) by (simp add: Let_def)
      from 1(1) [OF this] show ?thesis by simp
    qed (use 1(2) in \<open>auto simp: Let_def\<close>)
  qed
  from this [OF assms] show ?thesis by simp
qed

lemma sample_volatile_srv:
  "srv (snd (sample_volatile d i n keys w)) = srv w \<and> heap (snd (sample_volatile d i n keys w)) = heap w \<and>
   next_addr (snd (sample_volatile d i n keys w)) = next_addr w \<and>
   (\<forall>e. fst (sample_volatile d i n keys w) \<noteq> Err e) \<and>
   (\<forall>ks. fst (sample_volatile d i n keys w) = Ok ks \<longrightarrow> length ks = length keys)"
proof (induction n arbitrary: i keys w)
  case (Suc n)
  show ?case
  proof (cases "draw_volatile d keys w")
    case (Some rw)
    obtain r w1 where rw: "rw = (r, w1)" by (cases rw)
    note d = draw_volatile_Some [OF Some [unfolded rw]]
    show ?thesis using d Suc.IH Some rw by (cases r) (simp_all add: returned_def)
  qed (simp add: returned_def)
qed simp

lemma evict_sampled_count:
  "fst (evict_sampled cx ks n w) = Ok m \<Longrightarrow> m = n + int (length ks)"
proof (induction ks arbitrary: n w)
  case (Cons k ks)
  obtain r w1 where r: "evict_one cx k w = (r, w1)" by (cases "evict_one cx k w")
  then show ?case
    using Cons.prems Cons.IH [of "n + 1" w1] by (cases r) (auto simp: wrap_err_def Let_def)
qed simp

lemma deleteKey_config [simp]: "config (srv (snd (deleteKey cx k w))) = config (srv w)"
  by (simp add: deleteKey_def and_then_def case_prod_beta Let_def split: res.split)

lemma evict_sampled_cluster:
  "isInCluster (srv (snd (evict_sampled cx ks n w))) = isInCluster (srv w)"
proof -
  have "config (srv (snd (evict_sampled cx ks n w))) = config (srv w)"
  proof (induction ks arbitrary: n w)
    case (Cons k ks)
    have "config (srv (snd (evict_one cx k w))) = config (srv w)"
      by (simp add: evict_one_def raftApplyDeleteKey_def Let_def)
    then show ?case
      using Cons.IH by (simp add: Let_def case_prod_beta and_then_def split: res.split)
  qed simp
  then show ?thesis by (rule isInCluster_cong)
qed

lemma evict_ttl_locked_not_ok:
  assumes "\<not> (isInCluster (srv w) \<and> \<not> raftLeader (srv w))"
  shows "(\<exists>p. fst (evict_ttl_locked cx w) = Panic p) \<or> fst (evict_ttl_locked cx w) = Diverge"
proof -
  let ?n = "sample_size (Database cx) (srv w)"
  obtain r w1 where r: "sample_volatile (Database cx) 0 ?n (replicate ?n '''') w = (r, w1)"
    by (cases "sample_volatile (Database cx) 0 ?n (replicate ?n '''') w")
  have "\<forall>e. r \<noteq> Err e" using sample_volatile_srv [of "Database cx" 0 ?n "replicate ?n ''''" w] r by simp
  then show ?thesis using assms r by (cases r) (auto simp: evict_ttl_locked_def Let_def)
qed

text \<open>
  The count of deleted keys is the size of the sample, expired or not, so a sample that is
  not empty is always followed by another call, under the lock the first one still holds.
\<close>

lemma evictKeysWithExpiredTTL_not_ok:
  assumes "\<not> isInCluster (srv w)" "0 < sample_size (Database cx) (srv w)"
  shows "fst (evictKeysWithExpiredTTL cx w) \<noteq> Ok ()"
proof -
  let ?n = "sample_size (Database cx) (srv w)"
  obtain r w1 where r: "sample_volatile (Database cx) 0 ?n (replicate ?n '''') w = (r, w1)"
    by (cases "sample_volatile (Database cx) 0 ?n (replicate ?n '''') w")
  note sv = sample_volatile_srv [of "Database cx" 0 ?n "replicate ?n ''''" w, unfolded r]
  show ?thesis
  proof (cases r)
    case (Ok ks)
    obtain q w2 where q: "evict_sampled cx ks 0 w1 = (q, w2)" by (cases "evict_sampled cx ks 0 w1")
    have len: "length ks = ?n" using sv Ok by simp
    show ?thesis
    proof (cases q)
      case [simp]: (Ok m)
      have m: "m = int ?n" using evict_sampled_count [of cx ks 0 w1 m] q len by simp
      then have th: "20 \<le> (m div int ?n) * 100" using assms(2) by simp
      have "fst (evict_ttl_locked cx w2) \<noteq> Ok ()" if "\<not> isInCluster (srv w2)"
        using evict_ttl_locked_not_ok [of w2 cx] that by auto
      moreover have "\<not> isInCluster (srv w2)"
        using evict_sampled_cluster [of cx ks 0 w1] q sv assms(1) by simp
      ultimately show ?thesis
        using r \<open>r = Ok ks\<close> q th assms by (simp add: evictKeysWithExpiredTTL_def Let_def)
    qed (use r Ok q assms in \<open>simp_all add: evictKeysWithExpiredTTL_def Let_def\<close>)
  qed (use r assms in \<open>simp_all add: evictKeysWithExpiredTTL_def Let_def\<close>)
qed

end
