(* ===== verification/GoText.thy ===== *)
theory GoText
  imports GoValues "HOL-Library.List_Lexorder" "HOL-Library.Char_ord"
begin

text \<open>
  Text as the handlers build it: UTF-8 (a conversion of a string to runes and back), the
  \<open>%g\<close> and \<open>%v\<close> verbs of \<open>fmt\<close>, and durations and instants. Strings are byte sequences and
  are ordered as such.
\<close>

subsection \<open>Runes\<close>

definition byte :: "nat \<Rightarrow> char" where
  "byte n = char_of n"

definition cont_byte :: "char \<Rightarrow> bool" where
  "cont_byte c \<longleftrightarrow> (let n = (of_char c :: nat) in 128 \<le> n \<and> n \<le> 191)"

definition rune_error :: nat where
  "rune_error = 0xFFFD"

text \<open>
  The first rune of a string and its width: one byte and \<open>rune_error\<close> where the bytes are not
  valid UTF-8 (overlong forms, surrogates and values above 10FFFF are not).
\<close>

definition decode_rune :: "string \<Rightarrow> nat \<times> nat" where
  "decode_rune s =
     (case s of
        [] \<Rightarrow> (rune_error, 0)
      | a # s1 \<Rightarrow>
          let x = (of_char a :: nat)
          in if x < 0x80 then (x, 1)
             else (case s1 of
               b # s2 \<Rightarrow>
                 let y = (of_char b :: nat)
                 in if 0xC2 \<le> x \<and> x \<le> 0xDF \<and> cont_byte b then ((x - 0xC0) * 64 + (y - 0x80), 2)
                    else (case s2 of
                      c # s3 \<Rightarrow>
                        let z = (of_char c :: nat)
                        in if 0xE0 \<le> x \<and> x \<le> 0xEF \<and> cont_byte b \<and> cont_byte c \<and>
                              (x = 0xE0 \<longrightarrow> 0xA0 \<le> y) \<and> (x = 0xED \<longrightarrow> y \<le> 0x9F)
                           then ((x - 0xE0) * 4096 + (y - 0x80) * 64 + (z - 0x80), 3)
                           else (case s3 of
                             d # s4 \<Rightarrow>
                               if 0xF0 \<le> x \<and> x \<le> 0xF4 \<and> cont_byte b \<and> cont_byte c \<and> cont_byte d \<and>
                                  (x = 0xF0 \<longrightarrow> 0x90 \<le> y) \<and> (x = 0xF4 \<longrightarrow> y \<le> 0x8F)
                               then ((x - 0xF0) * 262144 + (y - 0x80) * 4096 + (z - 0x80) * 64 +
                                     (of_char d - 0x80), 4)
                               else (rune_error, 1)
                           | [] \<Rightarrow> (rune_error, 1))
                    | [] \<Rightarrow> (rune_error, 1))
             | [] \<Rightarrow> (rune_error, 1)))"

lemma decode_rune_width: "s \<noteq> [] \<Longrightarrow> 0 < snd (decode_rune s)"
  by (auto simp: decode_rune_def Let_def split: list.split)

function runes :: "string \<Rightarrow> nat list" where
  "runes s = (if s = [] then [] else fst (decode_rune s) # runes (drop (snd (decode_rune s)) s))"
  by pat_completeness auto
termination
  by (relation "measure length") (use decode_rune_width in auto)

declare runes.simps [simp del]

definition encode_rune :: "nat \<Rightarrow> string" where
  "encode_rune r =
     (let r = (if 0x10FFFF < r \<or> 0xD800 \<le> r \<and> r \<le> 0xDFFF then rune_error else r)
      in if r < 0x80 then [byte r]
         else if r < 0x800 then [byte (0xC0 + r div 64), byte (0x80 + r mod 64)]
         else if r < 0x10000
         then [byte (0xE0 + r div 4096), byte (0x80 + r div 64 mod 64), byte (0x80 + r mod 64)]
         else [byte (0xF0 + r div 262144), byte (0x80 + r div 4096 mod 64),
               byte (0x80 + r div 64 mod 64), byte (0x80 + r mod 64)])"

definition from_runes :: "nat list \<Rightarrow> string" where
  "from_runes rs = concat (map encode_rune rs)"

text \<open>On ASCII text runes are bytes.\<close>

definition ascii :: "string \<Rightarrow> bool" where
  "ascii s \<longleftrightarrow> (\<forall>c\<in>set s. (of_char c :: nat) < 128)"

lemma runes_ascii: "ascii s \<Longrightarrow> runes s = map of_char s"
proof (induction s)
  case Nil
  then show ?case by (simp add: runes.simps)
next
  case (Cons c s)
  then have "decode_rune (c # s) = (of_char c, 1)" by (simp add: decode_rune_def ascii_def)
  with Cons show ?case by (subst runes.simps) (simp add: ascii_def)
qed

lemma from_runes_ascii: "ascii s \<Longrightarrow> from_runes (map of_char s) = s"
  by (induction s) (auto simp: from_runes_def ascii_def encode_rune_def byte_def)

lemma runes_roundtrip: "ascii s \<Longrightarrow> from_runes (runes s) = s"
  by (simp add: runes_ascii from_runes_ascii)

subsection \<open>Floats in \<open>%g\<close>\<close>

text \<open>An exponent is used below -4 and from 6 on, as for every shortest conversion.\<close>

definition exponent_text :: "int \<Rightarrow> string" where
  "exponent_text e =
     ''e'' @ (if e < 0 then ''-'' else ''+'') @ pad_digits 2 (nat \<bar>e\<bar>)"

definition print_general :: "nat \<times> int \<Rightarrow> string" where
  "print_general dk =
     (let (d, k) = dk;
          ds = nat_digits (fst (trim_zeros d (length (nat_digits d))));
          e = int (length (nat_digits d)) - 1 + k
      in if e < - 4 \<or> 6 \<le> e
         then hd ds # (if tl ds = [] then [] else CHR ''.'' # tl ds) @ exponent_text e
         else print_decimal dk)"

fun format_g :: "float64 \<Rightarrow> string" where
  "format_g (FFin q) =
     (if q = 0 then ''0''
      else (if q < 0 then ''-'' else []) @ print_general (shortest_decimal \<bar>q\<bar>))"
| "format_g x = format_float x"

declare format_g.simps(1) [simp del]

subsection \<open>Values in \<open>%v\<close>\<close>

definition join :: "string \<Rightarrow> string list \<Rightarrow> string" where
  "join sep xs = (case xs of [] \<Rightarrow> [] | y # ys \<Rightarrow> y @ concat (map (\<lambda>x. sep @ x) ys))"

definition fmt_list :: "string list \<Rightarrow> string" where
  "fmt_list l = ''['' @ join '' '' l @ '']''"

text \<open>Maps are printed with their keys in order.\<close>

definition fmt_map :: "(string \<times> string) list \<Rightarrow> string" where
  "fmt_map m = ''map['' @ join '' '' (map (\<lambda>(k, v). k @ '':'' @ v) (sort_key fst m)) @ '']''"

fun fmt_scalar :: "go_value \<Rightarrow> string" where
  "fmt_scalar VNil = ''<nil>''"
| "fmt_scalar (VInt i) = itoa i"
| "fmt_scalar (VInt64 i) = itoa i"
| "fmt_scalar (VFloat f) = format_g f"
| "fmt_scalar (VStr s) = s"
| "fmt_scalar _ = []"

text \<open>A pointer to a set or a sorted set is printed as \<open>&\<close> and the structure it points to.\<close>

definition fmt_v :: "heap \<Rightarrow> go_value \<Rightarrow> string" where
  "fmt_v h v =
     (case v of
        VHash m \<Rightarrow> fmt_map (map (\<lambda>(k, x). (k, fmt_scalar x)) m)
      | VList l \<Rightarrow> fmt_list l
      | VSlice l \<Rightarrow> fmt_list l
      | VSet a \<Rightarrow>
          (case h a of
             None \<Rightarrow> ''<nil>''
           | Some s \<Rightarrow> ''&{'' @ fmt_map (map (\<lambda>k. (k, ''{}'')) (members s)) @ '' '' @ itoa (set_length s) @ ''}'')
      | VZSet z \<Rightarrow>
          ''&{'' @ fmt_map (map (\<lambda>(k, x). (k, ''{'' @ k @ '' '' @ format_g x @ '' true}'')) z) @ ''}''
      | _ \<Rightarrow> fmt_scalar v)"

subsection \<open>Parse errors\<close>

text \<open>
  The text of a \<open>strconv.NumError\<close>. \<open>strconv.Quote\<close> escapes quotes, backslashes and control
  characters; bytes of other runes are left as they are.
\<close>

definition hex_digit :: "nat \<Rightarrow> char" where
  "hex_digit d = ''0123456789abcdef'' ! d"

definition quote_char :: "char \<Rightarrow> string" where
  "quote_char c =
     (let n = (of_char c :: nat)
      in if n = 34 then [byte 92, byte 34] else if n = 92 then [byte 92, byte 92]
         else if n = 7 then byte 92 # ''a'' else if n = 8 then byte 92 # ''b''
         else if n = 12 then byte 92 # ''f'' else if n = 10 then byte 92 # ''n''
         else if n = 13 then byte 92 # ''r'' else if n = 9 then byte 92 # ''t''
         else if n = 11 then byte 92 # ''v''
         else if n < 32 \<or> n = 127 then byte 92 # CHR ''x'' # hex_digit (n div 16) # [hex_digit (n mod 16)]
         else [c])"

definition num_error :: "string \<Rightarrow> string \<Rightarrow> bool \<Rightarrow> string" where
  "num_error fn s too_large =
     ''strconv.'' @ fn @ '': parsing '' @ byte 34 # concat (map quote_char s) @ byte 34 # '': '' @
     (if too_large then ''value out of range'' else ''invalid syntax'')"

definition atoi_error :: "string \<Rightarrow> string" where
  "atoi_error s =
     num_error ''Atoi'' s (snd (parse_sign s) \<noteq> [] \<and> digits_value 0 (snd (parse_sign s)) \<noteq> None)"

definition parse_float_error :: "string \<Rightarrow> string" where
  "parse_float_error s = num_error ''ParseFloat'' s (scan_float (snd (parse_sign s)) \<noteq> None)"

definition atoi_res :: "string \<Rightarrow> int res" where
  "atoi_res s = (case atoi s of None \<Rightarrow> Err (atoi_error s) | Some i \<Rightarrow> Ok i)"

definition parse_float_res :: "string \<Rightarrow> float64 res" where
  "parse_float_res s = (case parse_float s of None \<Rightarrow> Err (parse_float_error s) | Some x \<Rightarrow> Ok x)"

subsection \<open>Instants and durations\<close>

text \<open>
  An instant is in nanoseconds since the Unix epoch. A duration is a 64-bit number of
  nanoseconds: the product that builds it wraps. \<open>time.Unix\<close> keeps its seconds in 64 bits
  counted from the year 1.
\<close>

definition seconds :: "int \<Rightarrow> int" where "seconds n = i64 (n * 10 ^ 9)"
definition milliseconds :: "int \<Rightarrow> int" where "milliseconds n = i64 (n * 10 ^ 6)"

definition unix_to_internal :: int where "unix_to_internal = 62135596800"

definition time_unix :: "int \<Rightarrow> int" where
  "time_unix n = (i64 (n + unix_to_internal) - unix_to_internal) * 10 ^ 9"

definition time_unix_milli :: "int \<Rightarrow> int" where
  "time_unix_milli n = n * 10 ^ 6"

definition to_unix :: "int \<Rightarrow> int" where
  "to_unix t = i64 (t div 10 ^ 9)"

definition to_unix_milli :: "int \<Rightarrow> int" where
  "to_unix_milli t = i64 (t div 10 ^ 6)"

lemma time_unix_small: "in_i64 (n + unix_to_internal) \<Longrightarrow> time_unix n = n * 10 ^ 9"
  by (simp add: time_unix_def)

end
