(* ===== verification/RespParse.thy ===== *)
theory RespParse
  imports GoText
begin

text \<open>
  Messages and replies at the embedded interface and the network (\<open>internal/utils.go\<close>): a command is
  decoded from a message, a reply is read as the type its caller expects. Reading one value is the
  library's.
\<close>

subsection \<open>Commands\<close>

definition EncodeCommand :: "string list \<Rightarrow> string" where
  "EncodeCommand cmd = resp_array cmd"

definition Decode :: "libs \<Rightarrow> string \<Rightarrow> string list res" where
  "Decode l raw = map_res (\<lambda>v. map v_string (v_array v)) (read_value l raw)"

text \<open>
  Reading a message from a connection: each read fills a buffer of 8192 bytes, zero beyond what was
  read, and the whole buffer is appended; the first short read ends the message. Zero bytes at both
  ends are then removed.
\<close>

definition chunk_bytes :: nat where
  "chunk_bytes = 8192"

fun read_chunks :: "string list \<Rightarrow> string" where
  "read_chunks [] = []"
| "read_chunks (c # cs) =
     (let buffer = c @ replicate (chunk_bytes - length c) (CHR 0x00)
      in if length c < chunk_bytes then buffer else buffer @ read_chunks cs)"

definition trim_zero :: "string \<Rightarrow> string" where
  "trim_zero s =
     rev (dropWhile (\<lambda>c. c = CHR 0x00) (rev (dropWhile (\<lambda>c. c = CHR 0x00) s)))"

definition ReadMessage :: "string list \<Rightarrow> string" where
  "ReadMessage reads = trim_zero (read_chunks reads)"

subsection \<open>Replies\<close>

definition ParseNilResponse :: "libs \<Rightarrow> string \<Rightarrow> bool res" where
  "ParseNilResponse l b = map_res v_null (read_value l b)"

definition ParseStringResponse :: "libs \<Rightarrow> string \<Rightarrow> string res" where
  "ParseStringResponse l b = map_res v_string (read_value l b)"

definition ParseIntegerResponse :: "libs \<Rightarrow> string \<Rightarrow> int res" where
  "ParseIntegerResponse l b = map_res v_integer (read_value l b)"

definition ParseFloatResponse :: "libs \<Rightarrow> string \<Rightarrow> float64 res" where
  "ParseFloatResponse l b = map_res v_float (read_value l b)"

definition ParseBooleanResponse :: "libs \<Rightarrow> string \<Rightarrow> bool res" where
  "ParseBooleanResponse l b = map_res v_bool (read_value l b)"

definition ParseStringArrayResponse :: "libs \<Rightarrow> string \<Rightarrow> string list res" where
  "ParseStringArrayResponse l b =
     map_res (\<lambda>v. if v_null v then [] else if v_type v = ''BulkString'' then [v_string v]
                  else map (\<lambda>e. if v_null e then [] else v_string e) (v_array v)) (read_value l b)"

definition ParseNestedStringArrayResponse :: "libs \<Rightarrow> string \<Rightarrow> string list list res" where
  "ParseNestedStringArrayResponse l b =
     map_res (\<lambda>v. if v_null v then []
                  else map (\<lambda>e. if v_null e then [] else map v_string (v_array e)) (v_array v)) (read_value l b)"

definition ParseIntegerArrayResponse :: "libs \<Rightarrow> string \<Rightarrow> int list res" where
  "ParseIntegerArrayResponse l b =
     map_res (\<lambda>v. if v_null v then [] else map (\<lambda>e. if v_null e then 0 else v_integer e) (v_array v)) (read_value l b)"

definition ParseBooleanArrayResponse :: "libs \<Rightarrow> string \<Rightarrow> bool list res" where
  "ParseBooleanArrayResponse l b =
     map_res (\<lambda>v. if v_null v then [] else map (\<lambda>e. \<not> v_null e \<and> v_bool e) (v_array v)) (read_value l b)"

text \<open>Both lists hold the same entries, in any order and number.\<close>

definition CompareNestedStringArrays :: "string list list \<Rightarrow> string list list \<Rightarrow> bool" where
  "CompareNestedStringArrays got want \<longleftrightarrow> set want \<subseteq> set got \<and> set got \<subseteq> set want"

subsection \<open>Sizes of memory\<close>

text \<open>A number and a unit; the product wraps, and a text of less than two bytes cannot be sliced.\<close>

definition memory_unit :: "string \<Rightarrow> int option" where
  "memory_unit u =
     (if u = ''kb'' then Some (2 ^ 10) else if u = ''mb'' then Some (2 ^ 20) else if u = ''gb'' then Some (2 ^ 30)
      else if u = ''tb'' then Some (2 ^ 40) else if u = ''pb'' then Some (2 ^ 50) else None)"

text \<open>The error of \<open>strconv.ParseInt\<close>: not a number, or one out of range.\<close>

definition parse_int_error :: "string \<Rightarrow> string" where
  "parse_int_error s =
     num_error ''ParseInt'' s (snd (parse_sign s) \<noteq> [] \<and> digits_value 0 (snd (parse_sign s)) \<noteq> None)"

definition ParseMemory :: "string \<Rightarrow> int res" where
  "ParseMemory memory =
     (if length memory < 2 then Panic slice_out_of_range
      else let n = length memory - 2; u = to_lower (drop n memory)
           in case atoi (take n memory) of
                None \<Rightarrow> Err (parse_int_error (take n memory))
              | Some i \<Rightarrow>
                  (case memory_unit u of
                     None \<Rightarrow> Err (''memory unit '' @ u @ '' not supported, use (kb, mb, gb, tb, pb) '')
                   | Some f \<Rightarrow> Ok (u64 (i64 (i * f)))))"

end
