(* ===== verification/AppendLog.thy ===== *)
theory AppendLog
  imports GoText RespParse
begin

text \<open>
  The append-only log (\<open>internal/aof/log/store.go\<close>): a file to which commands are appended, each
  database change preceded by a SELECT command, and from which they are replayed. Operations on the
  file succeed. Where the store has no file, writing does nothing and other operations dereference nil.
\<close>

subsection \<open>Writing\<close>

text \<open>The length that is announced for the database number is always 1.\<close>

definition select_line :: "int \<Rightarrow> string" where
  "select_line d =
     ''*2'' @ crlf @ ''$6'' @ crlf @ ''SELECT'' @ crlf @ ''$1'' @ crlf @ itoa d @ crlf"

definition NewAppendStore :: "string option \<Rightarrow> append_store" where
  "NewAppendStore file = \<lparr>currentDatabase = - 1, log_file = file\<rparr>"

definition Log_Write :: "int \<Rightarrow> string \<Rightarrow> append_store \<Rightarrow> append_store" where
  "Log_Write d command st =
     (case log_file st of
        None \<Rightarrow> st
      | Some bytes \<Rightarrow>
          if d \<noteq> currentDatabase st
          then st\<lparr>log_file := Some (bytes @ select_line d @ command), currentDatabase := d\<rparr>
          else st\<lparr>log_file := Some (bytes @ command)\<rparr>)"

text \<open>Truncating leaves one SELECT command, for the database that was logged last.\<close>

definition Log_Truncate :: "append_store \<Rightarrow> append_store res" where
  "Log_Truncate st =
     (case log_file st of
        None \<Rightarrow> Panic nil_deref
      | Some _ \<Rightarrow> Ok (st\<lparr>log_file := Some (select_line (currentDatabase st))\<rparr>))"

subsection \<open>Replaying\<close>

text \<open>
  The loop of \<open>Restore\<close> over the messages read from the file: the commands it hands over, with their
  database, and how it ends. The handler's own outcome does not influence it.
\<close>

fun restore_loop :: "libs \<Rightarrow> int \<Rightarrow> string list \<Rightarrow> string option \<Rightarrow> (int \<times> string) list \<times> unit res" where
  "restore_loop l d [] None = ([], Ok ())"
| "restore_loop l d [] (Some e) = ([], Err e)"
| "restore_loop l d (m # ms) e =
     (case Decode l m of
        Ok cmd \<Rightarrow>
          if cmd = [] then ([], Panic index_out_of_range)
          else if equal_fold (hd cmd) ''select''
          then (if length cmd < 2 then ([], Panic index_out_of_range)
                else case atoi_res (cmd ! 1) of
                       Ok d' \<Rightarrow> restore_loop l d' ms e
                     | Err x \<Rightarrow> ([], Err x) | Panic x \<Rightarrow> ([], Panic x) | Diverge \<Rightarrow> ([], Diverge))
          else (let (cs, r) = restore_loop l d ms e in ((d, m) # cs, r))
      | Err x \<Rightarrow> ([], Err x) | Panic x \<Rightarrow> ([], Panic x) | Diverge \<Rightarrow> ([], Diverge))"

definition Log_Restore :: "libs \<Rightarrow> append_store \<Rightarrow> (int \<times> string) list \<times> unit res" where
  "Log_Restore l st =
     (case log_file st of
        None \<Rightarrow> ([], Panic nil_deref)
      | Some bytes \<Rightarrow> (let (ms, e) = read_messages l bytes in restore_loop l 0 ms e))"

end
