(* ===== verification/Snapshots.thy ===== *)
theory Snapshots
  imports Memory AppendLog
begin

text \<open>
  Copies of the state (\<open>sugardb/keyspace.go\<close>, \<open>internal/utils.go\<close>, \<open>internal/aof/engine.go\<close>,
  \<open>internal/aof/preamble/store.go\<close>, \<open>internal/snapshot/snapshot.go\<close>, \<open>internal/raft/fsm.go\<close>,
  \<open>fsm_snapshot.go\<close>): taking one, writing it as JSON and putting its values back. A file holds what
  decoding its text gives; operations on files succeed.
\<close>

subsection \<open>Encoding and decoding\<close>

text \<open>
  What a value becomes when \<open>encoding/json\<close> encodes it and decodes the text into an \<open>interface{}\<close>:
  every number is a float, a list is a slice of \<open>interface{}\<close>, bytes that are not UTF-8 are replaced. The
  fields of a set and of a sorted set are not exported, so that they are encoded as \<open>{}\<close>. NaN and
  infinities cannot be encoded. The keys of a map are encoded in their order.
\<close>

definition json_string :: "string \<Rightarrow> string" where
  "json_string s = from_runes (runes s)"

fun gather :: "(string \<times> 'a res) list \<Rightarrow> (string, 'a) gomap \<Rightarrow> (string, 'a) gomap res" where
  "gather [] m = Ok m"
| "gather ((k, r) # rs) m =
     (case r of Ok v \<Rightarrow> gather rs (AList.update (json_string k) v m) | Err e \<Rightarrow> Err e | Panic e \<Rightarrow> Panic e
      | Diverge \<Rightarrow> Diverge)"

fun json_value :: "go_value \<Rightarrow> go_value res"
  and json_fields :: "(string \<times> go_value) list \<Rightarrow> (string \<times> go_value res) list" where
  "json_value VNil = Ok VNil"
| "json_value (VInt i) = Ok (VFloat (to_float64 (of_int i)))"
| "json_value (VInt64 i) = Ok (VFloat (to_float64 (of_int i)))"
| "json_value (VFloat x) =
     (case x of
        FNaN \<Rightarrow> Err ''json: unsupported value: NaN''
      | FInf neg \<Rightarrow> Err (''json: unsupported value: '' @ (if neg then ''-Inf'' else ''+Inf''))
      | _ \<Rightarrow> Ok (VFloat x))"
| "json_value (VStr s) = Ok (VStr (json_string s))"
| "json_value (VHash m) = map_res VHash (gather (sort_key fst (json_fields m)) [])"
| "json_value (VList l) = Ok (VSlice (map json_string l))"
| "json_value (VSlice l) = Ok (VSlice (map json_string l))"
| "json_value (VSet a) = Ok (VHash [])"
| "json_value (VZSet z) = Ok (VHash [])"
| "json_fields [] = []"
| "json_fields ((k, v) # m) = (k, json_value v) # json_fields m"

text \<open>The text of an instant has a year of four digits.\<close>

definition year_0 :: int where "year_0 = - 62167219200 * 10 ^ 9"
definition year_10000 :: int where "year_10000 = 253402300800 * 10 ^ 9"

definition json_time :: "gotime \<Rightarrow> gotime res" where
  "json_time t =
     (case t of
        None \<Rightarrow> Ok None
      | Some n \<Rightarrow>
          if year_0 \<le> n \<and> n < year_10000 then Ok t
          else Err ''json: error calling MarshalJSON for type time.Time: Time.MarshalJSON: year outside of range [0,9999]'')"

definition json_keydata :: "keydata \<Rightarrow> keydata res" where
  "json_keydata e =
     (case json_value (Value e) of
        Ok v \<Rightarrow> map_res (\<lambda>t. \<lparr>Value = v, ExpireAt = t\<rparr>) (json_time (ExpireAt e))
      | Err x \<Rightarrow> Err x | Panic x \<Rightarrow> Panic x | Diverge \<Rightarrow> Diverge)"

definition json_database :: "(string, keydata) gomap \<Rightarrow> (string, keydata) gomap res" where
  "json_database m = gather (sort_key fst (map (\<lambda>(k, e). (k, json_keydata e)) m)) []"

fun json_databases :: "saved_state \<Rightarrow> saved_state res" where
  "json_databases [] = Ok []"
| "json_databases ((d, m) # st) =
     (case json_database m of
        Ok m' \<Rightarrow> map_res (\<lambda>st'. (d, m') # st') (json_databases st)
      | Err x \<Rightarrow> Err x | Panic x \<Rightarrow> Panic x | Diverge \<Rightarrow> Diverge)"

definition json_state :: "saved_state \<Rightarrow> saved_state res" where
  "json_state st = json_databases (sort_key (\<lambda>x. itoa (fst x)) st)"

subsection \<open>Copying the state\<close>

definition FilterExpiredKeys :: "int \<Rightarrow> saved_state \<Rightarrow> saved_state" where
  "FilterExpiredKeys now st =
     map (\<lambda>(d, m). (d, filter (\<lambda>(k, e). case ExpireAt e of None \<Rightarrow> True | Some t \<Rightarrow> \<not> t < now) m)) st"

text \<open>
  \<open>getState\<close> waits until no copy and no mutation is in progress. Here it is called at a moment, and
  \<open>Diverge\<close> says that it waits for someone else to clear the flags.
\<close>

definition getState :: "sworld \<Rightarrow> saved_state res" where
  "getState w =
     (if stateCopyInProgress (srv w) \<or> stateMutationInProgress (srv w) then Diverge else Ok (store (srv w)))"

text \<open>In a cluster, the copy for raft is written to databases that were never made.\<close>

definition raft_get_state :: "sworld \<Rightarrow> saved_state res" where
  "raft_get_state w =
     (case getState w of
        Ok st \<Rightarrow> if \<exists>(d, m)\<in>set st. m \<noteq> [] then Panic nil_map_write else Ok []
      | r \<Rightarrow> r)"

subsection \<open>Putting values back\<close>

text \<open>
  \<open>setKeyDataFunc\<close>: an error of the first call is printed, and the expiry is set in any case, also
  where there is none.
\<close>

definition restore_ctx :: "int \<Rightarrow> ctx" where
  "restore_ctx d = \<lparr>ServerID = [], ConnectionName = [], Protocol = 0, Database = d, ConnectionID = []\<rparr>"

definition setKeyData :: "int \<Rightarrow> string \<Rightarrow> keydata \<Rightarrow> sworld \<Rightarrow> unit res \<times> sworld" where
  "setKeyData d k e w =
     (case setValues (restore_ctx d) [(k, Value e)] w of
        (Panic x, w1) \<Rightarrow> (Panic x, w1)
      | (Diverge, w1) \<Rightarrow> (Diverge, w1)
      | (_, w1) \<Rightarrow> setExpiry (restore_ctx d) k (ExpireAt e) False w1)"

fun restore_keys :: "int \<Rightarrow> (string \<times> keydata) list \<Rightarrow> sworld \<Rightarrow> unit res \<times> sworld" where
  "restore_keys d [] w = (Ok (), w)"
| "restore_keys d ((k, e) # es) w = and_then (setKeyData d k e w) (\<lambda>_ w1. restore_keys d es w1)"

fun restore_databases :: "saved_state \<Rightarrow> sworld \<Rightarrow> unit res \<times> sworld" where
  "restore_databases [] w = (Ok (), w)"
| "restore_databases ((d, m) # st) w =
     (let (es, w1) = go_range m w in and_then (restore_keys d es w1) (\<lambda>_ w2. restore_databases st w2))"

definition restore_state :: "saved_state \<Rightarrow> sworld \<Rightarrow> unit res \<times> sworld" where
  "restore_state st w =
     (let (ds, w1) = go_range (FilterExpiredKeys (clockNow (srv w)) st) w in restore_databases ds w1)"

subsection \<open>The preamble of the append-only file\<close>

definition CreatePreamble :: "sworld \<Rightarrow> unit res \<times> sworld" where
  "CreatePreamble w =
     and_then (getState w, w) (\<lambda>st w.
     and_then (json_state (FilterExpiredKeys (clockNow (srv w)) st), w) (\<lambda>out w.
       case preambleFile (srv w) of
         None \<Rightarrow> (Panic nil_deref, w)
       | Some _ \<Rightarrow> (Ok (), upd (\<lambda>s. s\<lparr>preambleFile := Some (Some out)\<rparr>) w)))"

definition Preamble_Restore :: "sworld \<Rightarrow> unit res \<times> sworld" where
  "Preamble_Restore w =
     (case preambleFile (srv w) of
        Some (Some st) \<Rightarrow> restore_state st w
      | _ \<Rightarrow> (Ok (), w))"

text \<open>The deferred call clears the flag however the rewrite ends, unless it waits for the state.\<close>

definition RewriteLog :: "sworld \<Rightarrow> unit res \<times> sworld" where
  "RewriteLog w =
     (let w0 = upd (\<lambda>s. s\<lparr>rewriteAOFInProgress := True\<rparr>) w;
          done = upd (\<lambda>s. s\<lparr>rewriteAOFInProgress := False\<rparr>)
      in case CreatePreamble w0 of
           (Err e, w1) \<Rightarrow> (Err (''rewrite log error: create preamble error: '' @ e), done w1)
         | (Panic e, w1) \<Rightarrow> (Panic e, done w1)
         | (Diverge, w1) \<Rightarrow> (Diverge, w1)
         | (Ok _, w1) \<Rightarrow>
             (case Log_Truncate (appendStore (srv w1)) of
                Ok st \<Rightarrow> (Ok (), done (upd (\<lambda>s. s\<lparr>appendStore := st\<rparr>) w1))
              | Err e \<Rightarrow> (Err (''rewrite log error: create aof error: '' @ e), done w1)
              | Panic e \<Rightarrow> (Panic e, done w1)
              | Diverge \<Rightarrow> (Diverge, w1)))"

subsection \<open>Snapshots\<close>

text \<open>
  The hash that decides whether anything is new is that of the state with the time of the last
  snapshot. A manifest that does not exist is created empty before the state is encoded.
\<close>

definition create_manifest :: "server \<Rightarrow> server" where
  "create_manifest s = (if manifestFile s = None then s\<lparr>manifestFile := Some None\<rparr> else s)"

definition write_snapshot :: "saved_state \<Rightarrow> int \<Rightarrow> server \<Rightarrow> server" where
  "write_snapshot out msec s =
     s\<lparr>manifestFile := Some (Some (msec, md5_sum s (out, msec))),
       snapshotFiles := AList.update msec (out, msec) (snapshotFiles s),
       latestSnapshotMilliseconds := msec, changeCount := 0\<rparr>"

definition TakeSnapshot_body :: "sworld \<Rightarrow> unit res \<times> sworld" where
  "TakeSnapshot_body w =
     (let now = clockNow (srv w); old = manifestFile (srv w); w1 = upd create_manifest w
      in if old = Some None then (Err ''unexpected end of JSON input'', w1)
         else and_then (getState w1, w1) (\<lambda>st w.
              and_then (json_state (FilterExpiredKeys now st), w) (\<lambda>out w.
                if (case old of Some (Some (_, h)) \<Rightarrow> h = md5_sum (srv w) (out, latestSnapshotMilliseconds (srv w)) | _ \<Rightarrow> False)
                then (Err ''nothing new to snapshot'', w)
                else (Ok (), upd (write_snapshot out (to_unix_milli now)) w))))"

definition Engine_TakeSnapshot :: "sworld \<Rightarrow> unit res \<times> sworld" where
  "Engine_TakeSnapshot w =
     (case TakeSnapshot_body (upd (\<lambda>s. s\<lparr>snapshotInProgress := True\<rparr>) w) of
        (Diverge, w1) \<Rightarrow> (Diverge, w1)
      | (r, w1) \<Rightarrow> (r, upd (\<lambda>s. s\<lparr>snapshotInProgress := False\<rparr>) w1))"

text \<open>The ticker starts a snapshot where the count of changes equals the threshold.\<close>

definition snapshot_tick :: "int \<Rightarrow> sworld \<Rightarrow> unit res \<times> sworld" where
  "snapshot_tick threshold w =
     (if changeCount (srv w) = threshold then Engine_TakeSnapshot w else (Ok (), w))"

definition Engine_Restore :: "sworld \<Rightarrow> unit res \<times> sworld" where
  "Engine_Restore w =
     (case manifestFile (srv w) of
        None \<Rightarrow> (Err ''no snapshot manifest, skipping snapshot restore'', w)
      | Some None \<Rightarrow> (Err ''unexpected end of JSON input'', w)
      | Some (Some (msec, _)) \<Rightarrow>
          if msec = 0 then (Err ''no snapshot to restore'', w)
          else (case map_of (snapshotFiles (srv w)) msec of
                  None \<Rightarrow> (Err (''snapshot file '' @ itoa msec @ ''/state.bin not found, skipping snapshot''), w)
                | Some (st, t) \<Rightarrow> restore_state st (upd (\<lambda>s. s\<lparr>latestSnapshotMilliseconds := t\<rparr>) w)))"

subsection \<open>Snapshots of the state machine\<close>

text \<open>A raft snapshot: what \<open>Snapshot\<close> copies, \<open>Persist\<close> encodes under the time in the snapshot's name.\<close>

definition FSM_Snapshot :: "sworld \<Rightarrow> saved_state res" where
  "FSM_Snapshot w = raft_get_state w"

definition Persist :: "saved_state \<Rightarrow> string list \<Rightarrow> sworld \<Rightarrow> (saved_state \<times> int) res \<times> sworld" where
  "Persist st sink_id w =
     (let w1 = upd (\<lambda>s. s\<lparr>snapshotInProgress := True\<rparr>) w
      in if length sink_id < 3 then (Panic index_out_of_range, w1)
         else and_then (atoi_res (sink_id ! 2), w1) (\<lambda>msec w1.
              and_then (json_state (FilterExpiredKeys (clockNow (srv w1)) st), w1) (\<lambda>out w1.
                (Ok (out, msec), upd (\<lambda>s. s\<lparr>latestSnapshotMilliseconds := msec\<rparr>) w1))))"

definition Release :: "sworld \<Rightarrow> sworld" where
  "Release w = upd (\<lambda>s. s\<lparr>snapshotInProgress := False\<rparr>) w"

text \<open>Restoring a raft snapshot: a value that cannot be stored ends the process.\<close>

fun fsm_restore_keys :: "int \<Rightarrow> (string \<times> keydata) list \<Rightarrow> sworld \<Rightarrow> unit res \<times> sworld" where
  "fsm_restore_keys d [] w = (Ok (), w)"
| "fsm_restore_keys d ((k, e) # es) w =
     (case setValues (restore_ctx d) [(k, Value e)] w of
        (Err x, w1) \<Rightarrow> (Panic x, w1)
      | (r, w1) \<Rightarrow>
          and_then (r, w1) (\<lambda>_ w1.
          and_then (setExpiry (restore_ctx d) k (ExpireAt e) False w1) (\<lambda>_ w2. fsm_restore_keys d es w2)))"

fun fsm_restore_databases :: "saved_state \<Rightarrow> sworld \<Rightarrow> unit res \<times> sworld" where
  "fsm_restore_databases [] w = (Ok (), w)"
| "fsm_restore_databases ((d, m) # st) w =
     (let (es, w1) = go_range m w in and_then (fsm_restore_keys d es w1) (\<lambda>_ w2. fsm_restore_databases st w2))"

definition FSM_Restore :: "saved_state \<times> int \<Rightarrow> sworld \<Rightarrow> unit res \<times> sworld" where
  "FSM_Restore snapshot w =
     (let (st, msec) = snapshot; (ds, w1) = go_range (FilterExpiredKeys (clockNow (srv w)) st) w
      in and_then (fsm_restore_databases ds w1) (\<lambda>_ w2.
           (Ok (), upd (\<lambda>s. s\<lparr>latestSnapshotMilliseconds := msec\<rparr>) w2)))"

end
