(* ===== verification/ServerOps.thy ===== *)
theory ServerOps
  imports Snapshots
begin

text \<open>
  The server's own operations that handlers reach (\<open>sugardb/modules.go\<close>, \<open>sugardb.go\<close>, \<open>config.go\<close>,
  \<open>plugin.go\<close>): information about connections and about the server, the loaded modules, the
  triggers of snapshots and of the compaction of the append-only file.
\<close>

subsection \<open>Connections\<close>

text \<open>The zero value, read for a connection that is not registered.\<close>

definition no_conn_info :: conn_info where
  "no_conn_info = \<lparr>ConnId = 0, ConnName = [], ConnProtocol = 0, ConnDatabase = 0\<rparr>"

definition connInfo :: "server \<Rightarrow> nat option \<Rightarrow> conn_info" where
  "connInfo s c = (case map_of (tcpClients s) c of None \<Rightarrow> no_conn_info | Some i \<Rightarrow> i)"

definition setConnectionInfo :: "nat option \<Rightarrow> string \<Rightarrow> int \<Rightarrow> int \<Rightarrow> server \<Rightarrow> server" where
  "setConnectionInfo c name protocol d s =
     (let i = connInfo s c; s1 = ensure_db d s
      in s1\<lparr>tcpClients :=
             AList.update c (i\<lparr>ConnProtocol := protocol,
                               ConnName := (if name = [] then ConnName i else name),
                               ConnDatabase := d\<rparr>) (tcpClients s1)\<rparr>)"

text \<open>The connection through which the server is embedded.\<close>

definition SetProtocol :: "int \<Rightarrow> server \<Rightarrow> unit res \<times> server" where
  "SetProtocol protocol s =
     (if protocol \<notin> {2, 3} then (Err ''protocol must be either 2 or 3'', s)
      else (Ok (), s\<lparr>embedded := (embedded s)\<lparr>ConnProtocol := protocol\<rparr>\<rparr>))"

definition SelectDB :: "int \<Rightarrow> server \<Rightarrow> unit res \<times> server" where
  "SelectDB d s =
     (if d < 0 then (Err ''database index must be 0 or higher'', s)
      else (Ok (), (ensure_db d s)\<lparr>embedded := (embedded s)\<lparr>ConnDatabase := d\<rparr>\<rparr>))"

subsection \<open>Modules\<close>

fun list_modules :: "string list \<Rightarrow> command_info list \<Rightarrow> string list" where
  "list_modules seen [] = seen"
| "list_modules seen (c # cs) =
     list_modules (if \<exists>m\<in>set seen. equal_fold m (InfoModule c) then seen
                   else seen @ [to_lower (InfoModule c)]) cs"

definition listModules :: "server \<Rightarrow> string list" where
  "listModules s = list_modules [] (commands s)"

definition unloadModule :: "string \<Rightarrow> server \<Rightarrow> server" where
  "unloadModule m s = s\<lparr>commands := filter (\<lambda>c. \<not> equal_fold (InfoModule c) m) (commands s)\<rparr>"

text \<open>Plugins are dynamic libraries; the model's file system holds none.\<close>

definition loadModule :: "string \<Rightarrow> string list \<Rightarrow> sworld \<Rightarrow> unit res \<times> sworld" where
  "loadModule path args w = (Err (''load module: module '' @ path @ '' not found''), w)"

subsection \<open>Information about the server\<close>

definition serverInfo :: "server \<Rightarrow> server_info" where
  "serverInfo s =
     \<lparr>Server = ''sugardb'', Version = ''0.13.1'', InfoId = ConfigServerID (config s),
      Mode = (if isInCluster s then ''cluster'' else ''standalone''),
      Role = (if \<not> isInCluster s \<or> raftLeader s then ''master'' else ''replica''),
      Modules = listModules s, MemoryUsed = memUsed s, InfoMaxMemory = MaxMemory (config s)\<rparr>"

subsection \<open>Snapshots and the append-only file\<close>

definition takeSnapshot :: "sworld \<Rightarrow> unit res \<times> sworld" where
  "takeSnapshot w =
     (if snapshotInProgress (srv w) then (Err ''snapshot already in progress'', w)
      else (Ok (), upd (\<lambda>s. s\<lparr>snapshotsStarted := snapshotsStarted s + 1\<rparr>) w))"

text \<open>The append-only file exists outside of clusters only.\<close>

definition rewriteAOF :: "sworld \<Rightarrow> unit res \<times> sworld" where
  "rewriteAOF w =
     (if rewriteAOFInProgress (srv w) then (Err ''aof rewrite in progress'', w)
      else if isInCluster (srv w) then (Panic nil_deref, w)
      else RewriteLog w)"

end
