(* ===== verification/KvStore.thy ===== *)
theory KvStore
  imports MemoryInv ServerOps
begin

text \<open>
  The interface between the keyspace and the command handlers: what a handler may rely on of
  the functions it receives, as a locale, and the proof that the keyspace provides it. The
  handlers of every data type are verified against the locale.
\<close>

subsection \<open>What the server hands to a handler\<close>

text \<open>An assignment in place: the stored value changes, nothing else does.\<close>

definition write_through :: "ctx \<Rightarrow> string \<Rightarrow> go_value \<Rightarrow> sworld \<Rightarrow> sworld" where
  "write_through cx k v w =
     (case lookup_key (srv w) (Database cx) k of
        None \<Rightarrow> w
      | Some e \<Rightarrow> upd (put_key (Database cx) k (e\<lparr>Value := v\<rparr>)) w)"

definition getHandlerFuncParams :: "ctx \<Rightarrow> string list \<Rightarrow> nat option \<Rightarrow> server params" where
  "getHandlerFuncParams cx cmd conn =
     \<lparr>Context = cx, Command = cmd, KeysExist = keysExist, GetExpiry = getExpiry,
      GetValues = getValues, SetValues = setValues, SetExpiry = setExpiry, DeleteKey = deleteKey,
      WriteThrough = write_through, ClockNow = (\<lambda>w. clockNow (srv w)), FlushDBs = Flush,
      RandomKey = randomKey, TouchKeys = updateKeysInCache, ObjectFrequency = getObjectFreq,
      ObjectIdleTime = getObjectIdleTime, SwapDatabases = (\<lambda>d1 d2. upd (SwapDBs d1 d2)),
      Connection = conn, Libs = (\<lambda>w. libs (srv w)), GetACL = (\<lambda>w. acl (srv w)), PutACL = (\<lambda>a. upd (acl_update (\<lambda>_. a))),
      GetPubSub = (\<lambda>w. pubSub (srv w)), PutPubSub = (\<lambda>ps. upd (pubSub_update (\<lambda>_. ps))),
      GetAllCommands = (\<lambda>w. commands (srv w)), GetServerInfo = (\<lambda>w. serverInfo (srv w)),
      GetConnectionInfo = (\<lambda>c w. connInfo (srv w) c),
      SetConnectionInfo = (\<lambda>c name protocol d. upd (setConnectionInfo c name protocol d)),
      TakeSnapshot = takeSnapshot, GetLatestSnapshotTime = (\<lambda>w. latestSnapshotMilliseconds (srv w)),
      RewriteAOF = rewriteAOF, LoadModule = loadModule, UnloadModule = (\<lambda>m. upd (unloadModule m)),
      ListModules = (\<lambda>w. listModules (srv w))\<rparr>"

lemma params_simps [simp]:
  "Context (getHandlerFuncParams cx cmd conn) = cx" "Command (getHandlerFuncParams cx cmd conn) = cmd"
  "KeysExist (getHandlerFuncParams cx cmd conn) = keysExist"
  "GetExpiry (getHandlerFuncParams cx cmd conn) = getExpiry"
  "GetValues (getHandlerFuncParams cx cmd conn) = getValues"
  "SetValues (getHandlerFuncParams cx cmd conn) = setValues"
  "SetExpiry (getHandlerFuncParams cx cmd conn) = setExpiry"
  "DeleteKey (getHandlerFuncParams cx cmd conn) = deleteKey"
  "WriteThrough (getHandlerFuncParams cx cmd conn) = write_through"
  "ClockNow (getHandlerFuncParams cx cmd conn) w = clockNow (srv w)"
  by (simp_all add: getHandlerFuncParams_def)

subsection \<open>The interface\<close>

locale kv_store =
  fixes p :: "'s params"
    and entry :: "'s world \<Rightarrow> string \<Rightarrow> (go_value \<times> bool) option"
    and full :: "'s world \<Rightarrow> bool"
    and inv :: "'s world \<Rightarrow> bool"
  assumes exist: "gm_bool (KeysExist p (Context p) ks w) k \<longleftrightarrow> k \<in> set ks \<and> entry w k \<noteq> None"
    and exist_dom: "dom (map_of (KeysExist p (Context p) ks w)) = set ks"
    and exist_wf: "gm_wf (KeysExist p (Context p) ks w)"
    and get: "inv w \<Longrightarrow> \<exists>m w'. GetValues p (Context p) ks w = (Ok m, w') \<and> inv w' \<and>
          heap w' = heap w \<and> next_addr w' = next_addr w \<and> reaped (entry w) (entry w') \<and>
          (\<forall>k. gm_value m k = (if k \<in> set ks then live_value (entry w k) else VNil)) \<and>
          dom (map_of m) = set ks \<and> gm_wf m \<and>
          ((\<forall>k\<in>set ks. \<forall>v. entry w k \<noteq> Some (v, True)) \<longrightarrow> full w' = full w \<and> entry w' = entry w)"
    and set_full: "full w \<Longrightarrow> SetValues p (Context p) es w = (Err max_memory_error, w)"
    and set_ok: "inv w \<Longrightarrow> \<not> full w \<Longrightarrow> gm_wf es \<Longrightarrow> (\<And>v. v \<in> snd ` set es \<Longrightarrow> value_ok (heap w) v) \<Longrightarrow>
          \<exists>w'. SetValues p (Context p) es w = (Ok (), w') \<and> inv w' \<and>
            heap w' = heap w \<and> next_addr w' = next_addr w \<and> entry w' = written es (entry w)"
    and delete: "inv w \<Longrightarrow> entry w k \<noteq> None \<Longrightarrow>
          \<exists>w'. DeleteKey p (Context p) k w = (Ok (), w') \<and> inv w' \<and>
            heap w' = heap w \<and> next_addr w' = next_addr w \<and> entry w' = (entry w)(k := None)"
    and through: "inv w \<Longrightarrow> entry w k = Some (v0, b) \<Longrightarrow> value_ok (heap w) v \<Longrightarrow>
          inv (WriteThrough p (Context p) k v w) \<and>
          heap (WriteThrough p (Context p) k v w) = heap w \<and>
          next_addr (WriteThrough p (Context p) k v w) = next_addr w \<and>
          full (WriteThrough p (Context p) k v w) = full w \<and>
          entry (WriteThrough p (Context p) k v w) = (entry w)(k := Some (v, b))"
    and inv_world: "inv w \<Longrightarrow> heap_wf w' \<Longrightarrow> srv w' = srv w \<Longrightarrow> (\<And>a. live w a \<Longrightarrow> live w' a) \<Longrightarrow> inv w'"
    and entry_world: "srv w' = srv w \<Longrightarrow> entry w' = entry w"
    and full_world: "srv w' = srv w \<Longrightarrow> full w' = full w"
    and inv_heap_wf: "inv w \<Longrightarrow> heap_wf w"
    and inv_value: "inv w \<Longrightarrow> entry w k = Some (v, b) \<Longrightarrow> value_ok (heap w) v"

text \<open>A store that is never full: no memory limit is configured.\<close>

locale kv_unlimited = kv_store +
  assumes never_full: "inv w \<Longrightarrow> \<not> full w"

context kv_store begin

lemma exist1: "gm_bool (KeysExist p (Context p) [k] w) k \<longleftrightarrow> entry w k \<noteq> None"
  by (simp add: exist)

text \<open>Reading one key that is live: no entry changes.\<close>

lemma get_live:
  assumes "inv w" "entry w k = Some (v, False)"
  obtains m w' where "GetValues p (Context p) [k] w = (Ok m, w')" "gm_value m k = v" "inv w'"
    "heap w' = heap w" "next_addr w' = next_addr w" "entry w' = entry w" "full w' = full w"
  using get [OF assms(1), of "[k]"] assms(2) by auto

text \<open>Reading one key that is past its expiry: nil.\<close>

lemma get_gone:
  assumes "inv w" "gone (entry w k)"
  obtains m w' where "GetValues p (Context p) [k] w = (Ok m, w')" "gm_value m k = VNil" "inv w'"
    "heap w' = heap w" "next_addr w' = next_addr w" "reaped (entry w) (entry w')"
  using get [OF assms(1), of "[k]"] live_value_gone [OF assms(2)] by auto

lemma set_one:
  assumes "inv w" "\<not> full w" "value_ok (heap w) v"
  obtains w' where "SetValues p (Context p) [(k, v)] w = (Ok (), w')" "inv w'"
    "heap w' = heap w" "next_addr w' = next_addr w" "entry w' = written [(k, v)] (entry w)"
  using set_ok [OF assms(1,2), of "[(k, v)]"] assms(3) by (auto simp: gm_wf_def)

end

lemma written_one: "written [(k, v)] e = e(k := Some (v, (case e k of None \<Rightarrow> False | Some (_, b) \<Rightarrow> b)))"
  by (auto simp: written_def fun_eq_iff)

subsection \<open>The keyspace provides it\<close>

definition server_ok :: "sworld \<Rightarrow> bool" where
  "server_ok w \<longleftrightarrow> sinv w \<and> raft_sane (srv w) \<and> in_i64 (memUsed (srv w))"

definition memory_full :: "sworld \<Rightarrow> bool" where
  "memory_full w \<longleftrightarrow> IsMaxMemoryExceeded (memUsed (srv w)) (MaxMemory (config (srv w))) \<and>
     EvictionPolicy (config (srv w)) = NoEviction"

definition unlimited :: "sworld \<Rightarrow> bool" where
  "unlimited w \<longleftrightarrow> server_ok w \<and> MaxMemory (config (srv w)) = 0"

lemma unlimited_not_full: "unlimited w \<Longrightarrow> \<not> memory_full w"
  by (simp add: unlimited_def memory_full_def IsMaxMemoryExceeded_def)

lemma keysExist_dom: "dom (map_of (keysExist cx ks w)) = set ks" "gm_wf (keysExist cx ks w)"
proof -
  have "dom (map_of (fold (\<lambda>k m. AList.update k (f k) m) ks m)) = set ks \<union> dom (map_of m) \<and>
    (gm_wf m \<longrightarrow> gm_wf (fold (\<lambda>k m. AList.update k (f k) m) ks m))" for f :: "string \<Rightarrow> bool" and m
    by (induction ks arbitrary: m) auto
  then show "dom (map_of (keysExist cx ks w)) = set ks" "gm_wf (keysExist cx ks w)"
    by (simp_all add: keysExist_def)
qed

lemma read_keys_wf: "gm_wf m \<Longrightarrow> read_keys cx ks m w = (Ok m', w') \<Longrightarrow> gm_wf m'"
proof (induction ks arbitrary: m w)
  case (Cons k ks)
  obtain r w1 where r: "read_key cx k w = (r, w1)" by (cases "read_key cx k w")
  then show ?case
    using Cons.prems(2) Cons.IH [OF gm_wf_update [OF Cons.prems(1)]] by (cases r) auto
qed simp

lemma read_keys_live:
  assumes "\<forall>k\<in>set ks. \<forall>v. entry_of cx w k \<noteq> Some (v, True)"
  shows "snd (read_keys cx ks m w) = w"
  using assms
proof (induction ks arbitrary: m)
  case (Cons k ks)
  have "read_key cx k w = (Ok (live_value (entry_of cx w k)), w)"
    using Cons.prems by (auto simp: read_key_def entry_of_def split: option.splits)
  then show ?case using Cons by simp
qed simp

lemma memory_full_frame:
  "memUsed (srv w') = memUsed (srv w) \<Longrightarrow> config (srv w') = config (srv w) \<Longrightarrow> memory_full w' = memory_full w"
  by (simp add: memory_full_def)

lemma getValues_store:
  assumes "server_ok w"
  shows "\<exists>m w'. getValues cx ks w = (Ok m, w') \<and> server_ok w' \<and> config (srv w') = config (srv w) \<and>
    heap w' = heap w \<and> next_addr w' = next_addr w \<and> reaped (entry_of cx w) (entry_of cx w') \<and>
    (\<forall>k. gm_value m k = (if k \<in> set ks then live_value (entry_of cx w k) else VNil)) \<and>
    dom (map_of m) = set ks \<and> gm_wf m \<and>
    ((\<forall>k\<in>set ks. \<forall>v. entry_of cx w k \<noteq> Some (v, True)) \<longrightarrow>
       memory_full w' = memory_full w \<and> entry_of cx w' = entry_of cx w)"
proof -
  have s: "sinv w" "raft_sane (srv w)" using assms by (simp_all add: server_ok_def)
  obtain m w' where w': "getValues cx ks w = (Ok m, w')" "reads w w'"
    "\<forall>k. gm_value m k = (if k \<in> set ks then live_value (entry_of cx w k) else VNil)"
    "dom (map_of m) = set ks"
    using getValues_spec [OF s] by blast
  obtain m1 w1 where m1: "read_keys cx ks [] w = (Ok m1, w1)" using read_keys_spec [OF s] by blast
  have eq: "m = m1" "w' = upd (\<lambda>s. s\<lparr>tasks := tasks s @ [UpdateKeys cx ks]\<rparr>) w1"
    using w'(1) m1 by (simp_all add: getValues_def)
  have "gm_wf m" unfolding eq by (rule read_keys_wf [OF _ m1]) simp
  moreover have "memory_full w' = memory_full w \<and> entry_of cx w' = entry_of cx w"
    if "\<forall>k\<in>set ks. \<forall>v. entry_of cx w k \<noteq> Some (v, True)"
  proof -
    have "w1 = w" using read_keys_live [OF that, of "[]"] m1 by simp
    then show ?thesis
      using entry_of_frame [of w' w cx] memory_full_frame [of w' w] by (simp add: eq)
  qed
  ultimately show ?thesis
    using w' assms by (intro exI [of _ m] exI [of _ w']) (simp add: reads_def server_ok_def)
qed

lemma write_through_store:
  assumes "server_ok w" "entry_of cx w k = Some (v0, b)" "value_ok (heap w) v"
  shows "server_ok (write_through cx k v w)" "heap (write_through cx k v w) = heap w"
    "next_addr (write_through cx k v w) = next_addr w"
    "memory_full (write_through cx k v w) = memory_full w"
    "config (srv (write_through cx k v w)) = config (srv w)"
    "entry_of cx (write_through cx k v w) = (entry_of cx w)(k := Some (v, b))"
proof -
  obtain e where e: "lookup_key (srv w) (Database cx) k = Some e" "b = expired (srv w) e"
    using assms(2) by (auto simp: entry_of_def split: option.splits)
  have eq: "write_through cx k v w = upd (put_key (Database cx) k (e\<lparr>Value := v\<rparr>)) w"
    by (simp add: write_through_def e(1))
  have vol: "k \<in> set (volatile_keys (srv w) (Database cx)) \<or> ExpireAt (e\<lparr>Value := v\<rparr>) = None"
    using sinvD(4) [of w] assms(1) e(1) by (auto simp: server_ok_def volatile_inv_def)
  have m: "memUsed (put_key d k e s) = memUsed s" for d k e s by (simp add: put_key_def)
  show "server_ok (write_through cx k v w)"
    using sinv_put_key [OF _ lookup_db_exists [OF e(1)] _ vol] assms(1,3)
    by (simp add: eq server_ok_def raft_sane_def m)
  show "entry_of cx (write_through cx k v w) = (entry_of cx w)(k := Some (v, b))"
    using entry_of_put [of cx k "e\<lparr>Value := v\<rparr>" w] e(2) by (simp add: eq expired_def)
qed (simp_all add: write_through_def memory_full_def put_key_def upd_def split: option.split)

lemma deleteKey_store:
  assumes "server_ok w" "entry_of cx w k \<noteq> None"
  shows "\<exists>w'. deleteKey cx k w = (Ok (), w') \<and> server_ok w' \<and> config (srv w') = config (srv w) \<and>
    heap w' = heap w \<and> next_addr w' = next_addr w \<and> entry_of cx w' = (entry_of cx w)(k := None)"
proof -
  have "map_of (store (srv w)) (Database cx) \<noteq> None"
    using assms(2) lookup_db_exists by (force simp: entry_of_def split: option.splits)
  then obtain w' mem where w': "deleteKey cx k w = (Ok (), w')" "sinv w'" "heap w' = heap w"
    "next_addr w' = next_addr w"
    "lookup_key (srv w') = (\<lambda>d k'. if d = Database cx \<and> k' = k then None else lookup_key (srv w) d k')"
    "memUsed (srv w') = i64 (memUsed (srv w) - mem - sizeof_string - int (length k))"
    "clockNow (srv w') = clockNow (srv w)" "config (srv w') = config (srv w)"
    using deleteKey_spec [of w cx k] assms(1) by (auto simp: server_ok_def)
  have "raft_sane (srv w')" using deleteKey_raft [of cx k w] w'(1) assms(1) by (simp add: server_ok_def raft_sane_def)
  moreover have "entry_of cx w' = (entry_of cx w)(k := None)"
    using expired_cong [OF w'(7)] by (auto simp: entry_of_def w'(5) fun_eq_iff split: option.split)
  ultimately show ?thesis using w' by (simp add: server_ok_def)
qed

lemma setValues_store:
  assumes "server_ok w" "\<not> memory_full w" "gm_wf es" "\<And>v. v \<in> snd ` set es \<Longrightarrow> value_ok (heap w) v"
  shows "\<exists>w'. setValues cx es w = (Ok (), w') \<and> server_ok w' \<and> config (srv w') = config (srv w) \<and>
    heap w' = heap w \<and> next_addr w' = next_addr w \<and> entry_of cx w' = written es (entry_of cx w)"
proof -
  have s: "sinv w" "in_i64 (memUsed (srv w))" using assms(1) by (simp_all add: server_ok_def)
  obtain w' where w': "setValues cx es w = (Ok (), w')" "writes w w'"
    "entry_of cx w' = written es (entry_of cx w)"
    "memUsed (srv w') = i64 (memUsed (srv w) + sum_list (map (\<lambda>(k, v). mem_added (heap w) k v) es))"
    using setValues_spec [OF s assms(4,3)] assms(2) unfolding memory_full_def by blast
  then show ?thesis using assms(1) by (simp add: server_ok_def writes_def raft_sane_def)
qed

lemma setValues_full: "memory_full w \<Longrightarrow> setValues cx es w = (Err max_memory_error, w)"
  by (simp add: setValues_def memory_full_def)

lemma server_ok_world:
  "server_ok w \<Longrightarrow> heap_wf w' \<Longrightarrow> srv w' = srv w \<Longrightarrow> (\<And>a. live w a \<Longrightarrow> live w' a) \<Longrightarrow> server_ok w'"
  using sinv_heap [of w w'] by (simp add: server_ok_def)

lemma server_value_ok: "server_ok w \<Longrightarrow> entry_of cx w k = Some (v, b) \<Longrightarrow> value_ok (heap w) v"
  using sinvD(5) [of w] by (auto simp: server_ok_def values_inv_def entry_of_def split: option.splits)

lemma server_heap_wf: "server_ok w \<Longrightarrow> heap_wf w"
  by (simp add: server_ok_def sinv_def)

interpretation ks: kv_store "getHandlerFuncParams cx cmd conn" "entry_of cx" memory_full server_ok
  for cx cmd conn
proof
  show "\<exists>m w'. GetValues (getHandlerFuncParams cx cmd conn) (Context (getHandlerFuncParams cx cmd conn)) ks w = (Ok m, w') \<and>
      server_ok w' \<and> heap w' = heap w \<and> next_addr w' = next_addr w \<and> reaped (entry_of cx w) (entry_of cx w') \<and>
      (\<forall>k. gm_value m k = (if k \<in> set ks then live_value (entry_of cx w k) else VNil)) \<and>
      dom (map_of m) = set ks \<and> gm_wf m \<and>
      ((\<forall>k\<in>set ks. \<forall>v. entry_of cx w k \<noteq> Some (v, True)) \<longrightarrow>
        memory_full w' = memory_full w \<and> entry_of cx w' = entry_of cx w)" if "server_ok w" for w ks
    using getValues_store [OF that, of cx ks] unfolding params_simps by blast
  show "\<exists>w'. SetValues (getHandlerFuncParams cx cmd conn) (Context (getHandlerFuncParams cx cmd conn)) es w = (Ok (), w') \<and>
      server_ok w' \<and> heap w' = heap w \<and> next_addr w' = next_addr w \<and> entry_of cx w' = written es (entry_of cx w)"
    if "server_ok w" "\<not> memory_full w" "gm_wf es" "\<And>v. v \<in> snd ` set es \<Longrightarrow> value_ok (heap w) v" for w es
    using setValues_store [OF that, of cx] unfolding params_simps by blast
  show "\<exists>w'. DeleteKey (getHandlerFuncParams cx cmd conn) (Context (getHandlerFuncParams cx cmd conn)) k w = (Ok (), w') \<and>
      server_ok w' \<and> heap w' = heap w \<and> next_addr w' = next_addr w \<and> entry_of cx w' = (entry_of cx w)(k := None)"
    if "server_ok w" "entry_of cx w k \<noteq> None" for w k
    using deleteKey_store [OF that] unfolding params_simps by blast
  show "server_ok w \<Longrightarrow> heap_wf w' \<Longrightarrow> srv w' = srv w \<Longrightarrow> (\<And>a. live w a \<Longrightarrow> live w' a) \<Longrightarrow> server_ok w'"
    for w w' by (rule server_ok_world)
  show "server_ok w \<Longrightarrow> entry_of cx w k = Some (v, b) \<Longrightarrow> value_ok (heap w) v" for w k v b
    by (rule server_value_ok)
  show "server_ok (WriteThrough (getHandlerFuncParams cx cmd conn) (Context (getHandlerFuncParams cx cmd conn)) k v w) \<and>
      heap (WriteThrough (getHandlerFuncParams cx cmd conn) (Context (getHandlerFuncParams cx cmd conn)) k v w) = heap w \<and>
      next_addr (WriteThrough (getHandlerFuncParams cx cmd conn) (Context (getHandlerFuncParams cx cmd conn)) k v w) = next_addr w \<and>
      memory_full (WriteThrough (getHandlerFuncParams cx cmd conn) (Context (getHandlerFuncParams cx cmd conn)) k v w) = memory_full w \<and>
      entry_of cx (WriteThrough (getHandlerFuncParams cx cmd conn) (Context (getHandlerFuncParams cx cmd conn)) k v w) =
        (entry_of cx w)(k := Some (v, b))"
    if "server_ok w" "entry_of cx w k = Some (v0, b)" "value_ok (heap w) v" for w k v v0 b
    using write_through_store [OF that] unfolding params_simps by blast
  show "server_ok w \<Longrightarrow> heap_wf w" for w by (rule server_heap_wf)
  show "srv w' = srv w \<Longrightarrow> entry_of cx w' = entry_of cx w" for w w' by (rule entry_of_cong)
qed (simp_all only: params_simps keysExist_spec keysExist_dom setValues_full memory_full_def)

text \<open>Without a memory limit the same functions never refuse a write.\<close>

lemma unlimited_iff: "unlimited w \<longleftrightarrow> server_ok w \<and> MaxMemory (config (srv w)) = 0"
  by (simp add: unlimited_def)

lemma unlimited_heap_wf: "unlimited w \<Longrightarrow> heap_wf w"
  by (simp add: unlimited_def server_heap_wf)

lemma unlimited_value_ok: "unlimited w \<Longrightarrow> entry_of cx w k = Some (v, b) \<Longrightarrow> value_ok (heap w) v"
  by (simp add: unlimited_def server_value_ok)

interpretation un: kv_unlimited "getHandlerFuncParams cx cmd conn" "entry_of cx" memory_full unlimited
  for cx cmd conn
proof
  show "\<exists>m w'. GetValues (getHandlerFuncParams cx cmd conn) (Context (getHandlerFuncParams cx cmd conn)) ks w = (Ok m, w') \<and>
      unlimited w' \<and> heap w' = heap w \<and> next_addr w' = next_addr w \<and> reaped (entry_of cx w) (entry_of cx w') \<and>
      (\<forall>k. gm_value m k = (if k \<in> set ks then live_value (entry_of cx w k) else VNil)) \<and>
      dom (map_of m) = set ks \<and> gm_wf m \<and>
      ((\<forall>k\<in>set ks. \<forall>v. entry_of cx w k \<noteq> Some (v, True)) \<longrightarrow>
        memory_full w' = memory_full w \<and> entry_of cx w' = entry_of cx w)" if "unlimited w" for w ks
    using getValues_store [of w cx ks] that unfolding params_simps unlimited_iff by metis
  show "\<exists>w'. SetValues (getHandlerFuncParams cx cmd conn) (Context (getHandlerFuncParams cx cmd conn)) es w = (Ok (), w') \<and>
      unlimited w' \<and> heap w' = heap w \<and> next_addr w' = next_addr w \<and> entry_of cx w' = written es (entry_of cx w)"
    if "unlimited w" "\<not> memory_full w" "gm_wf es" "\<And>v. v \<in> snd ` set es \<Longrightarrow> value_ok (heap w) v" for w es
    using setValues_store [OF _ that(2-4), of cx] that(1) unfolding params_simps unlimited_iff by metis
  show "\<exists>w'. DeleteKey (getHandlerFuncParams cx cmd conn) (Context (getHandlerFuncParams cx cmd conn)) k w = (Ok (), w') \<and>
      unlimited w' \<and> heap w' = heap w \<and> next_addr w' = next_addr w \<and> entry_of cx w' = (entry_of cx w)(k := None)"
    if "unlimited w" "entry_of cx w k \<noteq> None" for w k
    using deleteKey_store [of w cx k] that unfolding params_simps unlimited_iff by metis
  show "unlimited (WriteThrough (getHandlerFuncParams cx cmd conn) (Context (getHandlerFuncParams cx cmd conn)) k v w) \<and>
      heap (WriteThrough (getHandlerFuncParams cx cmd conn) (Context (getHandlerFuncParams cx cmd conn)) k v w) = heap w \<and>
      next_addr (WriteThrough (getHandlerFuncParams cx cmd conn) (Context (getHandlerFuncParams cx cmd conn)) k v w) = next_addr w \<and>
      memory_full (WriteThrough (getHandlerFuncParams cx cmd conn) (Context (getHandlerFuncParams cx cmd conn)) k v w) = memory_full w \<and>
      entry_of cx (WriteThrough (getHandlerFuncParams cx cmd conn) (Context (getHandlerFuncParams cx cmd conn)) k v w) =
        (entry_of cx w)(k := Some (v, b))"
    if "unlimited w" "entry_of cx w k = Some (v0, b)" "value_ok (heap w) v" for w k v v0 b
    using write_through_store [OF _ that(2,3)] that(1) unfolding params_simps unlimited_iff by simp
  show "unlimited w \<Longrightarrow> heap_wf w' \<Longrightarrow> srv w' = srv w \<Longrightarrow> (\<And>a. live w a \<Longrightarrow> live w' a) \<Longrightarrow> unlimited w'"
    for w w' using server_ok_world [of w w'] by (simp add: unlimited_iff)
qed (rule ks.exist ks.exist_dom ks.exist_wf | erule ks.set_full ks.entry_world ks.full_world
    unlimited_not_full unlimited_heap_wf | erule (1) unlimited_value_ok)+

end
