(* ===== verification/Demo.thy ===== *)
theory Demo
  imports KvStore
begin

text \<open>
  Concrete servers for the examples: one database without a memory limit, holding given
  values, none of them volatile.
\<close>

definition demo_config :: config where
  "demo_config = \<lparr>MaxMemory = 0, EvictionPolicy = NoEviction, EvictionSample = 20,
     BootstrapCluster = False, JoinAddr = '''', ConfigServerID = '''', ForwardCommand = False\<rparr>"

text \<open>Libraries for the examples: \<open>*\<close> is the only pattern that is not a plain name.\<close>

definition word_value :: "string \<Rightarrow> rvalue" where
  "word_value s = RValue False ''BulkString'' s 0 FNaN False []"

definition words_value :: "string list \<Rightarrow> rvalue" where
  "words_value ws = RValue False ''Array'' [] 0 FNaN False (map word_value ws)"

lemma Decode_words: "read_value l m = Ok (words_value ws) \<Longrightarrow> Decode l m = Ok ws"
  by (simp add: Decode_def words_value_def word_value_def comp_def)

definition demo_libs :: libs where
  "demo_libs = \<lparr>glob_compile = (\<lambda>g. Some (\<lambda>s. g = ''*'' \<or> g = s)), sha256_hex = (\<lambda>s. s),
     load_users = (\<lambda>_. ([], None)), save_users = (\<lambda>_ _. Ok ()), read_value = (\<lambda>s. Ok (words_value [s])),
     read_messages = (\<lambda>s. ([s], None))\<rparr>"

definition demo_acl :: acl where
  "demo_acl = \<lparr>user_heap = [], Users = [], Connections = [],
     AclSettings = \<lparr>RequirePass = False, ServerPassword = '''', AclConfig = ''''\<rparr>,
     GlobPatterns = [], Closing = []\<rparr>"

definition demo_server :: "config \<Rightarrow> (string \<times> keydata) list \<Rightarrow> server" where
  "demo_server cfg es =
     \<lparr>config = cfg, store = [(0, es)], memUsed = 0,
      keysWithExpiry = [(0, map fst (filter (\<lambda>(k, e). ExpireAt e \<noteq> None) es))],
      lfuCache = [(0, NewCacheLFU)], lruCache = [(0, NewCacheLRU)], tcpClients = [],
      embedded = \<lparr>ConnId = 0, ConnName = ''embedded'', ConnProtocol = 2, ConnDatabase = 0\<rparr>,
      clockNow = 1000, wallMillis = 0, changeCount = 0, raftLeader = False,
      raft_apply = (\<lambda>_ _. Ok ''''), raftLog = [], forwarded = [], tasks = [],
      acl = demo_acl, pubSub = \<lparr>channels = [], writers = [], written_to = []\<rparr>, commands = [], libs = demo_libs,
      forwardedCommands = [], appendStore = \<lparr>currentDatabase = - 1, log_file = Some []\<rparr>,
      preambleFile = Some None, manifestFile = None, snapshotFiles = [], md5_sum = (\<lambda>_. []), snapshotInProgress = False, rewriteAOFInProgress = False,
      stateCopyInProgress = False, stateMutationInProgress = False, latestSnapshotMilliseconds = 0,
      snapshotsStarted = 0, connId = 0\<rparr>"

definition demo_world :: "config \<Rightarrow> goset list \<Rightarrow> (string \<times> keydata) list \<Rightarrow> sworld" where
  "demo_world cfg sets es =
     \<lparr>heap = (\<lambda>a. if a < length sets then Some (sets ! a) else None), next_addr = length sets,
      coins = (\<lambda>_. 0), srv = demo_server cfg es\<rparr>"

definition demo_ctx :: ctx where
  "demo_ctx = \<lparr>ServerID = '''', ConnectionName = '''', Protocol = 2, Database = 0, ConnectionID = ''''\<rparr>"

definition kept :: "go_value \<Rightarrow> keydata" where
  "kept v = \<lparr>Value = v, ExpireAt = None\<rparr>"

definition until :: "int \<Rightarrow> go_value \<Rightarrow> keydata" where
  "until t v = \<lparr>Value = v, ExpireAt = Some t\<rparr>"

lemma demo_ctx_simps [simp]: "Database demo_ctx = 0"
  by (simp add: demo_ctx_def)

lemma demo_srv [simp]:
  "srv (demo_world cfg sets es) = demo_server cfg es"
  "config (demo_server cfg es) = cfg" "clockNow (demo_server cfg es) = 1000"
  "memUsed (demo_server cfg es) = 0" "MaxMemory demo_config = 0"
  "EvictionPolicy demo_config = NoEviction" "\<not> isInCluster (demo_server demo_config es)"
  by (simp_all add: demo_world_def demo_server_def demo_config_def isInCluster_def)

lemma demo_heap [simp]:
  "heap (demo_world cfg sets es) a = (if a < length sets then Some (sets ! a) else None)"
  by (simp add: demo_world_def)

lemma demo_lookup [simp]: "lookup_key (demo_server cfg es) d k = (if d = 0 then map_of es k else None)"
  by (simp add: lookup_key_def db_of_def demo_server_def)

lemma demo_volatile [simp]:
  "volatile_keys (demo_server cfg es) d =
     (if d = 0 then map fst (filter (\<lambda>(k, e). ExpireAt e \<noteq> None) es) else [])"
  by (simp add: volatile_keys_def demo_server_def)

lemma demo_ok:
  assumes "distinct (map fst es)" "\<forall>s\<in>set sets. set_wf s"
    and "\<forall>x\<in>set es. case Value (snd x) of VSet a \<Rightarrow> a < length sets | VSlice _ \<Rightarrow> False | VHash m \<Rightarrow> gm_wf m | VZSet z \<Rightarrow> gm_wf z | _ \<Rightarrow> True"
  shows "server_ok (demo_world cfg sets es)"
proof -
  let ?vol = "map fst (filter (\<lambda>(k, e). ExpireAt e \<noteq> None) es)"
  have hw: "heap_wf (demo_world cfg sets es)"
    using assms(2) by (auto simp: heap_wf_def demo_world_def)
  have st: "store_inv (demo_server cfg es)"
    using assms(1) by (simp add: store_inv_def gm_wf_def db_of_def demo_server_def)
  have ca: "caches_inv (demo_server cfg es)"
    by (simp add: caches_inv_def demo_server_def lfu_inv_new lru_inv_new)
  have "distinct ?vol" using assms(1) distinct_map_filter by blast
  moreover have "map_of es k \<noteq> None" if "k \<in> set ?vol" for k
    using that by (auto simp: map_of_eq_None_iff)
  moreover have "k \<in> set ?vol" if "map_of es k = Some e" "ExpireAt e \<noteq> None" for k e
    using that map_of_SomeD by force
  ultimately have vo: "volatile_inv (demo_server cfg es)" by (auto simp: volatile_inv_def)
  have "value_ok (heap (demo_world cfg sets es)) (Value e)" if "map_of es k = Some e" for k e
    using map_of_SomeD [OF that] assms(3) by (auto simp: value_ok_def split: go_value.splits)
  then have va: "values_inv (demo_world cfg sets es)" by (simp add: values_inv_def)
  have "raft_sane (demo_server cfg es)" "memUsed (demo_server cfg es) = 0"
    by (simp_all add: raft_sane_def demo_server_def)
  with hw st ca vo va show ?thesis by (simp add: server_ok_def sinv_def in_i64_def)
qed

lemma demo_unlimited:
  assumes "distinct (map fst es)" "\<forall>s\<in>set sets. set_wf s"
    and "\<forall>x\<in>set es. case Value (snd x) of VSet a \<Rightarrow> a < length sets | VSlice _ \<Rightarrow> False | VHash m \<Rightarrow> gm_wf m | VZSet z \<Rightarrow> gm_wf z | _ \<Rightarrow> True"
  shows "unlimited (demo_world demo_config sets es)"
  using demo_ok [OF assms] by (simp add: unlimited_def)

lemma demo_entry [simp]:
  "entry_of demo_ctx (demo_world cfg sets es) k =
     map_option (\<lambda>e. (Value e, case ExpireAt e of None \<Rightarrow> False | Some t \<Rightarrow> t < 1000)) (map_of es k)"
  by (simp add: entry_of_def expired_def split: option.split)

lemma kept_simps [simp]: "Value (kept v) = v" "ExpireAt (kept v) = None"
  by (simp_all add: kept_def)

lemma until_simps [simp]: "Value (until t v) = v" "ExpireAt (until t v) = Some t"
  by (simp_all add: until_def)

end
