(* ===== verification/KeyspaceProps.thy ===== *)
theory KeyspaceProps
  imports Demo
begin

text \<open>
  Properties of the keyspace, of its memory accounting, of the eviction caches and of the
  memory management, each with an example of its hypotheses.
\<close>

subsection \<open>Reading in standalone mode, exactly\<close>

definition reap :: "string set \<Rightarrow> (string \<Rightarrow> (go_value \<times> bool) option) \<Rightarrow> (string \<Rightarrow> (go_value \<times> bool) option)" where
  "reap K e k = (if k \<in> K \<and> gone (e k) then None else e k)"

lemma read_key_standalone:
  assumes "sinv w" "raft_sane (srv w)" "\<not> isInCluster (srv w)"
  shows "entry_of cx (snd (read_key cx k w)) = reap {k} (entry_of cx w)"
    and "\<not> isInCluster (srv (snd (read_key cx k w)))"
proof -
  have "config (srv (snd (read_key cx k w))) = config (srv w)"
    using read_key_spec [OF assms(1,2), of cx k] by (auto simp: reads_def)
  then show "\<not> isInCluster (srv (snd (read_key cx k w)))" using assms(3) by (simp add: isInCluster_def)
  show "entry_of cx (snd (read_key cx k w)) = reap {k} (entry_of cx w)"
  proof (cases "gone (entry_of cx w k)")
    case False
    then have "snd (read_key cx k w) = w"
      by (auto simp: read_key_def entry_of_def gone_def split: option.splits)
    then show ?thesis using False by (auto simp: reap_def fun_eq_iff)
  next
    case True
    show ?thesis
    proof (cases "lookup_key (srv w) (Database cx) k")
      case None
      then show ?thesis by (auto simp: read_key_def reap_def fun_eq_iff entry_of_def)
    next
      case (Some e)
      then have ex: "expired (srv w) e" using True by (simp add: entry_of_def)
      obtain w' where w': "deleteKey cx k w = (Ok (), w')"
        "lookup_key (srv w') = (\<lambda>d k'. if d = Database cx \<and> k' = k then None else lookup_key (srv w) d k')"
        "clockNow (srv w') = clockNow (srv w)"
        using deleteKey_spec [OF assms(1) lookup_db_exists [OF Some], of k] by blast
      have "entry_of cx w' = reap {k} (entry_of cx w)"
        using True expired_cong [OF w'(3)] by (auto simp: entry_of_def w'(2) reap_def fun_eq_iff split: option.split)
      then show ?thesis using Some ex assms(3) w'(1) by (simp add: read_key_def)
    qed
  qed
qed

lemma reap_Un: "reap K (reap L e) = reap (L \<union> K) e"
  by (auto simp: reap_def fun_eq_iff)

lemma read_keys_standalone:
  assumes "sinv w" "raft_sane (srv w)" "\<not> isInCluster (srv w)"
  shows "entry_of cx (snd (read_keys cx ks m w)) = reap (set ks) (entry_of cx w)"
  using assms
proof (induction ks arbitrary: m w)
  case (Cons k ks)
  obtain w1 where w1: "read_key cx k w = (Ok (live_value (entry_of cx w k)), w1)" "reads w w1"
    using read_key_spec [OF Cons.prems(1,2)] by blast
  have "sinv w1" "raft_sane (srv w1)" using w1(2) by (simp_all add: reads_def)
  moreover have "\<not> isInCluster (srv w1)" "entry_of cx w1 = reap {k} (entry_of cx w)"
    using read_key_standalone [OF Cons.prems, of cx k] w1(1) by simp_all
  ultimately show ?case using Cons.IH [of w1] w1(1) by (simp add: reap_Un)
qed (simp add: reap_def fun_eq_iff)

lemma getValues_standalone:
  assumes "server_ok w" "\<not> isInCluster (srv w)"
  shows "entry_of cx (snd (getValues cx ks w)) = reap (set ks) (entry_of cx w)"
proof -
  have s: "sinv w" "raft_sane (srv w)" using assms(1) by (simp_all add: server_ok_def)
  obtain m w1 where m: "read_keys cx ks [] w = (Ok m, w1)" using read_keys_spec [OF s] by blast
  let ?w2 = "upd (\<lambda>s. s\<lparr>tasks := tasks s @ [UpdateKeys cx ks]\<rparr>) w1"
  have "entry_of cx ?w2 = entry_of cx w1" by (rule entry_of_frame) simp_all
  then show ?thesis
    using read_keys_standalone [OF s assms(2), of cx ks "[]"] m by (simp add: getValues_def)
qed

subsection \<open>Properties of the keyspace\<close>

text \<open>C29: Reading keys in standalone mode returns the live values, nil for keys that are absent or
  past their expiry, and removes exactly the keys asked for that are past it.\<close>

theorem getValues_reaps:
  assumes "server_ok w" "\<not> isInCluster (srv w)"
  shows "\<exists>m w'. getValues cx ks w = (Ok m, w') \<and> server_ok w' \<and> heap w' = heap w \<and>
    (\<forall>k. gm_value m k = (if k \<in> set ks then live_value (entry_of cx w k) else VNil)) \<and>
    entry_of cx w' = (\<lambda>k. if k \<in> set ks \<and> gone (entry_of cx w k) then None else entry_of cx w k)"
proof -
  obtain m w' where w': "getValues cx ks w = (Ok m, w')" "server_ok w'" "heap w' = heap w"
    "\<forall>k. gm_value m k = (if k \<in> set ks then live_value (entry_of cx w k) else VNil)"
    using getValues_store [OF assms(1)] by blast
  have "entry_of cx w' = reap (set ks) (entry_of cx w)"
    using getValues_standalone [OF assms, of cx ks] w'(1) by simp
  then show ?thesis using w' by (intro exI [of _ m] exI [of _ w']) (simp add: reap_def fun_eq_iff)
qed

lemma getValues_reaps_witness:
  "\<exists>m w'. getValues demo_ctx [''k'', ''l'', ''x'']
      (demo_world demo_config [] [(''k'', until 5 (VStr ''v'')), (''l'', until 2000 (VStr ''u''))]) = (Ok m, w') \<and>
    gm_value m ''k'' = VNil \<and> gm_value m ''l'' = VStr ''u'' \<and> gm_value m ''x'' = VNil \<and>
    entry_of demo_ctx w' ''k'' = None \<and> entry_of demo_ctx w' ''l'' = Some (VStr ''u'', False)"
proof -
  let ?w = "demo_world demo_config [] [(''k'', until 5 (VStr ''v'')), (''l'', until 2000 (VStr ''u''))]"
  have ok: "server_ok ?w" by (rule demo_ok) simp_all
  have sa: "\<not> isInCluster (srv ?w)" by simp
  obtain m w' where w': "getValues demo_ctx [''k'', ''l'', ''x''] ?w = (Ok m, w')"
    "\<And>k. gm_value m k = (if k \<in> set [''k'', ''l'', ''x''] then live_value (entry_of demo_ctx ?w k) else VNil)"
    "entry_of demo_ctx w' = (\<lambda>k. if k \<in> set [''k'', ''l'', ''x''] \<and> gone (entry_of demo_ctx ?w k)
       then None else entry_of demo_ctx ?w k)"
    using getValues_reaps [OF ok sa] by blast
  show ?thesis using w'(1) w'(2) [of "''k''"] w'(2) [of "''l''"] w'(2) [of "''x''"]
    by (intro exI [of _ m] exI [of _ w']) (simp add: w'(3))
qed

text \<open>C6: Writing refines an update of the map from keys to values: the keys written hold the
  new values and keep their expiry state, all other keys and databases stay, and the memory
  counter grows by the size of what was written (modulo its 64 bits).\<close>

theorem setValues_refines_update:
  assumes "server_ok w" "\<not> memory_full w" "gm_wf es" "\<And>v. v \<in> snd ` set es \<Longrightarrow> value_ok (heap w) v"
  shows "\<exists>w'. setValues cx es w = (Ok (), w') \<and> server_ok w' \<and> heap w' = heap w \<and>
    entry_of cx w' = (\<lambda>k. case map_of es k of
       None \<Rightarrow> entry_of cx w k
     | Some v \<Rightarrow> Some (v, (case entry_of cx w k of None \<Rightarrow> False | Some (_, b) \<Rightarrow> b))) \<and>
    (\<forall>c. Database c \<noteq> Database cx \<longrightarrow> entry_of c w' = entry_of c w) \<and>
    memUsed (srv w') = i64 (memUsed (srv w) + sum_list (map (\<lambda>(k, v). mem_added (heap w) k v) es))"
proof -
  have s: "sinv w" "in_i64 (memUsed (srv w))" using assms(1) by (simp_all add: server_ok_def)
  obtain w' where w': "setValues cx es w = (Ok (), w')" "writes w w'"
    "entry_of cx w' = written es (entry_of cx w)"
    "\<forall>c. Database c \<noteq> Database cx \<longrightarrow> entry_of c w' = entry_of c w"
    "memUsed (srv w') = i64 (memUsed (srv w) + sum_list (map (\<lambda>(k, v). mem_added (heap w) k v) es))"
    using setValues_spec [OF s assms(4,3)] assms(2) unfolding memory_full_def by blast
  moreover have "written es (entry_of cx w) = (\<lambda>k. case map_of es k of
       None \<Rightarrow> entry_of cx w k
     | Some v \<Rightarrow> Some (v, (case entry_of cx w k of None \<Rightarrow> False | Some (_, b) \<Rightarrow> b)))"
    by (simp add: written_def fun_eq_iff)
  ultimately show ?thesis
    using assms(1) by (intro exI [of _ w']) (simp add: server_ok_def writes_def raft_sane_def)
qed

lemma setValues_refines_update_witness:
  "\<exists>w'. setValues demo_ctx [(''l'', VStr ''new'')]
      (demo_world demo_config [] [(''k'', kept (VStr ''v''))]) = (Ok (), w') \<and>
    entry_of demo_ctx w' ''k'' = Some (VStr ''v'', False) \<and>
    entry_of demo_ctx w' ''l'' = Some (VStr ''new'', False) \<and> memUsed (srv w') = 60"
proof -
  let ?w = "demo_world demo_config [] [(''k'', kept (VStr ''v''))]"
  let ?es = "[(''l'', VStr ''new'')]"
  have ok: "server_ok ?w" by (rule demo_ok) simp_all
  have nf: "\<not> memory_full ?w" using ok by (intro unlimited_not_full) (simp add: unlimited_def)
  have wf: "gm_wf ?es" by (simp add: gm_wf_def)
  have v: "\<And>v. v \<in> snd ` set ?es \<Longrightarrow> value_ok (heap ?w) v" by (simp add: value_ok_def)
  obtain w' where w': "setValues demo_ctx ?es ?w = (Ok (), w')"
    "entry_of demo_ctx w' = (\<lambda>k. case map_of ?es k of
       None \<Rightarrow> entry_of demo_ctx ?w k
     | Some v \<Rightarrow> Some (v, (case entry_of demo_ctx ?w k of None \<Rightarrow> False | Some (_, b) \<Rightarrow> b)))"
    "memUsed (srv w') = i64 (memUsed (srv ?w) + sum_list (map (\<lambda>(k, v). mem_added (heap ?w) k v) ?es))"
    using setValues_refines_update [OF ok nf wf v] by blast
  have "mem_added (heap ?w) ''l'' (VStr ''new'') = 60"
    by (simp add: mem_added_def KeyData_GetMem.simps sizeof_defs)
  then show ?thesis using w' by (intro exI [of _ w']) (simp add: in_i64_def)
qed

text \<open>C31: Writing a new key and deleting it again brings the memory counter back: what a write
  adds for a key is what the deletion subtracts.\<close>

theorem set_then_delete_memory:
  assumes "server_ok w" "\<not> memory_full w" "value_ok (heap w) v"
  shows "\<exists>w1 w2. setValues cx [(k, v)] w = (Ok (), w1) \<and> deleteKey cx k w1 = (Ok (), w2) \<and>
    memUsed (srv w2) = memUsed (srv w) \<and> entry_of cx w2 = (entry_of cx w)(k := None)"
proof -
  have s: "sinv w" "in_i64 (memUsed (srv w))" using assms(1) by (simp_all add: server_ok_def)
  have wf: "gm_wf [(k, v)]" and vs: "\<And>u. u \<in> snd ` set [(k, v)] \<Longrightarrow> value_ok (heap w) u"
    using assms(3) by (simp_all add: gm_wf_def)
  obtain w1 where w1: "setValues cx [(k, v)] w = (Ok (), w1)" "writes w w1"
    "entry_of cx w1 = written [(k, v)] (entry_of cx w)"
    "memUsed (srv w1) = i64 (memUsed (srv w) + mem_added (heap w) k v)"
    using setValues_spec [OF s vs wf] assms(2) unfolding memory_full_def by auto
  have "\<exists>b. entry_of cx w1 k = Some (v, b)" using w1(3) by (simp add: written_one)
  then obtain e where e: "lookup_key (srv w1) (Database cx) k = Some e" "Value e = v"
    by (auto simp: entry_of_def split: option.splits)
  obtain w2 mem where w2: "deleteKey cx k w1 = (Ok (), w2)"
    "lookup_key (srv w2) = (\<lambda>d k'. if d = Database cx \<and> k' = k then None else lookup_key (srv w1) d k')"
    "KeyData_GetMem (heap w1) e = Ok mem"
    "memUsed (srv w2) = i64 (memUsed (srv w1) - mem - sizeof_string - int (length k))"
    "clockNow (srv w2) = clockNow (srv w1)"
    using deleteKey_spec [of w1 cx k] lookup_db_exists [OF e(1)] w1(2) e(1) by (auto simp: writes_def)
  have "mem_added (heap w) k v = mem + sizeof_string + int (length k)"
    using w2(3) w1(2) KeyData_GetMem_value [of "\<lparr>Value = v, ExpireAt = None\<rparr>" e "heap w"] e(2)
    by (simp add: mem_added_def writes_def)
  then have "memUsed (srv w2) = i64 (i64 (memUsed (srv w) + mem_added (heap w) k v) + - mem_added (heap w) k v)"
    using w2(4) w1(4) by (simp add: algebra_simps)
  then have "memUsed (srv w2) = memUsed (srv w)" using s(2) unfolding i64_add by simp
  moreover have "entry_of cx w2 = (entry_of cx w)(k := None)"
  proof -
    have "entry_of cx w2 = (entry_of cx w1)(k := None)"
      using expired_cong [OF w2(5)] by (auto simp: entry_of_def w2(2) fun_eq_iff split: option.split)
    then show ?thesis using w1(3) by (simp add: written_one)
  qed
  ultimately show ?thesis using w1(1) w2(1) by blast
qed

lemma set_then_delete_memory_witness:
  "\<exists>w1 w2. setValues demo_ctx [(''k'', VStr ''v'')] (demo_world demo_config [] []) = (Ok (), w1) \<and>
     deleteKey demo_ctx ''k'' w1 = (Ok (), w2) \<and> memUsed (srv w2) = 0"
proof -
  let ?w = "demo_world demo_config [] []"
  have ok: "server_ok ?w" by (rule demo_ok) simp_all
  have nf: "\<not> memory_full ?w" using ok by (intro unlimited_not_full) (simp add: unlimited_def)
  have v: "value_ok (heap ?w) (VStr ''v'')" by (simp add: value_ok_def)
  show ?thesis using set_then_delete_memory [OF ok nf v, of demo_ctx "''k''"] by auto
qed

text \<open>Overwriting a key leaks memory: the size of the old value stays in the counter, so that
  writing the same value to a key twice counts it twice.\<close>

theorem overwrite_counts_twice:
  assumes "server_ok w" "\<not> memory_full w" "value_ok (heap w) v" "MaxMemory (config (srv w)) = 0"
  shows "\<exists>w1 w2. setValues cx [(k, v)] w = (Ok (), w1) \<and> setValues cx [(k, v)] w1 = (Ok (), w2) \<and>
    memUsed (srv w2) = i64 (memUsed (srv w) + 2 * mem_added (heap w) k v) \<and>
    entry_of cx w2 = entry_of cx w1"
proof -
  have s: "sinv w" "in_i64 (memUsed (srv w))" using assms(1) by (simp_all add: server_ok_def)
  have wf: "gm_wf [(k, v)]" and vs: "\<And>u. u \<in> snd ` set [(k, v)] \<Longrightarrow> value_ok (heap w) u"
    using assms(3) by (simp_all add: gm_wf_def)
  obtain w1 where w1: "setValues cx [(k, v)] w = (Ok (), w1)" "writes w w1"
    "entry_of cx w1 = written [(k, v)] (entry_of cx w)"
    "memUsed (srv w1) = i64 (memUsed (srv w) + mem_added (heap w) k v)"
    using setValues_spec [OF s vs wf] assms(2) unfolding memory_full_def by auto
  have s1: "sinv w1" "in_i64 (memUsed (srv w1))" "heap w1 = heap w" "config (srv w1) = config (srv w)"
    using w1(2,4) by (simp_all add: writes_def)
  have vs1: "\<And>u. u \<in> snd ` set [(k, v)] \<Longrightarrow> value_ok (heap w1) u" using vs s1(3) by simp
  obtain w2 where w2: "setValues cx [(k, v)] w1 = (Ok (), w2)"
    "entry_of cx w2 = written [(k, v)] (entry_of cx w1)"
    "memUsed (srv w2) = i64 (memUsed (srv w1) + mem_added (heap w1) k v)"
    using setValues_spec [OF s1(1,2) vs1 wf] assms(4) s1(4) by (auto simp: IsMaxMemoryExceeded_def)
  have "memUsed (srv w2) = i64 (memUsed (srv w) + 2 * mem_added (heap w) k v)"
    unfolding w2(3) w1(4) s1(3) i64_add by (simp add: algebra_simps)
  moreover have "entry_of cx w2 = entry_of cx w1"
    unfolding w2(2) w1(3) by (auto simp: written_one fun_eq_iff split: option.split)
  ultimately show ?thesis using w1(1) w2(1) by blast
qed

lemma overwrite_counts_twice_witness:
  "\<exists>w1 w2. setValues demo_ctx [(''k'', VStr ''v'')] (demo_world demo_config [] []) = (Ok (), w1) \<and>
     setValues demo_ctx [(''k'', VStr ''v'')] w1 = (Ok (), w2) \<and> memUsed (srv w2) = 116"
proof -
  let ?w = "demo_world demo_config [] []"
  have ok: "server_ok ?w" by (rule demo_ok) simp_all
  have nf: "\<not> memory_full ?w" using ok by (intro unlimited_not_full) (simp add: unlimited_def)
  have v: "value_ok (heap ?w) (VStr ''v'')" by (simp add: value_ok_def)
  have m: "mem_added (heap ?w) ''k'' (VStr ''v'') = 58"
    by (simp add: mem_added_def KeyData_GetMem.simps sizeof_defs)
  have "MaxMemory (config (srv ?w)) = 0" by simp
  from overwrite_counts_twice [OF ok nf v this, of demo_ctx "''k''"] show ?thesis
    using m by (auto simp: in_i64_def)
qed

text \<open>Setting the expiry of a key keeps its value, is what \<open>getExpiry\<close> then returns, lists the
  key as volatile, and keeps the invariant that every key with an expiry is listed.\<close>

theorem setExpiry_roundtrip:
  assumes "sinv w" "lookup_key (srv w) (Database cx) k = Some e"
  shows "\<exists>w'. setExpiry cx k t touch w = (Ok (), w') \<and> sinv w' \<and> getExpiry cx k w' = t \<and>
    (\<forall>d k'. map_option Value (lookup_key (srv w') d k') = map_option Value (lookup_key (srv w) d k')) \<and>
    (t \<noteq> None \<longrightarrow> k \<in> set (volatile_keys (srv w') (Database cx)))"
proof -
  obtain w' where w': "setExpiry cx k t touch w = (Ok (), w')" "writes w w'"
    "\<forall>d k'. lookup_key (srv w') d k' =
       (if d = Database cx \<and> k' = k then Some \<lparr>Value = Value e, ExpireAt = t\<rparr> else lookup_key (srv w) d k')"
    using setExpiry_spec [OF assms] by blast
  have "sinv w'" using w'(2) by (simp add: writes_def)
  moreover have "getExpiry cx k w' = t" using w'(3) by (simp add: getExpiry_def)
  moreover have "t \<noteq> None \<longrightarrow> k \<in> set (volatile_keys (srv w') (Database cx))"
    using sinvD(4) [OF \<open>sinv w'\<close>] w'(3) unfolding volatile_inv_def by (metis keydata.select_convs(2))
  ultimately show ?thesis using w' assms(2) by (intro exI [of _ w']) simp
qed

lemma setExpiry_roundtrip_witness:
  "\<exists>w'. setExpiry demo_ctx ''k'' (Some 7) True (demo_world demo_config [] [(''k'', kept (VStr ''v''))]) = (Ok (), w') \<and>
     getExpiry demo_ctx ''k'' w' = Some 7"
proof -
  let ?w = "demo_world demo_config [] [(''k'', kept (VStr ''v''))]"
  have ok: "server_ok ?w" by (rule demo_ok) simp_all
  then have s: "sinv ?w" by (simp add: server_ok_def)
  have l: "lookup_key (srv ?w) (Database demo_ctx) ''k'' = Some (kept (VStr ''v''))" by simp
  show ?thesis using setExpiry_roundtrip [OF s l, of "Some 7" True] by auto
qed

text \<open>\<open>SwapDBs\<close> keeps the invariant and every entry of every database, and moves each client
  of the one database to the other.\<close>

theorem SwapDBs_moves_clients:
  assumes "sinv w"
  shows "sinv (upd (SwapDBs d1 d2) w) \<and> entry_of cx (upd (SwapDBs d1 d2) w) = entry_of cx w \<and>
    map_of (tcpClients (srv (upd (SwapDBs d1 d2) w))) c =
      map_option (swap_info d1 d2) (map_of (tcpClients (srv w)) c) \<and>
    (\<forall>i. swap_info d1 d2 (swap_info d1 d2 i) = i)"
  using SwapDBs_spec [OF assms] SwapDBs_clients swap_info_involutive by simp

lemma SwapDBs_moves_clients_witness:
  "entry_of demo_ctx (upd (SwapDBs 0 1) (demo_world demo_config [] [(''k'', kept (VStr ''v''))])) ''k'' =
     Some (VStr ''v'', False)"
proof -
  let ?w = "demo_world demo_config [] [(''k'', kept (VStr ''v''))]"
  have "server_ok ?w" by (rule demo_ok) simp_all
  then have s: "sinv ?w" by (simp add: server_ok_def)
  show ?thesis using SwapDBs_moves_clients [OF s, of 0 1 demo_ctx] by simp
qed

subsection \<open>Properties of the eviction caches\<close>

text \<open>Updating a key in the LFU cache, new or known, keeps the cache a heap with right
  positions and one entry per recorded key; it never panics.\<close>

theorem LFU_Update_keeps_heap:
  assumes "lfu_inv c"
  shows "\<exists>c'. LFU_Update now key c = Ok c' \<and> lfu_inv c'"
  by (rule LFU_Update_inv [OF assms])

lemma LFU_Update_keeps_heap_witness:
  "\<exists>c'. LFU_Update 5 ''k'' NewCacheLFU = Ok c' \<and> lfu_inv c'"
  by (rule LFU_Update_keeps_heap [OF lfu_inv_new])

text \<open>The LFU cache evicts a key with the smallest access count.\<close>

theorem LFU_pop_least_frequent:
  assumes "lfu_inv c" "lfu_entries c \<noteq> []"
  shows "\<exists>e c'. LFU_HeapPop c = Ok (lfu_key e, c') \<and> lfu_inv c' \<and>
    LFU_payload e \<in> set (map LFU_payload (slots (lfu_entries c))) \<and>
    (\<forall>x. Some x \<in> set (lfu_entries c') \<longrightarrow> lfu_count e \<le> lfu_count x)"
proof -
  obtain e c' where e: "LFU_HeapPop c = Ok (lfu_key e, c')" "lfu_inv c'"
    "LFU_payload e \<in> set (map LFU_payload (slots (lfu_entries c)))"
    "\<forall>x. Some x \<in> set (lfu_entries c') \<longrightarrow> \<not> LFU_Less x e"
    using LFU_HeapPop_spec [OF assms] by blast
  have "lfu_count e \<le> lfu_count x" if "Some x \<in> set (lfu_entries c')" for x
    using e(4) that by (auto simp: LFU_Less_def split: if_splits)
  then show ?thesis using e by blast
qed

definition demo_lfu :: cache_lfu where
  "demo_lfu = \<lparr>lfu_keys = [(''k'', True)],
     lfu_entries = [Some \<lparr>lfu_key = ''k'', lfu_count = 3, lfu_added = 1, lfu_index = 0\<rparr>]\<rparr>"

lemma demo_lfu_inv: "lfu_inv demo_lfu" "lfu_entries demo_lfu \<noteq> []"
  unfolding lfu_inv_def demo_lfu_def
  by (auto intro!: exI [of _ "[\<lparr>lfu_key = ''k'', lfu_count = 3, lfu_added = 1, lfu_index = 0\<rparr>]"]
      simp: lfu.heap_ok_def lfu.idx_ok_def lfu.heap_on_def)

lemma LFU_pop_least_frequent_witness: "\<exists>key c'. LFU_HeapPop demo_lfu = Ok (key, c') \<and> lfu_inv c'"
  using LFU_pop_least_frequent [OF demo_lfu_inv] by blast

text \<open>C32: The LRU cache evicts a key with the latest access time, not the earliest: no key
  that stays was used more recently than the evicted one.\<close>

theorem LRU_pop_most_recent:
  assumes "lru_inv c" "lru_entries c \<noteq> []"
  shows "\<exists>e c'. LRU_HeapPop c = Ok (lru_key e, c') \<and> lru_inv c' \<and>
    LRU_payload e \<in> set (map LRU_payload (slots (lru_entries c))) \<and>
    (\<forall>x. Some x \<in> set (lru_entries c') \<longrightarrow> lru_time x \<le> lru_time e)"
  using LRU_HeapPop_spec [OF assms] by blast

definition demo_lru :: cache_lru where
  "demo_lru = \<lparr>lru_keys = [],
     lru_entries = [Some \<lparr>lru_key = ''k'', lru_time = 3, lru_index = 0\<rparr>]\<rparr>"

lemma demo_lru_inv: "lru_inv demo_lru" "lru_entries demo_lru \<noteq> []"
  unfolding lru_inv_def demo_lru_def
  by (auto intro!: exI [of _ "[\<lparr>lru_key = ''k'', lru_time = 3, lru_index = 0\<rparr>]"]
      simp: lru.heap_ok_def lru.idx_ok_def lru.heap_on_def)

lemma LRU_pop_most_recent_witness: "\<exists>key c'. LRU_HeapPop demo_lru = Ok (key, c') \<and> lru_inv c'"
  using LRU_pop_most_recent [OF demo_lru_inv] by blast

text \<open>Every update of a key in the LRU cache adds an entry for it, also when it has one, so
  the cache grows with the number of accesses.\<close>

theorem LRU_Update_adds_entry:
  assumes "lru_inv c"
  shows "\<exists>c'. LRU_Update now1 now2 key c = Ok c' \<and> lru_inv c' \<and>
    mset (map lru_key (slots (lru_entries c'))) = add_mset key (mset (map lru_key (slots (lru_entries c))))"
  by (rule LRU_Update_spec [OF assms])

lemma LRU_Update_adds_entry_witness:
  "\<exists>c'. LRU_Update 4 5 ''k'' demo_lru = Ok c' \<and> mset (map lru_key (slots (lru_entries c'))) = {#''k'', ''k''#}"
  using LRU_Update_adds_entry [OF demo_lru_inv(1), of 4 5 "''k''"] by (auto simp: demo_lru_def slots_def)

subsection \<open>Properties of the memory management\<close>

text \<open>C19: Under every policy but the random ones, in standalone mode, adjusting the memory of an
  existing database returns without panic, keeps the invariant, and does nothing but delete
  keys.\<close>

theorem adjustMemoryUsage_returns:
  assumes "sinv w" "\<not> isInCluster (srv w)" "map_of (store (srv w)) (Database cx) \<noteq> None"
    and "\<not> random_policy (srv w)"
  shows "\<exists>r w'. adjustMemoryUsage cx w = (r, w') \<and> (r = Ok () \<or> (\<exists>e. r = Err e)) \<and> sinv w' \<and>
    heap w' = heap w \<and>
    (\<forall>d k. lookup_key (srv w') d k = lookup_key (srv w) d k \<or> lookup_key (srv w') d k = None)"
  using adjustMemoryUsage_ok [OF assms] unfolding evicts_def by blast

definition lfu_config :: config where
  "lfu_config = \<lparr>MaxMemory = 1, EvictionPolicy = AllKeysLFU, EvictionSample = 20,
     BootstrapCluster = False, JoinAddr = '''', ConfigServerID = '''', ForwardCommand = False\<rparr>"

lemma policies_lower:
  "to_lower AllKeysLFU = AllKeysLFU" "to_lower AllKeysRandom = AllKeysRandom" "to_lower NoEviction = NoEviction"
  "AllKeysLFU \<noteq> AllKeysRandom" "AllKeysLFU \<noteq> VolatileRandom" "NoEviction \<noteq> AllKeysRandom"
  "NoEviction \<noteq> VolatileRandom"
  by code_simp+

lemma lfu_config_simps [simp]:
  "\<not> isInCluster (demo_server lfu_config es)" "\<not> random_policy (demo_server lfu_config es)"
  by (simp_all add: isInCluster_def random_policy_def lfu_config_def policies_lower demo_server_def)

lemma adjustMemoryUsage_returns_witness:
  "\<exists>r w'. adjustMemoryUsage demo_ctx (demo_world lfu_config [] [(''k'', kept (VStr ''v''))]) = (r, w') \<and>
     (r = Ok () \<or> (\<exists>e. r = Err e)) \<and> sinv w'"
proof -
  let ?w = "demo_world lfu_config [] [(''k'', kept (VStr ''v''))]"
  have "server_ok ?w" by (rule demo_ok) simp_all
  then have s: "sinv ?w" by (simp add: server_ok_def)
  have c: "\<not> isInCluster (srv ?w)" "\<not> random_policy (srv ?w)" by simp_all
  have d: "map_of (store (srv ?w)) (Database demo_ctx) \<noteq> None" by (simp add: demo_server_def)
  show ?thesis using adjustMemoryUsage_returns [OF s c(1) d c(2)] by blast
qed

text \<open>The goroutines that reads and writes start run to their end under those policies and
  keep the invariant.\<close>

theorem tasks_keep_invariant:
  assumes "sinv w" "\<not> random_policy (srv w)"
  shows "\<exists>w'. run_task t w = (Ok (), w') \<and> sinv w' \<and> heap w' = heap w \<and>
    (\<forall>d k. lookup_key (srv w') d k = lookup_key (srv w) d k \<or> lookup_key (srv w') d k = None)"
  using run_task_ok [OF assms] unfolding evicts_def by blast

lemma tasks_keep_invariant_witness:
  "\<exists>w'. run_task (UpdateKeys demo_ctx [''k'']) (demo_world lfu_config [] [(''k'', kept (VStr ''v''))]) = (Ok (), w') \<and> sinv w'"
proof -
  let ?w = "demo_world lfu_config [] [(''k'', kept (VStr ''v''))]"
  have "server_ok ?w" by (rule demo_ok) simp_all
  then have s: "sinv ?w" by (simp add: server_ok_def)
  have "\<not> random_policy (srv ?w)" by simp
  from tasks_keep_invariant [OF s this] show ?thesis by blast
qed

text \<open>Under the random policy over all keys, adjusting the memory of a database that has no
  key left, while the counter is not below the limit, does not return: the loop asks whether
  the server has databases, not whether the database has keys.\<close>

theorem random_policy_spins:
  assumes "to_lower (EvictionPolicy (config (srv w))) = AllKeysRandom" "MaxMemory (config (srv w)) \<noteq> 0"
    and "\<not> below_max (srv w)" "map_of (store (srv w)) (Database cx) = Some []"
  shows "fst (adjustMemoryUsage cx w) = Diverge"
proof -
  have "store (srv w) \<noteq> []" using assms(4) by auto
  moreover have "db_of (srv w) (Database cx) = []" using assms(4) by (simp add: db_of_def)
  ultimately have "random_evict_loop cx w = None" by (rule random_evict_loop_empty)
  moreover have "AllKeysRandom \<notin> {AllKeysLFU, VolatileLFU, AllKeysLRU, VolatileLRU}"
    by code_simp
  ultimately show ?thesis
    using assms(1-3) by (simp add: adjustMemoryUsage_def Let_def returned_def)
qed

definition random_config :: config where
  "random_config = \<lparr>MaxMemory = 1, EvictionPolicy = AllKeysRandom, EvictionSample = 20,
     BootstrapCluster = False, JoinAddr = '''', ConfigServerID = '''', ForwardCommand = False\<rparr>"

lemma random_policy_spins_witness:
  "fst (adjustMemoryUsage demo_ctx
     (upd (\<lambda>s. s\<lparr>memUsed := 5\<rparr>) (demo_world random_config [] []))) = Diverge"
proof (rule random_policy_spins)
  let ?w = "upd (\<lambda>s. s\<lparr>memUsed := 5\<rparr>) (demo_world random_config [] [])"
  show "to_lower (EvictionPolicy (config (srv ?w))) = AllKeysRandom"
    by (simp add: random_config_def policies_lower)
  show "MaxMemory (config (srv ?w)) \<noteq> 0" by (simp add: random_config_def)
  show "\<not> below_max (srv ?w)" by (simp add: below_max_def random_config_def u64_def)
  show "map_of (store (srv ?w)) (Database demo_ctx) = Some []" by (simp add: demo_server_def)
qed

text \<open>
  No error comes out of the sampling either: the one error of \<open>deleteKey\<close> is that of measuring a bare slice
  of interfaces, and deleting a key leaves no key that was not there.
\<close>

definition no_slices :: "sworld \<Rightarrow> bool" where
  "no_slices w \<longleftrightarrow> (\<forall>d k. case lookup_key (srv w) d k of None \<Rightarrow> True | Some e \<Rightarrow> (case Value e of VSlice _ \<Rightarrow> False | _ \<Rightarrow> True))"

lemma no_slices_mem:
  assumes "no_slices w"
  shows "KeyData_GetMem (heap w) (case lookup_key (srv w) d k of None \<Rightarrow> zero_keydata | Some e \<Rightarrow> e) \<noteq> Err x"
proof (cases "lookup_key (srv w) d k")
  case None
  then show ?thesis by (simp add: zero_keydata_def KeyData_GetMem.simps)
next
  case (Some e)
  have "case lookup_key (srv w) d k of None \<Rightarrow> True | Some e \<Rightarrow> (case Value e of VSlice _ \<Rightarrow> False | _ \<Rightarrow> True)"
    using assms unfolding no_slices_def by blast
  then show ?thesis using Some by (auto simp: KeyData_GetMem.simps split: go_value.splits option.splits)
qed

lemma cache_delete_no_err: "fst (cache_delete d k s) \<noteq> Err e"
  by (simp add: cache_delete_def split: option.split res.split)

lemma deleteKey_no_slices:
  assumes "no_slices w"
  shows "fst (deleteKey cx k w) \<noteq> Err x" "no_slices (snd (deleteKey cx k w))"
proof -
  let ?m = "KeyData_GetMem (heap w) (case lookup_key (srv w) (Database cx) k of None \<Rightarrow> zero_keydata | Some e \<Rightarrow> e)"
  have "fst (deleteKey cx k w) \<noteq> Err x \<and> no_slices (snd (deleteKey cx k w))"
  proof (cases ?m)
    case (Ok mem)
    let ?s = "volatile_drop (Database cx) k (drop_key (Database cx) k
      ((srv w)\<lparr>memUsed := i64 (memUsed (srv w) - mem - sizeof_string - int (length k))\<rparr>))"
    have "lookup_key (snd (cache_delete (Database cx) k ?s)) =
        (\<lambda>d k'. if d = Database cx \<and> k' = k then None else lookup_key (srv w) d k')"
      using lookup_cong [of "snd (cache_delete (Database cx) k ?s)" ?s]
        lookup_cong [of ?s "drop_key (Database cx) k ((srv w)\<lparr>memUsed := i64 (memUsed (srv w) - mem - sizeof_string - int (length k))\<rparr>)"]
      by (simp add: fun_eq_iff volatile_drop_def)
    then show ?thesis
      using assms cache_delete_no_err by (simp add: deleteKey_unfold [OF Ok] Let_def no_slices_def)
  qed (use assms no_slices_mem [OF assms] in \<open>simp_all add: deleteKey_def\<close>)
  then show "fst (deleteKey cx k w) \<noteq> Err x" "no_slices (snd (deleteKey cx k w))" by simp_all
qed

lemma evict_sampled_no_err:
  "no_slices w \<Longrightarrow> \<not> isInCluster (srv w) \<Longrightarrow> fst (evict_sampled cx ks n w) \<noteq> Err x"
proof (induction ks arbitrary: n w)
  case (Cons k ks)
  obtain r w1 where r: "deleteKey cx k w = (r, w1)" by (cases "deleteKey cx k w")
  have w1: "no_slices w1" "\<not> isInCluster (srv w1)" "r \<noteq> Err e" for e
    using deleteKey_no_slices [OF Cons.prems(1), of cx k] Cons.prems(2) r
      isInCluster_cong [OF deleteKey_config [of cx k w]] by auto
  then show ?case
    using Cons.IH [OF w1(1,2), of "n + 1"] Cons.prems(2) r
    by (cases r) (auto simp: evict_one_def wrap_err_def Let_def)
qed simp

lemma evictKeysWithExpiredTTL_no_err:
  assumes "\<not> isInCluster (srv w)" "no_slices w"
  shows "fst (evictKeysWithExpiredTTL cx w) \<noteq> Err x"
proof -
  let ?n = "sample_size (Database cx) (srv w)"
  obtain r w1 where r: "sample_volatile (Database cx) 0 ?n (replicate ?n '''') w = (r, w1)"
    by (cases "sample_volatile (Database cx) 0 ?n (replicate ?n '''') w")
  note sv = sample_volatile_srv [of "Database cx" 0 ?n "replicate ?n ''''" w, unfolded r]
  have w1: "no_slices w1" "\<not> isInCluster (srv w1)" using sv assms by (simp_all add: no_slices_def)
  show ?thesis
  proof (cases r)
    case (Ok ks)
    obtain q w2 where q: "evict_sampled cx ks 0 w1 = (q, w2)" by (cases "evict_sampled cx ks 0 w1")
    have "q \<noteq> Err e" for e using evict_sampled_no_err [OF w1, of cx ks 0 e] q by simp
    moreover have "\<not> isInCluster (srv w2)" using evict_sampled_cluster [of cx ks 0 w1] q w1(2) by simp
    then have "fst (evict_ttl_locked cx w2) \<noteq> Err x" using evict_ttl_locked_not_ok [of w2 cx] by auto
    ultimately show ?thesis
      using r Ok q assms(1) by (cases q) (simp_all add: evictKeysWithExpiredTTL_def Let_def)
  qed (use r sv assms(1) in \<open>simp_all add: evictKeysWithExpiredTTL_def Let_def\<close>)
qed

text \<open>C20: In standalone mode the sampling of volatile keys never returns when its sample is not empty, whether or not any of the
  keys has expired: it neither comes to a normal end nor gives an error, but panics, or never ends, drawing keys for ever or
  waiting for a lock it holds. This is on any server on which no key holds a bare slice of interfaces, a value no command
  stores.\<close>

theorem ttl_eviction_never_returns:
  assumes "\<not> isInCluster (srv w)" "0 < sample_size (Database cx) (srv w)" "no_slices w"
  shows "(\<exists>p. fst (evictKeysWithExpiredTTL cx w) = Panic p) \<or> fst (evictKeysWithExpiredTTL cx w) = Diverge"
  using evictKeysWithExpiredTTL_not_ok [OF assms(1,2)] evictKeysWithExpiredTTL_no_err [OF assms(1,3), of cx]
  by (cases "fst (evictKeysWithExpiredTTL cx w)") auto

lemma ttl_eviction_never_returns_witness:
  "\<exists>r w'. evictKeysWithExpiredTTL demo_ctx (demo_world demo_config [] [(''k'', until 2000 (VStr ''v''))]) = (r, w') \<and>
    ((\<exists>p. r = Panic p) \<or> r = Diverge)"
proof -
  let ?w = "demo_world demo_config [] [(''k'', until 2000 (VStr ''v''))]"
  have "no_slices ?w" by (simp add: no_slices_def split: option.split)
  moreover have "0 < sample_size (Database demo_ctx) (srv ?w)"
    by (simp add: sample_size_def demo_server_def demo_config_def volatile_keys_def)
  ultimately show ?thesis
    using ttl_eviction_never_returns [of ?w demo_ctx] by (cases "evictKeysWithExpiredTTL demo_ctx ?w") simp
qed

end
