(* ===== verification/SetCommands.thy ===== *)
theory SetCommands
  imports KvStore
begin

text \<open>
  The set commands (\<open>internal/modules/set/commands.go\<close>, \<open>key_funcs.go\<close>): what every command
  reads and writes, and the handlers in full. Error texts that quote a key are built as the
  code builds them.
\<close>

subsection \<open>Keys of the commands\<close>

definition saddKeyFunc :: "string list \<Rightarrow> key_result res" where
  "saddKeyFunc cmd = (if length cmd < 3 then Err WrongArgsResponse else Ok (writes_of [cmd ! 1]))"

definition scardKeyFunc :: "string list \<Rightarrow> key_result res" where
  "scardKeyFunc cmd = (if length cmd \<noteq> 2 then Err WrongArgsResponse else Ok (reads_of [cmd ! 1]))"

definition sdiffKeyFunc :: "string list \<Rightarrow> key_result res" where
  "sdiffKeyFunc cmd = (if length cmd < 2 then Err WrongArgsResponse else Ok (reads_of (tl cmd)))"

definition store_keys :: "string list \<Rightarrow> key_result res" where
  "store_keys cmd =
     (if length cmd < 3 then Err WrongArgsResponse
      else Ok \<lparr>Channels = [], ReadKeys = drop 2 cmd, WriteKeys = [cmd ! 1],
               ReadEnd = Some (length cmd)\<rparr>)"

definition sdiffstoreKeyFunc :: "string list \<Rightarrow> key_result res" where
  "sdiffstoreKeyFunc cmd = store_keys cmd"

definition sinterKeyFunc :: "string list \<Rightarrow> key_result res" where
  "sinterKeyFunc cmd = (if length cmd < 2 then Err WrongArgsResponse else Ok (reads_of (tl cmd)))"

definition limit_index :: "string list \<Rightarrow> int" where
  "limit_index cmd = index_func (\<lambda>s. equal_fold s ''limit'') cmd"

definition sintercardKeyFunc :: "string list \<Rightarrow> key_result res" where
  "sintercardKeyFunc cmd =
     (if length cmd < 2 then Err WrongArgsResponse
      else if limit_index cmd = -1 then Ok (reads_of (tl cmd))
      else map_res reads_of (slice_range cmd 1 (limit_index cmd)))"

definition sinterstoreKeyFunc :: "string list \<Rightarrow> key_result res" where
  "sinterstoreKeyFunc cmd = store_keys cmd"

definition sismemberKeyFunc :: "string list \<Rightarrow> key_result res" where
  "sismemberKeyFunc cmd = (if length cmd \<noteq> 3 then Err WrongArgsResponse else Ok (reads_of (tl cmd)))"

definition smembersKeyFunc :: "string list \<Rightarrow> key_result res" where
  "smembersKeyFunc cmd = (if length cmd \<noteq> 2 then Err WrongArgsResponse else Ok (reads_of (tl cmd)))"

definition smismemberKeyFunc :: "string list \<Rightarrow> key_result res" where
  "smismemberKeyFunc cmd = (if length cmd < 3 then Err WrongArgsResponse else Ok (reads_of [cmd ! 1]))"

definition smoveKeyFunc :: "string list \<Rightarrow> key_result res" where
  "smoveKeyFunc cmd =
     (if length cmd \<noteq> 4 then Err WrongArgsResponse else Ok (writes_of [cmd ! 1, cmd ! 2]))"

definition spopKeyFunc :: "string list \<Rightarrow> key_result res" where
  "spopKeyFunc cmd =
     (if length cmd < 2 \<or> 3 < length cmd then Err WrongArgsResponse else Ok (writes_of [cmd ! 1]))"

definition srandmemberKeyFunc :: "string list \<Rightarrow> key_result res" where
  "srandmemberKeyFunc cmd =
     (if length cmd < 2 \<or> 3 < length cmd then Err WrongArgsResponse else Ok (reads_of [cmd ! 1]))"

definition sremKeyFunc :: "string list \<Rightarrow> key_result res" where
  "sremKeyFunc cmd = (if length cmd < 3 then Err WrongArgsResponse else Ok (writes_of [cmd ! 1]))"

definition sunionKeyFunc :: "string list \<Rightarrow> key_result res" where
  "sunionKeyFunc cmd = (if length cmd < 2 then Err WrongArgsResponse else Ok (reads_of (tl cmd)))"

definition sunionstoreKeyFunc :: "string list \<Rightarrow> key_result res" where
  "sunionstoreKeyFunc cmd = store_keys cmd"

lemmas set_key_funcs = saddKeyFunc_def scardKeyFunc_def sdiffKeyFunc_def store_keys_def
  sdiffstoreKeyFunc_def sinterKeyFunc_def sintercardKeyFunc_def sinterstoreKeyFunc_def
  sismemberKeyFunc_def smembersKeyFunc_def smismemberKeyFunc_def smoveKeyFunc_def spopKeyFunc_def
  srandmemberKeyFunc_def sremKeyFunc_def sunionKeyFunc_def sunionstoreKeyFunc_def

subsection \<open>Handlers\<close>

definition not_a_set :: "string \<Rightarrow> string" where
  "not_a_set key = ''value at key '' @ key @ '' is not a set''"

definition not_a_set_at :: "string \<Rightarrow> string" where
  "not_a_set_at key = ''value at '' @ key @ '' is not a set''"

text \<open>The assertion \<open>value.(*Set)\<close>: its failure ends the handler with an error.\<close>

definition the_set :: "string \<Rightarrow> go_value \<Rightarrow> 's world \<Rightarrow> addr res \<times> 's world" where
  "the_set msg v w = (case as_set v of None \<Rightarrow> (Err msg, w) | Some a \<Rightarrow> (Ok a, w))"

definition get_one :: "'s params \<Rightarrow> string \<Rightarrow> 's world \<Rightarrow> go_value res \<times> 's world" where
  "get_one p k w =
     and_then (GetValues p (Context p) [k] w) (\<lambda>m w1. (Ok (gm_value m k), w1))"

definition handleSADD :: "'s handler" where
  "handleSADD p w =
     and_then (saddKeyFunc (Command p), w) (\<lambda>keys w.
       let key = hd (WriteKeys keys); elems = drop 2 (Command p)
       in if \<not> gm_bool (KeysExist p (Context p) (WriteKeys keys) w) key
          then let (a, w1) = alloc (NewSet elems) w
               in and_then (SetValues p (Context p) [(key, VSet a)] w1) (\<lambda>_ w2.
                    (Ok (resp_int (int (length elems))), w2))
          else and_then (get_one p key w) (\<lambda>v w1.
               and_then (the_set (not_a_set key) v w1) (\<lambda>a w2.
                 deref_set a w2 (\<lambda>s.
                   (Ok (resp_int (snd (Set_Add s elems))), put_set a (fst (Set_Add s elems)) w2)))))"

definition handleSCARD :: "'s handler" where
  "handleSCARD p w =
     and_then (scardKeyFunc (Command p), w) (\<lambda>keys w.
       let key = hd (ReadKeys keys)
       in if \<not> gm_bool (KeysExist p (Context p) (ReadKeys keys) w) key then (Ok (resp_int 0), w)
          else and_then (get_one p key w) (\<lambda>v w1.
               and_then (the_set (not_a_set key) v w1) (\<lambda>a w2.
                 deref_set a w2 (\<lambda>s. (Ok (resp_int (Set_Cardinality s)), w2)))))"

text \<open>The sets at the keys that hold one; every key is read with a call of its own.\<close>

fun collect_sets :: "'s params \<Rightarrow> string list \<Rightarrow> 's world \<Rightarrow> addr list res \<times> 's world" where
  "collect_sets p [] w = (Ok [], w)"
| "collect_sets p (k # ks) w =
     and_then (get_one p k w) (\<lambda>v w1.
       and_then (collect_sets p ks w1) (\<lambda>as w2.
         (Ok (case as_set v of None \<Rightarrow> as | Some a \<Rightarrow> a # as), w2)))"

text \<open>Reading the sets behind several pointers; all are looked at when \<open>Subtract\<close> runs.\<close>

fun deref_sets :: "addr list \<Rightarrow> 's world \<Rightarrow> goset list option" where
  "deref_sets [] w = Some []"
| "deref_sets (a # as) w =
     (case (heap w a, deref_sets as w) of
        (Some s, Some ss) \<Rightarrow> Some (s # ss)
      | _ \<Rightarrow> None)"

definition subtract_sets :: "addr \<Rightarrow> addr list \<Rightarrow> 's world \<Rightarrow> goset res \<times> 's world" where
  "subtract_sets a as w =
     deref_set a w (\<lambda>s.
       case deref_sets as w of
         None \<Rightarrow> (Panic nil_deref, w)
       | Some ss \<Rightarrow> let (diff, w1) = Set_Subtract s ss w in (Ok diff, w1))"

definition no_base_set :: "string \<Rightarrow> string" where
  "no_base_set key = ''key for base set \"'' @ key @ ''\" does not exist''"

definition sdiff_of :: "'s params \<Rightarrow> (string, bool) gomap \<Rightarrow> string \<Rightarrow> string list \<Rightarrow> 's world \<Rightarrow> goset res \<times> 's world" where
  "sdiff_of p exists base others w =
     (if \<not> gm_bool exists base then (Err (no_base_set base), w)
      else and_then (get_one p base w) (\<lambda>v w1.
           and_then (the_set (not_a_set base) v w1) (\<lambda>a w2.
           and_then (collect_sets p others w2) (\<lambda>as w3. subtract_sets a as w3))))"

definition handleSDIFF :: "'s handler" where
  "handleSDIFF p w =
     and_then (sdiffKeyFunc (Command p), w) (\<lambda>keys w.
       and_then (sdiff_of p (KeysExist p (Context p) (ReadKeys keys) w)
                   (hd (ReadKeys keys)) (drop 2 (Command p)) w) (\<lambda>diff w1.
         let (elems, w2) = Set_GetAll diff w1 in (Ok (elems_reply elems), w2)))"

definition handleSDIFFSTORE :: "'s handler" where
  "handleSDIFFSTORE p w =
     and_then (sdiffstoreKeyFunc (Command p), w) (\<lambda>keys w.
       and_then (sdiff_of p (KeysExist p (Context p) (WriteKeys keys @ ReadKeys keys) w)
                   (hd (ReadKeys keys)) (tl (ReadKeys keys)) w) (\<lambda>diff w1.
         let (elems, w2) = Set_GetAll diff w1; (a, w3) = alloc diff w2
         in and_then (SetValues p (Context p) [(hd (WriteKeys keys), VSet a)] w3) (\<lambda>_ w4.
              (Ok (resp_int (int (length elems))), w4))))"

text \<open>
  The loop of the intersection commands over the result of \<open>KeysExist\<close>: a key that does not
  exist ends the handler with the reply for nothing (\<open>Ok None\<close>), a value that is not a set
  with an error.
\<close>

fun inter_sets :: "'s params \<Rightarrow> (string \<times> bool) list \<Rightarrow> 's world \<Rightarrow> addr list option res \<times> 's world" where
  "inter_sets p [] w = (Ok (Some []), w)"
| "inter_sets p ((k, ex) # es) w =
     (if \<not> ex then (Ok None, w)
      else and_then (get_one p k w) (\<lambda>v w1.
           and_then (the_set (not_a_set k) v w1) (\<lambda>a w2.
           and_then (inter_sets p es w2) (\<lambda>as w3.
             (Ok (map_option (\<lambda>l. a # l) as), w3)))))"

definition inter_collect :: "'s params \<Rightarrow> string list \<Rightarrow> 's world \<Rightarrow> addr list option res \<times> 's world" where
  "inter_collect p ks w =
     (let (es, w1) = go_range (KeysExist p (Context p) ks w) w in inter_sets p es w1)"

definition not_enough_sets :: string where
  "not_enough_sets = ''not enough sets in the keys provided''"

definition handleSINTER :: "'s handler" where
  "handleSINTER p w =
     and_then (sinterKeyFunc (Command p), w) (\<lambda>keys w.
     and_then (inter_collect p (ReadKeys keys) w) (\<lambda>res w1.
       case res of
         None \<Rightarrow> (Ok (array_head 0), w1)
       | Some sets \<Rightarrow>
           if sets = [] then (Err not_enough_sets, w1)
           else and_then (Intersection 0 sets w1) (\<lambda>(a, _) w2.
                  deref_set a w2 (\<lambda>s.
                    let (elems, w3) = Set_GetAll s w2 in (Ok (elems_reply elems), w3)))))"

definition sintercard_limit :: "string list \<Rightarrow> int res" where
  "sintercard_limit cmd =
     (let i = limit_index cmd
      in if 0 \<le> i \<and> i < 2 then Err WrongArgsResponse
         else if i = -1 then Ok 0
         else if int (length cmd) \<le> i + 1 then Err ''provide limit after LIMIT keyword''
         else (case as_int (AdaptType (cmd ! nat (i + 1))) of
                 None \<Rightarrow> Err ''limit must be an integer''
               | Some l \<Rightarrow> Ok l))"

definition handleSINTERCARD :: "'s handler" where
  "handleSINTERCARD p w =
     and_then (sintercardKeyFunc (Command p), w) (\<lambda>keys w.
       let exists = KeysExist p (Context p) (ReadKeys keys) w
       in and_then (sintercard_limit (Command p), w) (\<lambda>limit w.
            let (es, w1) = go_range exists w
            in and_then (inter_sets p es w1) (\<lambda>res w2.
                 case res of
                   None \<Rightarrow> (Ok (resp_int 0), w2)
                 | Some sets \<Rightarrow>
                     if sets = [] then (Err not_enough_sets, w2)
                     else and_then (Intersection limit sets w2) (\<lambda>(a, _) w3.
                            deref_set a w3 (\<lambda>s. (Ok (resp_int (Set_Cardinality s)), w3))))))"

definition handleSINTERSTORE :: "'s handler" where
  "handleSINTERSTORE p w =
     and_then (sinterstoreKeyFunc (Command p), w) (\<lambda>keys w.
     and_then (inter_collect p (ReadKeys keys) w) (\<lambda>res w1.
       case res of
         None \<Rightarrow> (Ok (resp_int 0), w1)
       | Some sets \<Rightarrow>
           and_then (Intersection 0 sets w1) (\<lambda>(a, _) w2.
           and_then (SetValues p (Context p) [(hd (WriteKeys keys), VSet a)] w2) (\<lambda>_ w3.
             deref_set a w3 (\<lambda>s. (Ok (resp_int (Set_Cardinality s)), w3))))))"

definition handleSISMEMBER :: "'s handler" where
  "handleSISMEMBER p w =
     and_then (sismemberKeyFunc (Command p), w) (\<lambda>keys w.
       let key = hd (ReadKeys keys)
       in if \<not> gm_bool (KeysExist p (Context p) (ReadKeys keys) w) key then (Ok (resp_int 0), w)
          else and_then (get_one p key w) (\<lambda>v w1.
               and_then (the_set (not_a_set key) v w1) (\<lambda>a w2.
                 deref_set a w2 (\<lambda>s.
                   (Ok (resp_int (if Set_Contains s (Command p ! 2) then 1 else 0)), w2)))))"

definition handleSMEMBERS :: "'s handler" where
  "handleSMEMBERS p w =
     and_then (smembersKeyFunc (Command p), w) (\<lambda>keys w.
       let key = hd (ReadKeys keys)
       in if \<not> gm_bool (KeysExist p (Context p) (ReadKeys keys) w) key then (Ok (array_head 0), w)
          else and_then (get_one p key w) (\<lambda>v w1.
               and_then (the_set (not_a_set key) v w1) (\<lambda>a w2.
                 deref_set a w2 (\<lambda>s.
                   let (elems, w3) = Set_GetAll s w2 in (Ok (elems_reply elems), w3)))))"

definition flags_reply :: "bool list \<Rightarrow> string" where
  "flags_reply bs =
     ''*'' @ itoa (int (length bs)) @ concat (map (\<lambda>b. crlf @ (if b then '':1'' else '':0'')) bs) @ crlf"

definition handleSMISMEMBER :: "'s handler" where
  "handleSMISMEMBER p w =
     and_then (smismemberKeyFunc (Command p), w) (\<lambda>keys w.
       let key = hd (ReadKeys keys); ms = drop 2 (Command p)
       in if \<not> gm_bool (KeysExist p (Context p) (ReadKeys keys) w) key
          then (Ok (flags_reply (map (\<lambda>_. False) ms)), w)
          else and_then (get_one p key w) (\<lambda>v w1.
               and_then (the_set (not_a_set key) v w1) (\<lambda>a w2.
                 deref_set a w2 (\<lambda>s. (Ok (flags_reply (map (Set_Contains s) ms)), w2)))))"

definition handleSMOVE :: "'s handler" where
  "handleSMOVE p w =
     and_then (smoveKeyFunc (Command p), w) (\<lambda>keys w.
       let source = WriteKeys keys ! 0; destination = WriteKeys keys ! 1
       in if \<not> gm_bool (KeysExist p (Context p) (WriteKeys keys) w) source then (Ok (resp_int 0), w)
          else and_then (GetValues p (Context p) (WriteKeys keys) w) (\<lambda>m w1.
               and_then (the_set ''source is not a set'' (gm_value m source) w1) (\<lambda>a w2.
               and_then (the_set ''destination is not a set'' (gm_value m destination) w2) (\<lambda>b w3.
               and_then (Set_Move a b (Command p ! 3) w3) (\<lambda>n w4. (Ok (resp_int n), w4))))))"

text \<open>The optional count of SPOP and SRANDMEMBER.\<close>

definition set_count_arg :: "string list \<Rightarrow> int res" where
  "set_count_arg cmd =
     (if length cmd = 3
      then (case as_int (AdaptType (cmd ! 2)) of
              None \<Rightarrow> Err ''count must be an integer''
            | Some c \<Rightarrow> Ok c)
      else Ok 1)"

definition handleSPOP :: "'s handler" where
  "handleSPOP p w =
     and_then (spopKeyFunc (Command p), w) (\<lambda>keys w.
       let key = hd (WriteKeys keys)
       in and_then (set_count_arg (Command p), w) (\<lambda>n w.
            if \<not> gm_bool (KeysExist p (Context p) (WriteKeys keys) w) key then (Ok resp_nil_array, w)
            else and_then (get_one p key w) (\<lambda>v w1.
                 and_then (the_set (not_a_set_at key) v w1) (\<lambda>a w2.
                   deref_set a w2 (\<lambda>s.
                     and_then (Set_Pop s n w2) (\<lambda>(ms, s') w3.
                       (Ok (elems_reply ms), put_set a s' w3)))))))"

definition handleSRANDMEMBER :: "'s handler" where
  "handleSRANDMEMBER p w =
     and_then (srandmemberKeyFunc (Command p), w) (\<lambda>keys w.
       let key = hd (ReadKeys keys)
       in and_then (set_count_arg (Command p), w) (\<lambda>n w.
            if \<not> gm_bool (KeysExist p (Context p) (ReadKeys keys) w) key then (Ok resp_nil_array, w)
            else and_then (get_one p key w) (\<lambda>v w1.
                 and_then (the_set (not_a_set_at key) v w1) (\<lambda>a w2.
                   deref_set a w2 (\<lambda>s.
                     and_then (Set_GetRandom s n w2) (\<lambda>ms w3. (Ok (elems_reply ms), w3)))))))"

definition handleSREM :: "'s handler" where
  "handleSREM p w =
     and_then (sremKeyFunc (Command p), w) (\<lambda>keys w.
       let key = hd (WriteKeys keys); ms = drop 2 (Command p)
       in if \<not> gm_bool (KeysExist p (Context p) (WriteKeys keys) w) key then (Ok (resp_int 0), w)
          else and_then (get_one p key w) (\<lambda>v w1.
               and_then (the_set (not_a_set key) v w1) (\<lambda>a w2.
                 deref_set a w2 (\<lambda>s.
                   (Ok (resp_int (snd (Set_Remove s ms))), put_set a (fst (Set_Remove s ms)) w2)))))"

text \<open>The loop of the union commands over the values read.\<close>

fun union_sets :: "(string \<times> go_value) list \<Rightarrow> 's world \<Rightarrow> addr list res \<times> 's world" where
  "union_sets [] w = (Ok [], w)"
| "union_sets ((k, v) # es) w =
     and_then (the_set (not_a_set k) v w) (\<lambda>a w1.
     and_then (union_sets es w1) (\<lambda>as w2. (Ok (a # as), w2)))"

definition union_of :: "'s params \<Rightarrow> string list \<Rightarrow> 's world \<Rightarrow> addr res \<times> 's world" where
  "union_of p ks w =
     and_then (GetValues p (Context p) ks w) (\<lambda>m w1.
       let (es, w2) = go_range m w1
       in and_then (union_sets es w2) (\<lambda>as w3. Union as w3))"

text \<open>
  SUNION writes the cardinality as the array's length, and asks for the members again on
  every turn of its loop only to compare the count.
\<close>

definition handleSUNION :: "'s handler" where
  "handleSUNION p w =
     and_then (sunionKeyFunc (Command p), w) (\<lambda>keys w.
     and_then (union_of p (ReadKeys keys) w) (\<lambda>a w1.
       deref_set a w1 (\<lambda>s.
         let (elems, w2) = Set_GetAll s w1
         in (Ok (''*'' @ itoa (Set_Cardinality s) @
                 concat (map (\<lambda>e. crlf @ ''$'' @ itoa (int (length e)) @ crlf @ e) elems) @
                 (if elems = [] then [] else crlf)), w2))))"

definition handleSUNIONSTORE :: "'s handler" where
  "handleSUNIONSTORE p w =
     and_then (sunionstoreKeyFunc (Command p), w) (\<lambda>keys w.
     and_then (union_of p (ReadKeys keys) w) (\<lambda>a w1.
     and_then (SetValues p (Context p) [(hd (WriteKeys keys), VSet a)] w1) (\<lambda>_ w2.
       deref_set a w2 (\<lambda>s. (Ok (resp_int (Set_Cardinality s)), w2)))))"

subsection \<open>The command table\<close>

definition set_commands :: "'s command list" where
  "set_commands =
     [mk_command ''sadd'' ''set'' [''set'', ''write'', ''fast''] True saddKeyFunc handleSADD,
      mk_command ''scard'' ''set'' [''set'', ''write'', ''fast''] False scardKeyFunc handleSCARD,
      mk_command ''sdiff'' ''set'' [''set'', ''read'', ''slow''] False sdiffKeyFunc handleSDIFF,
      mk_command ''sdiffstore'' ''set'' [''set'', ''write'', ''slow''] True sdiffstoreKeyFunc handleSDIFFSTORE,
      mk_command ''sinter'' ''set'' [''set'', ''write'', ''slow''] False sinterKeyFunc handleSINTER,
      mk_command ''sintercard'' ''set'' [''set'', ''read'', ''slow''] False sintercardKeyFunc handleSINTERCARD,
      mk_command ''sinterstore'' ''set'' [''set'', ''write'', ''slow''] True sinterstoreKeyFunc handleSINTERSTORE,
      mk_command ''sismember'' ''set'' [''set'', ''read'', ''fast''] False sismemberKeyFunc handleSISMEMBER,
      mk_command ''smembers'' ''set'' [''set'', ''read'', ''slow''] False smembersKeyFunc handleSMEMBERS,
      mk_command ''smismember'' ''set'' [''set'', ''read'', ''fast''] False smismemberKeyFunc handleSMISMEMBER,
      mk_command ''smove'' ''set'' [''set'', ''write'', ''fast''] True smoveKeyFunc handleSMOVE,
      mk_command ''spop'' ''set'' [''set'', ''write'', ''slow''] True spopKeyFunc handleSPOP,
      mk_command ''srandmember'' ''set'' [''set'', ''read'', ''slow''] False srandmemberKeyFunc handleSRANDMEMBER,
      mk_command ''srem'' ''set'' [''set'', ''write'', ''fast''] True sremKeyFunc handleSREM,
      mk_command ''sunion'' ''set'' [''set'', ''read'', ''slow''] False sunionKeyFunc handleSUNION,
      mk_command ''sunionstore'' ''set'' [''set'', ''write'', ''slow''] True sunionstoreKeyFunc handleSUNIONSTORE]"

end
