(* ===== verification/SetSpecs.thy ===== *)
theory SetSpecs
  imports SetCommands Demo
begin

text \<open>
  What the set commands do, proved against the interface \<open>kv_store\<close>: the reply, the sets
  after the command, and that nothing else changes. The properties at the end state the
  same of the server's own functions.
\<close>

context kv_store begin

lemma get_one_ok:
  assumes "inv w"
  obtains w1 where "get_one p k w = (Ok (live_value (entry w k)), w1)" "inv w1" "heap w1 = heap w"
    "next_addr w1 = next_addr w" "reaped (entry w) (entry w1)"
    "(\<forall>v. entry w k \<noteq> Some (v, True)) \<Longrightarrow> entry w1 = entry w \<and> full w1 = full w"
  using get [OF assms, of "[k]"] by (auto simp: get_one_def)

lemma entry_set_live:
  assumes "inv w" "entry w k = Some (VSet a, b)"
  obtains s where "heap w a = Some s" "set_wf s" "live w a"
  using inv_value [OF assms] inv_heap_wf [OF assms(1)] heap_wfD by (auto simp: value_ok_def live_def)

text \<open>The steps that reach the set at a live key.\<close>

lemma read_set:
  assumes "inv w" "entry w k = Some (VSet a, False)"
  obtains w1 s where "inv w1" "heap w1 = heap w" "next_addr w1 = next_addr w" "entry w1 = entry w"
    "full w1 = full w" "heap w a = Some s" "heap w1 a = Some s" "set_wf s"
    "\<And>msg f. and_then (get_one p k w) (\<lambda>v w1. and_then (the_set msg v w1) (f :: addr \<Rightarrow> 's world \<Rightarrow> 'b res \<times> 's world)) = f a w1"
proof -
  obtain s where s: "heap w a = Some s" "set_wf s" "live w a" by (rule entry_set_live [OF assms])
  obtain w1 where w1: "get_one p k w = (Ok (live_value (entry w k)), w1)" "inv w1" "heap w1 = heap w"
    "next_addr w1 = next_addr w"
    "(\<forall>v. entry w k \<noteq> Some (v, True)) \<Longrightarrow> entry w1 = entry w \<and> full w1 = full w"
    using get_one_ok [OF assms(1)] by metis
  show thesis
    by (rule that [OF w1(2-4) _ _ s(1) _ s(2)]) (use w1 assms(2) s in \<open>simp_all add: the_set_def\<close>)
qed

text \<open>A live key of another type, or a key past its expiry, is refused.\<close>

lemma read_not_set:
  assumes "inv w" "as_set (live_value (entry w k)) = None"
  obtains w1 where "inv w1" "heap w1 = heap w" "next_addr w1 = next_addr w" "reaped (entry w) (entry w1)"
    "\<And>msg f. and_then (get_one p k w) (\<lambda>v w1. and_then (the_set msg v w1) (f :: addr \<Rightarrow> 's world \<Rightarrow> 'b res \<times> 's world)) = (Err msg, w1)"
proof -
  obtain w1 where w1: "get_one p k w = (Ok (live_value (entry w k)), w1)" "inv w1" "heap w1 = heap w"
    "next_addr w1 = next_addr w" "reaped (entry w) (entry w1)"
    by (rule get_one_ok [OF assms(1)])
  show thesis by (rule that [OF w1(2-5)]) (simp add: w1(1) the_set_def assms(2))
qed

lemma inv_put_set:
  assumes "inv w" "live w a" "set_wf s"
  shows "inv (put_set a s w)" "entry (put_set a s w) = entry w" "full (put_set a s w) = full w"
  using assms heap_wf_put [OF inv_heap_wf [OF assms(1)] assms(2,3)]
  by (auto intro!: inv_world [OF assms(1)] entry_world full_world simp: live_def put_set_def)

lemma inv_extends:
  assumes "inv w" "heap_wf w'" "extends w w'"
  shows "inv w'" "entry w' = entry w" "full w' = full w"
  using assms extends_live [OF assms(3)]
  by (auto intro!: inv_world [OF assms(1)] entry_world full_world simp: extends_def)

subsection \<open>SADD, SREM\<close>

lemma handleSADD_existing:
  assumes "inv w" "Command p = c # key # elems" "elems \<noteq> []" "entry w key = Some (VSet a, False)"
  shows "\<exists>w'. handleSADD p w = (Ok (resp_int (int (card (set elems - set_at w a)))), w') \<and> inv w' \<and>
    entry w' = entry w \<and> set_at w' a = set_at w a \<union> set elems \<and> (\<forall>b. b \<noteq> a \<longrightarrow> heap w' b = heap w b)"
proof -
  obtain w1 s where w1: "inv w1" "heap w1 = heap w" "next_addr w1 = next_addr w" "entry w1 = entry w"
    "full w1 = full w" "heap w a = Some s" "heap w1 a = Some s" "set_wf s"
    "\<And>msg f. and_then (get_one p key w) (\<lambda>v w1. and_then (the_set msg v w1) (f :: addr \<Rightarrow> 's world \<Rightarrow> string res \<times> 's world)) = f a w1"
    using read_set [OF assms(1,4)] by metis
  have h: "handleSADD p w = (Ok (resp_int (snd (Set_Add s elems))), put_set a (fst (Set_Add s elems)) w1)"
    using assms(2-4) w1(7,9) exist1 [of key w]
    by (simp add: handleSADD_def saddKeyFunc_def Let_def deref_set_def)
  have "live w1 a" using w1(7) by (simp add: live_def)
  from inv_put_set [OF w1(1) this Set_Add_wf [OF w1(8)]] show ?thesis
    using w1 Set_Add_count [OF w1(8)] unfolding h by (auto simp: set_at_def)
qed

text \<open>
  A new set: the reply is the number of arguments, which is more than the number of
  members when an argument is repeated.
\<close>

lemma handleSADD_new:
  assumes "inv w" "\<not> full w" "Command p = c # key # elems" "elems \<noteq> []" "entry w key = None"
  shows "\<exists>a w'. handleSADD p w = (Ok (resp_int (int (length elems))), w') \<and> inv w' \<and>
    heap w a = None \<and> entry w' = (entry w)(key := Some (VSet a, False)) \<and> set_at w' a = set elems \<and>
    (\<forall>b. b \<noteq> a \<longrightarrow> heap w' b = heap w b)"
proof -
  let ?a = "next_addr w" and ?w1 = "snd (alloc (NewSet elems) w)"
  have hw: "heap_wf ?w1" by (rule heap_wf_alloc [OF inv_heap_wf [OF assms(1)]]) simp
  note ext = extends_alloc [OF inv_heap_wf [OF assms(1)], of "NewSet elems"]
  note w1 = inv_extends [OF assms(1) hw ext]
  have "value_ok (heap ?w1) (VSet ?a)" by (simp add: value_ok_def alloc_def)
  moreover have "\<not> full ?w1" using w1(3) assms(2) by simp
  ultimately obtain w2 where w2: "SetValues p (Context p) [(key, VSet ?a)] ?w1 = (Ok (), w2)" "inv w2"
    "heap w2 = heap ?w1" "next_addr w2 = next_addr ?w1" "entry w2 = written [(key, VSet ?a)] (entry ?w1)"
    using set_one [OF w1(1)] by metis
  have h: "handleSADD p w = (Ok (resp_int (int (length elems))), w2)"
    using assms(3-5) w2(1) exist1 [of key w]
    by (simp add: handleSADD_def saddKeyFunc_def Let_def alloc_def case_prod_beta)
  have "set_at w2 ?a = set elems" by (simp add: set_at_def w2(3) alloc_def)
  moreover have "\<forall>b. b \<noteq> ?a \<longrightarrow> heap w2 b = heap w b" by (simp add: w2(3) alloc_def)
  ultimately show ?thesis
    unfolding h using w2(2,5) w1(2) assms(5) heap_wf_fresh [OF inv_heap_wf [OF assms(1)]]
    by (intro exI [of _ ?a] exI [of _ w2]) (simp add: written_one)
qed

lemma handleSADD_refused:
  assumes "inv w" "Command p = c # key # elems" "elems \<noteq> []" "entry w key \<noteq> None"
    and "as_set (live_value (entry w key)) = None"
  shows "\<exists>w'. handleSADD p w = (Err (not_a_set key), w') \<and> inv w' \<and> heap w' = heap w \<and>
    reaped (entry w) (entry w')"
proof -
  obtain w1 where w1: "inv w1" "heap w1 = heap w" "reaped (entry w) (entry w1)"
    "\<And>msg f. and_then (get_one p key w) (\<lambda>v w1. and_then (the_set msg v w1) (f :: addr \<Rightarrow> 's world \<Rightarrow> string res \<times> 's world)) = (Err msg, w1)"
    using read_not_set [OF assms(1,5)] by metis
  show ?thesis
    using assms(2-4) w1 exist1 [of key w] by (simp add: handleSADD_def saddKeyFunc_def Let_def)
qed

lemma handleSREM_existing:
  assumes "inv w" "Command p = c # key # ms" "ms \<noteq> []" "entry w key = Some (VSet a, False)"
  shows "\<exists>w'. handleSREM p w = (Ok (resp_int (int (card (set ms \<inter> set_at w a)))), w') \<and> inv w' \<and>
    entry w' = entry w \<and> set_at w' a = set_at w a - set ms \<and> (\<forall>b. b \<noteq> a \<longrightarrow> heap w' b = heap w b)"
proof -
  obtain w1 s where w1: "inv w1" "heap w1 = heap w" "next_addr w1 = next_addr w" "entry w1 = entry w"
    "full w1 = full w" "heap w a = Some s" "heap w1 a = Some s" "set_wf s"
    "\<And>msg f. and_then (get_one p key w) (\<lambda>v w1. and_then (the_set msg v w1) (f :: addr \<Rightarrow> 's world \<Rightarrow> string res \<times> 's world)) = f a w1"
    using read_set [OF assms(1,4)] by metis
  have h: "handleSREM p w = (Ok (resp_int (snd (Set_Remove s ms))), put_set a (fst (Set_Remove s ms)) w1)"
    using assms(2-4) w1(7,9) exist1 [of key w]
    by (simp add: handleSREM_def sremKeyFunc_def Let_def deref_set_def)
  have "live w1 a" using w1(7) by (simp add: live_def)
  from inv_put_set [OF w1(1) this Set_Remove_wf [OF w1(8)]] show ?thesis
    using w1 Set_Remove_count [OF w1(8)] Set_Remove_members [OF w1(8)]
    unfolding h by (auto simp: set_at_def)
qed

subsection \<open>SCARD, SISMEMBER, SMEMBERS, SRANDMEMBER\<close>

lemma handleSCARD_ok:
  assumes "inv w" "Command p = [c, key]" "entry w key = Some (VSet a, False)"
  shows "\<exists>w'. handleSCARD p w = (Ok (resp_int (int (card (set_at w a)))), w') \<and> inv w' \<and>
    entry w' = entry w \<and> heap w' = heap w"
proof -
  obtain w1 s where w1: "inv w1" "heap w1 = heap w" "next_addr w1 = next_addr w" "entry w1 = entry w"
    "full w1 = full w" "heap w a = Some s" "heap w1 a = Some s" "set_wf s"
    "\<And>msg f. and_then (get_one p key w) (\<lambda>v w1. and_then (the_set msg v w1) (f :: addr \<Rightarrow> 's world \<Rightarrow> string res \<times> 's world)) = f a w1"
    using read_set [OF assms(1,3)] by metis
  have "set_length s = int (card (set (members s)))" using w1(8) by (simp add: set_wf_def distinct_card)
  then show ?thesis
    using assms(2,3) w1 exist1 [of key w]
    by (simp add: handleSCARD_def scardKeyFunc_def Let_def deref_set_def set_at_def Set_Cardinality_def)
qed

lemma handleSISMEMBER_ok:
  assumes "inv w" "Command p = [c, key, m]" "entry w key = Some (VSet a, False)"
  shows "\<exists>w'. handleSISMEMBER p w = (Ok (resp_int (if m \<in> set_at w a then 1 else 0)), w') \<and> inv w' \<and>
    entry w' = entry w \<and> heap w' = heap w"
proof -
  obtain w1 s where w1: "inv w1" "heap w1 = heap w" "next_addr w1 = next_addr w" "entry w1 = entry w"
    "full w1 = full w" "heap w a = Some s" "heap w1 a = Some s" "set_wf s"
    "\<And>msg f. and_then (get_one p key w) (\<lambda>v w1. and_then (the_set msg v w1) (f :: addr \<Rightarrow> 's world \<Rightarrow> string res \<times> 's world)) = f a w1"
    using read_set [OF assms(1,3)] by metis
  then show ?thesis
    using assms(2,3) exist [of "[key, m]" w key]
    by (simp add: handleSISMEMBER_def sismemberKeyFunc_def Let_def deref_set_def set_at_def Set_Contains_def)
qed

text \<open>The reply of SMEMBERS lists every member once, in some order.\<close>

lemma handleSMEMBERS_ok:
  assumes "inv w" "Command p = [c, key]" "entry w key = Some (VSet a, False)"
  shows "\<exists>w' ms. handleSMEMBERS p w = (Ok (elems_reply ms), w') \<and> set ms = set_at w a \<and> distinct ms \<and>
    inv w' \<and> entry w' = entry w \<and> heap w' = heap w"
proof -
  obtain w1 s where w1: "inv w1" "heap w1 = heap w" "next_addr w1 = next_addr w" "entry w1 = entry w"
    "full w1 = full w" "heap w a = Some s" "heap w1 a = Some s" "set_wf s"
    "\<And>msg f. and_then (get_one p key w) (\<lambda>v w1. and_then (the_set msg v w1) (f :: addr \<Rightarrow> 's world \<Rightarrow> string res \<times> 's world)) = f a w1"
    using read_set [OF assms(1,3)] by metis
  let ?r = "go_range (members s) w1"
  have h: "handleSMEMBERS p w = (Ok (elems_reply (fst ?r)), snd ?r)"
    using assms(2,3) w1 exist1 [of key w]
    by (simp add: handleSMEMBERS_def smembersKeyFunc_def Let_def deref_set_def Set_GetAll_def case_prod_beta)
  have "distinct (fst ?r)" using w1(8) by (simp add: go_range_def flip_def set_wf_def)
  moreover have "inv (snd ?r)" "entry (snd ?r) = entry w1"
    by (rule inv_extends [OF w1(1)]; simp add: inv_heap_wf [OF w1(1)])+
  ultimately show ?thesis
    unfolding h using w1 by (intro exI [of _ "snd ?r"] exI [of _ "fst ?r"]) (simp add: set_at_def)
qed

subsection \<open>SMOVE\<close>

lemma handleSMOVE_ok:
  assumes "inv w" "Command p = [c, src, dst, m]"
    and "entry w src = Some (VSet a, False)" "entry w dst = Some (VSet b, False)"
  shows "\<exists>w'. handleSMOVE p w = (Ok (resp_int (if m \<in> set_at w a then 1 else 0)), w') \<and> inv w' \<and>
    entry w' = entry w \<and>
    (if m \<in> set_at w a
     then set_at w' b = insert m (set_at w b) \<and> (a \<noteq> b \<longrightarrow> set_at w' a = set_at w a - {m}) \<and>
          (\<forall>x. x \<noteq> a \<longrightarrow> x \<noteq> b \<longrightarrow> heap w' x = heap w x)
     else heap w' = heap w)"
proof -
  obtain s where s: "heap w a = Some s" "set_wf s" "live w a" by (rule entry_set_live [OF assms(1,3)])
  obtain t where t: "heap w b = Some t" "set_wf t" "live w b" by (rule entry_set_live [OF assms(1,4)])
  have lv: "\<forall>k\<in>set [src, dst]. \<forall>v. entry w k \<noteq> Some (v, True)" using assms(3,4) by auto
  obtain m1 w1 where w1: "GetValues p (Context p) [src, dst] w = (Ok m1, w1)" "inv w1" "heap w1 = heap w"
    "\<forall>k. gm_value m1 k = (if k \<in> set [src, dst] then live_value (entry w k) else VNil)"
    "entry w1 = entry w"
    using get [OF assms(1), of "[src, dst]"] lv by auto
  have vals: "gm_value m1 src = VSet a" "gm_value m1 dst = VSet b" using w1(4) assms(3,4) by simp_all
  have ex: "gm_bool (KeysExist p (Context p) [src, dst] w) src"
    using exist [of "[src, dst]" w src] assms(3) by simp
  have h: "handleSMOVE p w = and_then (Set_Move a b m w1) (\<lambda>n w4. (Ok (resp_int n), w4))"
    using assms(2) ex w1(1) vals by (simp add: handleSMOVE_def smoveKeyFunc_def Let_def the_set_def)
  show ?thesis
  proof (cases "m \<in> set_at w a")
    case False
    then have "handleSMOVE p w = (Ok (resp_int 0), w1)"
      unfolding h using s w1(3) by (simp add: Set_Move_def deref_set_def Set_Contains_def set_at_def)
    then show ?thesis using False w1 by simp
  next
    case True
    let ?s' = "fst (Set_Remove s [m])"
    let ?w2 = "put_set a ?s' w1"
    let ?t = "if a = b then ?s' else t"
    let ?w3 = "put_set b (fst (Set_Add ?t [m])) ?w2"
    have l1: "live w1 a" using s(1) w1(3) by (simp add: live_def)
    have s': "set_wf ?s'" using s(2) by (rule Set_Remove_wf)
    note w2 = inv_put_set [OF w1(2) l1 s']
    have l2: "live ?w2 b" "set_wf ?t" "heap ?w2 b = Some ?t" using t w1(3) s' by (simp_all add: live_def)
    note w3 = inv_put_set [OF w2(1) l2(1) Set_Add_wf [OF l2(2)], of "[m]"]
    have "Set_Contains s m" using True s by (simp add: Set_Contains_def set_at_def)
    then have "handleSMOVE p w = (Ok (resp_int 1), ?w3)"
      unfolding h using s(1) w1(3) l2(3) by (simp add: Set_Move_def deref_set_def Let_def)
    moreover have "set_at ?w3 b = insert m (set_at w b)"
      using s t True by (auto simp: set_at_def)
    moreover have "a \<noteq> b \<Longrightarrow> set_at ?w3 a = set_at w a - {m}" using s by (simp add: set_at_def)
    moreover have "\<forall>x. x \<noteq> a \<longrightarrow> x \<noteq> b \<longrightarrow> heap ?w3 x = heap w x" using w1(3) by simp
    ultimately show ?thesis using True w3 w2 w1 by (intro exI [of _ ?w3]) simp
  qed
qed

end

subsection \<open>SDIFF\<close>

fun sets_at_keys :: "('k \<Rightarrow> (go_value \<times> bool) option) \<Rightarrow> 'k list \<Rightarrow> addr list" where
  "sets_at_keys e [] = []"
| "sets_at_keys e (k # ks) =
     (case as_set (live_value (e k)) of None \<Rightarrow> sets_at_keys e ks | Some a \<Rightarrow> a # sets_at_keys e ks)"

lemma sets_at_keys_mem: "a \<in> set (sets_at_keys e ks) \<longleftrightarrow> (\<exists>k\<in>set ks. e k = Some (VSet a, False))"
proof (induction ks)
  case (Cons k ks)
  have "as_set (live_value (e k)) = Some a \<longleftrightarrow> e k = Some (VSet a, False)" for a
    by (simp add: live_value_def split: option.split bool.split prod.split)
  then show ?case using Cons by (auto split: option.split)
qed simp

lemma sets_at_keys_reaped: "reaped e e' \<Longrightarrow> sets_at_keys e' ks = sets_at_keys e ks"
  by (induction ks) (simp_all add: reaped_live split: option.split)

context kv_store begin

lemma collect_sets_ok:
  assumes "inv w"
  shows "\<exists>w'. collect_sets p ks w = (Ok (sets_at_keys (entry w) ks), w') \<and> inv w' \<and>
    heap w' = heap w \<and> next_addr w' = next_addr w \<and> reaped (entry w) (entry w') \<and>
    ((\<forall>k\<in>set ks. \<forall>v. entry w k \<noteq> Some (v, True)) \<longrightarrow> entry w' = entry w \<and> full w' = full w)"
  using assms
proof (induction ks arbitrary: w)
  case (Cons k ks)
  obtain w1 where w1: "get_one p k w = (Ok (live_value (entry w k)), w1)" "inv w1" "heap w1 = heap w"
    "next_addr w1 = next_addr w" "reaped (entry w) (entry w1)"
    "(\<forall>v. entry w k \<noteq> Some (v, True)) \<Longrightarrow> entry w1 = entry w \<and> full w1 = full w"
    using get_one_ok [OF Cons.prems] by metis
  obtain w2 where w2: "collect_sets p ks w1 = (Ok (sets_at_keys (entry w1) ks), w2)" "inv w2"
    "heap w2 = heap w1" "next_addr w2 = next_addr w1" "reaped (entry w1) (entry w2)"
    "(\<forall>k\<in>set ks. \<forall>v. entry w1 k \<noteq> Some (v, True)) \<Longrightarrow> entry w2 = entry w1 \<and> full w2 = full w1"
    using Cons.IH [OF w1(2)] by blast
  show ?case
    using w1 w2 sets_at_keys_reaped [OF w1(5), of ks] reaped_trans [OF w1(5) w2(5)]
    by (intro exI [of _ w2]) (simp split: option.split)
qed simp

lemma deref_sets_ok:
  "\<forall>a\<in>set as. live w a \<Longrightarrow> \<exists>ss. deref_sets as w = Some ss \<and>
     (\<Union>s\<in>set ss. set (members s)) = (\<Union>a\<in>set as. set_at w a)"
  by (induction as) (auto simp: live_def set_at_def)

lemma sets_at_keys_live:
  assumes "inv w" "a \<in> set (sets_at_keys (entry w) ks)"
  shows "live w a"
  using assms(2) entry_set_live [OF assms(1)] by (auto simp: sets_at_keys_mem)

lemma sdiff_of_ok:
  assumes "inv w" "entry w base = Some (VSet a, False)" "gm_bool exists base"
  shows "\<exists>diff w'. sdiff_of p exists base others w = (Ok diff, w') \<and> set_wf diff \<and>
    set (members diff) = set_at w a - (\<Union>b\<in>set (sets_at_keys (entry w) others). set_at w b) \<and>
    inv w' \<and> heap w' = heap w \<and> next_addr w' = next_addr w \<and> reaped (entry w) (entry w') \<and>
    ((\<forall>k\<in>set others. \<forall>v. entry w k \<noteq> Some (v, True)) \<longrightarrow> entry w' = entry w \<and> full w' = full w)"
proof -
  obtain w1 s where w1: "inv w1" "heap w1 = heap w" "next_addr w1 = next_addr w" "entry w1 = entry w"
    "full w1 = full w" "heap w a = Some s" "heap w1 a = Some s" "set_wf s"
    "\<And>msg f. and_then (get_one p base w) (\<lambda>v w1. and_then (the_set msg v w1) (f :: addr \<Rightarrow> 's world \<Rightarrow> goset res \<times> 's world)) = f a w1"
    using read_set [OF assms(1,2)] by metis
  let ?as = "sets_at_keys (entry w) others"
  obtain w2 where w2: "collect_sets p others w1 = (Ok ?as, w2)" "inv w2"
    "heap w2 = heap w" "next_addr w2 = next_addr w" "reaped (entry w) (entry w2)"
    "(\<forall>k\<in>set others. \<forall>v. entry w k \<noteq> Some (v, True)) \<longrightarrow> entry w2 = entry w \<and> full w2 = full w"
    using collect_sets_ok [OF w1(1), of others] unfolding w1(2-5) by blast
  have "\<forall>x\<in>set ?as. live w2 x"
    using sets_at_keys_live [OF assms(1)] w2(3) by (auto simp: live_def)
  from deref_sets_ok [OF this] obtain ss where ss: "deref_sets ?as w2 = Some ss"
    "(\<Union>s\<in>set ss. set (members s)) = (\<Union>b\<in>set ?as. set_at w2 b)" by (elim exE conjE)
  have at: "set_at w2 b = set_at w b" for b by (simp add: set_at_def w2(3))
  let ?r = "Set_Subtract s ss w2"
  have sh: "heap (snd ?r) = heap w2 \<and> next_addr (snd ?r) = next_addr w2 \<and> srv (snd ?r) = srv w2"
  proof -
    have "heap (snd (subtract_collect d xs v)) = heap v \<and> next_addr (snd (subtract_collect d xs v)) = next_addr v \<and>
      srv (snd (subtract_collect d xs v)) = srv v" for d xs and v :: "'s world"
      by (induction xs arbitrary: v) (simp_all add: Let_def case_prod_beta)
    then show ?thesis by (simp add: Set_Subtract_def Set_GetAll_def Let_def case_prod_beta)
  qed
  note sub = Set_Subtract_spec [OF w1(8), where ss = ss and w = w2]
  have inv': "inv (snd ?r)" "entry (snd ?r) = entry w2" "full (snd ?r) = full w2"
    using inv_extends [OF w2(2) _ sub(3)] sub(4) inv_heap_wf [OF w2(2)] by simp_all
  have "sdiff_of p exists base others w = (Ok (fst ?r), snd ?r)"
    using assms(3) w1(9) w2(1,3) w1(6) ss(1)
    by (simp add: sdiff_of_def subtract_sets_def deref_set_def case_prod_beta)
  then show ?thesis
    using sub(1,2) inv' sh w2 ss(2) w1(6) by (intro exI [of _ "fst ?r"] exI [of _ "snd ?r"]) (simp add: at set_at_def)
qed

lemma handleSDIFF_ok:
  assumes "inv w" "Command p = c # key # others" "entry w key = Some (VSet a, False)"
  shows "\<exists>ms w'. handleSDIFF p w = (Ok (elems_reply ms), w') \<and> distinct ms \<and>
    set ms = set_at w a - (\<Union>b\<in>set (sets_at_keys (entry w) others). set_at w b) \<and>
    inv w' \<and> heap w' = heap w \<and> reaped (entry w) (entry w')"
proof -
  have ex: "gm_bool (KeysExist p (Context p) (key # others) w) key"
    using exist [of "key # others" w key] assms(3) by simp
  obtain diff w1 where d: "sdiff_of p (KeysExist p (Context p) (key # others) w) key others w = (Ok diff, w1)"
    "set_wf diff" "set (members diff) = set_at w a - (\<Union>b\<in>set (sets_at_keys (entry w) others). set_at w b)"
    "inv w1" "heap w1 = heap w" "reaped (entry w) (entry w1)"
    using sdiff_of_ok [OF assms(1,3) ex, of others] by blast
  let ?r = "go_range (members diff) w1"
  have "handleSDIFF p w = (Ok (elems_reply (fst ?r)), snd ?r)"
    using assms(2) d(1) by (simp add: handleSDIFF_def sdiffKeyFunc_def Set_GetAll_def case_prod_beta)
  moreover have "distinct (fst ?r)" using d(2) by (simp add: go_range_def flip_def set_wf_def)
  moreover have "inv (snd ?r)" "entry (snd ?r) = entry w1"
    by (rule inv_extends [OF d(4)]; simp add: inv_heap_wf [OF d(4)])+
  ultimately show ?thesis using d by (intro exI [of _ "fst ?r"] exI [of _ "snd ?r"]) simp
qed

lemma handleSDIFF_no_base:
  assumes "inv w" "Command p = c # key # others" "entry w key = None"
  shows "handleSDIFF p w = (Err (no_base_set key), w)"
  using assms(2,3) exist [of "key # others" w key]
  by (simp add: handleSDIFF_def sdiffKeyFunc_def sdiff_of_def)

subsection \<open>SINTER\<close>

lemma inter_sets_live:
  assumes "inv w" "\<forall>x\<in>set es. snd x \<and> entry w (fst x) = Some (VSet (f (fst x)), False)"
  shows "\<exists>w'. inter_sets p es w = (Ok (Some (map (\<lambda>x. f (fst x)) es)), w') \<and> inv w' \<and>
    heap w' = heap w \<and> next_addr w' = next_addr w \<and> entry w' = entry w \<and> full w' = full w"
  using assms
proof (induction es arbitrary: w)
  case (Cons x es)
  obtain k b where x: "x = (k, b)" by (cases x)
  have live: "entry w k = Some (VSet (f k), False)" "b" using Cons.prems(2) x by auto
  obtain w1 s where w1: "inv w1" "heap w1 = heap w" "next_addr w1 = next_addr w" "entry w1 = entry w"
    "full w1 = full w" "heap w (f k) = Some s" "heap w1 (f k) = Some s" "set_wf s"
    "\<And>msg g. and_then (get_one p k w) (\<lambda>v w1. and_then (the_set msg v w1) (g :: addr \<Rightarrow> 's world \<Rightarrow> addr list option res \<times> 's world)) = g (f k) w1"
    using read_set [OF Cons.prems(1) live(1)] by metis
  obtain w2 where w2: "inter_sets p es w1 = (Ok (Some (map (\<lambda>x. f (fst x)) es)), w2)" "inv w2"
    "heap w2 = heap w1" "next_addr w2 = next_addr w1" "entry w2 = entry w1" "full w2 = full w1"
    using Cons.IH [OF w1(1)] Cons.prems(2) w1(4) by auto
  show ?case using w1 w2 live(2) x by (intro exI [of _ w2]) simp
qed simp

lemma inter_collect_live:
  assumes "inv w" "\<forall>k\<in>set ks. entry w k = Some (VSet (f k), False)"
  shows "\<exists>sets w'. inter_collect p ks w = (Ok (Some sets), w') \<and> set sets = f ` set ks \<and> inv w' \<and>
    heap w' = heap w \<and> next_addr w' = next_addr w \<and> entry w' = entry w \<and> full w' = full w \<and>
    length sets = card (set ks)"
proof -
  let ?m = "KeysExist p (Context p) ks w"
  let ?r = "go_range ?m w"
  have wf: "gm_wf (fst ?r)" "map_of (fst ?r) = map_of ?m" "mset (fst ?r) = mset ?m"
    using map_of_mset [OF exist_wf, of "fst ?r" ks w] by simp_all
  have keys: "fst ` set (fst ?r) = set ks"
    using exist_dom [of ks w] by (simp add: dom_map_of_conv_image_fst)
  have r: "inv (snd ?r)" "entry (snd ?r) = entry w" "full (snd ?r) = full w"
    by (rule inv_extends [OF assms(1)]; simp add: inv_heap_wf [OF assms(1)])+
  have "\<forall>x\<in>set (fst ?r). snd x \<and> entry (snd ?r) (fst x) = Some (VSet (f (fst x)), False)"
  proof
    fix x assume x: "x \<in> set (fst ?r)"
    then have k: "fst x \<in> set ks" using keys by blast
    have "gm_bool ?m (fst x)" using exist [of ks w "fst x"] k assms(2) by simp
    then have "map_of ?m (fst x) = Some True" by (simp add: gm_bool_def)
    moreover have "map_of (fst ?r) (fst x) = Some (snd x)"
      using x wf(1) by (simp add: gm_wf_def)
    ultimately have "snd x" using wf(2) by simp
    then show "snd x \<and> entry (snd ?r) (fst x) = Some (VSet (f (fst x)), False)"
      using assms(2) k r(2) by simp
  qed
  from inter_sets_live [OF r(1) this] obtain w' where
    w': "inter_sets p (fst ?r) (snd ?r) = (Ok (Some (map (\<lambda>x. f (fst x)) (fst ?r))), w')" "inv w'"
      "heap w' = heap w" "next_addr w' = next_addr w" "entry w' = entry w" "full w' = full w"
    using r by auto
  have len: "length (fst ?r) = card (set ks)"
    using wf(1) keys by (metis distinct_card gm_wf_def length_map set_map)
  have "set (map (\<lambda>x. f (fst x)) (fst ?r)) = f ` set ks" by (simp add: keys [symmetric] image_image)
  then show ?thesis
    using w' len by (intro exI [of _ "map (\<lambda>x. f (fst x)) (fst ?r)"] exI [of _ w'])
      (simp add: inter_collect_def case_prod_beta)
qed

lemma handleSINTER_ok:
  assumes "inv w" "Command p = c # ks" "ks \<noteq> []" "\<forall>k\<in>set ks. entry w k = Some (VSet (f k), False)"
  shows "\<exists>ms w'. handleSINTER p w = (Ok (elems_reply ms), w') \<and> distinct ms \<and>
    set ms = (\<Inter>k\<in>set ks. set_at w (f k)) \<and> inv w' \<and> entry w' = entry w \<and>
    (\<forall>a. live w a \<longrightarrow> heap w' a = heap w a)"
proof -
  obtain sets w1 where w1: "inter_collect p ks w = (Ok (Some sets), w1)" "set sets = f ` set ks" "inv w1"
    "heap w1 = heap w" "next_addr w1 = next_addr w" "entry w1 = entry w"
    using inter_collect_live [OF assms(1,4)] by blast
  have ne: "sets \<noteq> []" using w1(2) assms(3) by auto
  have lv: "\<forall>x\<in>set sets. live w1 x"
    using w1(2,4) assms(4) entry_set_live [OF assms(1)] by (auto simp: live_def) metis
  obtain a w2 where w2: "Intersection 0 sets w1 = (Ok (a, False), w2)" "heap_wf w2" "live w2 a"
    "extends w1 w2" "set_at w2 a = (\<Inter>x\<in>set sets. set_at w1 x)"
    using Intersection_spec [OF ne inv_heap_wf [OF w1(3)] lv] unfolding inter_spec_def by blast
  obtain s where s: "heap w2 a = Some s" "set_wf s" using w2(2,3) heap_wfD by (auto simp: live_def)
  let ?r = "go_range (members s) w2"
  have "handleSINTER p w = (Ok (elems_reply (fst ?r)), snd ?r)"
    using assms(2,3) w1(1) ne w2(1) s(1)
    by (cases ks) (simp_all add: handleSINTER_def sinterKeyFunc_def deref_set_def Set_GetAll_def case_prod_beta)
  moreover have "distinct (fst ?r)" using s(2) by (simp add: go_range_def flip_def set_wf_def)
  moreover have "extends w1 (snd ?r)" using extends_trans [OF w2(4) extends_range] .
  then have "inv (snd ?r)" "entry (snd ?r) = entry w1" "\<forall>a. live w1 a \<longrightarrow> heap (snd ?r) a = heap w1 a"
    using inv_extends [OF w1(3), of "snd ?r"] w2(2) by (auto simp: extends_def live_def)
  moreover have "set (fst ?r) = (\<Inter>k\<in>set ks. set_at w (f k))"
    using w2(5) s(1) w1(2,4) by (simp add: set_at_def)
  ultimately show ?thesis
    using w1(4,6) by (intro exI [of _ "fst ?r"] exI [of _ "snd ?r"]) (simp add: live_def)
qed

end

subsection \<open>SPOP and SRANDMEMBER\<close>

lemma Set_GetRandom_spec:
  assumes "set_wf s"
  shows "\<exists>ms w'. Set_GetRandom s n w = (Ok ms, w') \<and> heap w' = heap w \<and> next_addr w' = next_addr w \<and>
    srv w' = srv w \<and> set ms \<subseteq> set (members s) \<and>
    (0 \<le> n \<longrightarrow> distinct ms \<and> int (length ms) = min n (int (card (set (members s)))))"
proof -
  let ?keys = "fst (go_range (members s) w)" and ?w1 = "snd (go_range (members s) w)"
  have k: "distinct ?keys" "set ?keys = set (members s)" "length ?keys = length (members s)"
    using assms by (simp_all add: go_range_def flip_def set_wf_def)
  have card: "set_length s = int (length ?keys)" "card (set (members s)) = length ?keys"
    using assms k by (simp_all add: set_wf_def distinct_card)
  consider "n = 0" | "n \<noteq> 0" "Set_Cardinality s \<le> AbsInt n"
    | "n < 0" "AbsInt n < Set_Cardinality s" | "0 < n" "AbsInt n < Set_Cardinality s" by linarith
  then show ?thesis
  proof cases
    case 1
    then show ?thesis by (simp add: Set_GetRandom_def Set_GetAll_def case_prod_beta)
  next
    case 2
    then have "0 \<le> n \<Longrightarrow> n = AbsInt n" by (simp add: AbsInt_def)
    with 2 show ?thesis
      using k card by (auto simp: Set_GetRandom_def Set_GetAll_def case_prod_beta Set_Cardinality_def min_def)
  next
    case 3
    let ?r = "draw_repeat (nat (AbsInt n)) ?keys (coins ?w1)"
    have "?keys \<noteq> [] \<or> AbsInt n \<le> 0" using 3(2) card(1) by (auto simp: Set_Cardinality_def)
    moreover have "set (fst ?r) \<subseteq> set ?keys"
      using calculation draw_repeat_spec [of ?keys "nat (AbsInt n)"] by (cases "?keys = []") auto
    ultimately show ?thesis
      using 3 k(2) by (auto simp: Set_GetRandom_def Set_GetAll_def case_prod_beta)
  next
    case 4
    then have n: "AbsInt n = n" by (simp add: AbsInt_def)
    have "nat n \<le> length ?keys" using 4 n card(1) by (simp add: Set_Cardinality_def)
    from draw_distinct_spec [OF this k(1), of "[]" "coins ?w1"] obtain res cs' where
      r: "draw_distinct (nat n) [] ?keys (coins ?w1) = Some (Ok res, cs')"
        "length res = nat n" "distinct res" "set res \<subseteq> set ?keys" by auto
    then show ?thesis
      using 4 n k(2) card by (simp add: Set_GetRandom_def Set_GetAll_def case_prod_beta Set_Cardinality_def)
  qed
qed

context kv_store begin

lemma inv_same:
  assumes "inv w" "heap w' = heap w" "next_addr w' = next_addr w" "srv w' = srv w"
  shows "inv w'" "entry w' = entry w" "full w' = full w"
  using inv_extends [OF assms(1), of w'] assms(2-4) inv_heap_wf [OF assms(1)]
  by (simp_all add: heap_wf_def extends_def)

text \<open>SPOP removes exactly what it replies with.\<close>

lemma handleSPOP_ok:
  assumes "inv w" "Command p = c # key # args" "set_count_arg (Command p) = Ok n" "length args \<le> 1"
    and "entry w key = Some (VSet a, False)"
  shows "\<exists>ms w'. handleSPOP p w = (Ok (elems_reply ms), w') \<and> set ms \<subseteq> set_at w a \<and>
    (0 \<le> n \<longrightarrow> distinct ms \<and> int (length ms) = min n (int (card (set_at w a)))) \<and>
    inv w' \<and> entry w' = entry w \<and> set_at w' a = set_at w a - set ms \<and>
    (\<forall>b. b \<noteq> a \<longrightarrow> heap w' b = heap w b)"
proof -
  obtain w1 s where w1: "inv w1" "heap w1 = heap w" "next_addr w1 = next_addr w" "entry w1 = entry w"
    "full w1 = full w" "heap w a = Some s" "heap w1 a = Some s" "set_wf s"
    "\<And>msg f. and_then (get_one p key w) (\<lambda>v w1. and_then (the_set msg v w1) (f :: addr \<Rightarrow> 's world \<Rightarrow> string res \<times> 's world)) = f a w1"
    using read_set [OF assms(1,5)] by metis
  obtain ms w2 where w2: "Set_GetRandom s n w1 = (Ok ms, w2)" "heap w2 = heap w1" "next_addr w2 = next_addr w1"
    "srv w2 = srv w1" "set ms \<subseteq> set (members s)"
    "0 \<le> n \<longrightarrow> distinct ms \<and> int (length ms) = min n (int (card (set (members s))))"
    using Set_GetRandom_spec [OF w1(8)] by blast
  note i2 = inv_same [OF w1(1) w2(2-4)]
  have lv: "live w2 a" using w2(2) w1(7) by (simp add: live_def)
  note i3 = inv_put_set [OF i2(1) lv Set_Remove_wf [OF w1(8)], of ms]
  have "handleSPOP p w = (Ok (elems_reply ms), put_set a (fst (Set_Remove s ms)) w2)"
    using assms(2-5) w1(7,9) w2(1) exist1 [of key w]
    by (simp add: handleSPOP_def spopKeyFunc_def Let_def deref_set_def Set_Pop_def)
  then show ?thesis
    using w2 w1 i2 i3 Set_Remove_members [OF w1(8), of ms]
    by (intro exI [of _ ms] exI [of _ "put_set a (fst (Set_Remove s ms)) w2"]) (simp add: set_at_def)
qed

subsection \<open>The commands that store\<close>

lemma handleSDIFFSTORE_ok:
  assumes "inv w" "\<not> full w" "Command p = c # dst # key # others" "entry w key = Some (VSet a, False)"
    and "\<forall>k\<in>set others. \<forall>v. entry w k \<noteq> Some (v, True)"
  defines "D \<equiv> set_at w a - (\<Union>b\<in>set (sets_at_keys (entry w) others). set_at w b)"
  shows "\<exists>x w'. handleSDIFFSTORE p w = (Ok (resp_int (int (card D))), w') \<and> inv w' \<and>
    heap w x = None \<and> set_at w' x = D \<and> entry w' = written [(dst, VSet x)] (entry w) \<and>
    (\<forall>b. b \<noteq> x \<longrightarrow> heap w' b = heap w b)"
proof -
  have ex: "gm_bool (KeysExist p (Context p) (dst # key # others) w) key"
    using exist [of "dst # key # others" w key] assms(4) by simp
  obtain diff w1 where d: "sdiff_of p (KeysExist p (Context p) (dst # key # others) w) key others w = (Ok diff, w1)"
    "set_wf diff" "set (members diff) = D" "inv w1" "heap w1 = heap w" "next_addr w1 = next_addr w"
    "entry w1 = entry w" "full w1 = full w"
    using sdiff_of_ok [OF assms(1,4) ex, of others] assms(5) unfolding D_def by blast
  let ?r = "go_range (members diff) w1"
  have r: "inv (snd ?r)" "entry (snd ?r) = entry w" "full (snd ?r) = full w"
    using inv_same [OF d(4), of "snd ?r"] d(7,8) by simp_all
  let ?x = "next_addr w" and ?w3 = "snd (alloc diff (snd ?r))"
  have h3: "heap_wf ?w3" by (rule heap_wf_alloc [OF inv_heap_wf [OF r(1)] d(2)])
  note i3 = inv_extends [OF r(1) h3 extends_alloc [OF inv_heap_wf [OF r(1)]]]
  have "value_ok (heap ?w3) (VSet ?x)" "\<not> full ?w3"
    using d(6) i3(3) r(3) assms(2) by (simp_all add: value_ok_def alloc_def)
  then obtain w4 where w4: "SetValues p (Context p) [(dst, VSet ?x)] ?w3 = (Ok (), w4)" "inv w4"
    "heap w4 = heap ?w3" "entry w4 = written [(dst, VSet ?x)] (entry ?w3)"
    using set_one [OF i3(1)] by metis
  have "distinct (fst ?r)" using d(2) by (simp add: go_range_def flip_def set_wf_def)
  then have "length (fst ?r) = card D" using d(3) distinct_card [of "fst ?r"] by simp
  then have "handleSDIFFSTORE p w = (Ok (resp_int (int (card D))), w4)"
    using assms(3) d(1,6) w4(1)
    by (simp add: handleSDIFFSTORE_def sdiffstoreKeyFunc_def store_keys_def Set_GetAll_def case_prod_beta
        alloc_def Let_def)
  moreover have "set_at w4 ?x = D" by (simp add: set_at_def w4(3) alloc_def d(3,6))
  moreover have "\<forall>b. b \<noteq> ?x \<longrightarrow> heap w4 b = heap w b" by (simp add: w4(3) alloc_def d(5,6))
  ultimately show ?thesis
    using w4(2,4) i3(2) r(2) heap_wf_fresh [OF inv_heap_wf [OF assms(1)]]
    by (intro exI [of _ ?x] exI [of _ w4]) simp
qed

lemma handleSINTERSTORE_ok:
  assumes "inv w" "\<not> full w" "Command p = c # dst # ks" "ks \<noteq> []"
    and "\<forall>k\<in>set ks. entry w k = Some (VSet (f k), False)"
  defines "D \<equiv> (\<Inter>k\<in>set ks. set_at w (f k))"
  shows "\<exists>x w'. handleSINTERSTORE p w = (Ok (resp_int (int (card D))), w') \<and> inv w' \<and>
    set_at w' x = D \<and> entry w' = written [(dst, VSet x)] (entry w) \<and>
    (\<forall>b. live w b \<longrightarrow> heap w' b = heap w b) \<and> (card (set ks) = 1 \<longrightarrow> x = f (hd ks))"
proof -
  obtain sets w1 where w1: "inter_collect p ks w = (Ok (Some sets), w1)" "set sets = f ` set ks" "inv w1"
    "heap w1 = heap w" "next_addr w1 = next_addr w" "entry w1 = entry w" "full w1 = full w"
    "length sets = card (set ks)"
    using inter_collect_live [OF assms(1,5)] by blast
  have ne: "sets \<noteq> []" using w1(2) assms(4) by auto
  have lv: "\<forall>x\<in>set sets. live w1 x"
    using w1(2,4) assms(5) entry_set_live [OF assms(1)] by (auto simp: live_def) metis
  obtain a w2 where w2: "Intersection 0 sets w1 = (Ok (a, False), w2)" "heap_wf w2" "live w2 a"
    "extends w1 w2" "set_at w2 a = (\<Inter>x\<in>set sets. set_at w1 x)"
    using Intersection_spec [OF ne inv_heap_wf [OF w1(3)] lv] unfolding inter_spec_def by blast
  obtain s where s: "heap w2 a = Some s" "set_wf s" using w2(2,3) heap_wfD by (auto simp: live_def)
  note i2 = inv_extends [OF w1(3) w2(2,4)]
  have D: "set (members s) = D" using w2(5) s(1) w1(2,4) by (simp add: set_at_def D_def)
  have "value_ok (heap w2) (VSet a)" "\<not> full w2"
    using s(1) i2(3) w1(7) assms(2) by (simp_all add: value_ok_def)
  then obtain w3 where w3: "SetValues p (Context p) [(dst, VSet a)] w2 = (Ok (), w3)" "inv w3"
    "heap w3 = heap w2" "entry w3 = written [(dst, VSet a)] (entry w2)"
    using set_one [OF i2(1)] by metis
  have "set_length s = int (card D)" using s(2) D distinct_card [of "members s"] by (simp add: set_wf_def)
  then have "handleSINTERSTORE p w = (Ok (resp_int (int (card D))), w3)"
    using assms(3,4) w1(1) w2(1) w3(1,3) s(1)
    by (cases ks) (simp_all add: handleSINTERSTORE_def sinterstoreKeyFunc_def store_keys_def deref_set_def
        Set_Cardinality_def)
  moreover have "a = f (hd ks)" if "card (set ks) = 1"
  proof -
    have "length sets = 1" using w1(8) that by simp
    then obtain y where y: "sets = [y]" using ne by (cases sets) auto
    then have "a = y" using w2(1) by (simp add: Intersection_one)
    moreover have "y = f (hd ks)" using y w1(2) assms(4) hd_in_set [OF assms(4)] by (metis image_eqI list.set(1) list.set(2) singletonD)
    ultimately show ?thesis by simp
  qed
  moreover have "\<forall>b. live w b \<longrightarrow> heap w3 b = heap w b"
    using w2(4) w1(4) w3(3) by (simp add: extends_def live_def)
  ultimately show ?thesis
    using w3 s(1) D i2(2) w1(6) by (intro exI [of _ a] exI [of _ w3]) (simp add: set_at_def)
qed

subsection \<open>SUNION\<close>

lemma union_sets_ok:
  "\<forall>x\<in>set es. snd x = VSet (f (fst x)) \<Longrightarrow> union_sets es w = (Ok (map (\<lambda>x. f (fst x)) es), w)"
  by (induction es) (auto simp: the_set_def)

lemma union_of_ok:
  assumes "inv w" "ks \<noteq> []" "\<forall>k\<in>set ks. entry w k = Some (VSet (f k), False)"
  shows "\<exists>k\<in>set ks. \<exists>w'. union_of p ks w = (Ok (f k), w') \<and> inv w' \<and> entry w' = entry w \<and> full w' = full w \<and>
    set_at w' (f k) = (\<Union>k\<in>set ks. set_at w (f k)) \<and> (\<forall>b. b \<notin> f ` set ks \<longrightarrow> heap w' b = heap w b) \<and>
    live w' (f k)"
proof -
  have "\<forall>k\<in>set ks. \<forall>v. entry w k \<noteq> Some (v, True)" using assms(3) by simp
  then obtain m w1 where m: "GetValues p (Context p) ks w = (Ok m, w1)" "inv w1" "heap w1 = heap w"
    "next_addr w1 = next_addr w" "\<forall>k. gm_value m k = (if k \<in> set ks then live_value (entry w k) else VNil)"
    "dom (map_of m) = set ks" "gm_wf m" "full w1 = full w" "entry w1 = entry w"
    using get [OF assms(1), of ks] by blast
  let ?r = "go_range m w1"
  have r: "inv (snd ?r)" "entry (snd ?r) = entry w" "full (snd ?r) = full w"
    using inv_same [OF m(2), of "snd ?r"] m(8,9) by simp_all
  have keys: "fst ` set (fst ?r) = set ks" using m(6) by (simp add: dom_map_of_conv_image_fst)
  have vals: "\<forall>x\<in>set (fst ?r). snd x = VSet (f (fst x))"
  proof
    fix x assume x: "x \<in> set (fst ?r)"
    then have "map_of m (fst x) = Some (snd x)" using m(7) by (simp add: gm_wf_def)
    then have "gm_value m (fst x) = snd x" by (simp add: gm_value_def)
    moreover have "fst x \<in> set ks" using x keys by blast
    ultimately show "snd x = VSet (f (fst x))" using m(5) assms(3) by auto
  qed
  let ?as = "map (\<lambda>x. f (fst x)) (fst ?r)"
  have as: "set ?as = f ` set ks" by (simp add: keys [symmetric] image_image)
  then have ne: "?as \<noteq> []" using assms(2) by (metis image_is_empty set_empty)
  have lv: "\<forall>x\<in>set ?as. live (snd ?r) x"
    unfolding as using assms(3) entry_set_live [OF assms(1)] m(3) by (auto simp: live_def) metis
  obtain w2 where w2: "Union ?as (snd ?r) = (Ok (hd ?as), w2)" "union_post ?as (snd ?r) w2"
    using Union_spec [OF ne inv_heap_wf [OF r(1)] lv] by (rule union_specE)
  note u = union_postD [OF w2(2)]
  have i2: "inv w2" "entry w2 = entry w" "full w2 = full w"
    using inv_world [OF r(1) u(1,2)] entry_world [OF u(2)] full_world [OF u(2)] u(4) r by simp_all
  have "hd ?as \<in> f ` set ks" using as ne hd_in_set by metis
  then obtain k where k: "k \<in> set ks" "hd ?as = f k" by blast
  have "union_of p ks w = (Ok (f k), w2)"
    using m(1) union_sets_ok [OF vals, of "snd ?r"] w2(1) k(2) by (simp add: union_of_def case_prod_beta)
  moreover have "set_at w2 (f k) = (\<Union>k\<in>set ks. set_at w (f k))"
    using u(8) unfolding as k(2) by (simp add: set_at_def m(3))
  moreover have "\<forall>b. b \<notin> f ` set ks \<longrightarrow> heap w2 b = heap w b"
    using u(7) unfolding as by (simp add: m(3))
  moreover have "live w2 (f k)"
  proof -
    have "f k \<in> set ?as" unfolding as using k(1) by (rule imageI)
    then show ?thesis using u(4) lv by blast
  qed
  ultimately show ?thesis using k(1) i2 by blast
qed

text \<open>
  The reply of SUNION is the union. The command is declared a read, but the set at one of
  its keys has become the union.
\<close>

lemma handleSUNION_ok:
  assumes "inv w" "Command p = c # ks" "ks \<noteq> []" "\<forall>k\<in>set ks. entry w k = Some (VSet (f k), False)"
  shows "\<exists>ms w'. handleSUNION p w = (Ok (elems_reply ms), w') \<and> distinct ms \<and>
    set ms = (\<Union>k\<in>set ks. set_at w (f k)) \<and> inv w' \<and> entry w' = entry w \<and>
    (\<exists>k\<in>set ks. set_at w' (f k) = (\<Union>k\<in>set ks. set_at w (f k))) \<and>
    (\<forall>b. b \<notin> f ` set ks \<longrightarrow> heap w' b = heap w b)"
proof -
  obtain k w1 where k: "k \<in> set ks" "union_of p ks w = (Ok (f k), w1)" "inv w1" "entry w1 = entry w"
    "set_at w1 (f k) = (\<Union>k\<in>set ks. set_at w (f k))" "\<forall>b. b \<notin> f ` set ks \<longrightarrow> heap w1 b = heap w b"
    "live w1 (f k)"
    using union_of_ok [OF assms(1,3,4)] by blast
  obtain s where s: "heap w1 (f k) = Some s" "set_wf s"
    using k(7) heap_wfD [OF inv_heap_wf [OF k(3)]] by (auto simp: live_def)
  let ?r = "go_range (members s) w1"
  have len: "set_length s = int (length (fst ?r))" "distinct (fst ?r)"
    using s(2) by (simp_all add: go_range_def flip_def set_wf_def)
  have "handleSUNION p w = (Ok (elems_reply (fst ?r)), snd ?r)"
    using assms(2,3) k(2) s(1) len(1)
    by (cases ks) (simp_all add: handleSUNION_def sunionKeyFunc_def deref_set_def Set_GetAll_def case_prod_beta
        Set_Cardinality_def elems_reply_def)
  moreover have "inv (snd ?r)" "entry (snd ?r) = entry w1"
    using inv_same [OF k(3), of "snd ?r"] by simp_all
  moreover have "set (fst ?r) = (\<Union>k\<in>set ks. set_at w (f k))" using k(5) s(1) by (simp add: set_at_def)
  ultimately show ?thesis
    using len(2) k by (intro exI [of _ "fst ?r"] exI [of _ "snd ?r"]) (auto simp: set_at_def)
qed

text \<open>SUNIONSTORE makes the destination and one of the sources the same set.\<close>

lemma handleSUNIONSTORE_ok:
  assumes "inv w" "\<not> full w" "Command p = c # dst # ks" "ks \<noteq> []"
    and "\<forall>k\<in>set ks. entry w k = Some (VSet (f k), False)"
  shows "\<exists>k\<in>set ks. \<exists>w'. handleSUNIONSTORE p w =
      (Ok (resp_int (int (card (\<Union>k\<in>set ks. set_at w (f k))))), w') \<and> inv w' \<and>
    set_at w' (f k) = (\<Union>k\<in>set ks. set_at w (f k)) \<and> entry w' = written [(dst, VSet (f k))] (entry w) \<and>
    (\<forall>b. b \<notin> f ` set ks \<longrightarrow> heap w' b = heap w b)"
proof -
  obtain k w1 where k: "k \<in> set ks" "union_of p ks w = (Ok (f k), w1)" "inv w1" "entry w1 = entry w"
    "full w1 = full w" "set_at w1 (f k) = (\<Union>k\<in>set ks. set_at w (f k))"
    "\<forall>b. b \<notin> f ` set ks \<longrightarrow> heap w1 b = heap w b" "live w1 (f k)"
    using union_of_ok [OF assms(1,4,5)] by blast
  obtain s where s: "heap w1 (f k) = Some s" "set_wf s"
    using k(8) heap_wfD [OF inv_heap_wf [OF k(3)]] by (auto simp: live_def)
  have "value_ok (heap w1) (VSet (f k))" "\<not> full w1"
    using s(1) k(5) assms(2) by (simp_all add: value_ok_def)
  then obtain w2 where w2: "SetValues p (Context p) [(dst, VSet (f k))] w1 = (Ok (), w2)" "inv w2"
    "heap w2 = heap w1" "entry w2 = written [(dst, VSet (f k))] (entry w1)"
    using set_one [OF k(3)] by metis
  have "set_length s = int (card (\<Union>k\<in>set ks. set_at w (f k)))"
    using s k(6) distinct_card [of "members s"] by (simp add: set_wf_def set_at_def)
  then have "handleSUNIONSTORE p w = (Ok (resp_int (int (card (\<Union>k\<in>set ks. set_at w (f k))))), w2)"
    using assms(3,4) k(2) w2(1,3) s(1)
    by (cases ks) (simp_all add: handleSUNIONSTORE_def sunionstoreKeyFunc_def store_keys_def deref_set_def
        Set_Cardinality_def)
  then show ?thesis using k w2 by (intro bexI [of _ k] exI [of _ w2]) (simp_all add: set_at_def)
qed

end

subsection \<open>Properties\<close>

text \<open>
  The set commands on the server: the facts above for the functions the keyspace hands to its
  handlers.
\<close>

text \<open>C30: SADD on a live set replies with the number of elements that were not members, makes
  the set the union of its members and the arguments, and changes no other set and no key.\<close>

theorem SADD_adds:
  assumes "server_ok w" "elems \<noteq> []" "entry_of cx w key = Some (VSet a, False)"
  shows "\<exists>w'. handleSADD (getHandlerFuncParams cx (c # key # elems) conn) w =
      (Ok (resp_int (int (card (set elems - set_at w a)))), w') \<and> server_ok w' \<and>
    entry_of cx w' = entry_of cx w \<and> set_at w' a = set_at w a \<union> set elems \<and>
    (\<forall>b. b \<noteq> a \<longrightarrow> heap w' b = heap w b)"
  by (rule ks.handleSADD_existing) (use assms in simp_all)

lemma SADD_adds_witness:
  "\<exists>w'. handleSADD (getHandlerFuncParams demo_ctx [''SADD'', ''k'', ''b'', ''a''] None)
      (demo_world demo_config [NewSet [''a'']] [(''k'', kept (VSet 0))]) = (Ok (resp_int 1), w') \<and>
    set_at w' 0 = {''a'', ''b''}"
proof -
  let ?w = "demo_world demo_config [NewSet [''a'']] [(''k'', kept (VSet 0))]"
  have ok: "server_ok ?w" by (rule demo_ok) simp_all
  have e: "entry_of demo_ctx ?w ''k'' = Some (VSet 0, False)" by simp
  have at: "set_at ?w 0 = {''a''}" by (simp add: set_at_def)
  have "{''b'', ''a''} - {''a''} = {''b''}" by auto
  then show ?thesis
    using SADD_adds [where conn = None, OF ok _ e, of "[''b'', ''a'']" "''SADD''"] at by (auto simp: insert_commute)
qed

text \<open>SREM on a live set removes exactly the arguments, and replies with how many of them
  were members.\<close>

theorem SREM_removes:
  assumes "server_ok w" "ms \<noteq> []" "entry_of cx w key = Some (VSet a, False)"
  shows "\<exists>w'. handleSREM (getHandlerFuncParams cx (c # key # ms) conn) w =
      (Ok (resp_int (int (card (set ms \<inter> set_at w a)))), w') \<and> server_ok w' \<and>
    entry_of cx w' = entry_of cx w \<and> set_at w' a = set_at w a - set ms \<and>
    (\<forall>b. b \<noteq> a \<longrightarrow> heap w' b = heap w b)"
  by (rule ks.handleSREM_existing) (use assms in simp_all)

lemma SREM_removes_witness:
  "\<exists>w'. handleSREM (getHandlerFuncParams demo_ctx [''SREM'', ''k'', ''b'', ''a''] None)
      (demo_world demo_config [NewSet [''a'']] [(''k'', kept (VSet 0))]) = (Ok (resp_int 1), w') \<and>
    set_at w' 0 = {}"
proof -
  let ?w = "demo_world demo_config [NewSet [''a'']] [(''k'', kept (VSet 0))]"
  have ok: "server_ok ?w" by (rule demo_ok) simp_all
  have e: "entry_of demo_ctx ?w ''k'' = Some (VSet 0, False)" by simp
  have at: "set_at ?w 0 = {''a''}" by (simp add: set_at_def)
  have "{''b'', ''a''} \<inter> {''a''} = {''a''}" by auto
  then show ?thesis
    using SREM_removes [where conn = None, OF ok _ e, of "[''b'', ''a'']" "''SREM''"] at by auto
qed

text \<open>SMOVE moves the member from the source set to the destination set when it is there,
  and changes nothing when it is not; all other sets and all keys stay.\<close>

theorem SMOVE_moves:
  assumes "server_ok w" "entry_of cx w src = Some (VSet a, False)" "entry_of cx w dst = Some (VSet b, False)"
  shows "\<exists>w'. handleSMOVE (getHandlerFuncParams cx [c, src, dst, m] conn) w =
      (Ok (resp_int (if m \<in> set_at w a then 1 else 0)), w') \<and> server_ok w' \<and>
    entry_of cx w' = entry_of cx w \<and>
    (if m \<in> set_at w a
     then set_at w' b = insert m (set_at w b) \<and> (a \<noteq> b \<longrightarrow> set_at w' a = set_at w a - {m}) \<and>
          (\<forall>x. x \<noteq> a \<longrightarrow> x \<noteq> b \<longrightarrow> heap w' x = heap w x)
     else heap w' = heap w)"
  by (rule ks.handleSMOVE_ok) (use assms in simp_all)

lemma SMOVE_moves_witness:
  "\<exists>w'. handleSMOVE (getHandlerFuncParams demo_ctx [''SMOVE'', ''k'', ''l'', ''a''] None)
      (demo_world demo_config [NewSet [''a''], NewSet [''b'']] [(''k'', kept (VSet 0)), (''l'', kept (VSet 1))]) =
        (Ok (resp_int 1), w') \<and> set_at w' 0 = {} \<and> set_at w' 1 = {''a'', ''b''}"
proof -
  let ?w = "demo_world demo_config [NewSet [''a''], NewSet [''b'']] [(''k'', kept (VSet 0)), (''l'', kept (VSet 1))]"
  have ok: "server_ok ?w" by (rule demo_ok) simp_all
  have e: "entry_of demo_ctx ?w ''k'' = Some (VSet 0, False)" "entry_of demo_ctx ?w ''l'' = Some (VSet 1, False)"
    by simp_all
  have at: "set_at ?w 0 = {''a''}" "set_at ?w 1 = {''b''}" by (simp_all add: set_at_def)
  show ?thesis using SMOVE_moves [where conn = None, OF ok e, of "''SMOVE''" "''a''"] at by auto
qed

text \<open>SPOP removes exactly the members it replies with; for a count that is not negative
  these are distinct, and as many as the count and the set allow, whatever is drawn.\<close>

theorem SPOP_removes_reply:
  assumes "server_ok w" "set_count_arg (c # key # args) = Ok n" "length args \<le> 1"
    and "entry_of cx w key = Some (VSet a, False)"
  shows "\<exists>ms w'. handleSPOP (getHandlerFuncParams cx (c # key # args) conn) w = (Ok (elems_reply ms), w') \<and>
    set ms \<subseteq> set_at w a \<and>
    (0 \<le> n \<longrightarrow> distinct ms \<and> int (length ms) = min n (int (card (set_at w a)))) \<and>
    server_ok w' \<and> entry_of cx w' = entry_of cx w \<and> set_at w' a = set_at w a - set ms \<and>
    (\<forall>b. b \<noteq> a \<longrightarrow> heap w' b = heap w b)"
  by (rule ks.handleSPOP_ok) (use assms in simp_all)

lemma SPOP_removes_reply_witness:
  "\<exists>ms w'. handleSPOP (getHandlerFuncParams demo_ctx [''SPOP'', ''k''] None)
      (demo_world demo_config [NewSet [''a'', ''b'']] [(''k'', kept (VSet 0))]) = (Ok (elems_reply ms), w') \<and>
    length ms = 1 \<and> set ms \<subseteq> {''a'', ''b''} \<and> set_at w' 0 = {''a'', ''b''} - set ms"
proof -
  let ?w = "demo_world demo_config [NewSet [''a'', ''b'']] [(''k'', kept (VSet 0))]"
  have ok: "server_ok ?w" by (rule demo_ok) simp_all
  have e: "entry_of demo_ctx ?w ''k'' = Some (VSet 0, False)" by simp
  have at: "set_at ?w 0 = {''a'', ''b''}" by (simp add: set_at_def)
  have c: "set_count_arg [''SPOP'', ''k''] = Ok 1" by (simp add: set_count_arg_def)
  show ?thesis using SPOP_removes_reply [where conn = None, OF ok c _ e] at by auto
qed

text \<open>C25: SINTER replies with the members all the sets have in common, each once, and changes
  no key and no set.\<close>

theorem SINTER_intersection:
  assumes "server_ok w" "ks \<noteq> []" "\<forall>k\<in>set ks. entry_of cx w k = Some (VSet (f k), False)"
  shows "\<exists>ms w'. handleSINTER (getHandlerFuncParams cx (c # ks) conn) w = (Ok (elems_reply ms), w') \<and>
    distinct ms \<and> set ms = (\<Inter>k\<in>set ks. set_at w (f k)) \<and> server_ok w' \<and>
    entry_of cx w' = entry_of cx w \<and> (\<forall>a. live w a \<longrightarrow> heap w' a = heap w a)"
  by (rule ks.handleSINTER_ok) (use assms in simp_all)

lemma SINTER_intersection_witness:
  "\<exists>ms w'. handleSINTER (getHandlerFuncParams demo_ctx [''SINTER'', ''k'', ''l''] None)
      (demo_world demo_config [NewSet [''a'', ''b''], NewSet [''b'', ''c'']]
         [(''k'', kept (VSet 0)), (''l'', kept (VSet 1))]) = (Ok (elems_reply ms), w') \<and> ms = [''b'']"
proof -
  let ?w = "demo_world demo_config [NewSet [''a'', ''b''], NewSet [''b'', ''c'']]
    [(''k'', kept (VSet 0)), (''l'', kept (VSet 1))]"
  let ?f = "\<lambda>k. if k = ''k'' then 0 else 1 :: nat"
  have ok: "server_ok ?w" by (rule demo_ok) simp_all
  have e: "\<forall>k\<in>set [''k'', ''l'']. entry_of demo_ctx ?w k = Some (VSet (?f k), False)" by simp
  have at: "set_at ?w 0 = {''a'', ''b''}" "set_at ?w (Suc 0) = {''b'', ''c''}" by (simp_all add: set_at_def)
  have i: "(\<Inter>k\<in>set [''k'', ''l'']. set_at ?w (?f k)) = {''b''}" using at by auto
  have one: "ms = [''b'']" if "distinct ms" "set ms = {''b''}" for ms :: "string list"
    using that by (cases ms rule: remdups_adj.cases) auto
  show ?thesis using SINTER_intersection [where conn = None, OF ok _ e, of "''SINTER''"] one unfolding i by auto
qed

text \<open>SDIFFSTORE stores a new set of the members of the first set that are in none of the
  other keys' sets, replies with its size, and leaves the other sets as they were.\<close>

theorem SDIFFSTORE_stores:
  assumes "server_ok w" "\<not> memory_full w" "entry_of cx w key = Some (VSet a, False)"
    and "\<forall>k\<in>set others. \<forall>v. entry_of cx w k \<noteq> Some (v, True)"
  shows "\<exists>x w'. handleSDIFFSTORE (getHandlerFuncParams cx (c # dst # key # others) conn) w =
      (Ok (resp_int (int (card (set_at w' x)))), w') \<and> server_ok w' \<and> heap w x = None \<and>
    set_at w' x = set_at w a - (\<Union>b\<in>set (sets_at_keys (entry_of cx w) others). set_at w b) \<and>
    entry_of cx w' = written [(dst, VSet x)] (entry_of cx w) \<and>
    (\<forall>b. b \<noteq> x \<longrightarrow> heap w' b = heap w b)"
  using ks.handleSDIFFSTORE_ok [OF assms(1,2) _ assms(3,4), of _ conn c dst] by (metis params_simps(2))

lemma SDIFFSTORE_stores_witness:
  "\<exists>x w'. handleSDIFFSTORE (getHandlerFuncParams demo_ctx [''SDIFFSTORE'', ''d'', ''k'', ''l''] None)
      (demo_world demo_config [NewSet [''a'', ''b''], NewSet [''b'', ''c'']]
         [(''k'', kept (VSet 0)), (''l'', kept (VSet 1))]) = (Ok (resp_int 1), w') \<and>
    entry_of demo_ctx w' ''d'' = Some (VSet x, False) \<and> set_at w' x = {''a''}"
proof -
  let ?w = "demo_world demo_config [NewSet [''a'', ''b''], NewSet [''b'', ''c'']]
    [(''k'', kept (VSet 0)), (''l'', kept (VSet 1))]"
  have ok: "server_ok ?w" by (rule demo_ok) simp_all
  have nf: "\<not> memory_full ?w" using ok by (intro unlimited_not_full) (simp add: unlimited_def)
  have e: "entry_of demo_ctx ?w ''k'' = Some (VSet 0, False)" by simp
  have o: "\<forall>k\<in>set [''l'']. \<forall>v. entry_of demo_ctx ?w k \<noteq> Some (v, True)" by simp
  have at: "set_at ?w 0 = {''a'', ''b''}" "set_at ?w (Suc 0) = {''b'', ''c''}" by (simp_all add: set_at_def)
  have d: "{''a'', ''b''} - {''b'', ''c''} = {''a''}" by auto
  show ?thesis
    using SDIFFSTORE_stores [where conn = None, OF ok nf e o, of "''SDIFFSTORE''" "''d''"] at d by (auto simp: written_def)
qed

text \<open>C26: SINTERSTORE with one key makes the destination that very set: the two keys share it
  from then on (a later SADD to one changes the other), where a copy is meant.\<close>

theorem SINTERSTORE_one_key_aliases:
  assumes "server_ok w" "\<not> memory_full w" "entry_of cx w key = Some (VSet a, False)"
  shows "\<exists>w'. handleSINTERSTORE (getHandlerFuncParams cx [c, dst, key] conn) w =
      (Ok (resp_int (int (card (set_at w a)))), w') \<and> server_ok w' \<and>
    entry_of cx w' = written [(dst, VSet a)] (entry_of cx w)"
proof -
  have e: "\<forall>k\<in>set [key]. entry_of cx w k = Some (VSet a, False)" using assms(3) by simp
  show ?thesis
    using ks.handleSINTERSTORE_ok [OF assms(1,2) _ _ e, of "[c, dst, key]" conn c dst] by auto
qed

lemma SINTERSTORE_one_key_aliases_witness:
  "\<exists>w'. handleSINTERSTORE (getHandlerFuncParams demo_ctx [''SINTERSTORE'', ''d'', ''k''] None)
      (demo_world demo_config [NewSet [''a'']] [(''k'', kept (VSet 0))]) = (Ok (resp_int 1), w') \<and>
    entry_of demo_ctx w' ''d'' = entry_of demo_ctx w' ''k''"
proof -
  let ?w = "demo_world demo_config [NewSet [''a'']] [(''k'', kept (VSet 0))]"
  have ok: "server_ok ?w" by (rule demo_ok) simp_all
  have nf: "\<not> memory_full ?w" using ok by (intro unlimited_not_full) (simp add: unlimited_def)
  have e: "entry_of demo_ctx ?w ''k'' = Some (VSet 0, False)" by simp
  have at: "set_at ?w 0 = {''a''}" by (simp add: set_at_def)
  obtain w' where w': "handleSINTERSTORE (getHandlerFuncParams demo_ctx [''SINTERSTORE'', ''d'', ''k''] None) ?w =
      (Ok (resp_int (int (card (set_at ?w 0)))), w')"
    "entry_of demo_ctx w' = written [(''d'', VSet 0)] (entry_of demo_ctx ?w)"
    using SINTERSTORE_one_key_aliases [where conn = None, OF ok nf e] by blast
  show ?thesis using w' at by (intro exI [of _ w']) (simp add: written_def)
qed

text \<open>C27: SUNION replies with the union of the sets, each member once; but, declared a read, it
  leaves one of the sets it read changed into the union.\<close>

theorem SUNION_changes_a_source:
  assumes "server_ok w" "ks \<noteq> []" "\<forall>k\<in>set ks. entry_of cx w k = Some (VSet (f k), False)"
  shows "\<exists>ms w'. handleSUNION (getHandlerFuncParams cx (c # ks) conn) w = (Ok (elems_reply ms), w') \<and>
    distinct ms \<and> set ms = (\<Union>k\<in>set ks. set_at w (f k)) \<and> server_ok w' \<and>
    entry_of cx w' = entry_of cx w \<and>
    (\<exists>k\<in>set ks. set_at w' (f k) = (\<Union>k\<in>set ks. set_at w (f k))) \<and>
    (\<forall>b. b \<notin> f ` set ks \<longrightarrow> heap w' b = heap w b)"
  by (rule ks.handleSUNION_ok) (use assms in simp_all)

lemma SUNION_changes_a_source_witness:
  "\<exists>ms w'. handleSUNION (getHandlerFuncParams demo_ctx [''SUNION'', ''k'', ''l''] None)
      (demo_world demo_config [NewSet [''a''], NewSet [''b'']]
         [(''k'', kept (VSet 0)), (''l'', kept (VSet 1))]) = (Ok (elems_reply ms), w') \<and>
    (set_at w' 0 = {''a'', ''b''} \<or> set_at w' 1 = {''a'', ''b''})"
proof -
  let ?w = "demo_world demo_config [NewSet [''a''], NewSet [''b'']]
    [(''k'', kept (VSet 0)), (''l'', kept (VSet 1))]"
  let ?f = "\<lambda>k. if k = ''k'' then 0 else 1 :: nat"
  have ok: "server_ok ?w" by (rule demo_ok) simp_all
  have e: "\<forall>k\<in>set [''k'', ''l'']. entry_of demo_ctx ?w k = Some (VSet (?f k), False)" by simp
  have at: "set_at ?w 0 = {''a''}" "set_at ?w (Suc 0) = {''b''}" by (simp_all add: set_at_def)
  have u: "(\<Union>k\<in>set [''k'', ''l'']. set_at ?w (?f k)) = {''a'', ''b''}" using at by auto
  show ?thesis using SUNION_changes_a_source [where conn = None, OF ok _ e, of "''SUNION''"] unfolding u by auto
qed

end
