(* ===== verification/ListCommands.thy ===== *)
theory ListCommands
  imports SetCommands
begin

text \<open>
  The list commands (\<open>internal/modules/list/commands.go\<close>, \<open>key_funcs.go\<close>). A stored list and
  the list a handler reads share one backing array: LSET, LREM and LMOVE write to it before
  they ask the store to accept the new value, which shows when the store refuses.
\<close>

subsection \<open>Keys of the commands\<close>

definition lpushKeyFunc :: "string list \<Rightarrow> key_result res" where
  "lpushKeyFunc cmd = (if length cmd < 3 then Err WrongArgsResponse else Ok (writes_of [cmd ! 1]))"

text \<open>The optional count of LPOP and RPOP is among the keys.\<close>

definition popKeyFunc :: "string list \<Rightarrow> key_result res" where
  "popKeyFunc cmd =
     (if length cmd < 2 \<or> 3 < length cmd then Err WrongArgsResponse else Ok (writes_of (tl cmd)))"

definition llenKeyFunc :: "string list \<Rightarrow> key_result res" where
  "llenKeyFunc cmd = (if length cmd \<noteq> 2 then Err WrongArgsResponse else Ok (reads_of (tl cmd)))"

definition lrangeKeyFunc :: "string list \<Rightarrow> key_result res" where
  "lrangeKeyFunc cmd = (if length cmd \<noteq> 4 then Err WrongArgsResponse else Ok (reads_of [cmd ! 1]))"

definition lindexKeyFunc :: "string list \<Rightarrow> key_result res" where
  "lindexKeyFunc cmd = (if length cmd \<noteq> 3 then Err WrongArgsResponse else Ok (reads_of [cmd ! 1]))"

definition lsetKeyFunc :: "string list \<Rightarrow> key_result res" where
  "lsetKeyFunc cmd = (if length cmd \<noteq> 4 then Err WrongArgsResponse else Ok (writes_of [cmd ! 1]))"

definition ltrimKeyFunc :: "string list \<Rightarrow> key_result res" where
  "ltrimKeyFunc cmd = (if length cmd \<noteq> 4 then Err WrongArgsResponse else Ok (writes_of [cmd ! 1]))"

definition lremKeyFunc :: "string list \<Rightarrow> key_result res" where
  "lremKeyFunc cmd = (if length cmd \<noteq> 4 then Err WrongArgsResponse else Ok (writes_of [cmd ! 1]))"

definition rpushKeyFunc :: "string list \<Rightarrow> key_result res" where
  "rpushKeyFunc cmd = (if length cmd < 3 then Err WrongArgsResponse else Ok (writes_of [cmd ! 1]))"

definition lmoveKeyFunc :: "string list \<Rightarrow> key_result res" where
  "lmoveKeyFunc cmd =
     (if length cmd \<noteq> 5 then Err WrongArgsResponse else Ok (writes_of [cmd ! 1, cmd ! 2]))"

lemmas list_key_funcs = lpushKeyFunc_def popKeyFunc_def llenKeyFunc_def lrangeKeyFunc_def
  lindexKeyFunc_def lsetKeyFunc_def ltrimKeyFunc_def lremKeyFunc_def rpushKeyFunc_def lmoveKeyFunc_def

subsection \<open>Handlers that read\<close>

definition the_list :: "string \<Rightarrow> go_value \<Rightarrow> 's world \<Rightarrow> string list res \<times> 's world" where
  "the_list msg v w = (case as_list v of None \<Rightarrow> (Err msg, w) | Some l \<Rightarrow> (Ok l, w))"

definition parse_int :: "string \<Rightarrow> string \<Rightarrow> int res" where
  "parse_int msg s = (case atoi s of None \<Rightarrow> Err msg | Some i \<Rightarrow> Ok i)"

definition index_error :: string where "index_error = ''index must be an integer''"
definition start_error :: string where "start_error = ''start index must be an integer''"
definition end_error :: string where "end_error = ''end index must be an integer''"

definition handleLLen :: "'s handler" where
  "handleLLen p w =
     and_then (llenKeyFunc (Command p), w) (\<lambda>keys w.
       let key = hd (ReadKeys keys)
       in if \<not> gm_bool (KeysExist p (Context p) (ReadKeys keys) w) key then (Ok (resp_int 0), w)
          else and_then (get_one p key w) (\<lambda>v w1.
               and_then (the_list ''LLEN command on non-list item'' v w1) (\<lambda>l w2.
                 (Ok (resp_int (int (length l))), w2))))"

text \<open>A negative index counts from the end of the list.\<close>

definition from_end :: "string list \<Rightarrow> int \<Rightarrow> int" where
  "from_end l i = (if i < 0 then int (length l) + i else i)"

definition handleLIndex :: "'s handler" where
  "handleLIndex p w =
     and_then (lindexKeyFunc (Command p), w) (\<lambda>keys w.
       let key = hd (ReadKeys keys)
       in if \<not> gm_bool (KeysExist p (Context p) (ReadKeys keys) w) key then (Ok resp_nil, w)
          else and_then (get_one p key w) (\<lambda>v w1.
               and_then (the_list ''LINDEX command on non-list item'' v w1) (\<lambda>l w2.
               and_then (parse_int index_error (Command p ! 2), w2) (\<lambda>i w3.
                 let i = from_end l i
                 in if int (length l) \<le> i \<or> i < 0 then (Ok resp_nil, w3)
                    else (Ok (resp_bulk (l ! nat i)), w3)))))"

text \<open>
  The bounds LRANGE computes: a negative end is subtracted from the length, not added to it,
  and an end equal to the length is kept.
\<close>

definition lrange_end :: "string list \<Rightarrow> int \<Rightarrow> int" where
  "lrange_end l e =
     (let e = (if e < 0 then i64 (int (length l) - e) else e)
      in if int (length l) < e then int (length l) - 1 else e)"

definition lrange_elems :: "string list \<Rightarrow> int \<Rightarrow> int \<Rightarrow> string list res" where
  "lrange_elems l a e =
     (if a > e \<or> a > int (length l) then Ok []
      else if 0 \<le> a \<and> e < int (length l) then Ok (take (nat (e - a + 1)) (drop (nat a) l))
      else Panic index_out_of_range)"

definition handleLRange :: "'s handler" where
  "handleLRange p w =
     and_then (lrangeKeyFunc (Command p), w) (\<lambda>keys w.
       let key = hd (ReadKeys keys)
       in if \<not> gm_bool (KeysExist p (Context p) (ReadKeys keys) w) key then (Ok (array_head 0), w)
          else and_then (get_one p key w) (\<lambda>v w1.
               and_then (the_list ''LRANGE command on non-list item'' v w1) (\<lambda>l w2.
               and_then (parse_int start_error (Command p ! 2), w2) (\<lambda>a w3.
               and_then (parse_int end_error (Command p ! 3), w3) (\<lambda>e w4.
               and_then (lrange_elems l (from_end l a) (lrange_end l e), w4) (\<lambda>es w5.
                 (Ok (resp_array es), w5)))))))"

subsection \<open>Handlers that write\<close>

definition handleLSet :: "'s handler" where
  "handleLSet p w =
     and_then (lsetKeyFunc (Command p), w) (\<lambda>keys w.
       let key = hd (WriteKeys keys)
       in if \<not> gm_bool (KeysExist p (Context p) (WriteKeys keys) w) key
          then (Err ''LSET command on non-list item'', w)
          else and_then (parse_int index_error (Command p ! 2), w) (\<lambda>i w1.
               and_then (get_one p key w1) (\<lambda>v w2.
               and_then (the_list ''LSET command on non-list item'' v w2) (\<lambda>l w3.
                 let i = from_end l i
                 in if \<not> (0 \<le> i \<and> i < int (length l)) then (Err ''index must be within list range'', w3)
                    else let l' = l[nat i := Command p ! 3];
                             w4 = WriteThrough p (Context p) key (VList l') w3
                         in and_then (SetValues p (Context p) [(key, VList l')] w4) (\<lambda>_ w5.
                              (Ok OkResponse, w5))))))"

definition handleLTrim :: "'s handler" where
  "handleLTrim p w =
     and_then (ltrimKeyFunc (Command p), w) (\<lambda>keys w.
       let key = hd (WriteKeys keys)
       in if \<not> gm_bool (KeysExist p (Context p) (WriteKeys keys) w) key then (Ok OkResponse, w)
          else and_then (parse_int start_error (Command p ! 2), w) (\<lambda>a w1.
               and_then (parse_int end_error (Command p ! 3), w1) (\<lambda>e w2.
               and_then (get_one p key w2) (\<lambda>v w3.
               and_then (the_list ''LTRIM command on non-list item'' v w3) (\<lambda>l w4.
                 let n = int (length l); a = from_end l a; e = from_end l e
                 in if e < a \<or> n - 1 < a
                    then and_then (DeleteKey p (Context p) key w4) (\<lambda>_ w5. (Ok OkResponse, w5))
                    else let e = (if n < e then n else e);
                             e = (if e \<le> n - 1 then e + 1 else e)
                         in and_then (slice_range l a e, w4) (\<lambda>l' w5.
                            and_then (SetValues p (Context p) [(key, VList l')] w5) (\<lambda>_ w6.
                              (Ok OkResponse, w6))))))))"

text \<open>
  \<open>append(list[:i], list[i+1:]...)\<close> on a slice of length \<open>m\<close> of the array \<open>bs\<close>: the tail moves
  down by one and the last slot keeps its element.
\<close>

definition remove_at :: "nat \<Rightarrow> nat \<Rightarrow> string list \<Rightarrow> string list" where
  "remove_at i m bs = take i bs @ take (m - i - 1) (drop (Suc i) bs) @ drop (m - 1) bs"

text \<open>The loops of LREM: the array and the length of the list in it.\<close>

function lrem_forward :: "bool \<Rightarrow> string \<Rightarrow> int \<Rightarrow> nat \<Rightarrow> nat \<Rightarrow> string list \<Rightarrow> nat \<times> string list" where
  "lrem_forward limited v c i m bs =
     (if m \<le> i \<or> limited \<and> c = 0 then (m, bs)
      else if bs ! i = v then lrem_forward limited v (c - 1) (Suc i) (m - 1) (remove_at i m bs)
      else lrem_forward limited v c (Suc i) m bs)"
  by pat_completeness auto
termination
  by (relation "measure (\<lambda>(limited, v, c, i, m, bs). m - i)") auto

declare lrem_forward.simps [simp del]

fun lrem_backward :: "string \<Rightarrow> int \<Rightarrow> nat \<Rightarrow> nat \<Rightarrow> string list \<Rightarrow> nat \<times> string list" where
  "lrem_backward v c 0 m bs = (m, bs)"
| "lrem_backward v c (Suc i) m bs =
     (if c = 0 then (m, bs)
      else if bs ! i = v then lrem_backward v (c - 1) i (m - 1) (remove_at i m bs)
      else lrem_backward v c i m bs)"

definition lrem :: "int \<Rightarrow> string \<Rightarrow> string list \<Rightarrow> nat \<times> string list" where
  "lrem cnt v l =
     (if cnt = 0 then lrem_forward False v 0 0 (length l) l
      else if 0 < cnt then lrem_forward True v (AbsInt cnt) 0 (length l) l
      else lrem_backward v (AbsInt cnt) (length l) (length l) l)"

definition handleLRem :: "'s handler" where
  "handleLRem p w =
     and_then (lremKeyFunc (Command p), w) (\<lambda>keys w.
       let key = hd (WriteKeys keys); exists = gm_bool (KeysExist p (Context p) (WriteKeys keys) w) key
       in and_then (parse_int ''count must be an integer'' (Command p ! 2), w) (\<lambda>cnt w1.
            if \<not> exists then (Ok (resp_int 0), w1)
            else and_then (get_one p key w1) (\<lambda>v w2.
                 and_then (the_list ''LREM command on non-list item'' v w2) (\<lambda>l w3.
                   let (m, bs) = lrem cnt (Command p ! 3) l;
                       w4 = WriteThrough p (Context p) key (VList bs) w3
                   in and_then (SetValues p (Context p) [(key, VList (take m bs))] w4) (\<lambda>_ w5.
                        (Ok (resp_int (int (length l) - int m)), w5))))))"

definition lmove_error :: string where
  "lmove_error = ''wherefrom and whereto arguments must be either LEFT or RIGHT''"

definition lmove_lists_error :: string where
  "lmove_lists_error = ''both source and destination must be lists''"

text \<open>
  \<open>append(sourceList[0:1], destinationList...)\<close> writes into the array of the source when its
  capacity allows, which the environment says where the length does not.
\<close>

definition lmove_left_left :: "'s params \<Rightarrow> string \<Rightarrow> string list \<Rightarrow> string list \<Rightarrow> 's world \<Rightarrow> 's world" where
  "lmove_left_left p source src dst w =
     (let (c, w1) = flip w
      in if Suc (length dst) \<le> length src \<or> odd c
         then WriteThrough p (Context p) source
                (VList (take (length src) (hd src # dst @ drop (Suc (length dst)) src))) w1
         else w1)"

definition handleLMove :: "'s handler" where
  "handleLMove p w =
     and_then (lmoveKeyFunc (Command p), w) (\<lambda>keys w.
       let exists = KeysExist p (Context p) (WriteKeys keys) w;
           source = WriteKeys keys ! 0; destination = WriteKeys keys ! 1;
           from_side = to_lower (Command p ! 3); to_side = to_lower (Command p ! 4)
       in if from_side \<notin> {''left'', ''right''} \<or> to_side \<notin> {''left'', ''right''} then (Err lmove_error, w)
          else if \<not> gm_bool exists source \<or> \<not> gm_bool exists destination then (Err lmove_lists_error, w)
          else and_then (GetValues p (Context p) (WriteKeys keys) w) (\<lambda>m w1.
            case (as_list (gm_value m source), as_list (gm_value m destination)) of
              (Some src, Some dst) \<Rightarrow>
                (if src = [] then (Panic slice_out_of_range, w1)
                 else
                   let rest = (if from_side = ''left'' then tl src else butlast src);
                       e = (if from_side = ''left'' then hd src else last src);
                       new = (if to_side = ''left'' then e # dst else dst @ [e]);
                       w2 = (if from_side = ''left'' \<and> to_side = ''left''
                             then lmove_left_left p source src dst w1 else w1)
                   in and_then (SetValues p (Context p)
                                  (AList.update destination (VList new) [(source, VList rest)]) w2) (\<lambda>_ w3.
                        (Ok OkResponse, w3)))
            | _ \<Rightarrow> (Err lmove_lists_error, w1)))"

text \<open>The common part of LPUSH and RPUSH; \<open>x_name\<close> is the variant that wants an existing key.\<close>

definition push_handler :: "bool \<Rightarrow> string \<Rightarrow> string \<Rightarrow> string \<Rightarrow> 's handler" where
  "push_handler left x_name x_error type_error p w =
     (let key = Command p ! 1; elems = drop 2 (Command p);
          w0 = (if gm_bool (KeysExist p (Context p) [key] w) key then (Ok (), w)
                else if to_lower (hd (Command p)) = x_name then (Err x_error, w)
                else SetValues p (Context p) [(key, VList [])] w)
      in and_then w0 (\<lambda>_ w1.
         and_then (get_one p key w1) (\<lambda>v w2.
         and_then (the_list type_error v w2) (\<lambda>l w3.
         and_then (SetValues p (Context p) [(key, VList (if left then elems @ l else l @ elems))] w3) (\<lambda>_ w4.
           (Ok (resp_int (int (length l) + int (length elems))), w4))))))"

definition handleLPush :: "'s handler" where
  "handleLPush p w =
     and_then (lpushKeyFunc (Command p), w) (\<lambda>keys w.
       push_handler True ''lpushx'' ''LPUSHX command on non-existent key'' ''LPUSH command on non-list item'' p w)"

definition handleRPush :: "'s handler" where
  "handleRPush p w =
     and_then (rpushKeyFunc (Command p), w) (\<lambda>keys w.
       push_handler False ''rpushx'' ''RPUSHX command on non-existent key'' ''RPUSH command on non-list item'' p w)"

text \<open>The loop of LPOP and RPOP.\<close>

fun pop_loop :: "bool \<Rightarrow> nat \<Rightarrow> string list \<Rightarrow> string list \<times> string list" where
  "pop_loop left 0 l = ([], l)"
| "pop_loop left (Suc n) l =
     (let (popped, l') = pop_loop left n (if left then tl l else butlast l)
      in ((if left then hd l else last l) # popped, l'))"

definition handlePop :: "'s handler" where
  "handlePop p w =
     and_then (popKeyFunc (Command p), w) (\<lambda>keys w.
       let key = hd (WriteKeys keys)
       in if \<not> gm_bool (KeysExist p (Context p) (WriteKeys keys) w) key then (Ok resp_nil, w)
          else and_then (get_one p key w) (\<lambda>v w1.
               and_then (the_list (to_upper (hd (Command p)) @ '' command on non-list item'') v w1) (\<lambda>l w2.
               and_then
                 ((if length (Command p) = 3
                   then map_res (\<lambda>c. (True, min (AbsInt c) (int (length l))))
                          (parse_int ''count must be an integer'' (Command p ! 2))
                   else Ok (False, 1)), w2) (\<lambda>(with_count, cnt) w3.
                 if l = [] then (Ok resp_nil, w3)
                 else let (popped, l') = pop_loop (equal_fold (hd (Command p)) ''lpop'') (nat cnt) l
                      in and_then (SetValues p (Context p) [(key, VList l')] w3) (\<lambda>_ w4.
                           if \<not> with_count then (Ok (resp_bulk (hd popped)), w4)
                           else (Ok (resp_array popped), w4))))))"

subsection \<open>The command table\<close>

definition list_commands :: "'s command list" where
  "list_commands =
     [mk_command ''lpush'' ''list'' [''list'', ''write'', ''fast''] True lpushKeyFunc handleLPush,
      mk_command ''lpushx'' ''list'' [''list'', ''write'', ''fast''] True lpushKeyFunc handleLPush,
      mk_command ''lpop'' ''list'' [''list'', ''write'', ''fast''] True popKeyFunc handlePop,
      mk_command ''llen'' ''list'' [''list'', ''read'', ''fast''] False llenKeyFunc handleLLen,
      mk_command ''lrange'' ''list'' [''list'', ''read'', ''slow''] False lrangeKeyFunc handleLRange,
      mk_command ''lindex'' ''list'' [''list'', ''read'', ''fast''] False lindexKeyFunc handleLIndex,
      mk_command ''lset'' ''list'' [''list'', ''write'', ''fast''] True lsetKeyFunc handleLSet,
      mk_command ''ltrim'' ''list'' [''list'', ''write'', ''slow''] True ltrimKeyFunc handleLTrim,
      mk_command ''lrem'' ''list'' [''list'', ''write'', ''slow''] True lremKeyFunc handleLRem,
      mk_command ''lmove'' ''list'' [''list'', ''write'', ''slow''] True lmoveKeyFunc handleLMove,
      mk_command ''rpop'' ''list'' [''list'', ''write'', ''fast''] True popKeyFunc handlePop,
      mk_command ''rpush'' ''list'' [''list'', ''write'', ''fast''] True rpushKeyFunc handleRPush,
      mk_command ''rpushx'' ''list'' [''list'', ''write'', ''fast''] True rpushKeyFunc handleRPush]"

end
