(* ===== verification/ListSpecs.thy ===== *)
theory ListSpecs
  imports ListCommands SetSpecs
begin

text \<open>
  What the list commands do, proved against the interface \<open>kv_store\<close>. The loops of LREM and
  of the pops are first shown equal to reference functions on lists.
\<close>

subsection \<open>LREM\<close>

text \<open>The reference: remove the first \<open>n\<close> occurrences.\<close>

fun remove_first :: "nat \<Rightarrow> 'a \<Rightarrow> 'a list \<Rightarrow> 'a list" where
  "remove_first 0 v xs = xs"
| "remove_first (Suc n) v [] = []"
| "remove_first (Suc n) v (x # xs) =
     (if x = v then remove_first n v xs else x # remove_first (Suc n) v xs)"

text \<open>
  What the forward loop does instead: the element after a removed one is never looked at.
\<close>

fun skip_remove :: "bool \<Rightarrow> int \<Rightarrow> 'a \<Rightarrow> 'a list \<Rightarrow> 'a list" where
  "skip_remove limd c v [] = []"
| "skip_remove limd c v [x] = (if limd \<and> c = 0 then [x] else if x = v then [] else [x])"
| "skip_remove limd c v (x # y # ys) =
     (if limd \<and> c = 0 then x # y # ys
      else if x = v then y # skip_remove limd (c - 1) v ys
      else x # skip_remove limd c v (y # ys))"

lemma remove_first_Nil [simp]: "remove_first n v [] = []"
  by (cases n) simp_all

lemma remove_at_simps:
  assumes "i < m" "m \<le> length bs"
  shows "length (remove_at i m bs) = length bs" "take i (remove_at i m bs) = take i bs"
    "take (m - 1 - i) (drop i (remove_at i m bs)) = take (m - Suc i) (drop (Suc i) bs)"
  using assms by (simp_all add: remove_at_def min_def; arith?)+

lemma segment_Cons:
  assumes "i < m" "m \<le> length bs"
  shows "take (m - i) (drop i bs) = bs ! i # take (m - Suc i) (drop (Suc i) bs)"
proof -
  have "drop i bs = bs ! i # drop (Suc i) bs" using assms by (simp add: Cons_nth_drop_Suc)
  moreover have "m - i = Suc (m - Suc i)" using assms by simp
  ultimately show ?thesis by simp
qed

lemma lrem_backward_spec:
  assumes "i \<le> m" "m \<le> length bs" "0 \<le> c"
  shows "fst (lrem_backward v c i m bs) \<le> length (snd (lrem_backward v c i m bs)) \<and>
    length (snd (lrem_backward v c i m bs)) = length bs \<and>
    take (fst (lrem_backward v c i m bs)) (snd (lrem_backward v c i m bs)) =
      rev (remove_first (nat c) v (rev (take i bs))) @ take (m - i) (drop i bs)"
  using assms
proof (induction v c i m bs rule: lrem_backward.induct)
  case (1 v c m bs)
  then show ?case by (cases "nat c") auto
next
  case (2 v c i m bs)
  have "i < m" using "2.prems"(1) by simp
  note r = remove_at_simps [OF this "2.prems"(2)] and s = segment_Cons [OF this "2.prems"(2)]
  have t: "take (Suc i) bs = take i bs @ [bs ! i]"
    using "2.prems" by (intro take_Suc_conv_app_nth) simp
  consider "c = 0" | "c \<noteq> 0" "bs ! i = v" | "c \<noteq> 0" "bs ! i \<noteq> v" by blast
  then show ?case
  proof cases
    case 1
    have "take m bs = take (Suc i) bs @ take (m - Suc i) (drop (Suc i) bs)"
      using "2.prems"(1) by (metis le_add_diff_inverse take_add)
    then show ?thesis using 1 "2.prems"(2) by simp
  next
    case 2
    then obtain k where k: "nat c = Suc k" "nat (c - 1) = k" using "2.prems"(3) by (cases "nat c") auto
    have "i \<le> m - 1" "m - 1 \<le> length (remove_at i m bs)" "0 \<le> c - 1"
      using \<open>i < m\<close> 2 "2.prems" r(1) by auto
    from "2.IH"(1) [OF 2 this] show ?thesis
      using 2 r k t by simp
  next
    case 3
    then obtain k where k: "nat c = Suc k" using "2.prems"(3) by (cases "nat c") auto
    have "i \<le> m" using \<open>i < m\<close> by simp
    from "2.IH"(2) [OF 3 this "2.prems"(2,3)] show ?thesis
      using 3 k t s by simp
  qed
qed

lemma lrem_forward_spec:
  assumes "i \<le> m" "m \<le> length bs"
  shows "fst (lrem_forward limd v c i m bs) \<le> length (snd (lrem_forward limd v c i m bs)) \<and>
    length (snd (lrem_forward limd v c i m bs)) = length bs \<and>
    take (fst (lrem_forward limd v c i m bs)) (snd (lrem_forward limd v c i m bs)) =
      take i bs @ skip_remove limd c v (take (m - i) (drop i bs))"
  using assms
proof (induction limd v c i m bs rule: lrem_forward.induct)
  case (1 limd v c i m bs)
  consider "m \<le> i" | "i < m" "limd \<and> c = 0" | "i < m" "\<not> (limd \<and> c = 0)" "bs ! i = v"
    | "i < m" "\<not> (limd \<and> c = 0)" "bs ! i \<noteq> v" by linarith
  then show ?case
  proof cases
    case 1
    then have "lrem_forward limd v c i m bs = (m, bs)" by (subst lrem_forward.simps) simp
    then show ?thesis using "1.prems" 1 by simp
  next
    case 2
    have fin: "lrem_forward limd v c i m bs = (m, bs)" using 2 by (subst lrem_forward.simps) simp
    have "skip_remove limd c v xs = xs" for xs using 2(2) by (cases xs rule: remdups_adj.cases) auto
    moreover have "take m bs = take i bs @ take (m - i) (drop i bs)"
      using 2(1) by (metis le_add_diff_inverse less_imp_le_nat take_add)
    ultimately show ?thesis using fin "1.prems" by simp
  next
    case 3
    note r = remove_at_simps [OF 3(1) "1.prems"(2)] and s = segment_Cons [OF 3(1) "1.prems"(2)]
    have step: "lrem_forward limd v c i m bs = lrem_forward limd v (c - 1) (Suc i) (m - 1) (remove_at i m bs)"
      using 3 by (subst lrem_forward.simps) auto
    show ?thesis
    proof (cases "m = Suc i")
      case True
      then have "lrem_forward limd v c i m bs = (i, remove_at i m bs)"
        unfolding step by (subst lrem_forward.simps) simp
      then show ?thesis using True 3 r s "1.prems" by simp
    next
      case False
      then have lt: "Suc i < m" using 3(1) by simp
      note s2 = segment_Cons [OF lt "1.prems"(2)]
      have "Suc i \<le> m - 1" "m - 1 \<le> length (remove_at i m bs)" using lt "1.prems" r(1) by auto
      note IH = "1.IH"(1) [OF _ _ this]
      have ra: "remove_at i m bs = take i bs @ bs ! Suc i # take (m - Suc (Suc i)) (drop (Suc (Suc i)) bs) @ drop (m - 1) bs"
        unfolding remove_at_def using s2 by simp
      have len: "length (take (m - Suc (Suc i)) (drop (Suc (Suc i)) bs)) = m - Suc (Suc i)"
        using "1.prems"(2) by simp
      have "take (Suc i) (remove_at i m bs) = take i bs @ [bs ! Suc i]"
        unfolding ra using lt "1.prems"(2) by simp
      moreover have "take (m - 1 - Suc i) (drop (Suc i) (remove_at i m bs)) =
          take (m - Suc (Suc i)) (drop (Suc (Suc i)) bs)"
        unfolding ra using lt "1.prems"(2) len by simp
      ultimately show ?thesis
        using IH 3 s s2 r(1) unfolding step by auto
    qed
  next
    case 4
    note s = segment_Cons [OF 4(1) "1.prems"(2)]
    have step: "lrem_forward limd v c i m bs = lrem_forward limd v c (Suc i) m bs"
      using 4 by (subst lrem_forward.simps) auto
    have "skip_remove limd c v (x # xs) = x # skip_remove limd c v xs" if "x \<noteq> v" for x xs
      using 4(2) that by (cases xs) auto
    moreover have "take (Suc i) bs = take i bs @ [bs ! i]"
      using 4(1) "1.prems" by (intro take_Suc_conv_app_nth) simp
    ultimately show ?thesis
      using "1.IH"(2) 4 "1.prems" s unfolding step by simp
  qed
qed

text \<open>Without adjacent occurrences both loops do what the command is described to do.\<close>

definition isolated :: "'a \<Rightarrow> 'a list \<Rightarrow> bool" where
  "isolated v xs \<longleftrightarrow> (\<forall>i. Suc i < length xs \<longrightarrow> \<not> (xs ! i = v \<and> xs ! Suc i = v))"

lemma isolated_tl: "isolated v (x # xs) \<Longrightarrow> isolated v xs"
  by (auto simp: isolated_def)

lemma skip_remove_isolated:
  "isolated v xs \<Longrightarrow> skip_remove False c v xs = filter (\<lambda>x. x \<noteq> v) xs"
proof (induction "False" c v xs rule: skip_remove.induct)
  case (3 c v x y ys)
  then show ?case
    using isolated_tl [OF "3.prems"] isolated_tl [OF isolated_tl [OF "3.prems"]] "3.prems"
    by (auto simp: isolated_def [of v "x # y # ys"])
qed auto

lemma skip_remove_isolated_limited:
  "isolated v xs \<Longrightarrow> 0 \<le> c \<Longrightarrow> skip_remove True c v xs = remove_first (nat c) v xs"
proof (induction "True" c v xs rule: skip_remove.induct)
  case (1 c v)
  then show ?case by (cases "nat c") auto
next
  case (2 c v x)
  then show ?case by (cases "nat c") auto
next
  case (3 c v x y ys)
  note i1 = isolated_tl [OF "3.prems"(1)]
  note i2 = isolated_tl [OF i1]
  have xy: "x = v \<Longrightarrow> y \<noteq> v" using "3.prems"(1) by (auto simp: isolated_def)
  show ?case
  proof (cases "c = 0")
    case False
    then obtain k where k: "nat c = Suc k" "nat (c - 1) = k" using "3.prems"(2) by (cases "nat c") auto
    have "remove_first k v (y # ys) = y # remove_first k v ys" if "y \<noteq> v" using that by (cases k) auto
    then show ?thesis
      using "3.hyps" i1 i2 xy k False "3.prems"(2) by auto
  qed simp
qed

lemma lrem_spec:
  shows "fst (lrem n v l) \<le> length (snd (lrem n v l))" "length (snd (lrem n v l)) = length l"
    and "in_i64 n \<Longrightarrow> n < 0 \<Longrightarrow> - (2 ^ 63) < n \<Longrightarrow>
      take (fst (lrem n v l)) (snd (lrem n v l)) = rev (remove_first (nat (- n)) v (rev l))"
    and "n = 0 \<Longrightarrow> take (fst (lrem n v l)) (snd (lrem n v l)) = skip_remove False 0 v l"
    and "0 < n \<Longrightarrow> take (fst (lrem n v l)) (snd (lrem n v l)) = skip_remove True n v l"
proof -
  note f = lrem_forward_spec [of 0 "length l" l]
  have abs: "AbsInt n = - n" if "n < 0" "- (2 ^ 63) < n"
    using that by (simp add: AbsInt_def in_i64_def)
  show "fst (lrem n v l) \<le> length (snd (lrem n v l))" "length (snd (lrem n v l)) = length l"
  proof -
    have bw: "fst (lrem_backward v c i m bs) \<le> length (snd (lrem_backward v c i m bs)) \<and>
      length (snd (lrem_backward v c i m bs)) = length bs" if "i \<le> m" "m \<le> length bs" for c i m bs
      using that
    proof (induction v c i m bs rule: lrem_backward.induct)
      case (2 v c i m bs)
      have "i \<le> m - 1" "i \<le> m" "m - 1 \<le> length bs" using "2.prems" by simp_all
      then show ?case
        using 2 remove_at_simps(1) [of i m bs] by auto
    qed simp
    show "fst (lrem n v l) \<le> length (snd (lrem n v l))" "length (snd (lrem n v l)) = length l"
      unfolding lrem_def using f [THEN conjunct2, THEN conjunct1] f [THEN conjunct1]
        bw [of "length l" "length l" l, THEN conjunct1] bw [of "length l" "length l" l, THEN conjunct2]
      by simp_all
  qed
  show "take (fst (lrem n v l)) (snd (lrem n v l)) = rev (remove_first (nat (- n)) v (rev l))"
    if "n < 0" "- (2 ^ 63) < n"
    using lrem_backward_spec [of "length l" "length l" l "- n" v] that abs by (simp add: lrem_def)
  show "take (fst (lrem n v l)) (snd (lrem n v l)) = skip_remove False 0 v l" if "n = 0"
    using f that by (simp add: lrem_def)
  show "take (fst (lrem n v l)) (snd (lrem n v l)) = skip_remove True n v l" if "0 < n"
    using f that by (simp add: lrem_def AbsInt_def)
qed

subsection \<open>Pops\<close>

lemma pop_loop_left: "n \<le> length l \<Longrightarrow> pop_loop True n l = (take n l, drop n l)"
proof (induction n arbitrary: l)
  case (Suc n)
  then obtain x xs where "l = x # xs" by (cases l) auto
  then show ?case using Suc by simp
qed simp

lemma pop_loop_right:
  "n \<le> length l \<Longrightarrow> pop_loop False n l = (take n (rev l), take (length l - n) l)"
proof (induction n arbitrary: l)
  case (Suc n)
  then obtain x xs where l: "l = xs @ [x]" by (cases l rule: rev_cases) auto
  have "length xs - n = length l - Suc n" "n \<le> length xs" using Suc.prems l by simp_all
  then show ?case using Suc.IH [of xs] l by simp
qed simp

subsection \<open>LRANGE\<close>

lemma lrange_end_negative:
  "e < 0 \<Longrightarrow> int (length l) - e < 2 ^ 63 \<Longrightarrow> lrange_end l e = int (length l) - 1"
  by (simp add: lrange_end_def in_i64_def)

lemma lrange_elems_within:
  "0 \<le> a \<Longrightarrow> a \<le> e \<Longrightarrow> e < int (length l) \<Longrightarrow>
     lrange_elems l a e = Ok (take (nat (e - a + 1)) (drop (nat a) l))"
  by (simp add: lrange_elems_def)

lemma lrange_elems_panics:
  "a \<le> e \<Longrightarrow> a < 0 \<or> e = int (length l) \<Longrightarrow> lrange_elems l a e = Panic index_out_of_range"
  by (auto simp: lrange_elems_def)

subsection \<open>The handlers\<close>

context kv_store begin

text \<open>The steps that reach the list at a live key.\<close>

lemma read_list:
  assumes "inv w" "entry w k = Some (VList l, False)"
  obtains w1 where "inv w1" "heap w1 = heap w" "next_addr w1 = next_addr w" "entry w1 = entry w"
    "full w1 = full w"
    "\<And>msg f. and_then (get_one p k w) (\<lambda>v w1. and_then (the_list msg v w1) (f :: string list \<Rightarrow> 's world \<Rightarrow> 'b res \<times> 's world)) = f l w1"
proof -
  obtain w1 where w1: "get_one p k w = (Ok (live_value (entry w k)), w1)" "inv w1" "heap w1 = heap w"
    "next_addr w1 = next_addr w"
    "(\<forall>v. entry w k \<noteq> Some (v, True)) \<Longrightarrow> entry w1 = entry w \<and> full w1 = full w"
    using get_one_ok [OF assms(1)] by metis
  show thesis
    by (rule that [OF w1(2-4)]) (use w1 assms(2) in \<open>simp_all add: the_list_def\<close>)
qed

text \<open>Storing a list at a live key: nothing but its value changes.\<close>

lemma set_list:
  assumes "inv w" "\<not> full w" "entry w k = Some (v, False)"
  obtains w' where "SetValues p (Context p) [(k, VList l)] w = (Ok (), w')" "inv w'"
    "heap w' = heap w" "next_addr w' = next_addr w" "entry w' = (entry w)(k := Some (VList l, False))"
proof -
  have "value_ok (heap w) (VList l)" by (simp add: value_ok_def)
  from set_one [OF assms(1,2) this] show thesis
    using that assms(3) by (metis (mono_tags, lifting) case_prod_conv option.simps(5) written_one)
qed

lemma handleLLen_ok:
  assumes "inv w" "Command p = [c, key]" "entry w key = Some (VList l, False)"
  shows "\<exists>w'. handleLLen p w = (Ok (resp_int (int (length l))), w') \<and> inv w' \<and> entry w' = entry w \<and> heap w' = heap w"
proof -
  obtain w1 where w1: "inv w1" "heap w1 = heap w" "entry w1 = entry w"
    "\<And>msg f. and_then (get_one p key w) (\<lambda>v w1. and_then (the_list msg v w1) (f :: string list \<Rightarrow> 's world \<Rightarrow> string res \<times> 's world)) = f l w1"
    using read_list [OF assms(1,3)] by metis
  then show ?thesis
    using assms(2,3) exist1 [of key w] by (simp add: handleLLen_def llenKeyFunc_def Let_def)
qed

lemma handleLIndex_ok:
  assumes "inv w" "Command p = [c, key, arg]" "atoi arg = Some i" "entry w key = Some (VList l, False)"
  shows "\<exists>w'. handleLIndex p w =
      (Ok (if - int (length l) \<le> i \<and> i < int (length l)
           then resp_bulk (l ! nat (if i < 0 then int (length l) + i else i)) else resp_nil), w') \<and>
    inv w' \<and> entry w' = entry w \<and> heap w' = heap w"
proof -
  obtain w1 where w1: "inv w1" "heap w1 = heap w" "entry w1 = entry w"
    "\<And>msg f. and_then (get_one p key w) (\<lambda>v w1. and_then (the_list msg v w1) (f :: string list \<Rightarrow> 's world \<Rightarrow> string res \<times> 's world)) = f l w1"
    using read_list [OF assms(1,4)] by metis
  then show ?thesis
    using assms(2-4) exist1 [of key w]
    by (auto simp: handleLIndex_def lindexKeyFunc_def Let_def parse_int_def from_end_def)
qed

lemma handleLRange_ok:
  assumes "inv w" "Command p = [c, key, sa, sb]" "atoi sa = Some a" "atoi sb = Some b"
    "entry w key = Some (VList l, False)"
  shows "\<exists>w'. handleLRange p w =
      (map_res resp_array (lrange_elems l (from_end l a) (lrange_end l b)), w') \<and>
    inv w' \<and> entry w' = entry w \<and> heap w' = heap w"
proof -
  obtain w1 where w1: "inv w1" "heap w1 = heap w" "entry w1 = entry w"
    "\<And>msg f. and_then (get_one p key w) (\<lambda>v w1. and_then (the_list msg v w1) (f :: string list \<Rightarrow> 's world \<Rightarrow> string res \<times> 's world)) = f l w1"
    using read_list [OF assms(1,5)] by metis
  then show ?thesis
    using assms(2-5) exist1 [of key w]
    by (cases "lrange_elems l (from_end l a) (lrange_end l b)")
      (simp_all add: handleLRange_def lrangeKeyFunc_def Let_def parse_int_def)
qed

lemma handleLSet_ok:
  assumes "inv w" "\<not> full w" "Command p = [c, key, arg, x]" "atoi arg = Some i"
    "entry w key = Some (VList l, False)" "- int (length l) \<le> i" "i < int (length l)"
  shows "\<exists>w'. handleLSet p w = (Ok OkResponse, w') \<and> inv w' \<and> heap w' = heap w \<and>
    entry w' = (entry w)(key := Some (VList (l[nat (from_end l i) := x]), False))"
proof -
  obtain w1 where w1: "inv w1" "heap w1 = heap w" "next_addr w1 = next_addr w" "entry w1 = entry w" "full w1 = full w"
    "\<And>msg f. and_then (get_one p key w) (\<lambda>v w1. and_then (the_list msg v w1) (f :: string list \<Rightarrow> 's world \<Rightarrow> string res \<times> 's world)) = f l w1"
    using read_list [OF assms(1,5)] by metis
  let ?l' = "l[nat (from_end l i) := x]"
  let ?w2 = "WriteThrough p (Context p) key (VList ?l') w1"
  have v: "value_ok (heap w1) (VList ?l')" by (simp add: value_ok_def)
  have ew1: "entry w1 key = Some (VList l, False)" using w1(4) assms(5) by simp
  note t = through [OF w1(1) ew1 v]
  have "entry ?w2 key = Some (VList ?l', False)" "\<not> full ?w2" using t w1(5) assms(2) by simp_all
  then obtain w3 where w3: "SetValues p (Context p) [(key, VList ?l')] ?w2 = (Ok (), w3)" "inv w3"
    "heap w3 = heap ?w2" "entry w3 = (entry ?w2)(key := Some (VList ?l', False))"
    using set_list [of ?w2 key "VList ?l'" ?l'] t by metis
  have rng: "0 \<le> from_end l i" "from_end l i < int (length l)" using assms(6,7) by (auto simp: from_end_def)
  have "handleLSet p w = (Ok OkResponse, w3)"
    using assms(3-5) w1(6) w3(1) rng exist1 [of key w]
    by (simp add: handleLSet_def lsetKeyFunc_def Let_def parse_int_def)
  then show ?thesis using w3 t w1 by simp
qed

text \<open>
  LSET on a full store replies with an error, and the element has been replaced.
\<close>

lemma handleLSet_full:
  assumes "inv w" "full w" "Command p = [c, key, arg, x]" "atoi arg = Some i"
    "entry w key = Some (VList l, False)" "- int (length l) \<le> i" "i < int (length l)"
  shows "\<exists>w'. handleLSet p w = (Err max_memory_error, w') \<and> inv w' \<and>
    entry w' = (entry w)(key := Some (VList (l[nat (from_end l i) := x]), False))"
proof -
  obtain w1 where w1: "inv w1" "heap w1 = heap w" "next_addr w1 = next_addr w" "entry w1 = entry w" "full w1 = full w"
    "\<And>msg f. and_then (get_one p key w) (\<lambda>v w1. and_then (the_list msg v w1) (f :: string list \<Rightarrow> 's world \<Rightarrow> string res \<times> 's world)) = f l w1"
    using read_list [OF assms(1,5)] by metis
  let ?l' = "l[nat (from_end l i) := x]"
  let ?w2 = "WriteThrough p (Context p) key (VList ?l') w1"
  have v: "value_ok (heap w1) (VList ?l')" by (simp add: value_ok_def)
  have ew1: "entry w1 key = Some (VList l, False)" using w1(4) assms(5) by simp
  note t = through [OF w1(1) ew1 v]
  have "full ?w2" using t w1(5) assms(2) by simp
  note f = set_full [OF this]
  have rng: "0 \<le> from_end l i" "from_end l i < int (length l)" using assms(6,7) by (auto simp: from_end_def)
  have "handleLSet p w = (Err max_memory_error, ?w2)"
    using assms(3-5) w1(6) f rng exist1 [of key w]
    by (simp add: handleLSet_def lsetKeyFunc_def Let_def parse_int_def)
  then show ?thesis using t w1 by simp
qed

lemma handleLRem_ok:
  assumes "inv w" "\<not> full w" "Command p = [c, key, arg, x]" "atoi arg = Some n"
    "entry w key = Some (VList l, False)"
  shows "\<exists>w'. handleLRem p w = (Ok (resp_int (int (length l) - int (fst (lrem n x l)))), w') \<and> inv w' \<and>
    heap w' = heap w \<and>
    entry w' = (entry w)(key := Some (VList (take (fst (lrem n x l)) (snd (lrem n x l))), False))"
proof -
  obtain w1 where w1: "inv w1" "heap w1 = heap w" "next_addr w1 = next_addr w" "entry w1 = entry w" "full w1 = full w"
    "\<And>msg f. and_then (get_one p key w) (\<lambda>v w1. and_then (the_list msg v w1) (f :: string list \<Rightarrow> 's world \<Rightarrow> string res \<times> 's world)) = f l w1"
    using read_list [OF assms(1,5)] by metis
  let ?bs = "snd (lrem n x l)" and ?l' = "take (fst (lrem n x l)) (snd (lrem n x l))"
  let ?w2 = "WriteThrough p (Context p) key (VList ?bs) w1"
  have v: "value_ok (heap w1) (VList ?bs)" by (simp add: value_ok_def)
  have ew1: "entry w1 key = Some (VList l, False)" using w1(4) assms(5) by simp
  note t = through [OF w1(1) ew1 v]
  have "entry ?w2 key = Some (VList ?bs, False)" "\<not> full ?w2" using t w1(5) assms(2) by simp_all
  then obtain w3 where w3: "SetValues p (Context p) [(key, VList ?l')] ?w2 = (Ok (), w3)" "inv w3"
    "heap w3 = heap ?w2" "entry w3 = (entry ?w2)(key := Some (VList ?l', False))"
    using set_list [of ?w2 key "VList ?bs" ?l'] t by metis
  have "handleLRem p w = (Ok (resp_int (int (length l) - int (fst (lrem n x l)))), w3)"
    using assms(3-5) w1(6) w3(1) exist1 [of key w]
    by (simp add: handleLRem_def lremKeyFunc_def Let_def parse_int_def case_prod_beta)
  then show ?thesis using w3 t w1 by simp
qed

subsection \<open>LTRIM\<close>

lemma handleLTrim_keep:
  assumes "inv w" "\<not> full w" "Command p = [c, key, sa, sb]" "atoi sa = Some a" "atoi sb = Some b"
    "entry w key = Some (VList l, False)" "0 \<le> from_end l a" "from_end l a < int (length l)"
    "from_end l a \<le> from_end l b"
  shows "\<exists>w'. handleLTrim p w = (Ok OkResponse, w') \<and> inv w' \<and> heap w' = heap w \<and>
    entry w' = (entry w)(key :=
      Some (VList (take (nat (from_end l b - from_end l a + 1)) (drop (nat (from_end l a)) l)), False))"
proof -
  obtain w1 where w1: "inv w1" "heap w1 = heap w" "next_addr w1 = next_addr w" "entry w1 = entry w" "full w1 = full w"
    "\<And>msg f. and_then (get_one p key w) (\<lambda>v w1. and_then (the_list msg v w1) (f :: string list \<Rightarrow> 's world \<Rightarrow> string res \<times> 's world)) = f l w1"
    using read_list [OF assms(1,6)] by metis
  let ?a = "from_end l a" and ?b = "from_end l b" and ?n = "int (length l)"
  let ?e = "if ?n < ?b then ?n else ?b"
  let ?e' = "if ?e \<le> ?n - 1 then ?e + 1 else ?e"
  let ?l' = "take (nat (?b - ?a + 1)) (drop (nat ?a) l)"
  have l': "slice_range l ?a ?e' = Ok ?l'"
  proof -
    have "nat (?b - ?a + 1) = nat (?b + 1) - nat ?a"
      using assms(7) nat_diff_distrib [of ?a "?b + 1"] assms(9) by (simp add: algebra_simps)
    then show ?thesis using assms(7-9) by (auto simp: slice_range_def nat_diff_distrib)
  qed
  have "entry w1 key = Some (VList l, False)" "\<not> full w1" using w1(4,5) assms(2,6) by simp_all
  then obtain w2 where w2: "SetValues p (Context p) [(key, VList ?l')] w1 = (Ok (), w2)" "inv w2"
    "heap w2 = heap w1" "entry w2 = (entry w1)(key := Some (VList ?l', False))"
    using set_list [OF w1(1)] by metis
  have "\<not> (?b < ?a \<or> ?n - 1 < ?a)" using assms(8,9) by simp
  then have "handleLTrim p w = (Ok OkResponse, w2)"
    using assms(3-6) w1(6) w2(1) l' exist1 [of key w]
    by (simp add: handleLTrim_def ltrimKeyFunc_def Let_def parse_int_def)
  then show ?thesis using w2 w1 by simp
qed

lemma handleLTrim_delete:
  assumes "inv w" "Command p = [c, key, sa, sb]" "atoi sa = Some a" "atoi sb = Some b"
    "entry w key = Some (VList l, False)" "from_end l b < from_end l a \<or> int (length l) \<le> from_end l a"
  shows "\<exists>w'. handleLTrim p w = (Ok OkResponse, w') \<and> inv w' \<and> heap w' = heap w \<and>
    entry w' = (entry w)(key := None)"
proof -
  obtain w1 where w1: "inv w1" "heap w1 = heap w" "next_addr w1 = next_addr w" "entry w1 = entry w" "full w1 = full w"
    "\<And>msg f. and_then (get_one p key w) (\<lambda>v w1. and_then (the_list msg v w1) (f :: string list \<Rightarrow> 's world \<Rightarrow> string res \<times> 's world)) = f l w1"
    using read_list [OF assms(1,5)] by metis
  have "entry w1 key \<noteq> None" using w1(4) assms(5) by simp
  from delete [OF w1(1) this] obtain w2 where w2: "DeleteKey p (Context p) key w1 = (Ok (), w2)" "inv w2"
    "heap w2 = heap w1" "entry w2 = (entry w1)(key := None)" by blast
  have "from_end l b < from_end l a \<or> int (length l) - 1 < from_end l a" using assms(6) by auto
  then have "handleLTrim p w = (Ok OkResponse, w2)"
    using assms(2-5) w1(6) w2(1) exist1 [of key w]
    by (simp add: handleLTrim_def ltrimKeyFunc_def Let_def parse_int_def)
  then show ?thesis using w2 w1 by simp
qed

lemma handleLTrim_panics:
  assumes "inv w" "Command p = [c, key, sa, sb]" "atoi sa = Some a" "atoi sb = Some b"
    "entry w key = Some (VList l, False)" "from_end l a < 0" "from_end l a \<le> from_end l b" "l \<noteq> []"
  shows "fst (handleLTrim p w) = Panic slice_out_of_range"
proof -
  obtain w1 where w1:
    "\<And>msg f. and_then (get_one p key w) (\<lambda>v w1. and_then (the_list msg v w1) (f :: string list \<Rightarrow> 's world \<Rightarrow> string res \<times> 's world)) = f l w1"
    using read_list [OF assms(1,5)] by metis
  have "\<not> (from_end l b < from_end l a \<or> int (length l) - 1 < from_end l a)" using assms(6,7) by simp
  moreover have "slice_range l (from_end l a) e = Panic slice_out_of_range" for e
    using assms(6) by (simp add: slice_range_def)
  ultimately show ?thesis
    using assms(2-5) w1 exist1 [of key w]
    by (simp add: handleLTrim_def ltrimKeyFunc_def Let_def parse_int_def)
qed

subsection \<open>Pushes and pops\<close>

lemma push_handler_existing:
  assumes "inv w" "\<not> full w" "Command p = c # key # elems" "entry w key = Some (VList l, False)"
  shows "\<exists>w'. push_handler left xn xe te p w = (Ok (resp_int (int (length l + length elems))), w') \<and> inv w' \<and>
    heap w' = heap w \<and>
    entry w' = (entry w)(key := Some (VList (if left then elems @ l else l @ elems), False))"
proof -
  obtain w1 where w1: "inv w1" "heap w1 = heap w" "next_addr w1 = next_addr w" "entry w1 = entry w" "full w1 = full w"
    "\<And>msg f. and_then (get_one p key w) (\<lambda>v w1. and_then (the_list msg v w1) (f :: string list \<Rightarrow> 's world \<Rightarrow> string res \<times> 's world)) = f l w1"
    using read_list [OF assms(1,4)] by metis
  let ?l' = "if left then elems @ l else l @ elems"
  have "entry w1 key = Some (VList l, False)" "\<not> full w1" using w1(4,5) assms(2,4) by simp_all
  then obtain w2 where w2: "SetValues p (Context p) [(key, VList ?l')] w1 = (Ok (), w2)" "inv w2"
    "heap w2 = heap w1" "entry w2 = (entry w1)(key := Some (VList ?l', False))"
    using set_list [OF w1(1)] by metis
  have "push_handler left xn xe te p w = (Ok (resp_int (int (length l + length elems))), w2)"
    using assms(3,4) w1(6) w2(1) exist1 [of key w] by (simp add: push_handler_def Let_def)
  then show ?thesis using w2 w1 by simp
qed

lemma handlePop_ok:
  assumes "inv w" "\<not> full w" "Command p = [c, key]" "entry w key = Some (VList l, False)" "l \<noteq> []"
  shows "\<exists>w'. handlePop p w = (Ok (resp_bulk (if equal_fold c ''lpop'' then hd l else last l)), w') \<and> inv w' \<and>
    heap w' = heap w \<and>
    entry w' = (entry w)(key := Some (VList (if equal_fold c ''lpop'' then tl l else butlast l), False))"
proof -
  obtain w1 where w1: "inv w1" "heap w1 = heap w" "next_addr w1 = next_addr w" "entry w1 = entry w" "full w1 = full w"
    "\<And>msg f. and_then (get_one p key w) (\<lambda>v w1. and_then (the_list msg v w1) (f :: string list \<Rightarrow> 's world \<Rightarrow> string res \<times> 's world)) = f l w1"
    using read_list [OF assms(1,4)] by metis
  let ?l' = "if equal_fold c ''lpop'' then tl l else butlast l"
  have "entry w1 key = Some (VList l, False)" "\<not> full w1" using w1(4,5) assms(2,4) by simp_all
  then obtain w2 where w2: "SetValues p (Context p) [(key, VList ?l')] w1 = (Ok (), w2)" "inv w2"
    "heap w2 = heap w1" "entry w2 = (entry w1)(key := Some (VList ?l', False))"
    using set_list [OF w1(1)] by metis
  have "handlePop p w = (Ok (resp_bulk (if equal_fold c ''lpop'' then hd l else last l)), w2)"
    using assms(3-5) w1(6) w2(1) exist1 [of key w]
    by (simp add: handlePop_def popKeyFunc_def Let_def)
  then show ?thesis using w2 w1 by simp
qed

lemma handlePop_count:
  assumes "inv w" "\<not> full w" "Command p = [c, key, arg]" "atoi arg = Some n" "0 \<le> n"
    and "entry w key = Some (VList l, False)" "l \<noteq> []"
  defines "k \<equiv> min (nat n) (length l)"
  shows "\<exists>w'. handlePop p w =
      (Ok (resp_array (if equal_fold c ''lpop'' then take k l else take k (rev l))), w') \<and> inv w' \<and>
    heap w' = heap w \<and>
    entry w' = (entry w)(key :=
      Some (VList (if equal_fold c ''lpop'' then drop k l else take (length l - k) l), False))"
proof -
  obtain w1 where w1: "inv w1" "heap w1 = heap w" "next_addr w1 = next_addr w" "entry w1 = entry w" "full w1 = full w"
    "\<And>msg f. and_then (get_one p key w) (\<lambda>v w1. and_then (the_list msg v w1) (f :: string list \<Rightarrow> 's world \<Rightarrow> string res \<times> 's world)) = f l w1"
    using read_list [OF assms(1,6)] by metis
  let ?l' = "if equal_fold c ''lpop'' then drop k l else take (length l - k) l"
  have "entry w1 key = Some (VList l, False)" "\<not> full w1" using w1(4,5) assms(2,6) by simp_all
  then obtain w2 where w2: "SetValues p (Context p) [(key, VList ?l')] w1 = (Ok (), w2)" "inv w2"
    "heap w2 = heap w1" "entry w2 = (entry w1)(key := Some (VList ?l', False))"
    using set_list [OF w1(1)] by metis
  have k: "nat (min (AbsInt n) (int (length l))) = k" "k \<le> length l"
    using assms(5) by (auto simp: k_def AbsInt_def min_def)
  have pl: "pop_loop (equal_fold c ''lpop'') k l =
      (if equal_fold c ''lpop'' then take k l else take k (rev l), ?l')"
    using pop_loop_left [OF k(2)] pop_loop_right [OF k(2)] by (cases "equal_fold c ''lpop''") simp_all
  have "handlePop p w = (Ok (resp_array (if equal_fold c ''lpop'' then take k l else take k (rev l))), w2)"
    using assms(3,4,6,7) w1(6) w2(1) exist [of "[key, arg]" w key] k(1) pl
    by (simp add: handlePop_def popKeyFunc_def Let_def parse_int_def)
  then show ?thesis using w2 w1 by simp
qed

text \<open>LMOVE from an empty list, which LPOP leaves behind, panics.\<close>

lemma handleLMove_empty:
  assumes "inv w" "Command p = [c, src, dst, s1, s2]"
    and "to_lower s1 \<in> {''left'', ''right''}" "to_lower s2 \<in> {''left'', ''right''}"
    and "entry w src = Some (VList [], False)" "entry w dst = Some (VList l, False)"
  shows "fst (handleLMove p w) = Panic slice_out_of_range"
proof -
  have "\<forall>k\<in>set [src, dst]. \<forall>v. entry w k \<noteq> Some (v, True)" using assms(5,6) by simp
  then obtain m w1 where m: "GetValues p (Context p) [src, dst] w = (Ok m, w1)"
    "\<forall>k. gm_value m k = (if k \<in> set [src, dst] then live_value (entry w k) else VNil)"
    using get [OF assms(1), of "[src, dst]"] by blast
  have "gm_value m src = VList []" "gm_value m dst = VList l" using m(2) assms(5,6) by simp_all
  then show ?thesis
    using assms(2-6) m(1) exist [of "[src, dst]" w src] exist [of "[src, dst]" w dst]
    by (auto simp: handleLMove_def lmoveKeyFunc_def Let_def)
qed

lemma handleLMove_ok:
  assumes "inv w" "\<not> full w" "Command p = [c, src, dst, s1, s2]" "src \<noteq> dst"
    and "to_lower s1 \<in> {''left'', ''right''}" "to_lower s2 \<in> {''left'', ''right''}"
    and "entry w src = Some (VList l, False)" "entry w dst = Some (VList r, False)" "l \<noteq> []"
  defines "x \<equiv> if to_lower s1 = ''left'' then hd l else last l"
  shows "\<exists>w'. handleLMove p w = (Ok OkResponse, w') \<and> inv w' \<and> heap w' = heap w \<and>
    entry w' = (entry w)(src := Some (VList (if to_lower s1 = ''left'' then tl l else butlast l), False),
                         dst := Some (VList (if to_lower s2 = ''left'' then x # r else r @ [x]), False))"
proof -
  have "\<forall>k\<in>set [src, dst]. \<forall>v. entry w k \<noteq> Some (v, True)" using assms(7,8) by simp
  then obtain m w1 where m: "GetValues p (Context p) [src, dst] w = (Ok m, w1)" "inv w1"
    "\<forall>k. gm_value m k = (if k \<in> set [src, dst] then live_value (entry w k) else VNil)"
    "entry w1 = entry w" "full w1 = full w" "heap w1 = heap w" "next_addr w1 = next_addr w"
    using get [OF assms(1), of "[src, dst]"] by blast
  have vals: "gm_value m src = VList l" "gm_value m dst = VList r" using m(3) assms(7,8) by simp_all
  let ?rest = "if to_lower s1 = ''left'' then tl l else butlast l"
  let ?new = "if to_lower s2 = ''left'' then x # r else r @ [x]"
  let ?es = "AList.update dst (VList ?new) [(src, VList ?rest)]"
  define w2 where "w2 = (if to_lower s1 = ''left'' \<and> to_lower s2 = ''left''
    then lmove_left_left p src l r w1 else w1)"
  have f: "inv (snd (flip w1))" "entry (snd (flip w1)) = entry w1" "full (snd (flip w1)) = full w1"
    using inv_same [OF m(2), of "snd (flip w1)"] by simp_all
  have w2: "inv w2" "heap w2 = heap w" "\<not> full w2" "\<exists>v. entry w2 = (entry w)(src := Some (v, False))"
  proof -
    let ?lst = "VList (take (length l) (hd l # r @ drop (Suc (length r)) l))"
    have e: "entry (snd (flip w1)) src = Some (VList l, False)" using f(2) m(4) assms(7) by simp
    have v: "value_ok (heap (snd (flip w1))) ?lst" by (simp add: value_ok_def)
    note t = through [OF f(1) e v]
    have id: "entry w = (entry w)(src := Some (VList l, False))" using assms(7) by (simp add: fun_eq_iff)
    show "inv w2" "heap w2 = heap w" "\<not> full w2"
      using t f m assms(2) by (auto simp: w2_def lmove_left_left_def case_prod_beta)
    show "\<exists>v. entry w2 = (entry w)(src := Some (v, False))"
      using t f m id by (auto simp: w2_def lmove_left_left_def case_prod_beta)
  qed
  have "\<And>v. v \<in> snd ` set ?es \<Longrightarrow> value_ok (heap w2) v" using assms(4) by (auto simp: value_ok_def)
  moreover have "gm_wf ?es" using gm_wf_update [of "[(src, VList ?rest)]"] by (simp add: gm_wf_def)
  ultimately obtain w3 where w3: "SetValues p (Context p) ?es w2 = (Ok (), w3)" "inv w3"
    "heap w3 = heap w2" "entry w3 = written ?es (entry w2)"
    using set_ok [OF w2(1,3)] by metis
  have ex: "gm_bool (KeysExist p (Context p) [src, dst] w) src" "gm_bool (KeysExist p (Context p) [src, dst] w) dst"
    using exist [of "[src, dst]" w src] exist [of "[src, dst]" w dst] assms(7,8) by simp_all
  have "handleLMove p w = (Ok OkResponse, w3)"
    using assms(3,5,6,9) m(1) vals ex w3(1) [unfolded w2_def]
    by (auto simp: handleLMove_def lmoveKeyFunc_def Let_def x_def)
  moreover have "entry w3 = (entry w)(src := Some (VList ?rest, False), dst := Some (VList ?new, False))"
    unfolding w3(4) using w2(4) assms(4,8) by (auto simp: written_def fun_eq_iff)
  ultimately show ?thesis using w3 w2(2) by simp
qed

end

subsection \<open>Properties\<close>

text \<open>LSET replaces the element at the index, counted from the end when negative, of a live
  list, and changes nothing else.\<close>

theorem LSET_replaces:
  assumes "server_ok w" "\<not> memory_full w" "atoi arg = Some i" "entry_of cx w key = Some (VList l, False)"
    and "- int (length l) \<le> i" "i < int (length l)"
  shows "\<exists>w'. handleLSet (getHandlerFuncParams cx [c, key, arg, x] conn) w = (Ok OkResponse, w') \<and> server_ok w' \<and>
    heap w' = heap w \<and>
    entry_of cx w' = (entry_of cx w)(key :=
      Some (VList (l[nat (if i < 0 then int (length l) + i else i) := x]), False))"
proof -
  have "Command (getHandlerFuncParams cx [c, key, arg, x] conn) = [c, key, arg, x]" by simp
  from ks.handleLSet_ok [OF assms(1,2) this assms(3-6)] show ?thesis unfolding from_end_def .
qed

lemma LSET_replaces_witness:
  "\<exists>w'. handleLSet (getHandlerFuncParams demo_ctx [''LSET'', ''k'', itoa (-1), ''z''] None)
      (demo_world demo_config [] [(''k'', kept (VList [''a'', ''b'']))]) = (Ok OkResponse, w') \<and>
    entry_of demo_ctx w' ''k'' = Some (VList [''a'', ''z''], False)"
proof -
  let ?w = "demo_world demo_config [] [(''k'', kept (VList [''a'', ''b'']))]"
  have ok: "server_ok ?w" by (rule demo_ok) simp_all
  have nf: "\<not> memory_full ?w" using ok by (intro unlimited_not_full) (simp add: unlimited_def)
  have i: "atoi (itoa (-1)) = Some (-1)" by (rule atoi_itoa) (simp add: in_i64_def)
  have e: "entry_of demo_ctx ?w ''k'' = Some (VList [''a'', ''b''], False)" by simp
  show ?thesis using LSET_replaces [where conn = None, OF ok nf i e, of "''LSET''" "''z''"] by auto
qed

text \<open>LSET on a full store replies with an error although the element has been replaced: the
  assignment is made in the stored list before the store is asked.\<close>

theorem LSET_error_after_write:
  assumes "server_ok w" "memory_full w" "atoi arg = Some i" "entry_of cx w key = Some (VList l, False)"
    and "- int (length l) \<le> i" "i < int (length l)"
  shows "\<exists>w'. handleLSet (getHandlerFuncParams cx [c, key, arg, x] conn) w = (Err max_memory_error, w') \<and>
    entry_of cx w' = (entry_of cx w)(key :=
      Some (VList (l[nat (if i < 0 then int (length l) + i else i) := x]), False))"
proof -
  have "Command (getHandlerFuncParams cx [c, key, arg, x] conn) = [c, key, arg, x]" by simp
  from ks.handleLSet_full [OF assms(1,2) this assms(3-6)] show ?thesis unfolding from_end_def by blast
qed

definition full_config :: config where
  "full_config = demo_config\<lparr>MaxMemory := 1\<rparr>"

definition full_world :: "(string \<times> keydata) list \<Rightarrow> sworld" where
  "full_world es = upd (\<lambda>s. s\<lparr>memUsed := 5\<rparr>) (demo_world full_config [] es)"

lemma full_world_ok:
  assumes "server_ok (demo_world full_config [] es)"
  shows "server_ok (full_world es)" "memory_full (full_world es)"
    "entry_of demo_ctx (full_world es) = entry_of demo_ctx (demo_world full_config [] es)"
proof -
  have "sinv (full_world es)"
    by (rule sinv_cong [of "demo_world full_config [] es"])
      (use assms in \<open>simp_all add: server_ok_def full_world_def\<close>)
  then show "server_ok (full_world es)"
    using assms by (simp add: server_ok_def full_world_def raft_sane_def in_i64_def)
  show "memory_full (full_world es)"
    by (simp add: memory_full_def full_world_def full_config_def IsMaxMemoryExceeded_def u64_def)
  show "entry_of demo_ctx (full_world es) = entry_of demo_ctx (demo_world full_config [] es)"
    by (rule entry_of_frame) (simp_all add: full_world_def)
qed

lemma LSET_error_after_write_witness:
  "\<exists>w'. handleLSet (getHandlerFuncParams demo_ctx [''LSET'', ''k'', itoa 0, ''z''] None)
      (full_world [(''k'', kept (VList [''a'']))]) = (Err max_memory_error, w') \<and>
    entry_of demo_ctx w' ''k'' = Some (VList [''z''], False)"
proof -
  have "server_ok (demo_world full_config [] [(''k'', kept (VList [''a'']))])" by (rule demo_ok) simp_all
  note w = full_world_ok [OF this]
  have i: "atoi (itoa 0) = Some 0" by (rule atoi_itoa) (simp add: in_i64_def)
  have e: "entry_of demo_ctx (full_world [(''k'', kept (VList [''a'']))]) ''k'' = Some (VList [''a''], False)"
    by (simp add: w(3))
  show ?thesis using LSET_error_after_write [where conn = None, OF w(1,2) i e, of "''LSET''" "''z''"] by auto
qed

text \<open>LTRIM with bounds in the list keeps exactly the elements between them, both included.\<close>

theorem LTRIM_keeps_range:
  assumes "server_ok w" "\<not> memory_full w" "atoi sa = Some a" "atoi sb = Some b"
    and "entry_of cx w key = Some (VList l, False)" "0 \<le> from_end l a" "from_end l a < int (length l)"
    and "from_end l a \<le> from_end l b"
  shows "\<exists>w'. handleLTrim (getHandlerFuncParams cx [c, key, sa, sb] conn) w = (Ok OkResponse, w') \<and> server_ok w' \<and>
    heap w' = heap w \<and> entry_of cx w' = (entry_of cx w)(key :=
      Some (VList (take (nat (from_end l b - from_end l a + 1)) (drop (nat (from_end l a)) l)), False))"
  by (rule ks.handleLTrim_keep) (use assms in simp_all)

lemma LTRIM_keeps_range_witness:
  "\<exists>w'. handleLTrim (getHandlerFuncParams demo_ctx [''LTRIM'', ''k'', itoa 1, itoa (-2)] None)
      (demo_world demo_config [] [(''k'', kept (VList [''a'', ''b'', ''c'', ''d'']))]) = (Ok OkResponse, w') \<and>
    entry_of demo_ctx w' ''k'' = Some (VList [''b'', ''c''], False)"
proof -
  let ?l = "[''a'', ''b'', ''c'', ''d'']"
  let ?w = "demo_world demo_config [] [(''k'', kept (VList ?l))]"
  have ok: "server_ok ?w" by (rule demo_ok) simp_all
  have nf: "\<not> memory_full ?w" using ok by (intro unlimited_not_full) (simp add: unlimited_def)
  have i: "atoi (itoa 1) = Some 1" "atoi (itoa (-2)) = Some (-2)"
    by (rule atoi_itoa, simp add: in_i64_def)+
  have e: "entry_of demo_ctx ?w ''k'' = Some (VList ?l, False)" by simp
  show ?thesis
    using LTRIM_keeps_range [where conn = None, OF ok nf i e, of "''LTRIM''"] by (auto simp: from_end_def eval_nat_numeral)
qed

text \<open>LREM with a negative count removes that many occurrences of the element from the end of
  the list, and replies with how many it removed.\<close>

theorem LREM_from_tail:
  fixes x :: string
  assumes "server_ok w" "\<not> memory_full w" "atoi arg = Some n" "n < 0" "- (2 ^ 63) < n"
    and "entry_of cx w key = Some (VList l, False)"
  defines "l' \<equiv> rev (remove_first (nat (- n)) x (rev l))"
  shows "\<exists>w'. handleLRem (getHandlerFuncParams cx [c, key, arg, x] conn) w =
      (Ok (resp_int (int (length l) - int (length l'))), w') \<and> server_ok w' \<and> heap w' = heap w \<and>
    entry_of cx w' = (entry_of cx w)(key := Some (VList l', False))"
proof -
  have i: "in_i64 n" by (rule atoi_in_i64 [OF assms(3)])
  have l': "take (fst (lrem n x l)) (snd (lrem n x l)) = l'"
    using lrem_spec(3) [OF i assms(4,5)] by (simp add: l'_def)
  have "fst (lrem n x l) = length l'"
    using arg_cong [OF l', of length] lrem_spec(1,2) [of n x l] by simp
  then show ?thesis
    using ks.handleLRem_ok [OF assms(1,2) _ assms(3,6), of "[c, key, arg, x]" conn c x] l' by simp
qed

lemma LREM_from_tail_witness:
  "\<exists>w'. handleLRem (getHandlerFuncParams demo_ctx [''LREM'', ''k'', itoa (-1), ''a''] None)
      (demo_world demo_config [] [(''k'', kept (VList [''a'', ''b'', ''a'']))]) = (Ok (resp_int 1), w') \<and>
    entry_of demo_ctx w' ''k'' = Some (VList [''a'', ''b''], False)"
proof -
  let ?l = "[''a'', ''b'', ''a'']"
  let ?w = "demo_world demo_config [] [(''k'', kept (VList ?l))]"
  have ok: "server_ok ?w" by (rule demo_ok) simp_all
  have nf: "\<not> memory_full ?w" using ok by (intro unlimited_not_full) (simp add: unlimited_def)
  have i: "atoi (itoa (-1)) = Some (-1)" by (rule atoi_itoa) (simp add: in_i64_def)
  have e: "entry_of demo_ctx ?w ''k'' = Some (VList ?l, False)" by simp
  show ?thesis using LREM_from_tail [where conn = None, OF ok nf i _ _ e, of "''LREM''" "''a''"] by (auto simp: eval_nat_numeral)
qed

text \<open>C33: LREM with a positive or zero count steps over the element that follows a removed one:
  what it leaves is \<open>skip_remove\<close>. On a list without two neighbouring occurrences this is the
  list without the first occurrences (all of them for zero); on \<open>[a, a]\<close> it is \<open>[a]\<close>.\<close>

theorem LREM_skips_neighbours:
  fixes x :: string
  assumes "server_ok w" "\<not> memory_full w" "atoi arg = Some n" "0 \<le> n"
    and "entry_of cx w key = Some (VList l, False)"
  defines "l' \<equiv> skip_remove (n \<noteq> 0) n x l"
  shows "\<exists>w'. handleLRem (getHandlerFuncParams cx [c, key, arg, x] conn) w =
      (Ok (resp_int (int (length l) - int (length l'))), w') \<and> server_ok w' \<and>
    entry_of cx w' = (entry_of cx w)(key := Some (VList l', False)) \<and>
    (isolated x l \<longrightarrow> l' = (if n = 0 then filter (\<lambda>y. y \<noteq> x) l else remove_first (nat n) x l))"
proof -
  have l': "take (fst (lrem n x l)) (snd (lrem n x l)) = l'"
    using lrem_spec(4,5) [of n x l] assms(4) by (cases "n = 0") (simp_all add: l'_def)
  have "fst (lrem n x l) = length l'"
    using arg_cong [OF l', of length] lrem_spec(1,2) [of n x l] by simp
  moreover have "isolated x l \<longrightarrow> l' = (if n = 0 then filter (\<lambda>y. y \<noteq> x) l else remove_first (nat n) x l)"
    using skip_remove_isolated [of x l 0] skip_remove_isolated_limited [of x l n] assms(4)
    by (simp add: l'_def)
  ultimately show ?thesis
    using ks.handleLRem_ok [OF assms(1,2) _ assms(3,5), of "[c, key, arg, x]" conn c x] l' by auto
qed

lemma LREM_skips_neighbours_witness:
  "\<exists>w'. handleLRem (getHandlerFuncParams demo_ctx [''LREM'', ''k'', itoa 0, ''a''] None)
      (demo_world demo_config [] [(''k'', kept (VList [''a'', ''a'']))]) = (Ok (resp_int 1), w') \<and>
    entry_of demo_ctx w' ''k'' = Some (VList [''a''], False)"
proof -
  let ?l = "[''a'', ''a'']"
  let ?w = "demo_world demo_config [] [(''k'', kept (VList ?l))]"
  have ok: "server_ok ?w" by (rule demo_ok) simp_all
  have nf: "\<not> memory_full ?w" using ok by (intro unlimited_not_full) (simp add: unlimited_def)
  have i: "atoi (itoa 0) = Some 0" by (rule atoi_itoa) (simp add: in_i64_def)
  have e: "entry_of demo_ctx ?w ''k'' = Some (VList ?l, False)" by simp
  show ?thesis using LREM_skips_neighbours [where conn = None, OF ok nf i _ e, of "''LREM''" "''a''"] by auto
qed

text \<open>LPOP and RPOP with a count reply with that many elements from their end of the list, as
  far as it goes, in the order they are taken, and leave the rest.\<close>

theorem POP_takes_count:
  assumes "server_ok w" "\<not> memory_full w" "atoi arg = Some n" "0 \<le> n"
    and "entry_of cx w key = Some (VList l, False)" "l \<noteq> []"
  defines "k \<equiv> min (nat n) (length l)"
  shows "\<exists>w'. handlePop (getHandlerFuncParams cx [c, key, arg] conn) w =
      (Ok (resp_array (if equal_fold c ''lpop'' then take k l else take k (rev l))), w') \<and> server_ok w' \<and>
    entry_of cx w' = (entry_of cx w)(key :=
      Some (VList (if equal_fold c ''lpop'' then drop k l else take (length l - k) l), False))"
  using ks.handlePop_count [OF assms(1,2) _ assms(3-6), of "[c, key, arg]" conn c] unfolding k_def by auto

lemma POP_takes_count_witness:
  "\<exists>w'. handlePop (getHandlerFuncParams demo_ctx [''rpop'', ''k'', itoa 2] None)
      (demo_world demo_config [] [(''k'', kept (VList [''a'', ''b'', ''c'']))]) =
        (Ok (resp_array [''c'', ''b'']), w') \<and>
    entry_of demo_ctx w' ''k'' = Some (VList [''a''], False)"
proof -
  let ?l = "[''a'', ''b'', ''c'']"
  let ?w = "demo_world demo_config [] [(''k'', kept (VList ?l))]"
  have ok: "server_ok ?w" by (rule demo_ok) simp_all
  have nf: "\<not> memory_full ?w" using ok by (intro unlimited_not_full) (simp add: unlimited_def)
  have i: "atoi (itoa 2) = Some 2" by (rule atoi_itoa) (simp add: in_i64_def)
  have e: "entry_of demo_ctx ?w ''k'' = Some (VList ?l, False)" by simp
  have c: "\<not> equal_fold ''rpop'' ''lpop''" by code_simp
  show ?thesis using POP_takes_count [where conn = None, OF ok nf i _ e, of "''rpop''"] c by (auto simp: eval_nat_numeral)
qed

text \<open>LMOVE between two different lists takes the element from the one end asked for and puts
  it at the other, and changes nothing else.\<close>

theorem LMOVE_moves:
  assumes "server_ok w" "\<not> memory_full w" "src \<noteq> dst"
    and "to_lower s1 \<in> {''left'', ''right''}" "to_lower s2 \<in> {''left'', ''right''}"
    and "entry_of cx w src = Some (VList l, False)" "entry_of cx w dst = Some (VList r, False)" "l \<noteq> []"
  defines "x \<equiv> if to_lower s1 = ''left'' then hd l else last l"
  shows "\<exists>w'. handleLMove (getHandlerFuncParams cx [c, src, dst, s1, s2] conn) w = (Ok OkResponse, w') \<and> server_ok w' \<and>
    heap w' = heap w \<and>
    entry_of cx w' = (entry_of cx w)(src := Some (VList (if to_lower s1 = ''left'' then tl l else butlast l), False),
                                     dst := Some (VList (if to_lower s2 = ''left'' then x # r else r @ [x]), False))"
  using ks.handleLMove_ok [OF assms(1,2) _ assms(3-8), of "[c, src, dst, s1, s2]" conn c] unfolding x_def by auto

lemma LMOVE_moves_witness:
  "\<exists>w'. handleLMove (getHandlerFuncParams demo_ctx [''LMOVE'', ''k'', ''l'', ''left'', ''right''] None)
      (demo_world demo_config [] [(''k'', kept (VList [''a'', ''b''])), (''l'', kept (VList [''c'']))]) =
        (Ok OkResponse, w') \<and>
    entry_of demo_ctx w' ''k'' = Some (VList [''b''], False) \<and>
    entry_of demo_ctx w' ''l'' = Some (VList [''c'', ''a''], False)"
proof -
  let ?w = "demo_world demo_config [] [(''k'', kept (VList [''a'', ''b''])), (''l'', kept (VList [''c'']))]"
  have ok: "server_ok ?w" by (rule demo_ok) simp_all
  have nf: "\<not> memory_full ?w" using ok by (intro unlimited_not_full) (simp add: unlimited_def)
  have lr: "to_lower ''left'' = ''left''" "to_lower ''right'' = ''right''" by code_simp+
  have e: "entry_of demo_ctx ?w ''k'' = Some (VList [''a'', ''b''], False)"
    "entry_of demo_ctx ?w ''l'' = Some (VList [''c''], False)" by simp_all
  show ?thesis
    using LMOVE_moves [where conn = None, OF ok nf _ _ _ e, of "''left''" "''right''" "''LMOVE''"] lr by auto
qed

end
