(* ===== verification/PubSub.thy ===== *)
theory PubSub
  imports GoText
begin

text \<open>
  Publish and subscribe (\<open>internal/modules/pubsub/channel.go\<close>, \<open>pubsub.go\<close>, \<open>commands.go\<close>). A channel
  has a goroutine that takes the messages sent to it one at a time and starts, for every subscriber
  of that moment, a goroutine that writes the message to its connection. The steps of these
  goroutines are steps of the model (\<open>take_message\<close>, \<open>run_writer\<close>). The queue of a channel holds 4096
  messages; a publisher that finds it full waits, which the model does not show.
\<close>

subsection \<open>Channels\<close>

definition NewChannel :: "string \<Rightarrow> (string \<Rightarrow> bool) option \<Rightarrow> channel" where
  "NewChannel name pattern =
     \<lparr>channel_name = name, channel_pattern = pattern, subscribers = [], messageChan = []\<rparr>"

definition WithPattern :: "libs \<Rightarrow> string \<Rightarrow> channel res" where
  "WithPattern l pattern =
     (case glob_compile l pattern of
        None \<Rightarrow> Panic ''malformed glob pattern''
      | Some f \<Rightarrow> Ok (NewChannel pattern (Some f)))"

definition Ch_Subscribe :: "nat \<Rightarrow> channel \<Rightarrow> channel" where
  "Ch_Subscribe c ch = ch\<lparr>subscribers := List.insert c (subscribers ch)\<rparr>"

definition is_subscriber :: "nat option \<Rightarrow> channel \<Rightarrow> bool" where
  "is_subscriber conn ch \<longleftrightarrow> (case conn of None \<Rightarrow> False | Some c \<Rightarrow> c \<in> set (subscribers ch))"

definition Ch_Unsubscribe :: "nat option \<Rightarrow> channel \<Rightarrow> channel" where
  "Ch_Unsubscribe conn ch = ch\<lparr>subscribers := filter (\<lambda>c. Some c \<noteq> conn) (subscribers ch)\<rparr>"

definition Ch_Publish :: "string \<Rightarrow> channel \<Rightarrow> channel" where
  "Ch_Publish msg ch = ch\<lparr>messageChan := messageChan ch @ [msg]\<rparr>"

definition IsActive :: "channel \<Rightarrow> bool" where
  "IsActive ch \<longleftrightarrow> 0 < length (subscribers ch)"

definition NumSubs :: "channel \<Rightarrow> int" where
  "NumSubs ch = int (length (subscribers ch))"

text \<open>The goroutine of a channel takes its next message.\<close>

definition message_for :: "channel \<Rightarrow> string \<Rightarrow> resp_value list" where
  "message_for ch msg = [RespString ''message'', RespString (channel_name ch), RespString msg]"

definition take_message :: "nat \<Rightarrow> pubsub \<Rightarrow> pubsub" where
  "take_message i ps =
     (let ch = channels ps ! i
      in case messageChan ch of
           [] \<Rightarrow> ps
         | msg # rest \<Rightarrow>
             ps\<lparr>channels := (channels ps)[i := ch\<lparr>messageChan := rest\<rparr>],
                writers := writers ps @ map (\<lambda>c. (c, message_for ch msg)) (subscribers ch)\<rparr>)"

definition run_writer :: "nat \<Rightarrow> pubsub \<Rightarrow> pubsub" where
  "run_writer j ps =
     ps\<lparr>writers := take j (writers ps) @ drop (j + 1) (writers ps),
        written_to := written_to ps @ [writers ps ! j]\<rparr>"

subsection \<open>The module\<close>

definition NewPubSub :: pubsub where
  "NewPubSub = \<lparr>channels = [], writers = [], written_to = []\<rparr>"

definition channel_index :: "string \<Rightarrow> pubsub \<Rightarrow> int" where
  "channel_index name ps = index_func (\<lambda>ch. channel_name ch = name) (channels ps)"

definition write_to :: "nat \<Rightarrow> resp_value list \<Rightarrow> pubsub \<Rightarrow> pubsub" where
  "write_to c v ps = ps\<lparr>written_to := written_to ps @ [(c, v)]\<rparr>"

text \<open>
  One name: a channel with that name is subscribed to as it is, whether or not it is a pattern
  channel; otherwise one is created.
\<close>

definition subscribe_one :: "libs \<Rightarrow> nat \<Rightarrow> bool \<Rightarrow> int \<Rightarrow> string \<Rightarrow> pubsub \<Rightarrow> pubsub res" where
  "subscribe_one l c withPattern n name ps =
     (let i = channel_index name ps;
          reply = [RespString (if withPattern then ''psubscribe'' else ''subscribe''), RespString name, RespInt n]
      in if i = - 1
         then map_res (\<lambda>ch. write_to c reply (ps\<lparr>channels := channels ps @ [Ch_Subscribe c ch]\<rparr>))
                (if withPattern then WithPattern l name else Ok (NewChannel name None))
         else Ok (write_to c reply
                (ps\<lparr>channels := (channels ps)[nat i := Ch_Subscribe c (channels ps ! nat i)]\<rparr>)))"

fun subscribe_loop :: "libs \<Rightarrow> nat \<Rightarrow> bool \<Rightarrow> int \<Rightarrow> string list \<Rightarrow> pubsub \<Rightarrow> pubsub res" where
  "subscribe_loop l c withPattern n [] ps = Ok ps"
| "subscribe_loop l c withPattern n (name # names) ps =
     (case subscribe_one l c withPattern n name ps of
        Ok ps' \<Rightarrow> subscribe_loop l c withPattern (n + 1) names ps'
      | r \<Rightarrow> r)"

definition PS_Subscribe :: "libs \<Rightarrow> nat option \<Rightarrow> string list \<Rightarrow> bool \<Rightarrow> pubsub \<Rightarrow> pubsub res" where
  "PS_Subscribe l conn names withPattern ps =
     (case conn of
        None \<Rightarrow> Panic nil_deref
      | Some c \<Rightarrow> subscribe_loop l c withPattern 1 names ps)"

text \<open>The connection leaves the channels with a property; the names of those it was subscribed to.\<close>

definition leave :: "nat option \<Rightarrow> (channel \<Rightarrow> bool) \<Rightarrow> pubsub \<times> string list \<Rightarrow> pubsub \<times> string list" where
  "leave conn f acc =
     (let (ps, names) = acc
      in (ps\<lparr>channels := map (\<lambda>ch. if f ch then Ch_Unsubscribe conn ch else ch) (channels ps)\<rparr>,
          names @ map channel_name (filter (\<lambda>ch. f ch \<and> is_subscriber conn ch) (channels ps))))"

definition pattern_leaves :: "string \<Rightarrow> (string \<Rightarrow> bool) \<Rightarrow> channel \<Rightarrow> bool" where
  "pattern_leaves pattern g ch \<longleftrightarrow>
     channel_pattern ch \<noteq> None \<and> channel_name ch = pattern \<or> g (channel_name ch)"

fun leave_patterns :: "libs \<Rightarrow> nat option \<Rightarrow> string list \<Rightarrow> pubsub \<times> string list \<Rightarrow> (pubsub \<times> string list) res" where
  "leave_patterns l conn [] acc = Ok acc"
| "leave_patterns l conn (pattern # pats) acc =
     (case glob_compile l pattern of
        None \<Rightarrow> Panic ''malformed glob pattern''
      | Some g \<Rightarrow> leave_patterns l conn pats (leave conn (pattern_leaves pattern g) acc))"

definition unsubscribed_reply :: "string \<Rightarrow> (nat \<times> string) list \<Rightarrow> string" where
  "unsubscribed_reply action xs =
     array_head (int (length xs)) @
     concat (map (\<lambda>(i, name). ''*3'' @ crlf @ ''+'' @ action @ crlf @ resp_bulk name @ resp_int (int i)) xs)"

definition PS_Unsubscribe ::
    "libs \<Rightarrow> nat option \<Rightarrow> string list \<Rightarrow> bool \<Rightarrow> pubsub \<Rightarrow> 's world \<Rightarrow> (pubsub \<times> string) res \<times> 's world" where
  "PS_Unsubscribe l conn names withPattern ps w =
     (let acc1 = (if names = []
                  then leave conn (\<lambda>ch. (channel_pattern ch \<noteq> None) = withPattern) (ps, [])
                  else (ps, []));
          acc2 = leave conn (\<lambda>ch. channel_name ch \<in> set names) acc1
      in and_then (if withPattern then leave_patterns l conn names acc2 else Ok acc2, w) (\<lambda>(ps', left) w.
           let (xs, w1) = go_range (zip [1..<length left + 1] left) w
           in (Ok (ps', unsubscribed_reply (if withPattern then ''punsubscribe'' else ''unsubscribe'') xs), w1)))"

definition hears :: "string \<Rightarrow> channel \<Rightarrow> bool" where
  "hears name ch \<longleftrightarrow> (case channel_pattern ch of None \<Rightarrow> channel_name ch = name | Some f \<Rightarrow> f name)"

definition PS_Publish :: "string \<Rightarrow> string \<Rightarrow> pubsub \<Rightarrow> pubsub" where
  "PS_Publish msg name ps =
     ps\<lparr>channels := map (\<lambda>ch. if hears name ch then Ch_Publish msg ch else ch) (channels ps)\<rparr>"

definition channels_reply :: "channel list \<Rightarrow> string" where
  "channels_reply chs = array_head (int (length chs)) @ concat (map (\<lambda>ch. resp_bulk (channel_name ch)) chs)"

definition PS_Channels :: "libs \<Rightarrow> string \<Rightarrow> pubsub \<Rightarrow> string res" where
  "PS_Channels l pattern ps =
     (if pattern = [] then Ok (channels_reply (filter IsActive (channels ps)))
      else case glob_compile l pattern of
             None \<Rightarrow> Panic ''malformed glob pattern''
           | Some g \<Rightarrow>
               Ok (channels_reply (filter (\<lambda>ch. pattern_leaves pattern g ch \<and> IsActive ch) (channels ps))))"

definition NumPat :: "pubsub \<Rightarrow> int" where
  "NumPat ps = int (length (filter (\<lambda>ch. channel_pattern ch \<noteq> None \<and> IsActive ch) (channels ps)))"

definition numsub_entry :: "pubsub \<Rightarrow> string \<Rightarrow> string" where
  "numsub_entry ps name =
     (let i = channel_index name ps
      in ''*2'' @ crlf @ resp_bulk name @ resp_int (if i = - 1 then 0 else NumSubs (channels ps ! nat i)))"

definition NumSub :: "string list \<Rightarrow> pubsub \<Rightarrow> string" where
  "NumSub names ps = array_head (int (length names)) @ concat (map (numsub_entry ps) names)"

subsection \<open>Handlers\<close>

definition handleSubscribe :: "'s handler" where
  "handleSubscribe p w =
     (let names = tl (Command p)
      in if names = [] then (Err WrongArgsResponse, w)
         else and_then (PS_Subscribe (Libs p w) (Connection p) names
                          (equal_fold (hd (Command p)) ''psubscribe'') (GetPubSub p w), w) (\<lambda>ps w1.
              (Ok [], PutPubSub p ps w1)))"

definition handleUnsubscribe :: "'s handler" where
  "handleUnsubscribe p w =
     and_then (PS_Unsubscribe (Libs p w) (Connection p) (tl (Command p))
                 (equal_fold (hd (Command p)) ''punsubscribe'') (GetPubSub p w) w) (\<lambda>(ps, reply) w1.
       (Ok reply, PutPubSub p ps w1))"

definition handlePublish :: "'s handler" where
  "handlePublish p w =
     (if length (Command p) \<noteq> 3 then (Err WrongArgsResponse, w)
      else (Ok OkResponse, PutPubSub p (PS_Publish (Command p ! 2) (Command p ! 1) (GetPubSub p w)) w))"

definition handlePubSubChannels :: "'s handler" where
  "handlePubSubChannels p w =
     (if 3 < length (Command p) then (Err WrongArgsResponse, w)
      else (PS_Channels (Libs p w) (if length (Command p) = 3 then Command p ! 2 else []) (GetPubSub p w), w))"

definition handlePubSubNumPat :: "'s handler" where
  "handlePubSubNumPat p w = (Ok (resp_int (NumPat (GetPubSub p w))), w)"

definition handlePubSubNumSubs :: "'s handler" where
  "handlePubSubNumSubs p w = (Ok (NumSub (drop 2 (Command p)) (GetPubSub p w)), w)"

subsection \<open>The command table\<close>

definition subscribe_keys :: "string list \<Rightarrow> key_result res" where
  "subscribe_keys cmd = (if length cmd < 2 then Err WrongArgsResponse else Ok (channels_of (tl cmd)))"

definition publish_keys :: "string list \<Rightarrow> key_result res" where
  "publish_keys cmd = (if length cmd \<noteq> 3 then Err WrongArgsResponse else Ok (channels_of [cmd ! 1]))"

definition unsubscribe_keys :: "string list \<Rightarrow> key_result res" where
  "unsubscribe_keys cmd = Ok (channels_of (tl cmd))"

definition pubsub_sub :: "string \<Rightarrow> (string list \<Rightarrow> key_result res) \<Rightarrow> 's handler \<Rightarrow> 's sub_command" where
  "pubsub_sub name kf h =
     \<lparr>SubCommandName = name, SubModule = ''pubsub'', SubCategories = [''pubsub'', ''slow''], SubSync = False,
      SubKeyExtractionFunc = kf, SubHandlerFunc = h\<rparr>"

definition pubsub_handler :: "'s handler" where
  "pubsub_handler p w = (Err ''provide CHANNELS, NUMPAT, or NUMSUB subcommand'', w)"

definition pubsub_commands :: "'s command list" where
  "pubsub_commands =
     [mk_command ''subscribe'' ''pubsub'' [''pubsub'', ''connection'', ''slow''] False subscribe_keys handleSubscribe,
      mk_command ''psubscribe'' ''pubsub'' [''pubsub'', ''connection'', ''slow''] False subscribe_keys handleSubscribe,
      mk_command ''publish'' ''pubsub'' [''pubsub'', ''fast''] True publish_keys handlePublish,
      mk_command ''unsubscribe'' ''pubsub'' [''pubsub'', ''connection'', ''slow''] False unsubscribe_keys handleUnsubscribe,
      mk_command ''punsubscribe'' ''pubsub'' [''pubsub'', ''connection'', ''slow''] False unsubscribe_keys handleUnsubscribe,
      \<lparr>CommandName = ''pubsub'', Module = ''pubsub'', Categories = [],
       SubCommands =
         [pubsub_sub ''channels'' (\<lambda>_. Ok no_keys) handlePubSubChannels,
          pubsub_sub ''numpat'' (\<lambda>_. Ok no_keys) handlePubSubNumPat,
          pubsub_sub ''numsub'' (\<lambda>cmd. Ok (channels_of (drop 2 cmd))) handlePubSubNumSubs],
       Sync = False, KeyExtractionFunc = (\<lambda>_. Ok no_keys), HandlerFunc = pubsub_handler\<rparr>]"

end
