(* ===== verification/PubSubSpecs.thy ===== *)
theory PubSubSpecs
  imports PubSub Demo
begin

text \<open>
  Publish and subscribe as a state machine: the operations of the module, the goroutines of its
  channels and the goroutines that write to connections take turns in any order. The events of a
  run are recorded, and what was written to a connection is bounded by what was published.
\<close>

subsection \<open>Runs\<close>

datatype ps_event =
    Subscribing nat "string list" bool
  | Unsubscribing "nat option" "string list" bool
  | Publishing string string
  | Taking nat
  | Writing nat

inductive ps_run :: "libs \<Rightarrow> ps_event list \<Rightarrow> pubsub \<Rightarrow> bool" for l :: libs where
  start: "ps_run l [] NewPubSub"
| subscribing: "\<lbrakk> ps_run l tr ps; PS_Subscribe l (Some c) names wp ps = Ok ps' \<rbrakk> \<Longrightarrow>
    ps_run l (tr @ [Subscribing c names wp]) ps'"
| unsubscribing: "\<lbrakk> ps_run l tr ps; fst (PS_Unsubscribe l conn names wp ps (w :: unit world)) = Ok (ps', reply) \<rbrakk> \<Longrightarrow>
    ps_run l (tr @ [Unsubscribing conn names wp]) ps'"
| publishing: "ps_run l tr ps \<Longrightarrow> ps_run l (tr @ [Publishing name msg]) (PS_Publish msg name ps)"
| taking: "\<lbrakk> ps_run l tr ps; i < length (channels ps) \<rbrakk> \<Longrightarrow> ps_run l (tr @ [Taking i]) (take_message i ps)"
| writing: "\<lbrakk> ps_run l tr ps; j < length (writers ps) \<rbrakk> \<Longrightarrow> ps_run l (tr @ [Writing j]) (run_writer j ps)"

declare ps_run.intros [intro]

definition joined :: "nat \<Rightarrow> string \<Rightarrow> ps_event list \<Rightarrow> bool" where
  "joined c n tr \<longleftrightarrow> (\<exists>e\<in>set tr. case e of Subscribing d names wp \<Rightarrow> d = c \<and> n \<in> set names | _ \<Rightarrow> False)"

text \<open>A publication reaches the channel of its name, and a channel whose name is a pattern for it.\<close>

definition reaches :: "libs \<Rightarrow> string \<Rightarrow> string \<Rightarrow> bool" where
  "reaches l name n \<longleftrightarrow> name = n \<or> (case glob_compile l n of None \<Rightarrow> False | Some f \<Rightarrow> f name)"

definition publications :: "libs \<Rightarrow> string \<Rightarrow> string \<Rightarrow> ps_event list \<Rightarrow> nat" where
  "publications l n msg tr =
     length (filter (\<lambda>e. case e of Publishing name m \<Rightarrow> m = msg \<and> reaches l name n | _ \<Rightarrow> False) tr)"

definition the_message :: "string \<Rightarrow> string \<Rightarrow> resp_value list" where
  "the_message n msg = [RespString ''message'', RespString n, RespString msg]"

definition queued :: "string \<Rightarrow> string \<Rightarrow> channel list \<Rightarrow> nat" where
  "queued n msg chs = (\<Sum>ch\<leftarrow>chs. if channel_name ch = n then count_list (messageChan ch) msg else 0)"

definition deliveries :: "nat \<Rightarrow> string \<Rightarrow> string \<Rightarrow> pubsub \<Rightarrow> nat" where
  "deliveries c n msg ps =
     count_list (written_to ps) (c, the_message n msg) + count_list (writers ps) (c, the_message n msg)"

subsection \<open>The invariant\<close>

definition channel_ok :: "libs \<Rightarrow> ps_event list \<Rightarrow> channel \<Rightarrow> bool" where
  "channel_ok l tr ch \<longleftrightarrow>
     (channel_pattern ch = None \<or> channel_pattern ch = glob_compile l (channel_name ch)) \<and>
     distinct (subscribers ch) \<and> (\<forall>c\<in>set (subscribers ch). joined c (channel_name ch) tr)"

definition ps_inv :: "libs \<Rightarrow> ps_event list \<Rightarrow> pubsub \<Rightarrow> bool" where
  "ps_inv l tr ps \<longleftrightarrow>
     distinct (map channel_name (channels ps)) \<and> (\<forall>ch\<in>set (channels ps). channel_ok l tr ch) \<and>
     (\<forall>c n msg. deliveries c n msg ps + queued n msg (channels ps) \<le> publications l n msg tr) \<and>
     (\<forall>c n msg. 0 < deliveries c n msg ps \<longrightarrow> joined c n tr)"

lemma joined_append [simp]: "joined c n (tr @ tr') \<longleftrightarrow> joined c n tr \<or> joined c n tr'"
  by (auto simp: joined_def)

lemma joined_one [simp]:
  "joined c n [Subscribing d names wp] \<longleftrightarrow> d = c \<and> n \<in> set names"
  "\<not> joined c n [Unsubscribing co names wp]" "\<not> joined c n [Publishing name msg]"
  "\<not> joined c n [Taking i]" "\<not> joined c n [Writing i]"
  by (simp_all add: joined_def)

lemma publications_append [simp]:
  "publications l n msg (tr @ tr') = publications l n msg tr + publications l n msg tr'"
  by (simp add: publications_def)

lemma publications_one [simp]:
  "publications l n msg [Subscribing d names wp] = 0"
  "publications l n msg [Unsubscribing co names wp] = 0"
  "publications l n msg [Publishing name m] = (if m = msg \<and> reaches l name n then 1 else 0)"
  "publications l n msg [Taking i] = 0" "publications l n msg [Writing i] = 0"
  by (simp_all add: publications_def)

lemma channel_ok_mono: "channel_ok l tr ch \<Longrightarrow> channel_ok l (tr @ tr') ch"
  by (auto simp: channel_ok_def)

lemma queued_simps [simp]:
  "queued n msg [] = 0"
  "queued n msg (ch # chs) =
     (if channel_name ch = n then count_list (messageChan ch) msg else 0) + queued n msg chs"
  "queued n msg (chs @ chs') = queued n msg chs + queued n msg chs'"
  by (simp_all add: queued_def)

lemma queued_absent: "n \<notin> channel_name ` set chs \<Longrightarrow> queued n msg chs = 0"
  by (induction chs) auto

lemma queued_map_same:
  assumes "\<And>ch. channel_name (f ch) = channel_name ch" "\<And>ch. messageChan (f ch) = messageChan ch"
  shows "queued n msg (map f chs) = queued n msg chs"
  by (induction chs) (simp_all add: assms)

lemma list_update_split: "i < length xs \<Longrightarrow> xs[i := x] = take i xs @ x # drop (Suc i) xs"
  by (rule upd_conv_take_nth_drop)

lemma nth_split: "i < length xs \<Longrightarrow> xs = take i xs @ xs ! i # drop (Suc i) xs"
  by (rule id_take_nth_drop)

lemma queued_update:
  assumes "i < length chs" "channel_name ch = channel_name (chs ! i)"
  shows "queued n msg (chs[i := ch]) + (if channel_name ch = n then count_list (messageChan (chs ! i)) msg else 0) =
    queued n msg chs + (if channel_name ch = n then count_list (messageChan ch) msg else 0)"
proof -
  have "queued n msg chs = queued n msg (take i chs @ chs ! i # drop (Suc i) chs)"
    by (subst nth_split [OF assms(1)]) simp
  then show ?thesis using assms(2) by (simp add: list_update_split [OF assms(1)])
qed

lemma names_update:
  "\<lbrakk> i < length chs; channel_name ch = channel_name (chs ! i) \<rbrakk> \<Longrightarrow>
    map channel_name (chs[i := ch]) = map channel_name chs"
  by (simp add: map_update list_update_same_conv)

lemma deliveries_simps [simp]:
  "deliveries c n msg (ps\<lparr>channels := chs\<rparr>) = deliveries c n msg ps"
  "deliveries c n msg (write_to d [RespString a, RespString b, RespInt k] ps) = deliveries c n msg ps"
  by (simp_all add: deliveries_def write_to_def the_message_def)

subsection \<open>Every event keeps the invariant\<close>

lemma channel_fields [simp]:
  "channel_name (Ch_Subscribe c ch) = channel_name ch" "channel_name (Ch_Unsubscribe co ch) = channel_name ch"
  "channel_name (Ch_Publish msg ch) = channel_name ch"
  "channel_pattern (Ch_Subscribe c ch) = channel_pattern ch" "channel_pattern (Ch_Unsubscribe co ch) = channel_pattern ch"
  "channel_pattern (Ch_Publish msg ch) = channel_pattern ch"
  "messageChan (Ch_Subscribe c ch) = messageChan ch" "messageChan (Ch_Unsubscribe co ch) = messageChan ch"
  "messageChan (Ch_Publish msg ch) = messageChan ch @ [msg]" "subscribers (Ch_Publish msg ch) = subscribers ch"
  "subscribers (Ch_Subscribe c ch) = List.insert c (subscribers ch)"
  "subscribers (Ch_Unsubscribe co ch) = filter (\<lambda>c. Some c \<noteq> co) (subscribers ch)"
  by (simp_all add: Ch_Subscribe_def Ch_Unsubscribe_def Ch_Publish_def)

lemma channels_write_to [simp]: "channels (write_to c v ps) = channels ps"
  by (simp add: write_to_def)

lemma ps_inv_mono:
  assumes "ps_inv l tr ps"
  shows "ps_inv l (tr @ tr') ps"
  using assms channel_ok_mono [of l tr _ tr'] by (auto simp: ps_inv_def intro: le_trans trans_le_add1)

lemma subscribe_one_inv:
  assumes inv: "ps_inv l tr ps" and j: "joined c name tr" and ok: "subscribe_one l c wp k name ps = Ok ps'"
  shows "ps_inv l tr ps'"
proof (cases "channel_index name ps = - 1")
  case True
  then have fresh: "name \<notin> channel_name ` set (channels ps)"
    using index_func_neg_iff [of "\<lambda>ch. channel_name ch = name" "channels ps"] by (force simp: channel_index_def)
  obtain pat where pat: "pat = None \<or> pat = glob_compile l name"
    and ps': "ps' = write_to c [RespString (if wp then ''psubscribe'' else ''subscribe''), RespString name, RespInt k]
        (ps\<lparr>channels := channels ps @ [Ch_Subscribe c (NewChannel name pat)]\<rparr>)"
    using ok True by (auto simp: subscribe_one_def WithPattern_def split: if_splits option.splits)
  have "queued n msg [Ch_Subscribe c (NewChannel name pat)] = 0" for n msg
    by (simp add: NewChannel_def)
  moreover have "channel_ok l tr (Ch_Subscribe c (NewChannel name pat))"
    using pat j by (simp add: channel_ok_def NewChannel_def)
  ultimately show ?thesis
    using inv fresh by (auto simp: ps_inv_def ps' NewChannel_def)
next
  case False
  define i where "i = nat (channel_index name ps)"
  have i: "i < length (channels ps)" "channel_name (channels ps ! i) = name"
    using False index_func_neg_iff [of "\<lambda>ch. channel_name ch = name" "channels ps"]
      index_func_nth [of "\<lambda>ch. channel_name ch = name" "channels ps"] index_func_ge [of "\<lambda>ch. channel_name ch = name" "channels ps"]
    by (auto simp: channel_index_def i_def)
  let ?ch = "Ch_Subscribe c (channels ps ! i)"
  have ps': "ps' = write_to c [RespString (if wp then ''psubscribe'' else ''subscribe''), RespString name, RespInt k]
        (ps\<lparr>channels := (channels ps)[i := ?ch]\<rparr>)"
    using ok False by (simp add: subscribe_one_def i_def Let_def)
  have "channel_ok l tr ?ch"
    using inv i j by (auto simp: ps_inv_def channel_ok_def)
  then have "\<forall>ch\<in>set ((channels ps)[i := ?ch]). channel_ok l tr ch"
    using inv set_update_subset_insert [of "channels ps" i ?ch] by (auto simp: ps_inv_def)
  moreover have "queued n msg ((channels ps)[i := ?ch]) = queued n msg (channels ps)" for n msg
    using queued_update [OF i(1), of ?ch n msg] by (auto split: if_splits)
  ultimately show ?thesis
    using inv i by (simp add: ps_inv_def ps' names_update)
qed

lemma subscribe_loop_inv:
  "\<lbrakk> ps_inv l tr ps; \<forall>n\<in>set names. joined c n tr; subscribe_loop l c wp k names ps = Ok ps' \<rbrakk> \<Longrightarrow> ps_inv l tr ps'"
  by (induction names arbitrary: k ps) (auto split: res.splits dest: subscribe_one_inv)

lemma ps_inv_map:
  assumes inv: "ps_inv l tr ps" and chs: "channels ps' = map f (channels ps)"
    and f: "\<And>ch. channel_name (f ch) = channel_name ch" "\<And>ch. channel_ok l tr ch \<Longrightarrow> channel_ok l (tr @ tr') (f ch)"
    and d: "\<And>c n m. deliveries c n m ps' = deliveries c n m ps"
    and q: "\<And>n m. queued n m (channels ps') \<le> queued n m (channels ps) + publications l n m tr'"
  shows "ps_inv l (tr @ tr') ps'"
proof -
  have "deliveries c n m ps' + queued n m (channels ps') \<le> publications l n m (tr @ tr')" for c n m
  proof -
    have "deliveries c n m ps + queued n m (channels ps) \<le> publications l n m tr"
      using inv by (simp add: ps_inv_def)
    then show ?thesis using q [of n m] d [of c n m] by simp
  qed
  moreover have "map channel_name (channels ps') = map channel_name (channels ps)"
    unfolding chs map_map by (rule map_cong) (simp_all add: f(1))
  ultimately show ?thesis
    using inv f(2) d unfolding ps_inv_def by (auto simp: chs simp del: map_map)
qed

lemma leave_inv:
  assumes "ps_inv l tr (fst acc)"
  shows "ps_inv l tr (fst (leave co f acc))"
proof -
  let ?f = "\<lambda>ch. if f ch then Ch_Unsubscribe co ch else ch"
  have "ps_inv l (tr @ []) (fst (leave co f acc))"
  proof (rule ps_inv_map [OF assms, where f = ?f])
    show "channels (fst (leave co f acc)) = map ?f (channels (fst acc))"
      by (simp add: leave_def split: prod.split)
    show "deliveries c n m (fst (leave co f acc)) = deliveries c n m (fst acc)" for c n m
      by (simp add: leave_def split: prod.split)
    have "queued n m (map ?f (channels (fst acc))) = queued n m (channels (fst acc))" for n m
      by (rule queued_map_same) simp_all
    then show "queued n m (channels (fst (leave co f acc))) \<le>
        queued n m (channels (fst acc)) + publications l n m []" for n m
      by (cases acc) (simp add: leave_def)
  qed (auto simp: channel_ok_def)
  then show ?thesis by simp
qed

lemma leave_patterns_inv:
  "\<lbrakk> ps_inv l tr (fst acc); leave_patterns l co pats acc = Ok acc' \<rbrakk> \<Longrightarrow> ps_inv l tr (fst acc')"
proof (induction pats arbitrary: acc)
  case (Cons p pats)
  then obtain g where "leave_patterns l co pats (leave co (pattern_leaves p g) acc) = Ok acc'"
    by (auto split: option.splits)
  then show ?case by (rule Cons.IH [OF leave_inv [OF Cons.prems(1)]])
qed simp

lemma unsubscribe_inv:
  assumes "ps_inv l tr ps" "fst (PS_Unsubscribe l co names wp ps w) = Ok (ps', reply)"
  shows "ps_inv l tr ps'"
proof -
  define acc1 where "acc1 = (if names = [] then leave co (\<lambda>ch. (channel_pattern ch \<noteq> None) = wp) (ps, []) else (ps, []))"
  define acc2 where "acc2 = leave co (\<lambda>ch. channel_name ch \<in> set names) acc1"
  have a2: "ps_inv l tr (fst acc2)"
    unfolding acc2_def acc1_def using assms(1) by (intro leave_inv) (auto intro: leave_inv)
  have "\<exists>left. (if wp then leave_patterns l co names acc2 else Ok acc2) = Ok (ps', left)"
    using assms(2) unfolding PS_Unsubscribe_def Let_def acc1_def [symmetric] acc2_def [symmetric]
    by (cases "if wp then leave_patterns l co names acc2 else Ok acc2") (auto simp: and_then_def split: prod.splits)
  then show ?thesis
    using a2 leave_patterns_inv [OF a2] by (force split: if_splits)
qed

lemma publish_inv:
  assumes inv: "ps_inv l tr ps"
  shows "ps_inv l (tr @ [Publishing name msg]) (PS_Publish msg name ps)"
proof -
  let ?f = "\<lambda>ch. if hears name ch then Ch_Publish msg ch else ch"
  have n: "map channel_name (map ?f chs) = map channel_name chs" for chs by (induction chs) auto
  have q: "queued n m (map ?f chs) \<le> queued n m chs + (if m = msg \<and> reaches l name n then 1 else 0)"
    if "distinct (map channel_name chs)" "\<forall>ch\<in>set chs. channel_ok l tr ch" for chs n m
    using that
  proof (induction chs)
    case (Cons ch chs)
    have r: "reaches l name (channel_name ch)" if "hears name ch"
      using that Cons.prems by (auto simp: hears_def reaches_def channel_ok_def split: option.splits)
    have "channel_name ` set (map ?f chs) = channel_name ` set chs"
      using n [of chs] by (metis list.set_map)
    then have "queued n m (map ?f chs) = 0" "queued n m chs = 0" if "channel_name ch = n"
      using that Cons.prems(1) by (auto intro!: queued_absent)
    then show ?case using Cons r by auto
  qed simp
  show ?thesis
  proof (rule ps_inv_map [OF inv, where f = ?f])
    show "queued n m (channels (PS_Publish msg name ps)) \<le>
        queued n m (channels ps) + publications l n m [Publishing name msg]" for n m
      using inv q [of "channels ps" n m] by (auto simp: PS_Publish_def ps_inv_def split: if_splits)
  qed (auto simp: channel_ok_def PS_Publish_def)
qed

lemma message_for_eq: "message_for ch msg = the_message (channel_name ch) msg"
  by (simp add: message_for_def the_message_def)

lemma count_started:
  assumes "distinct cs"
  shows "count_list (map (\<lambda>d. (d, the_message k msg)) cs) (c, the_message n m) =
    (if c \<in> set cs \<and> k = n \<and> msg = m then 1 else 0)"
  using assms by (induction cs) (auto simp: the_message_def)

lemma take_inv:
  assumes inv: "ps_inv l tr ps" and i: "i < length (channels ps)"
  shows "ps_inv l tr (take_message i ps)"
proof (cases "messageChan (channels ps ! i)")
  case Nil
  then show ?thesis using inv by (simp add: take_message_def)
next
  case (Cons msg rest)
  let ?ch = "channels ps ! i" and ?ps' = "take_message i ps"
  let ?new = "?ch\<lparr>messageChan := rest\<rparr>"
  have ok: "channel_ok l tr ?ch" using inv i by (simp add: ps_inv_def)
  then have sub: "distinct (subscribers ?ch)" "\<forall>c\<in>set (subscribers ?ch). joined c (channel_name ?ch) tr"
    by (simp_all add: channel_ok_def)
  have chs: "channels ?ps' = (channels ps)[i := ?new]" using Cons by (simp add: take_message_def Let_def)
  have d: "deliveries c n m ?ps' = deliveries c n m ps +
      (if c \<in> set (subscribers ?ch) \<and> channel_name ?ch = n \<and> msg = m then 1 else 0)" for c n m
    using count_started [OF sub(1), of "channel_name ?ch" msg c n m] Cons
    by (simp add: take_message_def Let_def deliveries_def message_for_eq)
  have "queued n m (channels ?ps') + (if channel_name ?ch = n \<and> msg = m then 1 else 0) = queued n m (channels ps)" for n m
    using queued_update [OF i, of ?new n m] Cons unfolding chs by (auto split: if_splits)
  then have "deliveries c n m ?ps' + queued n m (channels ?ps') \<le> deliveries c n m ps + queued n m (channels ps)" for c n m
    using d [of c n m] by (smt (verit) add.assoc add.commute le_refl add_mono le_add1 zero_le)
  then have "deliveries c n m ?ps' + queued n m (channels ?ps') \<le> publications l n m tr" for c n m
    using inv le_trans unfolding ps_inv_def by blast
  moreover have "joined c n tr" if "0 < deliveries c n m ?ps'" for c n m
  proof (cases "0 < deliveries c n m ps")
    case True
    then show ?thesis using inv unfolding ps_inv_def by blast
  next
    case False
    then show ?thesis using that d [of c n m] sub(2) by (auto split: if_splits)
  qed
  moreover have "channel_ok l tr ?new" using ok by (simp add: channel_ok_def)
  then have "\<forall>ch\<in>set (channels ?ps'). channel_ok l tr ch"
    using inv set_update_subset_insert [of "channels ps" i ?new] unfolding chs by (auto simp: ps_inv_def)
  ultimately show ?thesis
    using inv i by (auto simp: ps_inv_def chs names_update)
qed

lemma write_inv:
  assumes "ps_inv l tr ps" "j < length (writers ps)"
  shows "ps_inv l tr (run_writer j ps)"
proof -
  have "count_list (writers ps) x =
      count_list (take j (writers ps)) x + count_list (drop (j + 1) (writers ps)) x + (if writers ps ! j = x then 1 else 0)" for x
    by (subst nth_split [OF assms(2)]) simp
  then have "deliveries c n m (run_writer j ps) = deliveries c n m ps" for c n m
    by (simp add: run_writer_def deliveries_def)
  moreover have "channels (run_writer j ps) = channels ps" by (simp add: run_writer_def)
  ultimately show ?thesis using assms(1) by (simp add: ps_inv_def)
qed

theorem ps_run_inv: "ps_run l tr ps \<Longrightarrow> ps_inv l tr ps"
proof (induction rule: ps_run.induct)
  case start
  show ?case by (simp add: ps_inv_def NewPubSub_def deliveries_def)
next
  case (subscribing tr ps c names wp ps')
  from ps_inv_mono [OF subscribing.IH] show ?case
    by (rule subscribe_loop_inv) (use subscribing.hyps(2) in \<open>auto simp: PS_Subscribe_def\<close>)
next
  case (unsubscribing tr ps conn names wp w ps' reply)
  then show ?case by (blast intro: ps_inv_mono unsubscribe_inv)
qed (auto intro: publish_inv ps_inv_mono take_inv write_inv)

text \<open>C13: In every run, whatever the order of operations and goroutines, a message is written to a connection
  under a channel's name at most as often as it was published to a name that reaches the channel, and only where the
  connection had subscribed to the channel.\<close>

theorem pubsub_delivers_at_most_once:
  assumes "ps_run l tr ps"
  shows "count_list (written_to ps) (c, the_message n msg) \<le> publications l n msg tr \<and>
    ((c, the_message n msg) \<in> set (written_to ps) \<longrightarrow> joined c n tr)"
proof -
  note inv = ps_run_inv [OF assms, unfolded ps_inv_def]
  have "deliveries c n msg ps + queued n msg (channels ps) \<le> publications l n msg tr" using inv by blast
  moreover have "0 < deliveries c n msg ps" if "(c, the_message n msg) \<in> set (written_to ps)"
    using that count_list_0_iff [of "written_to ps"] by (fastforce simp: deliveries_def)
  moreover have "0 < deliveries c n msg ps \<longrightarrow> joined c n tr" using inv by blast
  ultimately show ?thesis by (auto simp: deliveries_def)
qed

text \<open>Connection 1 subscribes, one message is published, taken and written.\<close>

definition demo_trace :: "ps_event list" where
  "demo_trace = [Subscribing 1 [''a''] False, Publishing ''a'' ''hi'', Taking 0, Writing 0]"

definition demo_pubsub :: "channel list \<Rightarrow> (nat \<times> resp_value list) list \<Rightarrow> (nat \<times> resp_value list) list \<Rightarrow> pubsub" where
  "demo_pubsub chs ws out = \<lparr>channels = chs, writers = ws, written_to = out\<rparr>"

definition demo_delivered :: pubsub where
  "demo_delivered =
     demo_pubsub [\<lparr>channel_name = ''a'', channel_pattern = None, subscribers = [1], messageChan = []\<rparr>] []
       [(1, [RespString ''subscribe'', RespString ''a'', RespInt 1]), (1, the_message ''a'' ''hi'')]"

lemma demo_run: "ps_run demo_libs demo_trace demo_delivered"
proof -
  let ?ch = "\<lambda>ms. \<lparr>channel_name = ''a'', channel_pattern = None, subscribers = [1], messageChan = ms\<rparr>"
  let ?out = "[(1, [RespString ''subscribe'', RespString ''a'', RespInt 1])]"
  have "PS_Subscribe demo_libs (Some 1) [''a''] False NewPubSub = Ok (demo_pubsub [?ch []] [] ?out)"
    by (simp add: PS_Subscribe_def subscribe_one_def channel_index_def NewPubSub_def NewChannel_def Ch_Subscribe_def
        write_to_def demo_pubsub_def)
  from ps_run.subscribing [OF ps_run.start this]
  have "ps_run demo_libs ([] @ [Subscribing 1 [''a''] False]) (demo_pubsub [?ch []] [] ?out)" .
  note p1 = ps_run.publishing [OF this, of "''a''" "''hi''"]
  have "PS_Publish ''hi'' ''a'' (demo_pubsub [?ch []] [] ?out) = demo_pubsub [?ch [''hi'']] [] ?out"
    by (simp add: PS_Publish_def hears_def Ch_Publish_def demo_pubsub_def)
  note p2 = ps_run.taking [OF p1 [unfolded this], of 0]
  have "take_message 0 (demo_pubsub [?ch [''hi'']] [] ?out) = demo_pubsub [?ch []] [(1, the_message ''a'' ''hi'')] ?out"
    by (simp add: take_message_def Let_def message_for_eq demo_pubsub_def)
  note p3 = ps_run.writing [OF p2 [unfolded this], of 0]
  have "run_writer 0 (demo_pubsub [?ch []] [(1, the_message ''a'' ''hi'')] ?out) = demo_delivered"
    by (simp add: run_writer_def demo_delivered_def demo_pubsub_def)
  with p3 show ?thesis by (simp add: demo_trace_def demo_pubsub_def)
qed

theorem pubsub_delivers_at_most_once_witness:
  "count_list (written_to demo_delivered) (1, the_message ''a'' ''hi'') = 1 \<and>
   publications demo_libs ''a'' ''hi'' demo_trace = 1 \<and> joined 1 ''a'' demo_trace"
  using pubsub_delivers_at_most_once [OF demo_run, of 1 "''a''" "''hi''"]
  by (simp add: demo_delivered_def demo_pubsub_def the_message_def publications_def demo_trace_def reaches_def)

end
