(* ===== verification/ZSetData.thy ===== *)
theory ZSetData
  imports SetData GoText
begin

text \<open>
  The sorted set type (\<open>internal/modules/sorted_set/sorted_set.go\<close>, \<open>utils.go\<close>) and
  \<open>internal.CompareLex\<close>. A sorted set is its map from members to scores; the list that
  \<open>GetAll\<close> builds is in an order of the environment's choosing.
\<close>

subsection \<open>Sorting\<close>

text \<open>
  \<open>slices.SortFunc\<close>. Below 13 elements it is an insertion sort from the left that moves an element
  back over those that compare greater; with a comparison that is an order, every result of
  the algorithm on more elements is also one of this on some order of the input.
\<close>

fun ins_back :: "('a \<Rightarrow> 'a \<Rightarrow> int) \<Rightarrow> 'a \<Rightarrow> 'a list \<Rightarrow> 'a list" where
  "ins_back cmp x [] = [x]"
| "ins_back cmp x (y # ys) = (if cmp x y < 0 then y # ins_back cmp x ys else x # y # ys)"

definition sort_func :: "('a \<Rightarrow> 'a \<Rightarrow> int) \<Rightarrow> 'a list \<Rightarrow> 'a list" where
  "sort_func cmp xs = rev (foldl (\<lambda>acc x. ins_back cmp x acc) [] xs)"

lemma mset_ins_back: "mset (ins_back cmp x ys) = add_mset x (mset ys)"
  by (induction ys) auto

lemma mset_sort_func [simp]: "mset (sort_func cmp xs) = mset xs"
proof -
  have "mset (foldl (\<lambda>acc x. ins_back cmp x acc) acc xs) = mset acc + mset xs" for acc
    by (induction xs arbitrary: acc) (simp_all add: mset_ins_back)
  then show ?thesis by (simp add: sort_func_def)
qed

lemma set_sort_func [simp]: "set (sort_func cmp xs) = set xs"
  using mset_sort_func by (metis mset_eq_setD)

lemma length_sort_func [simp]: "length (sort_func cmp xs) = length xs"
  using mset_sort_func by (metis size_mset)

text \<open>With a total preorder the result is sorted.\<close>

definition cmp_order :: "('a \<Rightarrow> 'a \<Rightarrow> int) \<Rightarrow> bool" where
  "cmp_order cmp \<longleftrightarrow>
     (\<forall>x y. cmp x y < 0 \<longrightarrow> cmp y x \<ge> 0) \<and> (\<forall>x y. cmp x y \<ge> 0 \<longrightarrow> cmp y x \<le> 0) \<and>
     (\<forall>x y z. cmp x y \<le> 0 \<longrightarrow> cmp y z \<le> 0 \<longrightarrow> cmp x z \<le> 0)"

lemma sorted_ins_back:
  assumes "cmp_order cmp" "sorted_wrt (\<lambda>a b. cmp b a \<le> 0) ys"
  shows "sorted_wrt (\<lambda>a b. cmp b a \<le> 0) (ins_back cmp x ys)"
  using assms(2)
proof (induction ys)
  case (Cons y ys)
  have set: "set (ins_back cmp x ys) = insert x (set ys)"
    using mset_ins_back [of cmp x ys] by (metis set_mset_add_mset_insert set_mset_mset)
  show ?case
  proof (cases "cmp x y < 0")
    case True
    then show ?thesis using Cons by (auto simp: set)
  next
    case False
    then have yx: "cmp y x \<le> 0" using assms(1) by (simp add: cmp_order_def)
    then have "cmp z x \<le> 0" if "z \<in> set ys" for z
      using that Cons.prems assms(1) unfolding cmp_order_def by (meson list.set_intros sorted_wrt.simps(2))
    with False yx show ?thesis using Cons.prems by auto
  qed
qed simp

lemma sorted_sort_func:
  assumes "cmp_order cmp"
  shows "sorted_wrt (\<lambda>a b. cmp a b \<le> 0) (sort_func cmp xs)"
proof -
  have "sorted_wrt (\<lambda>a b. cmp b a \<le> 0) (foldl (\<lambda>acc x. ins_back cmp x acc) acc xs)"
    if "sorted_wrt (\<lambda>a b. cmp b a \<le> 0) acc" for acc
    using that by (induction xs arbitrary: acc) (simp_all add: sorted_ins_back [OF assms])
  from this [of "[]"] show ?thesis by (simp add: sort_func_def sorted_wrt_rev)
qed

subsection \<open>Lexicographic comparison\<close>

fun str_contains :: "string \<Rightarrow> string \<Rightarrow> bool" where
  "str_contains [] t = (t = [])"
| "str_contains (c # cs) t = (take (length t) (c # cs) = t \<or> str_contains cs t)"

fun compare_bytes :: "string \<Rightarrow> string \<Rightarrow> int" where
  "compare_bytes (a # s) (b # t) =
     (if (of_char a :: nat) < of_char b then - 1 else if (of_char b :: nat) < of_char a then 1
      else compare_bytes s t)"
| "compare_bytes _ _ = 0"

definition CompareLex :: "string \<Rightarrow> string \<Rightarrow> int" where
  "CompareLex s t =
     (if s = t then 0 else if str_contains s t then 1 else if str_contains t s then - 1
      else compare_bytes s t)"

subsection \<open>The type\<close>

type_synonym zset = "(string \<times> float64) list"

definition NewSortedSet :: "(string \<times> float64) list \<Rightarrow> zset" where
  "NewSortedSet ms = fold (\<lambda>(v, x) z. AList.update v x z) ms []"

definition Z_Contains :: "zset \<Rightarrow> string \<Rightarrow> bool" where
  "Z_Contains z v \<longleftrightarrow> map_of z v \<noteq> None"

text \<open>The score of a member, zero for a string that is not one.\<close>

definition Z_Score :: "zset \<Rightarrow> string \<Rightarrow> float64" where
  "Z_Score z v = (case map_of z v of None \<Rightarrow> FFin 0 | Some x \<Rightarrow> x)"

definition Z_GetAll :: "zset \<Rightarrow> 's world \<Rightarrow> (string \<times> float64) list \<times> 's world" where
  "Z_GetAll z w = go_range z w"

definition Z_Cardinality :: "zset \<Rightarrow> int" where
  "Z_Cardinality z = int (length z)"

text \<open>
  \<open>GetRandom\<close>: with repetition for a negative count; otherwise a drawn member is replaced by the last
  one, so that none is drawn twice.
\<close>

fun draw_members :: "nat \<Rightarrow> 'a list \<Rightarrow> coins \<Rightarrow> 'a list \<times> coins" where
  "draw_members 0 ms cs = ([], cs)"
| "draw_members (Suc n) ms cs =
     (let (res, cs') = draw_members n ms (next_coins cs) in (ms ! intn (cs 0) (length ms) # res, cs'))"

fun draw_unique :: "nat \<Rightarrow> 'a list \<Rightarrow> coins \<Rightarrow> 'a list \<times> coins" where
  "draw_unique 0 ms cs = ([], cs)"
| "draw_unique (Suc n) ms cs =
     (let i = intn (cs 0) (length ms);
          (res, cs') = draw_unique n (butlast (ms[i := last ms])) (next_coins cs)
      in (ms ! i # res, cs'))"

definition Z_GetRandom :: "zset \<Rightarrow> int \<Rightarrow> 's world \<Rightarrow> (string \<times> float64) list \<times> 's world" where
  "Z_GetRandom z n w =
     (let (ms, w1) = Z_GetAll z w
      in if int (length ms) \<le> AbsInt n then (ms, w1)
         else let (res, cs) = (if n < 0 then draw_members else draw_unique) (nat (AbsInt n)) ms (coins w1)
              in (res, w1\<lparr>coins := cs\<rparr>))"

definition Z_Remove :: "zset \<Rightarrow> string \<Rightarrow> zset \<times> bool" where
  "Z_Remove z v = (if Z_Contains z v then (AList.delete v z, True) else (z, False))"

definition Z_Subtract :: "zset \<Rightarrow> zset list \<Rightarrow> zset" where
  "Z_Subtract z others =
     fold (\<lambda>other res. fold (\<lambda>(v, x) r. if Z_Contains r v then fst (Z_Remove r v) else r) other res)
       others (NewSortedSet z)"

subsection \<open>Adding and updating\<close>

text \<open>The options are interfaces that hold a string or nil.\<close>

definition validateUpdatePolicy :: "string option \<Rightarrow> string res" where
  "validateUpdatePolicy u =
     (case u of
        None \<Rightarrow> Ok []
      | Some s \<Rightarrow> if to_lower s \<in> {''nx'', ''xx''} then Ok s
                  else Err ''update policy must be a string of Value NX or XX'')"

definition validateComparison :: "string option \<Rightarrow> string res" where
  "validateComparison c =
     (case c of
        None \<Rightarrow> Ok []
      | Some s \<Rightarrow> if to_lower s \<in> {''lt'', ''gt''} then Ok s
                  else Err ''comparison condition must be a string of Value LT or GT'')"

definition validateChanged :: "string option \<Rightarrow> string res" where
  "validateChanged c =
     (case c of
        None \<Rightarrow> Ok []
      | Some s \<Rightarrow> if equal_fold s ''ch'' then Ok s else Err ''changed condition should be a string of Value CH'')"

definition validateIncr :: "string option \<Rightarrow> string res" where
  "validateIncr i =
     (case i of
        None \<Rightarrow> Ok []
      | Some s \<Rightarrow> if equal_fold s ''incr'' then Ok s else Err ''incr condition should be a string of Value INCR'')"

definition compareScores :: "float64 \<Rightarrow> float64 \<Rightarrow> string \<Rightarrow> float64" where
  "compareScores old new cond =
     (if to_lower cond = ''lt'' then (if f_less new old then new else old)
      else if to_lower cond = ''gt'' then (if f_less old new then new else old)
      else new)"

text \<open>One member under the update policy: the new set and what it adds to the count.\<close>

definition add_member :: "string \<Rightarrow> string \<Rightarrow> string \<Rightarrow> zset \<Rightarrow> string \<times> float64 \<Rightarrow> zset \<times> int" where
  "add_member policy cond ch z m =
     (let (v, x) = m
      in if equal_fold policy ''xx''
         then (if Z_Contains z v
               then (AList.update v (compareScores (Z_Score z v) x cond) z, if equal_fold ch ''ch'' then 1 else 0)
               else (z, 0))
         else if equal_fold policy ''nx''
         then (if Z_Contains z v then (z, 0) else (AList.update v x z, 1))
         else (AList.update v (compareScores (Z_Score z v) x cond) z,
               if \<not> f_eq (Z_Score z v) x \<or> \<not> Z_Contains z v then 1 else 0))"

fun add_members :: "string \<Rightarrow> string \<Rightarrow> string \<Rightarrow> zset \<Rightarrow> int \<Rightarrow> (string \<times> float64) list \<Rightarrow> zset \<times> int" where
  "add_members policy cond ch z n [] = (z, n)"
| "add_members policy cond ch z n (m # ms) =
     (let (z', k) = add_member policy cond ch z m in add_members policy cond ch z' (n + k) ms)"

definition incr_member :: "string \<Rightarrow> zset \<Rightarrow> string \<times> float64 \<Rightarrow> (zset \<times> int) res" where
  "incr_member ch z m =
     (let (v, x) = m
      in if \<not> Z_Contains z v then Ok (AList.update v x z, 1)
         else if f_eq (Z_Score z v) (FInf True) \<or> f_eq (Z_Score z v) (FInf False)
         then Err ''cannot increment -inf or +inf''
         else Ok (AList.update v (f_add (Z_Score z v) x) z, if equal_fold ch ''ch'' then 1 else 0))"

definition AddOrUpdate ::
    "zset \<Rightarrow> (string \<times> float64) list \<Rightarrow> string option \<Rightarrow> string option \<Rightarrow> string option \<Rightarrow> string option \<Rightarrow>
      (zset \<times> int) res" where
  "AddOrUpdate z ms updatePolicy comparison changed incr =
     fst (and_then (validateUpdatePolicy updatePolicy, ()) (\<lambda>policy u.
          and_then (validateComparison comparison, u) (\<lambda>cond u.
          and_then (validateChanged changed, u) (\<lambda>ch u.
          and_then (validateIncr incr, u) (\<lambda>inc u.
            (if equal_fold policy ''nx'' \<and> cond \<noteq> []
             then Err ''cannot use GT or LT when update policy is NX''
             else if equal_fold inc ''incr''
             then (case ms of
                     [m] \<Rightarrow> incr_member ch z m
                   | _ \<Rightarrow> Err ''INCR can only be used with one member/Score pair'')
             else Ok (add_members policy cond ch z 0 ms), u))))))"

subsection \<open>Popping\<close>

definition pop_order :: "string \<Rightarrow> string \<times> float64 \<Rightarrow> string \<times> float64 \<Rightarrow> int" where
  "pop_order policy a b =
     (if equal_fold policy ''min'' then f_compare (snd a) (snd b) else f_compare (snd b) (snd a))"

definition Z_Pop :: "zset \<Rightarrow> int \<Rightarrow> string \<Rightarrow> 's world \<Rightarrow> (zset \<times> zset) res \<times> 's world" where
  "Z_Pop z n policy w =
     (if to_lower policy \<notin> {''min'', ''max''} then (Err ''policy must be MIN or MAX'', w)
      else if n < 0 then (Err ''count must be a positive integer'', w)
      else if n = 0 then (Ok ([], z), w)
      else let (ms, w1) = Z_GetAll z w;
               popped = take (nat n) (sort_func (pop_order policy) ms)
           in (Ok (fst (add_members [] [] [] [] 0 popped),
                   fold (\<lambda>(v, x) r. fst (Z_Remove r v)) popped z), w1))"

subsection \<open>Union and intersection\<close>

definition aggregate_scores :: "string \<Rightarrow> float64 \<Rightarrow> float64 \<Rightarrow> float64" where
  "aggregate_scores agg l r =
     (if agg = ''sum'' then f_add l r
      else if agg = ''min'' then compareScores l r ''lt''
      else compareScores l r ''gt'')"

definition weigh :: "zset \<times> int \<Rightarrow> (string \<times> float64) list" where
  "weigh zw = map (\<lambda>(v, x). (v, f_mul x (float_of_int (snd zw)))) (fst zw)"

text \<open>
  The params built from two sides: the order of iteration has no influence, since the values
  are distinct and go into a map.
\<close>

definition union_params :: "string \<Rightarrow> (string \<times> float64) list \<Rightarrow> (string \<times> float64) list \<Rightarrow> (string \<times> float64) list" where
  "union_params agg l r =
     map (\<lambda>(v, x). (v, if Z_Contains r v then aggregate_scores agg x (Z_Score r v) else x)) l @
     filter (\<lambda>(v, x). v \<notin> fst ` set l) r"

definition inter_params :: "string \<Rightarrow> (string \<times> float64) list \<Rightarrow> (string \<times> float64) list \<Rightarrow> (string \<times> float64) list" where
  "inter_params agg l r =
     map (\<lambda>(v, x). (v, aggregate_scores agg x (Z_Score r v))) (filter (\<lambda>(v, x). Z_Contains r v) l)"

function Z_Union :: "string \<Rightarrow> (zset \<times> int) list \<Rightarrow> zset" where
  "Z_Union agg ps =
     (case ps of
        [] \<Rightarrow> NewSortedSet []
      | [a] \<Rightarrow> NewSortedSet (weigh a)
      | [a, b] \<Rightarrow> NewSortedSet (union_params agg (weigh a) (weigh b))
      | _ \<Rightarrow> NewSortedSet (union_params agg (Z_Union agg (take (length ps div 2) ps))
                                            (Z_Union agg (drop (length ps div 2) ps))))"
  by pat_completeness auto
termination
  by (relation "measure (\<lambda>(agg, ps). length ps)") auto

function Z_Intersect :: "string \<Rightarrow> (zset \<times> int) list \<Rightarrow> zset" where
  "Z_Intersect agg ps =
     (case ps of
        [] \<Rightarrow> NewSortedSet []
      | [a] \<Rightarrow> NewSortedSet (weigh a)
      | [a, b] \<Rightarrow> NewSortedSet (inter_params agg (weigh a) (weigh b))
      | _ \<Rightarrow> NewSortedSet (inter_params agg (Z_Intersect agg (take (length ps div 2) ps))
                                            (Z_Intersect agg (drop (length ps div 2) ps))))"
  by pat_completeness auto
termination
  by (relation "measure (\<lambda>(agg, ps). length ps)") auto

declare Z_Union.simps [simp del] Z_Intersect.simps [simp del]

subsection \<open>Weights, aggregate and scores in a command\<close>

text \<open>The weights after WEIGHTS, up to the next option.\<close>

fun weight_list :: "string list \<Rightarrow> int list res" where
  "weight_list [] = Ok []"
| "weight_list (s # ss) =
     (if to_lower s \<in> {''aggregate'', ''withscores''} then Ok []
      else (case atoi s of
              None \<Rightarrow> Err (atoi_error s)
            | Some i \<Rightarrow> map_res (\<lambda>is. i # is) (weight_list ss)))"

definition first_index :: "int list \<Rightarrow> int" where
  "first_index is =
     fold (\<lambda>i first. if i = - 1 then first else if first = - 1 \<or> i < first then i else first) is (- 1)"

definition option_index :: "string \<Rightarrow> string list \<Rightarrow> int" where
  "option_index name cmd = index_func (\<lambda>s. equal_fold s name) cmd"

definition aggregate_option :: "string list \<Rightarrow> int \<Rightarrow> string res" where
  "aggregate_option cmd i =
     (if i = - 1 then Ok ''sum''
      else if int (length cmd) \<le> i + 1 then Panic index_out_of_range
      else let a = to_lower (cmd ! nat (i + 1))
           in if a \<in> {''sum'', ''min'', ''max''} then Ok a else Err ''aggregate must be SUM, MIN, or MAX'')"

definition extractKeysWeightsAggregateWithScores ::
    "string list \<Rightarrow> (string list \<times> int list \<times> string \<times> bool) res" where
  "extractKeysWeightsAggregateWithScores cmd =
     (let wi = option_index ''weights'' cmd; ai = option_index ''aggregate'' cmd;
          si = option_index ''withscores'' cmd; first = first_index [wi, ai, si]
      in fst (and_then (if wi = - 1 then Ok [] else weight_list (drop (nat (wi + 1)) cmd), ()) (\<lambda>weights u.
              and_then (aggregate_option cmd ai, u) (\<lambda>agg u.
              and_then (slice_range cmd 1 (if first = - 1 then int (length cmd) else first), u) (\<lambda>keys u.
                (if wi \<noteq> - 1 \<and> length keys \<noteq> length weights
                 then Err ''number of weights should match number of keys''
                 else Ok (keys, if wi = - 1 then replicate (length keys) 1 else weights, agg, si \<noteq> - 1), u))))))"

end
