(* ===== verification/AccessControl.thy ===== *)
theory AccessControl
  imports ZSetData
begin

text \<open>
  Access control (\<open>internal/modules/acl/user.go\<close>, \<open>acl.go\<close>): the rules of a user and how a list of
  words changes them, the list of users, the users of connections, and the check that a
  connection may run a command. Slices of a user are values; what \<open>AuthorizeConnection\<close> does to the
  memory of the command it is given is modelled.
\<close>

subsection \<open>Users\<close>

definition CreateUser :: "string \<Rightarrow> user" where
  "CreateUser name =
     \<lparr>Username = name, Enabled = True, NoPassword = False, NoKeys = False, Passwords = [],
      IncludedCategories = [], ExcludedCategories = [], IncludedCommands = [], ExcludedCommands = [],
      IncludedReadKeys = [], IncludedWriteKeys = [],
      IncludedPubSubChannels = [], ExcludedPubSubChannels = []\<rparr>"

definition PasswordPlainText :: string where "PasswordPlainText = ''plaintext''"
definition PasswordSHA256 :: string where "PasswordSHA256 = ''SHA256''"

definition GetPasswordType :: "string \<Rightarrow> string res" where
  "GetPasswordType pw =
     (case pw of
        [] \<Rightarrow> Panic index_out_of_range
      | c # _ \<Rightarrow> Ok (if c = CHR 0x23 then PasswordSHA256 else PasswordPlainText))"

text \<open>
  The distinct entries, the alias read as \<open>*\<close>, in the order of an iteration over a map. The entry
  \<open>*\<close> stays only where it is alone.
\<close>

definition RemoveDuplicateEntries :: "string list \<Rightarrow> string \<Rightarrow> 's world \<Rightarrow> string list \<times> 's world" where
  "RemoveDuplicateEntries entries allAlias w =
     (let keys = remdups (map (\<lambda>e. if e = allAlias then ''*'' else e) entries);
          (ks, w1) = go_range keys w
      in (if keys = [''*''] then [''*''] else filter (\<lambda>k. k \<noteq> ''*'') ks, w1))"

definition all_if_empty :: "string list \<Rightarrow> string list" where
  "all_if_empty xs = (if xs = [] then [''*''] else xs)"

definition password_rank :: "password \<Rightarrow> nat" where
  "password_rank pw = (if PasswordType pw = PasswordSHA256 then 1 else 0)"

definition normalise_categories :: "user \<Rightarrow> 's world \<Rightarrow> user \<times> 's world" where
  "normalise_categories u w =
     (let (inc, w1) = RemoveDuplicateEntries (IncludedCategories u) ''allCategories'' w;
          (exc, w2) = RemoveDuplicateEntries (ExcludedCategories u) ''allCategories'' w1
      in (u\<lparr>IncludedCategories := (if ''*'' \<in> set exc then [] else all_if_empty inc), ExcludedCategories := exc\<rparr>, w2))"

definition normalise_commands :: "user \<Rightarrow> 's world \<Rightarrow> user \<times> 's world" where
  "normalise_commands u w =
     (let (inc, w1) = RemoveDuplicateEntries (IncludedCommands u) ''allCommands'' w;
          (exc, w2) = RemoveDuplicateEntries (ExcludedCommands u) ''allCommands'' w1
      in (u\<lparr>IncludedCommands := (if ''*'' \<in> set exc then [] else all_if_empty inc), ExcludedCommands := exc\<rparr>, w2))"

definition normalise_keys :: "user \<Rightarrow> 's world \<Rightarrow> user \<times> 's world" where
  "normalise_keys u w =
     (let (r, w1) = RemoveDuplicateEntries (IncludedReadKeys u) ''allKeys'' w;
          (wr, w2) = RemoveDuplicateEntries (IncludedWriteKeys u) ''allKeys'' w1
      in (u\<lparr>IncludedReadKeys := (if NoKeys u then r else all_if_empty r),
            IncludedWriteKeys := (if NoKeys u then wr else all_if_empty wr)\<rparr>, w2))"

definition normalise_channels :: "user \<Rightarrow> 's world \<Rightarrow> user \<times> 's world" where
  "normalise_channels u w =
     (let (inc, w1) = RemoveDuplicateEntries (IncludedPubSubChannels u) ''allChannels'' w;
          (exc, w2) = RemoveDuplicateEntries (ExcludedPubSubChannels u) ''allChannels'' w1
      in (u\<lparr>IncludedPubSubChannels := (if ''*'' \<in> set exc then [] else all_if_empty inc),
            ExcludedPubSubChannels := exc\<rparr>, w2))"

definition Normalise :: "user \<Rightarrow> 's world \<Rightarrow> user \<times> 's world" where
  "Normalise u w =
     (let (u1, w1) = normalise_categories u w; (u2, w2) = normalise_commands u1 w1;
          (u3, w3) = normalise_keys u2 w2; (u4, w4) = normalise_channels u3 w3
      in (u4\<lparr>Passwords := sort_key password_rank (Passwords u4)\<rparr>, w4))"

text \<open>
  One word of a rule list, after \<open>on\<close> and \<open>off\<close>. The tests are those of the code, in its order;
  a word that none of them takes is ignored.
\<close>

definition switch_user :: "string \<Rightarrow> user \<Rightarrow> user" where
  "switch_user s u =
     (if equal_fold s ''off'' then u\<lparr>Enabled := False\<rparr>
      else if equal_fold s ''on'' then u\<lparr>Enabled := True\<rparr> else u)"

definition drop_password :: "string \<Rightarrow> string \<Rightarrow> user \<Rightarrow> user" where
  "drop_password ty v u =
     u\<lparr>Passwords := filter (\<lambda>pw. \<not> (equal_fold (PasswordType pw) ty \<and> PasswordValue pw = v)) (Passwords u)\<rparr>"

definition add_read_key :: "string \<Rightarrow> user \<Rightarrow> user" where
  "add_read_key k u = u\<lparr>IncludedReadKeys := IncludedReadKeys u @ [k], NoKeys := False\<rparr>"

definition add_write_key :: "string \<Rightarrow> user \<Rightarrow> user" where
  "add_write_key k u = u\<lparr>IncludedWriteKeys := IncludedWriteKeys u @ [k], NoKeys := False\<rparr>"

definition update_token :: "string \<Rightarrow> user \<Rightarrow> user res" where
  "update_token s u0 =
     (let u = switch_user s u0; c = hd s; n = length s
      in if s = [] then Panic index_out_of_range
         else if c = CHR ''>'' \<or> c = CHR 0x23
         then map_res (\<lambda>ty. u\<lparr>Passwords := Passwords u @ [\<lparr>PasswordType = ty, PasswordValue = tl s\<rparr>], NoPassword := False\<rparr>)
                (GetPasswordType s)
         else if c = CHR ''<'' then Ok (drop_password PasswordPlainText (tl s) u)
         else if c = CHR ''!'' then Ok (drop_password PasswordSHA256 (tl s) u)
         else if equal_fold s ''nocommands'' then Ok (u\<lparr>ExcludedCategories := [''*''], ExcludedCommands := [''*'']\<rparr>)
         else if equal_fold s ''allCategories'' then Ok (u\<lparr>IncludedCategories := [''*'']\<rparr>)
         else if 3 < n \<and> s ! 1 = CHR ''@'' \<and> c = CHR ''+''
         then Ok (u\<lparr>IncludedCategories := IncludedCategories u @ [drop 2 s]\<rparr>)
         else if 3 < n \<and> s ! 1 = CHR ''@'' \<and> c = CHR ''-''
         then Ok (u\<lparr>ExcludedCategories := ExcludedCategories u @ [drop 2 s]\<rparr>)
         else if equal_fold s ''allKeys''
         then Ok (u\<lparr>IncludedReadKeys := [''*''], IncludedWriteKeys := [''*''], NoKeys := False\<rparr>)
         else if 1 < n \<and> c = CHR 0x7E then Ok (add_write_key (tl s) (add_read_key (tl s) u))
         else if 4 < n \<and> equal_fold (take 4 s) ''%RW~'' then Ok (add_write_key (drop 4 s) (add_read_key (drop 4 s) u))
         else if 3 < n \<and> equal_fold (take 3 s) ''%R~'' then Ok (add_read_key (drop 3 s) u)
         else if 3 < n \<and> equal_fold (take 3 s) ''%W~'' then Ok (add_write_key (drop 3 s) u)
         else if equal_fold s ''allChannels'' then Ok (u\<lparr>IncludedPubSubChannels := [''*'']\<rparr>)
         else if 2 < n \<and> s ! 1 = CHR 0x26 \<and> c = CHR ''+''
         then Ok (u\<lparr>IncludedPubSubChannels := IncludedPubSubChannels u @ [drop 2 s]\<rparr>)
         else if 2 < n \<and> s ! 1 = CHR 0x26 \<and> c = CHR ''-''
         then Ok (u\<lparr>ExcludedPubSubChannels := ExcludedPubSubChannels u @ [drop 2 s]\<rparr>)
         else if equal_fold s ''allCommands'' then Ok (u\<lparr>IncludedCommands := [''*''], ExcludedCommands := []\<rparr>)
         else if 2 < n \<and> s ! 1 \<noteq> CHR 0x26 \<and> s ! 1 \<noteq> CHR ''@'' \<and> c = CHR ''+''
         then Ok (u\<lparr>IncludedCommands := IncludedCommands u @ [tl s]\<rparr>)
         else if 2 < n \<and> s ! 1 \<noteq> CHR 0x26 \<and> s ! 1 \<noteq> CHR ''@'' \<and> c = CHR ''-''
         then Ok (u\<lparr>ExcludedCommands := ExcludedCommands u @ [tl s]\<rparr>)
         else Ok u)"

fun update_tokens :: "string list \<Rightarrow> user \<Rightarrow> user res" where
  "update_tokens [] u = Ok u"
| "update_tokens (s # ss) u = (case update_token s u of Ok u' \<Rightarrow> update_tokens ss u' | r \<Rightarrow> r)"

text \<open>The words that take effect after all others, whatever their place.\<close>

definition nopass_token :: "string \<Rightarrow> user \<Rightarrow> user" where
  "nopass_token s u = (if equal_fold s ''nopass'' then u\<lparr>Passwords := [], NoPassword := True\<rparr> else u)"

definition reset_token :: "string \<Rightarrow> user \<Rightarrow> user" where
  "reset_token s u =
     (let u1 = (if equal_fold s ''resetpass'' then u\<lparr>Passwords := [], NoPassword := False\<rparr> else u);
          u2 = (if equal_fold s ''nocommands''
                then u1\<lparr>IncludedCommands := [], ExcludedCommands := [''*''],
                        IncludedCategories := [], ExcludedCategories := [''*'']\<rparr> else u1);
          u3 = (if s \<in> {''resetkeys'', ''nokeys''}
                then u2\<lparr>IncludedReadKeys := [], IncludedWriteKeys := [], NoKeys := True\<rparr> else u2)
      in if equal_fold s ''resetchannels''
         then u3\<lparr>IncludedPubSubChannels := [], ExcludedPubSubChannels := [''*'']\<rparr> else u3)"

definition UpdateUser :: "string list \<Rightarrow> user \<Rightarrow> user res" where
  "UpdateUser cmd u = map_res (\<lambda>u1. fold reset_token cmd (fold nopass_token cmd u1)) (update_tokens cmd u)"

text \<open>Merging adds the whole list of new passwords once for every password that is new.\<close>

definition merge_passwords :: "password list \<Rightarrow> password list \<Rightarrow> password list" where
  "merge_passwords old new = fold (\<lambda>pw ps. if pw \<in> set ps then ps else ps @ new) new old"

definition Merge :: "user \<Rightarrow> user \<Rightarrow> 's world \<Rightarrow> user \<times> 's world" where
  "Merge u new w =
     Normalise
       (u\<lparr>Enabled := Enabled new, NoKeys := NoKeys new, NoPassword := NoPassword new,
          IncludedCategories := IncludedCategories u @ IncludedCategories new,
          ExcludedCategories := ExcludedCategories u @ ExcludedCategories new,
          IncludedCommands := IncludedCommands u @ IncludedCommands new,
          ExcludedCommands := ExcludedCommands u @ ExcludedCommands new,
          IncludedReadKeys := IncludedReadKeys u @ IncludedReadKeys new,
          IncludedWriteKeys := IncludedWriteKeys u @ IncludedWriteKeys new,
          IncludedPubSubChannels := IncludedPubSubChannels u @ IncludedPubSubChannels new,
          ExcludedPubSubChannels := ExcludedPubSubChannels u @ ExcludedPubSubChannels new,
          Passwords := merge_passwords (Passwords u) (Passwords new)\<rparr>) w"

definition Replace :: "user \<Rightarrow> user \<Rightarrow> user" where
  "Replace u new = new\<lparr>Username := Username u\<rparr>"

subsection \<open>The list of users\<close>

definition user_at :: "acl \<Rightarrow> nat \<Rightarrow> user" where
  "user_at a i = user_heap a ! i"

definition put_user :: "nat \<Rightarrow> user \<Rightarrow> acl \<Rightarrow> acl" where
  "put_user i u a = a\<lparr>user_heap := (user_heap a)[i := u]\<rparr>"

definition append_user :: "user \<Rightarrow> acl \<Rightarrow> acl" where
  "append_user u a = a\<lparr>user_heap := user_heap a @ [u], Users := Users a @ [length (user_heap a)]\<rparr>"

definition find_user :: "string \<Rightarrow> acl \<Rightarrow> nat option" where
  "find_user name a = find (\<lambda>i. Username (user_at a i) = name) (Users a)"

definition user_globs :: "user \<Rightarrow> string list" where
  "user_globs u = IncludedPubSubChannels u @ ExcludedPubSubChannels u @ IncludedReadKeys u @ IncludedWriteKeys u"

definition malformed_glob :: string where
  "malformed_glob = ''malformed glob pattern''"

fun compile_all :: "libs \<Rightarrow> string list \<Rightarrow> (string, string \<Rightarrow> bool) gomap \<Rightarrow> (string, string \<Rightarrow> bool) gomap res" where
  "compile_all l [] m = Ok m"
| "compile_all l (g # gs) m =
     (if map_of m g \<noteq> None then compile_all l gs m
      else case glob_compile l g of
             None \<Rightarrow> Panic malformed_glob
           | Some f \<Rightarrow> compile_all l gs (AList.update g f m))"

definition CompileGlobs :: "libs \<Rightarrow> acl \<Rightarrow> acl res" where
  "CompileGlobs l a =
     map_res (\<lambda>m. a\<lparr>GlobPatterns := m\<rparr>)
       (compile_all l (concat (map (\<lambda>i. user_globs (user_at a i)) (Users a))) (GlobPatterns a))"

text \<open>Start-up: the users of the file, and a default user where the file has none.\<close>

definition loadUsersFromConfigFile :: "libs \<Rightarrow> string \<Rightarrow> user list" where
  "loadUsersFromConfigFile l path = (if path = [] then [] else fst (load_users l path))"

definition default_user :: "acl_config \<Rightarrow> user res" where
  "default_user cfg =
     (if RequirePass cfg
      then map_res (\<lambda>ty. (CreateUser ''default'')
                            \<lparr>Passwords := [\<lparr>PasswordType = ty, PasswordValue = ServerPassword cfg\<rparr>]\<rparr>)
             (GetPasswordType (ServerPassword cfg))
      else Ok (CreateUser ''default''))"

fun normalise_all :: "user list \<Rightarrow> 's world \<Rightarrow> user list \<times> 's world" where
  "normalise_all [] w = ([], w)"
| "normalise_all (u # us) w =
     (let (u', w1) = Normalise u w; (us', w2) = normalise_all us w1 in (u' # us', w2))"

definition NewACL :: "libs \<Rightarrow> acl_config \<Rightarrow> 's world \<Rightarrow> acl res \<times> 's world" where
  "NewACL l cfg w =
     and_then (default_user cfg, w) (\<lambda>d w.
       let loaded = loadUsersFromConfigFile l (AclConfig cfg);
           us = (if ''default'' \<in> Username ` set loaded then loaded else d # loaded);
           (us', w1) = normalise_all us w
       in (CompileGlobs l \<lparr>user_heap = us', Users = [0..<length us'], Connections = [],
             AclSettings = cfg, GlobPatterns = [], Closing = []\<rparr>, w1))"

definition RegisterConnection :: "nat option \<Rightarrow> acl \<Rightarrow> acl res" where
  "RegisterConnection conn a =
     (case find_user ''default'' a of
        None \<Rightarrow> Panic index_out_of_range
      | Some i \<Rightarrow>
          Ok (a\<lparr>Connections := AList.update conn
                 \<lparr>Authenticated = NoPassword (user_at a i), ConnUser = i\<rparr> (Connections a)\<rparr>))"

text \<open>\<open>SetUser\<close>: the words include the name itself. A user that exists is not normalised again.\<close>

definition SetUser :: "libs \<Rightarrow> string list \<Rightarrow> acl \<Rightarrow> 's world \<Rightarrow> acl res \<times> 's world" where
  "SetUser l cmd a w =
     (if cmd = [] then (Panic index_out_of_range, w)
      else case find_user (hd cmd) a of
             Some i \<Rightarrow>
               and_then (UpdateUser cmd (user_at a i), w) (\<lambda>u w. (CompileGlobs l (put_user i u a), w))
           | None \<Rightarrow>
               and_then (UpdateUser cmd (CreateUser (hd cmd)), w) (\<lambda>u w.
                 let (u', w1) = Normalise u w in (CompileGlobs l (append_user u' a), w1)))"

text \<open>
  \<open>DeleteUser\<close>: the user found for a name is kept for the names after it that are not found, which
  then delete it once more.
\<close>

definition connections_of :: "string \<Rightarrow> acl \<Rightarrow> nat option list" where
  "connections_of name a = map fst (filter (\<lambda>(c, i). Username (user_at a (ConnUser i)) = name) (Connections a))"

definition remove_user :: "string \<Rightarrow> acl \<Rightarrow> acl res" where
  "remove_user name a =
     (let cs = connections_of name a
      in if None \<in> set cs then Panic nil_deref
         else Ok (a\<lparr>Closing := Closing a @ map the cs,
                    Users := filter (\<lambda>i. Username (user_at a i) \<noteq> name) (Users a)\<rparr>))"

fun DeleteUser :: "string list \<Rightarrow> nat option \<Rightarrow> acl \<Rightarrow> acl res" where
  "DeleteUser [] last_found a = Ok a"
| "DeleteUser (name # names) last_found a =
     (if name = ''default'' then DeleteUser names last_found a
      else case (case find (\<lambda>i. Username (user_at a i) = name) (rev (Users a)) of
                   None \<Rightarrow> last_found | Some i \<Rightarrow> Some i) of
             None \<Rightarrow> DeleteUser names None a
           | Some i \<Rightarrow>
               (case remove_user (Username (user_at a i)) a of
                  Ok a' \<Rightarrow> DeleteUser names (Some i) a'
                | r \<Rightarrow> r))"

subsection \<open>Authentication\<close>

definition given_passwords :: "libs \<Rightarrow> string \<Rightarrow> password list" where
  "given_passwords l pw =
     [\<lparr>PasswordType = PasswordPlainText, PasswordValue = pw\<rparr>,
      \<lparr>PasswordType = PasswordSHA256, PasswordValue = sha256_hex l pw\<rparr>]"

definition auth_user :: "string list \<Rightarrow> acl \<Rightarrow> nat res" where
  "auth_user cmd a =
     (if length cmd = 2
      then (case find_user ''default'' a of None \<Rightarrow> Panic index_out_of_range | Some i \<Rightarrow> Ok i)
      else if length cmd = 3
      then (case find_user (cmd ! 1) a of
              None \<Rightarrow> Err (''no user with username '' @ cmd ! 1) | Some i \<Rightarrow> Ok i)
      else Panic nil_deref)"

definition AuthenticateConnection :: "libs \<Rightarrow> nat option \<Rightarrow> string list \<Rightarrow> acl \<Rightarrow> acl res" where
  "AuthenticateConnection l conn cmd a =
     (case auth_user cmd a of
        Ok i \<Rightarrow>
          (let u = user_at a i;
               a' = a\<lparr>Connections := AList.update conn \<lparr>Authenticated = True, ConnUser = i\<rparr> (Connections a)\<rparr>
           in if \<not> Enabled u then Err (''user '' @ Username u @ '' is disabled'')
              else if NoPassword u \<or> (\<exists>pw\<in>set (Passwords u). pw \<in> set (given_passwords l (last cmd))) then Ok a'
              else Err ''could not authenticate user'')
      | Err e \<Rightarrow> Err e | Panic e \<Rightarrow> Panic e | Diverge \<Rightarrow> Diverge)"

subsection \<open>Authorisation\<close>

definition getUnauthorized :: "string list \<Rightarrow> string \<Rightarrow> 's world \<Rightarrow> string list \<times> 's world" where
  "getUnauthorized missing prefix w =
     (let (ms, w1) = go_range missing w in (sort_func CompareLex (map (\<lambda>m. prefix @ m) ms), w1))"

definition categories_error :: "string list \<Rightarrow> string" where
  "categories_error cs = ''unauthorized access to the following categories: '' @ fmt_list cs"

definition command_error :: "string \<Rightarrow> string" where
  "command_error comm = ''not authorised to run '' @ to_upper comm @ '' command''"

text \<open>Whether one of the patterns matches; a pattern that was not compiled is nil.\<close>

fun any_match :: "(string, string \<Rightarrow> bool) gomap \<Rightarrow> string list \<Rightarrow> string \<Rightarrow> bool res" where
  "any_match m [] s = Ok False"
| "any_match m (g # gs) s =
     (case map_of m g of
        None \<Rightarrow> Panic nil_deref
      | Some f \<Rightarrow> if f s then Ok True else any_match m gs s)"

fun check_channels :: "acl \<Rightarrow> user \<Rightarrow> string list \<Rightarrow> unit res" where
  "check_channels a u [] = Ok ()"
| "check_channels a u (c # cs) =
     (case any_match (GlobPatterns a) (IncludedPubSubChannels u) c of
        Ok True \<Rightarrow>
          (case any_match (GlobPatterns a) (ExcludedPubSubChannels u) c of
             Ok False \<Rightarrow> check_channels a u cs
           | Ok True \<Rightarrow> Err (''not authorised to access channel &'' @ c)
           | Err e \<Rightarrow> Err e | Panic e \<Rightarrow> Panic e | Diverge \<Rightarrow> Diverge)
      | Ok False \<Rightarrow> Err (''not authorised to access channel &'' @ c)
      | Err e \<Rightarrow> Err e | Panic e \<Rightarrow> Panic e | Diverge \<Rightarrow> Diverge)"

text \<open>
  Whether one of the keys matches one of the patterns, and the keys named in the error: a key is
  added when it is tried against a pattern that does not match.
\<close>

fun key_allowed :: "(string, string \<Rightarrow> bool) gomap \<Rightarrow> string \<Rightarrow> string list \<Rightarrow> string \<Rightarrow> string list \<Rightarrow> (bool \<times> string list) res" where
  "key_allowed m tag [] k named = Ok (False, named)"
| "key_allowed m tag (g # gs) k named =
     (case map_of m g of
        None \<Rightarrow> Panic nil_deref
      | Some f \<Rightarrow>
          if f k then Ok (True, named)
          else key_allowed m tag gs k (if tag @ k \<in> set named then named else named @ [tag @ k]))"

fun some_key_allowed :: "(string, string \<Rightarrow> bool) gomap \<Rightarrow> string \<Rightarrow> string list \<Rightarrow> string list \<Rightarrow> string list \<Rightarrow> (bool \<times> string list) res" where
  "some_key_allowed m tag gs [] named = Ok (False, named)"
| "some_key_allowed m tag gs (k # ks) named =
     (case key_allowed m tag gs k named of
        Ok (True, named') \<Rightarrow> Ok (True, named')
      | Ok (False, named') \<Rightarrow> some_key_allowed m tag gs ks named'
      | r \<Rightarrow> r)"

definition read_keys_error :: "string list \<Rightarrow> string" where
  "read_keys_error named = ''not authorised to access the following read keys: '' @ fmt_list named"

definition write_keys_error :: "string list \<Rightarrow> string" where
  "write_keys_error named = ''not authorised to access the following write keys: '' @ fmt_list named"

definition check_write_keys :: "acl \<Rightarrow> user \<Rightarrow> string list \<Rightarrow> string list \<Rightarrow> unit res" where
  "check_write_keys a u ks named =
     (if ks = [] then Ok ()
      else case some_key_allowed (GlobPatterns a) ''%W~'' (IncludedWriteKeys u) ks named of
             Ok (ok, named') \<Rightarrow> if ok then Ok () else Err (write_keys_error named')
           | Err e \<Rightarrow> Err e | Panic e \<Rightarrow> Panic e | Diverge \<Rightarrow> Diverge)"

definition check_keys :: "acl \<Rightarrow> user \<Rightarrow> key_result \<Rightarrow> unit res" where
  "check_keys a u k =
     (if NoKeys u then Err ''not authorised to access any keys''
      else if ReadKeys k = [] then check_write_keys a u (WriteKeys k) []
      else case some_key_allowed (GlobPatterns a) ''%R~'' (IncludedReadKeys u) (ReadKeys k) [] of
             Ok (ok, named) \<Rightarrow>
               if \<not> ok \<and> named \<noteq> [] then Err (read_keys_error named)
               else check_write_keys a u (WriteKeys k) named
           | Err e \<Rightarrow> Err e | Panic e \<Rightarrow> Panic e | Diverge \<Rightarrow> Diverge)"

text \<open>
  \<open>len(append(readKeys, writeKeys...))\<close> appends to a slice of the command: the words after it are
  overwritten where the capacity of the command's memory suffices. The command was built by
  appending one word at a time, so that its capacity is a power of two (up to 512 words).
\<close>

function slice_cap :: "nat \<Rightarrow> nat \<Rightarrow> nat" where
  "slice_cap c n = (if n \<le> c \<or> c = 0 then c else slice_cap (2 * c) n)"
  by pat_completeness auto
termination
  by (relation "measure (\<lambda>(c, n). n - c)") auto

declare slice_cap.simps [simp del]

definition overwrite :: "nat \<Rightarrow> string list \<Rightarrow> string list \<Rightarrow> string list" where
  "overwrite j ws cmd = take (length cmd) (take j cmd @ ws @ drop (j + length ws) cmd)"

definition append_keys :: "key_result \<Rightarrow> string list \<Rightarrow> string list" where
  "append_keys k cmd =
     (case ReadEnd k of
        None \<Rightarrow> cmd
      | Some j \<Rightarrow>
          if j + length (WriteKeys k) \<le> slice_cap 1 (length cmd) then overwrite j (WriteKeys k) cmd else cmd)"

text \<open>The checks of an authenticated connection's user, and what they leave of the command.\<close>

definition authorize_user ::
    "acl \<Rightarrow> user \<Rightarrow> string \<Rightarrow> string list \<Rightarrow> key_result \<Rightarrow> string list \<Rightarrow> 's world \<Rightarrow> (unit res \<times> string list) \<times> 's world" where
  "authorize_user a u comm cats k cmd w =
     (let missing = (if ''*'' \<in> set (IncludedCategories u) then []
                     else filter (\<lambda>c. c \<notin> set (IncludedCategories u)) (remdups cats));
          (names, w1) = getUnauthorized missing ''@'' w
      in (if missing \<noteq> [] then ((Err (categories_error names), cmd), w1)
          else case find (\<lambda>c. ''*'' \<in> set (ExcludedCategories u) \<or> c \<in> set (ExcludedCategories u)) cats of
            Some c \<Rightarrow> ((Err (categories_error [''@'' @ c]), cmd), w1)
          | None \<Rightarrow>
              if ''*'' \<notin> set (IncludedCommands u) \<and> comm \<notin> set (IncludedCommands u)
              then ((Err (command_error comm), cmd), w1)
              else if ''*'' \<in> set (ExcludedCommands u) \<or> comm \<in> set (ExcludedCommands u)
              then ((Err (command_error comm), cmd), w1)
              else if ''pubsub'' \<in> set cats then ((check_channels a u (Channels k), cmd), w1)
              else if ReadKeys k = [] \<and> WriteKeys k = [] then ((Ok (), cmd), w1)
              else ((check_keys a u k, append_keys k cmd), w1)))"

text \<open>
  The keys and channels that are checked are those of the command, not of its subcommand. A subcommand that
  was found is taken to be different from the zero one, as all of the table are.
\<close>

definition AuthorizeConnection ::
    "acl \<Rightarrow> nat option \<Rightarrow> string list \<Rightarrow> 's command \<Rightarrow> 's sub_command option \<Rightarrow> 't world \<Rightarrow>
      (unit res \<times> string list) \<times> 't world" where
  "AuthorizeConnection a conn cmd c sub w =
     (let comm = (case sub of None \<Rightarrow> CommandName c | Some sc \<Rightarrow> CommandName c @ ''|'' @ SubCommandName sc);
          cats = (case sub of None \<Rightarrow> Categories c | Some sc \<Rightarrow> Categories c @ SubCategories sc)
      in case KeyExtractionFunc c cmd of
           Ok k \<Rightarrow>
             (case (case sub of None \<Rightarrow> Ok k | Some sc \<Rightarrow> SubKeyExtractionFunc sc cmd) of
                Ok _ \<Rightarrow>
                  if equal_fold comm ''ack'' \<or> to_lower comm \<in> {''ping'', ''echo'', ''hello''} \<or>
                     equal_fold comm ''auth'' \<or> \<not> RequirePass (AclSettings a)
                  then ((Ok (), cmd), w)
                  else (case map_of (Connections a) conn of
                          None \<Rightarrow> ((Err ''user must be authenticated'', cmd), w)
                        | Some i \<Rightarrow>
                            if \<not> Authenticated i then ((Err ''user must be authenticated'', cmd), w)
                            else authorize_user a (user_at a (ConnUser i)) comm cats k cmd w)
              | Err e \<Rightarrow> ((Err e, cmd), w) | Panic e \<Rightarrow> ((Panic e, cmd), w) | Diverge \<Rightarrow> ((Diverge, cmd), w))
         | Err e \<Rightarrow> ((Err e, cmd), w) | Panic e \<Rightarrow> ((Panic e, cmd), w) | Diverge \<Rightarrow> ((Diverge, cmd), w))"

subsection \<open>Normalising changes the choices that are left, and nothing else of the world\<close>

definition frames :: "'s world \<Rightarrow> 's world \<Rightarrow> bool" where
  "frames w w' \<longleftrightarrow> heap w' = heap w \<and> next_addr w' = next_addr w \<and> srv w' = srv w"

lemma remove_duplicates_frames: "frames w (snd (RemoveDuplicateEntries xs alias w))"
  by (simp add: frames_def RemoveDuplicateEntries_def case_prod_beta Let_def)

lemma frames_trans: "frames w w1 \<Longrightarrow> frames w1 w2 \<Longrightarrow> frames w w2"
  by (simp add: frames_def)

lemma normalise_step_frames:
  "frames w (snd (normalise_categories u w))" "frames w (snd (normalise_commands u w))"
  "frames w (snd (normalise_keys u w))" "frames w (snd (normalise_channels u w))"
  using frames_trans [OF remove_duplicates_frames remove_duplicates_frames]
  by (simp_all add: normalise_categories_def normalise_commands_def normalise_keys_def normalise_channels_def case_prod_beta)

lemma normalise_step_name:
  "Username (fst (normalise_categories u w)) = Username u" "Username (fst (normalise_commands u w)) = Username u"
  "Username (fst (normalise_keys u w)) = Username u" "Username (fst (normalise_channels u w)) = Username u"
  by (simp_all add: normalise_categories_def normalise_commands_def normalise_keys_def normalise_channels_def case_prod_beta)

lemmas normalise_frames_chain =
  frames_trans [OF frames_trans [OF frames_trans [OF normalise_step_frames(1) normalise_step_frames(2)]
    normalise_step_frames(3)] normalise_step_frames(4)]

lemma Normalise_frame: "frames w (snd (Normalise u w))" "Username (fst (Normalise u w)) = Username u"
  by (simp_all add: Normalise_def case_prod_beta normalise_step_name normalise_frames_chain)

lemma normalise_all_frame:
  "frames w (snd (normalise_all us w)) \<and> map Username (fst (normalise_all us w)) = map Username us"
proof (induction us arbitrary: w)
  case Nil
  then show ?case by (simp add: frames_def)
next
  case (Cons u us)
  show ?case
    using Normalise_frame [where u = u and w = w] Cons.IH [of "snd (Normalise u w)"]
      frames_trans [of w "snd (Normalise u w)"]
    by (simp add: case_prod_beta)
qed

end
