(* ===== verification/StringCommands.thy ===== *)
theory StringCommands
  imports SetCommands GoText
begin

text \<open>
  The string commands (\<open>internal/modules/string/commands.go\<close>, \<open>key_funcs.go\<close>). SETRANGE works
  on runes but compares its offset with the length in bytes; a value that looks like a number
  is stored as one.
\<close>

subsection \<open>Keys of the commands\<close>

definition setRangeKeyFunc :: "string list \<Rightarrow> key_result res" where
  "setRangeKeyFunc cmd = (if length cmd \<noteq> 4 then Err WrongArgsResponse else Ok (writes_of [cmd ! 1]))"

definition strLenKeyFunc :: "string list \<Rightarrow> key_result res" where
  "strLenKeyFunc cmd = (if length cmd \<noteq> 2 then Err WrongArgsResponse else Ok (reads_of [cmd ! 1]))"

definition subStrKeyFunc :: "string list \<Rightarrow> key_result res" where
  "subStrKeyFunc cmd = (if length cmd \<noteq> 4 then Err WrongArgsResponse else Ok (reads_of [cmd ! 1]))"

definition appendKeyFunc :: "string list \<Rightarrow> key_result res" where
  "appendKeyFunc cmd = (if length cmd \<noteq> 3 then Err WrongArgsResponse else Ok (writes_of [cmd ! 1]))"

lemmas string_key_funcs = setRangeKeyFunc_def strLenKeyFunc_def subStrKeyFunc_def appendKeyFunc_def

subsection \<open>Handlers\<close>

fun as_str :: "go_value \<Rightarrow> string option" where
  "as_str (VStr s) = Some s"
| "as_str _ = None"

definition the_str :: "string \<Rightarrow> go_value \<Rightarrow> 's world \<Rightarrow> string res \<times> 's world" where
  "the_str msg v w = (case as_str v of None \<Rightarrow> (Err msg, w) | Some s \<Rightarrow> (Ok s, w))"

definition not_a_string :: "string \<Rightarrow> string" where
  "not_a_string key = ''value at key '' @ key @ '' is not a string''"

text \<open>
  The loop of SETRANGE: the bytes of the new string replace the runes from the offset on,
  while the offset is below \<open>n\<close>, the old string's length in bytes; past that the rest of
  the new string's runes is appended.
\<close>

fun setrange_loop :: "nat \<Rightarrow> string \<Rightarrow> nat \<Rightarrow> nat \<Rightarrow> nat list \<Rightarrow> string \<Rightarrow> nat list res" where
  "setrange_loop n new i off rs [] = Ok rs"
| "setrange_loop n new i off rs (c # cs) =
     (if off < n
      then (if off < length rs then setrange_loop n new (Suc i) (Suc off) (rs[off := of_char c]) cs
            else Panic index_out_of_range)
      else if i \<le> length (runes new) then Ok (rs @ drop i (runes new))
      else Panic slice_out_of_range)"

definition handleSetRange :: "'s handler" where
  "handleSetRange p w =
     and_then (setRangeKeyFunc (Command p), w) (\<lambda>keys w.
       let key = hd (WriteKeys keys); new = Command p ! 3;
           exists = gm_bool (KeysExist p (Context p) (WriteKeys keys) w) key;
           save = (\<lambda>s n w. and_then (SetValues p (Context p) [(key, VStr s)] w) (\<lambda>_ w1.
                     (Ok (resp_int (int n)), w1)))
       in case as_int (AdaptType (Command p ! 2)) of
            None \<Rightarrow> (Err ''offset must be an integer'', w)
          | Some off \<Rightarrow>
              if \<not> exists then (Ok (resp_int (int (length new))), w)
              else and_then (get_one p key w) (\<lambda>v w1.
                   and_then (the_str (not_a_string key) v w1) (\<lambda>str w2.
                     if int (length str) \<le> off then save (str @ new) (length (str @ new)) w2
                     else if off < 0 then save (new @ str) (length (new @ str)) w2
                     else and_then (setrange_loop (length str) new 0 (nat off) (runes str) new, w2) (\<lambda>rs w3.
                          save (from_runes rs) (length rs) w3))))"

definition handleStrLen :: "'s handler" where
  "handleStrLen p w =
     and_then (strLenKeyFunc (Command p), w) (\<lambda>keys w.
       let key = hd (ReadKeys keys)
       in if \<not> gm_bool (KeysExist p (Context p) (ReadKeys keys) w) key then (Ok (resp_int 0), w)
          else and_then (get_one p key w) (\<lambda>v w1.
               and_then (the_str (not_a_string key) v w1) (\<lambda>s w2.
                 (Ok (resp_int (int (length s))), w2))))"

text \<open>The bounds of SUBSTR, whether they were exchanged, and the substring.\<close>

definition substr_bounds :: "string \<Rightarrow> int \<Rightarrow> int \<Rightarrow> int \<times> int \<times> bool" where
  "substr_bounds s a e =
     (let n = int (length s);
          a = (if a < 0 then i64 (n - AbsInt a) else a);
          e = (if e < 0 then i64 (n - AbsInt e) else e);
          e = (if 0 \<le> e \<and> a \<le> e then i64 (e + 1) else e);
          e = (if n < e then n else e)
      in if e < a then (e, a, True) else (a, e, False))"

definition substr :: "string \<Rightarrow> int \<Rightarrow> int \<Rightarrow> string res" where
  "substr s a e =
     (let (a, e, reversed) = substr_bounds s a e
      in map_res (\<lambda>t. if reversed then concat (map (\<lambda>c. encode_rune (of_char c)) (rev t)) else t)
           (slice_range s a e))"

definition handleSubStr :: "'s handler" where
  "handleSubStr p w =
     and_then (subStrKeyFunc (Command p), w) (\<lambda>keys w.
       let key = hd (ReadKeys keys); exists = gm_bool (KeysExist p (Context p) (ReadKeys keys) w) key
       in case (as_int (AdaptType (Command p ! 2)), as_int (AdaptType (Command p ! 3))) of
            (Some a, Some e) \<Rightarrow>
              if \<not> exists then (Err (''key '' @ key @ '' does not exist''), w)
              else and_then (get_one p key w) (\<lambda>v w1.
                   and_then (the_str (not_a_string key) v w1) (\<lambda>s w2.
                   and_then (substr s a e, w2) (\<lambda>t w3. (Ok (resp_bulk t), w3))))
          | _ \<Rightarrow> (Err ''start and end indices must be integers'', w))"

definition handleAppend :: "'s handler" where
  "handleAppend p w =
     and_then (appendKeyFunc (Command p), w) (\<lambda>keys w.
       let key = hd (WriteKeys keys); new = Command p ! 2;
           save = (\<lambda>s w. and_then (SetValues p (Context p) [(key, AdaptType s)] w) (\<lambda>_ w1.
                     (Ok (resp_int (int (length s))), w1)))
       in if \<not> gm_bool (KeysExist p (Context p) (WriteKeys keys) w) key then save new w
          else and_then (get_one p key w) (\<lambda>v w1.
               and_then (the_str (''Value at key '' @ key @ '' is not a string'') v w1) (\<lambda>s w2.
                 save (s @ new) w2)))"

subsection \<open>The command table\<close>

definition string_commands :: "'s command list" where
  "string_commands =
     [mk_command ''setrange'' ''string'' [''string'', ''write'', ''slow''] True setRangeKeyFunc handleSetRange,
      mk_command ''strlen'' ''string'' [''string'', ''read'', ''fast''] False strLenKeyFunc handleStrLen,
      mk_command ''substr'' ''string'' [''string'', ''read'', ''slow''] False subStrKeyFunc handleSubStr,
      mk_command ''getrange'' ''string'' [''string'', ''read'', ''slow''] False subStrKeyFunc handleSubStr,
      mk_command ''append'' ''string'' [''string'', ''write'', ''slow''] True appendKeyFunc handleAppend]"

end
