(* ===== verification/GenericCommands.thy ===== *)
theory GenericCommands
  imports StringCommands
begin

text \<open>
  The generic commands (\<open>internal/modules/generic/commands.go\<close>, \<open>key_funcs.go\<close>,
  \<open>utils.go\<close>): reading and writing plain values, expiry, counters, renaming, deletion.
\<close>

subsection \<open>Keys of the commands\<close>

definition setKeyFunc :: "string list \<Rightarrow> key_result res" where
  "setKeyFunc cmd =
     (if length cmd < 3 \<or> 7 < length cmd then Err WrongArgsResponse else Ok (writes_of [cmd ! 1]))"

text \<open>Every other element of a list, the first included.\<close>

fun evens :: "'a list \<Rightarrow> 'a list" where
  "evens (x # y # xs) = x # evens xs"
| "evens xs = xs"

definition msetKeyFunc :: "string list \<Rightarrow> key_result res" where
  "msetKeyFunc cmd =
     (if odd (length (tl cmd)) then Err ''each key must be paired with a value''
      else Ok (writes_of (evens (tl cmd))))"

definition getKeyFunc :: "string list \<Rightarrow> key_result res" where
  "getKeyFunc cmd = (if length cmd \<noteq> 2 then Err WrongArgsResponse else Ok (reads_of (tl cmd)))"

definition mgetKeyFunc :: "string list \<Rightarrow> key_result res" where
  "mgetKeyFunc cmd = (if length cmd < 2 then Err WrongArgsResponse else Ok (reads_of (tl cmd)))"

definition delKeyFunc :: "string list \<Rightarrow> key_result res" where
  "delKeyFunc cmd = (if length cmd < 2 then Err WrongArgsResponse else Ok (writes_of (tl cmd)))"

definition persistKeyFunc :: "string list \<Rightarrow> key_result res" where
  "persistKeyFunc cmd = (if length cmd \<noteq> 2 then Err WrongArgsResponse else Ok (writes_of (tl cmd)))"

definition expireTimeKeyFunc :: "string list \<Rightarrow> key_result res" where
  "expireTimeKeyFunc cmd = (if length cmd \<noteq> 2 then Err WrongArgsResponse else Ok (reads_of (tl cmd)))"

definition ttlKeyFunc :: "string list \<Rightarrow> key_result res" where
  "ttlKeyFunc cmd = (if length cmd \<noteq> 2 then Err WrongArgsResponse else Ok (reads_of (tl cmd)))"

definition expireKeyFunc :: "string list \<Rightarrow> key_result res" where
  "expireKeyFunc cmd =
     (if length cmd < 3 \<or> 4 < length cmd then Err WrongArgsResponse else Ok (writes_of [cmd ! 1]))"

definition expireAtKeyFunc :: "string list \<Rightarrow> key_result res" where
  "expireAtKeyFunc cmd =
     (if length cmd < 3 \<or> 4 < length cmd then Err WrongArgsResponse else Ok (writes_of [cmd ! 1]))"

definition incrKeyFunc :: "string list \<Rightarrow> key_result res" where
  "incrKeyFunc cmd = (if length cmd \<noteq> 2 then Err WrongArgsResponse else Ok (writes_of [cmd ! 1]))"

definition decrKeyFunc :: "string list \<Rightarrow> key_result res" where
  "decrKeyFunc cmd = (if length cmd \<noteq> 2 then Err WrongArgsResponse else Ok (writes_of [cmd ! 1]))"

definition incrByKeyFunc :: "string list \<Rightarrow> key_result res" where
  "incrByKeyFunc cmd = (if length cmd \<noteq> 3 then Err WrongArgsResponse else Ok (writes_of [cmd ! 1]))"

definition incrByFloatKeyFunc :: "string list \<Rightarrow> key_result res" where
  "incrByFloatKeyFunc cmd = (if length cmd \<noteq> 3 then Err WrongArgsResponse else Ok (writes_of [cmd ! 1]))"

definition decrByKeyFunc :: "string list \<Rightarrow> key_result res" where
  "decrByKeyFunc cmd = (if length cmd \<noteq> 3 then Err WrongArgsResponse else Ok (writes_of [cmd ! 1]))"

definition renameKeyFunc :: "string list \<Rightarrow> key_result res" where
  "renameKeyFunc cmd =
     (if length cmd \<noteq> 3 then Err WrongArgsResponse else Ok (writes_of [cmd ! 1, cmd ! 2]))"

definition flushKeyFunc :: "string list \<Rightarrow> key_result res" where
  "flushKeyFunc cmd = Ok no_keys"

definition randomKeyFunc :: "string list \<Rightarrow> key_result res" where
  "randomKeyFunc cmd = (if length cmd \<noteq> 1 then Err WrongArgsResponse else Ok no_keys)"

definition getDelKeyFunc :: "string list \<Rightarrow> key_result res" where
  "getDelKeyFunc cmd =
     (if length cmd \<noteq> 2 then Err WrongArgsResponse
      else Ok \<lparr>Channels = [], ReadKeys = tl cmd, WriteKeys = tl cmd, ReadEnd = Some (length cmd)\<rparr>)"

definition getExKeyFunc :: "string list \<Rightarrow> key_result res" where
  "getExKeyFunc cmd =
     (if length cmd < 2 \<or> 4 < length cmd then Err WrongArgsResponse
      else Ok \<lparr>Channels = [], ReadKeys = [cmd ! 1], WriteKeys = [cmd ! 1], ReadEnd = Some 2\<rparr>)"

definition typeKeyFunc :: "string list \<Rightarrow> key_result res" where
  "typeKeyFunc cmd = (if length cmd \<noteq> 2 then Err WrongArgsResponse else Ok (reads_of (tl cmd)))"

definition touchKeyFunc :: "string list \<Rightarrow> key_result res" where
  "touchKeyFunc cmd = (if length cmd < 2 then Err WrongArgsResponse else Ok (reads_of (tl cmd)))"

definition objFreqKeyFunc :: "string list \<Rightarrow> key_result res" where
  "objFreqKeyFunc cmd = (if length cmd \<noteq> 2 then Err WrongArgsResponse else Ok (reads_of (tl cmd)))"

definition objIdleTimeKeyFunc :: "string list \<Rightarrow> key_result res" where
  "objIdleTimeKeyFunc cmd = (if length cmd \<noteq> 2 then Err WrongArgsResponse else Ok (reads_of (tl cmd)))"

lemmas generic_key_funcs = setKeyFunc_def msetKeyFunc_def getKeyFunc_def mgetKeyFunc_def delKeyFunc_def
  persistKeyFunc_def expireTimeKeyFunc_def ttlKeyFunc_def expireKeyFunc_def expireAtKeyFunc_def
  incrKeyFunc_def decrKeyFunc_def incrByKeyFunc_def incrByFloatKeyFunc_def decrByKeyFunc_def
  renameKeyFunc_def flushKeyFunc_def randomKeyFunc_def getDelKeyFunc_def getExKeyFunc_def
  typeKeyFunc_def touchKeyFunc_def objFreqKeyFunc_def objIdleTimeKeyFunc_def

subsection \<open>SET and its options\<close>

record set_options =
  opt_exists :: string
  opt_get :: bool
  opt_expireAt :: gotime

definition no_options :: set_options where
  "no_options = \<lparr>opt_exists = [], opt_get = False, opt_expireAt = None\<rparr>"

text \<open>The four ways to give a time, by the (lower case) name of the option.\<close>

definition expiry_instant :: "int \<Rightarrow> string \<Rightarrow> int \<Rightarrow> int" where
  "expiry_instant now opt n =
     (if opt = ''ex'' then now + seconds n
      else if opt = ''px'' then now + milliseconds n
      else if opt = ''exat'' then time_unix n
      else time_unix_milli n)"

definition time_unit :: "string \<Rightarrow> string" where
  "time_unit opt = (if opt \<in> {''ex'', ''exat''} then ''seconds'' else ''milliseconds'')"

fun getSetCommandOptions :: "int \<Rightarrow> string list \<Rightarrow> set_options \<Rightarrow> set_options res" where
  "getSetCommandOptions now [] opts = Ok opts"
| "getSetCommandOptions now (c # cmd) opts =
     (let l = to_lower c
      in if l = ''get'' then getSetCommandOptions now cmd (opts\<lparr>opt_get := True\<rparr>)
         else if l = ''nx'' \<or> l = ''xx'' then
           (let name = (if l = ''nx'' then ''NX'' else ''XX'')
            in if opt_exists opts \<noteq> []
               then Err (''cannot specify '' @ name @ '' when '' @ to_upper (opt_exists opts) @ '' is already specified'')
               else getSetCommandOptions now cmd (opts\<lparr>opt_exists := name\<rparr>))
         else if l \<in> {''ex'', ''px'', ''exat'', ''pxat''} then
           (case cmd of
              [] \<Rightarrow> Err (time_unit l @ '' value required after '' @ to_upper l)
            | arg # rest \<Rightarrow>
                if opt_expireAt opts \<noteq> None
                then Err (''cannot specify '' @ to_upper l @ '' when expiry time is already set'')
                else (case atoi arg of
                        None \<Rightarrow> Err (time_unit l @ '' value should be an integer'')
                      | Some n \<Rightarrow>
                          getSetCommandOptions now rest (opts\<lparr>opt_expireAt := Some (expiry_instant now l n)\<rparr>)))
         else Err (''unknown option '' @ to_upper c @ '' for set command''))"

definition print_one :: "'s params \<Rightarrow> string \<Rightarrow> 's world \<Rightarrow> string res \<times> 's world" where
  "print_one p key w =
     and_then (get_one p key w) (\<lambda>v w1. (Ok (''+'' @ fmt_v (heap w1) v @ crlf), w1))"

definition handleSet :: "'s handler" where
  "handleSet p w =
     and_then (setKeyFunc (Command p), w) (\<lambda>keys w.
       let key = hd (WriteKeys keys);
           exists = gm_bool (KeysExist p (Context p) (WriteKeys keys) w) key
       in and_then (getSetCommandOptions (ClockNow p w) (drop 3 (Command p)) no_options, w) (\<lambda>opts w.
          and_then (if \<not> opt_get opts then (Ok OkResponse, w)
                    else if \<not> exists then (Ok resp_nil, w)
                    else print_one p key w) (\<lambda>reply w1.
            if to_lower (opt_exists opts) = ''xx'' \<and> \<not> exists
            then (Err (''key '' @ key @ '' does not exist''), w1)
            else if to_lower (opt_exists opts) = ''nx'' \<and> exists
            then (Err (''key '' @ key @ '' already exists''), w1)
            else and_then (SetValues p (Context p) [(key, AdaptType (Command p ! 2))] w1) (\<lambda>_ w2.
                 and_then (case opt_expireAt opts of
                             None \<Rightarrow> (Ok (), w2)
                           | Some t \<Rightarrow> SetExpiry p (Context p) key (Some t) False w2) (\<lambda>_ w3.
                   (Ok reply, w3))))))"

fun mset_entries :: "string list \<Rightarrow> (string, go_value) gomap \<Rightarrow> (string, go_value) gomap" where
  "mset_entries (k # v # args) m = mset_entries args (AList.update k (AdaptType v) m)"
| "mset_entries _ m = m"

definition handleMSet :: "'s handler" where
  "handleMSet p w =
     and_then (msetKeyFunc (Command p), w) (\<lambda>_ w.
     and_then (SetValues p (Context p) (mset_entries (tl (Command p)) []) w) (\<lambda>_ w1.
       (Ok OkResponse, w1)))"

subsection \<open>Reading and deleting\<close>

definition handleGet :: "'s handler" where
  "handleGet p w =
     and_then (getKeyFunc (Command p), w) (\<lambda>keys w.
       let key = hd (ReadKeys keys)
       in if \<not> gm_bool (KeysExist p (Context p) [key] w) key then (Ok resp_nil, w)
          else print_one p key w)"

text \<open>A value that prints as the empty string is answered like an absent one.\<close>

definition mget_reply :: "heap \<Rightarrow> go_value \<Rightarrow> string" where
  "mget_reply h v =
     (let s = (if v = VNil then [] else fmt_v h v) in if s = [] then resp_nil else resp_bulk s)"

definition handleMGet :: "'s handler" where
  "handleMGet p w =
     and_then (mgetKeyFunc (Command p), w) (\<lambda>keys w.
     and_then (GetValues p (Context p) (ReadKeys keys) w) (\<lambda>m w1.
       (Ok (array_head (int (length (tl (Command p)))) @
            concat (map (\<lambda>k. mget_reply (heap w1) (gm_value m k)) (tl (Command p)))), w1)))"

fun del_loop :: "'s params \<Rightarrow> (string \<times> bool) list \<Rightarrow> int \<Rightarrow> 's world \<Rightarrow> int res \<times> 's world" where
  "del_loop p [] n w = (Ok n, w)"
| "del_loop p ((k, exists) # ks) n w =
     (if \<not> exists then del_loop p ks n w
      else (let (r, w1) = DeleteKey p (Context p) k w
            in case r of
                 Ok _ \<Rightarrow> del_loop p ks (n + 1) w1
               | Err _ \<Rightarrow> del_loop p ks n w1
               | Panic e \<Rightarrow> (Panic e, w1)
               | Diverge \<Rightarrow> (Diverge, w1)))"

definition handleDel :: "'s handler" where
  "handleDel p w =
     and_then (delKeyFunc (Command p), w) (\<lambda>keys w.
       let (es, w1) = go_range (KeysExist p (Context p) (WriteKeys keys) w) w
       in and_then (del_loop p es 0 w1) (\<lambda>n w2. (Ok (resp_int n), w2)))"

definition handleGetdel :: "'s handler" where
  "handleGetdel p w =
     and_then (getDelKeyFunc (Command p), w) (\<lambda>keys w.
       let key = hd (ReadKeys keys)
       in if \<not> gm_bool (KeysExist p (Context p) [key] w) key then (Ok resp_nil, w)
          else and_then (get_one p key w) (\<lambda>v w1.
               and_then (DeleteKey p (Context p) (hd (WriteKeys keys)) w1) (\<lambda>_ w2.
                 (Ok (''+'' @ fmt_v (heap w2) v @ crlf), w2))))"

text \<open>The new name is written before the old one is deleted.\<close>

definition handleRename :: "'s handler" where
  "handleRename p w =
     (if length (Command p) \<noteq> 3 then (Err WrongArgsResponse, w)
      else let old = Command p ! 1; new = Command p ! 2
           in and_then (get_one p old w) (\<lambda>v w1.
                if v = VNil then (Err ''no such key'', w1)
                else and_then (SetValues p (Context p) [(new, v)] w1) (\<lambda>_ w2.
                     and_then (DeleteKey p (Context p) old w2) (\<lambda>_ w3. (Ok OkResponse, w3)))))"

definition handleFlush :: "'s handler" where
  "handleFlush p w =
     (if length (Command p) \<noteq> 1 then (Err WrongArgsResponse, w)
      else and_then
             (FlushDBs p (if equal_fold (hd (Command p)) ''flushall'' then - 1 else Database (Context p)) w)
             (\<lambda>_ w1. (Ok OkResponse, w1)))"

definition handleRandomkey :: "'s handler" where
  "handleRandomkey p w =
     (let (k, w1) = RandomKey p (Context p) w in (Ok (''+'' @ k @ crlf), w1))"

text \<open>The type's name; the type of nil is a nil pointer, and asking for its kind panics.\<close>

fun type_name :: "go_value \<Rightarrow> string res" where
  "type_name VNil = Panic nil_deref"
| "type_name (VStr _) = Ok ''string''"
| "type_name (VInt _) = Ok ''integer''"
| "type_name (VInt64 _) = Ok ''int64''"
| "type_name (VFloat _) = Ok ''float''"
| "type_name (VList _) = Ok ''list''"
| "type_name (VHash _) = Ok ''hash''"
| "type_name (VSet _) = Ok ''set''"
| "type_name (VZSet _) = Ok ''zset''"
| "type_name (VSlice _) = Ok ''list''"

definition handleType :: "'s handler" where
  "handleType p w =
     and_then (getKeyFunc (Command p), w) (\<lambda>keys w.
       let key = hd (ReadKeys keys)
       in if \<not> gm_bool (KeysExist p (Context p) [key] w) key
          then (Err (''key '' @ key @ '' does not exist''), w)
          else and_then (get_one p key w) (\<lambda>v w1.
               and_then (type_name v, w1) (\<lambda>t w2. (Ok (''+'' @ t @ crlf), w2))))"

definition handleTouch :: "'s handler" where
  "handleTouch p w =
     and_then (touchKeyFunc (Command p), w) (\<lambda>keys w.
     and_then (TouchKeys p (Context p) (ReadKeys keys) w) (\<lambda>n w1.
       (Ok (''+'' @ itoa n @ crlf), w1)))"

definition handleObjFreq :: "'s handler" where
  "handleObjFreq p w =
     and_then (objFreqKeyFunc (Command p), w) (\<lambda>keys w.
     and_then (ObjectFrequency p (Context p) (hd (ReadKeys keys)) w, w) (\<lambda>n w1.
       (Ok (''+'' @ itoa n @ crlf), w1)))"

definition handleObjIdleTime :: "'s handler" where
  "handleObjIdleTime p w =
     and_then (objIdleTimeKeyFunc (Command p), w) (\<lambda>keys w.
     and_then (ObjectIdleTime p (Context p) (hd (ReadKeys keys)) w) (\<lambda>t w1.
       (Ok (''+'' @ format_g t @ crlf), w1)))"

subsection \<open>Expiry\<close>

definition handlePersist :: "'s handler" where
  "handlePersist p w =
     and_then (persistKeyFunc (Command p), w) (\<lambda>keys w.
       let key = hd (WriteKeys keys)
       in if \<not> gm_bool (KeysExist p (Context p) (WriteKeys keys) w) key then (Ok (resp_int 0), w)
          else if GetExpiry p (Context p) key w = None then (Ok (resp_int 0), w)
          else and_then (SetExpiry p (Context p) key None False w) (\<lambda>_ w1. (Ok (resp_int 1), w1)))"

definition handleExpireTime :: "'s handler" where
  "handleExpireTime p w =
     and_then (expireTimeKeyFunc (Command p), w) (\<lambda>keys w.
       let key = hd (ReadKeys keys)
       in if \<not> gm_bool (KeysExist p (Context p) (ReadKeys keys) w) key then (Ok (resp_int (- 2)), w)
          else (case GetExpiry p (Context p) key w of
                  None \<Rightarrow> (Ok (resp_int (- 1)), w)
                | Some t \<Rightarrow>
                    (Ok (resp_int (if to_lower (hd (Command p)) = ''pexpiretime'' then to_unix_milli t
                                   else to_unix t)), w)))"

definition handleTTL :: "'s handler" where
  "handleTTL p w =
     and_then (ttlKeyFunc (Command p), w) (\<lambda>keys w.
       let key = hd (ReadKeys keys)
       in if \<not> gm_bool (KeysExist p (Context p) (ReadKeys keys) w) key then (Ok (resp_int (- 2)), w)
          else (case GetExpiry p (Context p) key w of
                  None \<Rightarrow> (Ok (resp_int (- 1)), w)
                | Some t \<Rightarrow>
                    let d = (if to_lower (hd (Command p)) = ''pttl''
                             then i64 (to_unix_milli t - to_unix_milli (ClockNow p w))
                             else i64 (to_unix t - to_unix (ClockNow p w)))
                    in (Ok (resp_int (if d \<le> 0 then 0 else d)), w)))"

text \<open>
  What EXPIRE and EXPIREAT do with the new time: whether to set it, given the current one and
  the option; \<open>None\<close> for an unknown option.
\<close>

definition expire_allowed :: "string \<Rightarrow> gotime \<Rightarrow> int \<Rightarrow> bool option" where
  "expire_allowed opt cur t =
     (if opt = ''nx'' then Some (cur = None)
      else if opt = ''xx'' then Some (cur \<noteq> None)
      else if opt = ''gt'' then Some (case cur of None \<Rightarrow> False | Some c \<Rightarrow> \<not> t < c)
      else if opt = ''lt'' then Some (case cur of None \<Rightarrow> True | Some c \<Rightarrow> \<not> c < t)
      else None)"

definition apply_expiry :: "'s params \<Rightarrow> string \<Rightarrow> bool \<Rightarrow> int \<Rightarrow> 's world \<Rightarrow> string res \<times> 's world" where
  "apply_expiry p key exists t w =
     (if \<not> exists then (Ok (resp_int 0), w)
      else if length (Command p) = 3
      then and_then (SetExpiry p (Context p) key (Some t) True w) (\<lambda>_ w1. (Ok (resp_int 1), w1))
      else let opt = to_lower (Command p ! 3); cur = GetExpiry p (Context p) key w
           in case expire_allowed opt cur t of
                None \<Rightarrow> (Err (''unknown option '' @ to_upper (Command p ! 3)), w)
              | Some False \<Rightarrow> (Ok (resp_int 0), w)
              | Some True \<Rightarrow>
                  and_then (if opt = ''lt'' \<and> cur \<noteq> None
                            then SetExpiry p (Context p) key (Some t) False w else (Ok (), w)) (\<lambda>_ w1.
                  and_then (SetExpiry p (Context p) key (Some t) False w1) (\<lambda>_ w2.
                    (Ok (resp_int 1), w2))))"

definition expire_error :: string where
  "expire_error = ''expire time must be integer''"

definition handleExpire :: "'s handler" where
  "handleExpire p w =
     and_then (expireKeyFunc (Command p), w) (\<lambda>keys w.
       let key = hd (WriteKeys keys);
           exists = gm_bool (KeysExist p (Context p) (WriteKeys keys) w) key
       in case atoi (Command p ! 2) of
            None \<Rightarrow> (Err expire_error, w)
          | Some n \<Rightarrow>
              apply_expiry p key exists
                (ClockNow p w + (if to_lower (hd (Command p)) = ''pexpire'' then milliseconds n else seconds n)) w)"

definition handleExpireAt :: "'s handler" where
  "handleExpireAt p w =
     and_then (expireKeyFunc (Command p), w) (\<lambda>keys w.
       let key = hd (WriteKeys keys);
           exists = gm_bool (KeysExist p (Context p) (WriteKeys keys) w) key
       in case atoi (Command p ! 2) of
            None \<Rightarrow> (Err expire_error, w)
          | Some n \<Rightarrow>
              apply_expiry p key exists
                (if to_lower (hd (Command p)) = ''pexpireat'' then time_unix_milli n else time_unix n) w)"

text \<open>
  GETEX: the option is upper-cased, then compared with \<open>persist\<close>, which never matches; without
  a number after the option nothing is done.
\<close>

definition getex_time :: "int \<Rightarrow> string \<Rightarrow> int \<Rightarrow> gotime option" where
  "getex_time now opt n =
     (if opt = ''EX'' then Some (Some (now + seconds n))
      else if opt = ''PX'' then Some (Some (now + milliseconds n))
      else if opt = ''EXAT'' then Some (Some (time_unix n))
      else if opt = ''PXAT'' then Some (Some (time_unix_milli n))
      else if opt = ''PERSIST'' then Some None
      else None)"

definition handleGetex :: "'s handler" where
  "handleGetex p w =
     and_then (getExKeyFunc (Command p), w) (\<lambda>keys w.
       let key = hd (ReadKeys keys); exkey = hd (WriteKeys keys); cmd = Command p
       in if \<not> gm_bool (KeysExist p (Context p) [key] w) key then (Ok resp_nil, w)
          else and_then (get_one p key w) (\<lambda>v w1.
            let reply = ''+'' @ fmt_v (heap w1) v @ crlf
            in if length cmd = 2 then (Ok reply, w1)
               else if to_upper (cmd ! 2) = ''persist''
               then and_then (SetExpiry p (Context p) exkey None False w1) (\<lambda>_ w2. (Ok reply, w2))
               else if length cmd = 3 then (Ok reply, w1)
               else (case atoi (cmd ! 3) of
                       None \<Rightarrow> (Err expire_error, w1)
                     | Some n \<Rightarrow>
                         (case getex_time (ClockNow p w1) (to_upper (cmd ! 2)) n of
                            None \<Rightarrow> (Err (''unknown option '' @ to_upper (to_upper (cmd ! 2)) @ '' -- '' @
                                           [CHR 0x27] @ fmt_list cmd @ [CHR 0x27]), w1)
                          | Some t \<Rightarrow>
                              and_then (SetExpiry p (Context p) exkey t False w1) (\<lambda>_ w2. (Ok reply, w2))))))"

subsection \<open>Counters\<close>

text \<open>The current value of a counter as an integer (\<open>None\<close> when there is none), or an error.\<close>

definition current_int :: "go_value \<Rightarrow> int option res" where
  "current_int v =
     (case v of
        VNil \<Rightarrow> Ok None
      | VStr s \<Rightarrow>
          (case atoi s of None \<Rightarrow> Err ''value is not an integer or out of range'' | Some i \<Rightarrow> Ok (Some i))
      | VInt i \<Rightarrow> Ok (Some i)
      | VInt64 i \<Rightarrow> Ok (Some i)
      | _ \<Rightarrow> Err ''unexpected type for currentValue'')"

text \<open>The common part: \<open>start\<close> without a current value, \<open>step\<close> of it otherwise; stored as a string.\<close>

definition counter :: "string \<Rightarrow> int \<Rightarrow> (int \<Rightarrow> int) \<Rightarrow> 's handler" where
  "counter key start step p w =
     and_then (get_one p key w) (\<lambda>v w1.
     and_then (current_int v, w1) (\<lambda>c w2.
       let n = (case c of None \<Rightarrow> start | Some i \<Rightarrow> step i)
       in and_then (SetValues p (Context p) [(key, VStr (itoa n))] w2) (\<lambda>_ w3.
            (Ok (resp_int n), w3))))"

definition handleIncr :: "'s handler" where
  "handleIncr p w =
     and_then (incrKeyFunc (Command p), w) (\<lambda>keys w.
       counter (hd (WriteKeys keys)) 1 (\<lambda>i. i64 (i + 1)) p w)"

definition handleDecr :: "'s handler" where
  "handleDecr p w =
     and_then (decrKeyFunc (Command p), w) (\<lambda>keys w.
       counter (hd (WriteKeys keys)) (- 1) (\<lambda>i. i64 (i - 1)) p w)"

definition handleIncrBy :: "'s handler" where
  "handleIncrBy p w =
     and_then (incrByKeyFunc (Command p), w) (\<lambda>keys w.
       case atoi (Command p ! 2) of
         None \<Rightarrow> (Err ''increment value is not an integer or out of range'', w)
       | Some n \<Rightarrow> counter (hd (WriteKeys keys)) n (\<lambda>i. i64 (i + n)) p w)"

definition handleDecrBy :: "'s handler" where
  "handleDecrBy p w =
     and_then (decrByKeyFunc (Command p), w) (\<lambda>keys w.
       case atoi (Command p ! 2) of
         None \<Rightarrow> (Err ''decrement value is not an integer or out of range'', w)
       | Some n \<Rightarrow> counter (hd (WriteKeys keys)) (i64 (n * - 1)) (\<lambda>i. i64 (i - n)) p w)"

definition current_float :: "go_value \<Rightarrow> float64 option res" where
  "current_float v =
     (case v of
        VNil \<Rightarrow> Ok None
      | VStr s \<Rightarrow>
          (case parse_float s of
             Some x \<Rightarrow> Ok (Some x)
           | None \<Rightarrow>
               (case atoi s of
                  None \<Rightarrow> Err ''value is not a float or integer''
                | Some i \<Rightarrow> Ok (Some (float_of_int i))))
      | VFloat x \<Rightarrow> Ok (Some x)
      | VInt64 i \<Rightarrow> Ok (Some (float_of_int i))
      | VInt i \<Rightarrow> Ok (Some (float_of_int i))
      | _ \<Rightarrow> Err ''unexpected type for currentValue'')"

definition handleIncrByFloat :: "'s handler" where
  "handleIncrByFloat p w =
     and_then (incrByFloatKeyFunc (Command p), w) (\<lambda>keys w.
       case parse_float (Command p ! 2) of
         None \<Rightarrow> (Err ''increment value is not a float or out of range'', w)
       | Some x \<Rightarrow>
           let key = hd (WriteKeys keys)
           in and_then (get_one p key w) (\<lambda>v w1.
              and_then (current_float v, w1) (\<lambda>c w2.
                let s = format_g (case c of None \<Rightarrow> x | Some y \<Rightarrow> f_add y x)
                in and_then (SetValues p (Context p) [(key, VStr s)] w2) (\<lambda>_ w3.
                     (Ok (resp_bulk s), w3)))))"

subsection \<open>The command table\<close>

definition generic_commands :: "'s command list" where
  "generic_commands =
     [mk_command ''set'' ''generic'' [''write'', ''slow''] True setKeyFunc handleSet,
      mk_command ''mset'' ''generic'' [''write'', ''slow''] True msetKeyFunc handleMSet,
      mk_command ''get'' ''generic'' [''read'', ''fast''] False getKeyFunc handleGet,
      mk_command ''mget'' ''generic'' [''read'', ''fast''] False mgetKeyFunc handleMGet,
      mk_command ''del'' ''generic'' [''keyspace'', ''write'', ''fast''] True delKeyFunc handleDel,
      mk_command ''persist'' ''generic'' [''keyspace'', ''write'', ''fast''] True persistKeyFunc handlePersist,
      mk_command ''expiretime'' ''generic'' [''keyspace'', ''read'', ''fast''] False expireTimeKeyFunc handleExpireTime,
      mk_command ''pexpiretime'' ''generic'' [''keyspace'', ''read'', ''fast''] False expireTimeKeyFunc handleExpireTime,
      mk_command ''ttl'' ''generic'' [''keyspace'', ''read'', ''fast''] False ttlKeyFunc handleTTL,
      mk_command ''pttl'' ''generic'' [''keyspace'', ''read'', ''fast''] False ttlKeyFunc handleTTL,
      mk_command ''expire'' ''generic'' [''keyspace'', ''write'', ''fast''] True expireKeyFunc handleExpire,
      mk_command ''pexpire'' ''generic'' [''keyspace'', ''write'', ''fast''] True expireKeyFunc handleExpire,
      mk_command ''expireat'' ''generic'' [''keyspace'', ''write'', ''fast''] True expireAtKeyFunc handleExpireAt,
      mk_command ''pexpireat'' ''generic'' [''keyspace'', ''write'', ''fast''] True expireAtKeyFunc handleExpireAt,
      mk_command ''incr'' ''generic'' [''write'', ''fast''] True incrKeyFunc handleIncr,
      mk_command ''decr'' ''generic'' [''write'', ''fast''] True decrKeyFunc handleDecr,
      mk_command ''incrby'' ''generic'' [''write'', ''fast''] True incrByKeyFunc handleIncrBy,
      mk_command ''incrbyfloat'' ''generic'' [''write'', ''fast''] True incrByFloatKeyFunc handleIncrByFloat,
      mk_command ''decrby'' ''generic'' [''write'', ''fast''] True decrByKeyFunc handleDecrBy,
      mk_command ''rename'' ''generic'' [''keyspace'', ''write'', ''fast''] True renameKeyFunc handleRename,
      mk_command ''flushall'' ''generic'' [''keyspace'', ''write'', ''slow'', ''dangerous''] True flushKeyFunc handleFlush,
      mk_command ''flushdb'' ''generic'' [''keyspace'', ''write'', ''slow'', ''dangerous''] True flushKeyFunc handleFlush,
      mk_command ''randomkey'' ''generic'' [''keyspace'', ''read'', ''slow''] False randomKeyFunc handleRandomkey,
      mk_command ''getdel'' ''generic'' [''write'', ''fast''] True getDelKeyFunc handleGetdel,
      mk_command ''getex'' ''generic'' [''write'', ''fast''] True getExKeyFunc handleGetex,
      mk_command ''type'' ''generic'' [''keyspace'', ''read'', ''fast''] False typeKeyFunc handleType,
      mk_command ''touch'' ''generic'' [''keyspace'', ''read'', ''fast''] True touchKeyFunc handleTouch,
      mk_command ''objectfreq'' ''generic'' [''keyspace'', ''read'', ''slow''] False objFreqKeyFunc handleObjFreq,
      mk_command ''objectidletime'' ''generic'' [''keyspace'', ''read'', ''slow''] False objIdleTimeKeyFunc handleObjIdleTime]"

end
