(* ===== verification/AclSpecs.thy ===== *)
theory AclSpecs
  imports AccessControl GenericCommands Demo
begin

text \<open>
  What access control guarantees and what it does not: the form of a normalised user, the keys a
  command may name, and what the check leaves of the command it was given.
\<close>

subsection \<open>Normalised users\<close>

text \<open>No entry twice, the alias read as \<open>*\<close>, and \<open>*\<close> alone where it stands.\<close>

definition entries_ok :: "string \<Rightarrow> string list \<Rightarrow> bool" where
  "entries_ok alias xs \<longleftrightarrow> distinct xs \<and> alias \<notin> set xs \<and> (''*'' \<in> set xs \<longrightarrow> xs = [''*''])"

text \<open>An inclusion and an exclusion: all is included by default, and nothing where all is excluded.\<close>

definition rule_pair_ok :: "string \<Rightarrow> string list \<Rightarrow> string list \<Rightarrow> bool" where
  "rule_pair_ok alias inc exc \<longleftrightarrow>
     entries_ok alias inc \<and> entries_ok alias exc \<and> (inc = [] \<longleftrightarrow> ''*'' \<in> set exc)"

definition normal_user :: "user \<Rightarrow> bool" where
  "normal_user u \<longleftrightarrow>
     rule_pair_ok ''allCategories'' (IncludedCategories u) (ExcludedCategories u) \<and>
     rule_pair_ok ''allCommands'' (IncludedCommands u) (ExcludedCommands u) \<and>
     rule_pair_ok ''allChannels'' (IncludedPubSubChannels u) (ExcludedPubSubChannels u) \<and>
     entries_ok ''allKeys'' (IncludedReadKeys u) \<and> entries_ok ''allKeys'' (IncludedWriteKeys u) \<and>
     (NoKeys u \<or> IncludedReadKeys u \<noteq> [] \<and> IncludedWriteKeys u \<noteq> []) \<and>
     sorted (map password_rank (Passwords u))"

lemma go_range_distinct: "distinct (fst (go_range xs w)) \<longleftrightarrow> distinct xs"
  by (metis go_range_simps(1) mset_eq_imp_distinct_iff)

lemma RemoveDuplicateEntries_ok:
  assumes "alias \<noteq> ''*''"
  shows "entries_ok alias (fst (RemoveDuplicateEntries xs alias w))"
proof -
  let ?ks = "remdups (map (\<lambda>e. if e = alias then ''*'' else e) xs)"
  have "alias \<notin> set ?ks" using assms by auto
  then show ?thesis
    using assms by (simp add: RemoveDuplicateEntries_def entries_ok_def go_range_distinct case_prod_beta Let_def)
qed

lemma entries_ok_star: "alias \<noteq> ''*'' \<Longrightarrow> entries_ok alias [''*'']"
  by (simp add: entries_ok_def)

lemma entries_ok_Nil [simp]: "entries_ok alias []"
  by (simp add: entries_ok_def)

lemma all_if_empty_ok: "\<lbrakk> entries_ok alias xs; alias \<noteq> ''*'' \<rbrakk> \<Longrightarrow> entries_ok alias (all_if_empty xs)"
  by (simp add: all_if_empty_def entries_ok_star)

lemma all_if_empty_nonempty [simp]: "all_if_empty xs \<noteq> []"
  by (simp add: all_if_empty_def)

lemma rule_pair_none: "\<lbrakk> ''*'' \<in> set exc; entries_ok alias exc \<rbrakk> \<Longrightarrow> rule_pair_ok alias [] exc"
  by (simp add: rule_pair_ok_def)

lemma rule_pair_some:
  "\<lbrakk> ''*'' \<notin> set exc; entries_ok alias inc; entries_ok alias exc; alias \<noteq> ''*'' \<rbrakk> \<Longrightarrow>
    rule_pair_ok alias (all_if_empty inc) exc"
  by (simp add: rule_pair_ok_def all_if_empty_ok)

lemma normalise_parts:
  "rule_pair_ok ''allCategories'' (IncludedCategories (fst (normalise_categories u w)))
     (ExcludedCategories (fst (normalise_categories u w)))"
  "rule_pair_ok ''allCommands'' (IncludedCommands (fst (normalise_commands u w)))
     (ExcludedCommands (fst (normalise_commands u w)))"
  "rule_pair_ok ''allChannels'' (IncludedPubSubChannels (fst (normalise_channels u w)))
     (ExcludedPubSubChannels (fst (normalise_channels u w)))"
  "entries_ok ''allKeys'' (IncludedReadKeys (fst (normalise_keys u w)))"
  "entries_ok ''allKeys'' (IncludedWriteKeys (fst (normalise_keys u w)))"
  "NoKeys u \<or> IncludedReadKeys (fst (normalise_keys u w)) \<noteq> [] \<and> IncludedWriteKeys (fst (normalise_keys u w)) \<noteq> []"
  by (auto simp: normalise_categories_def normalise_commands_def normalise_channels_def normalise_keys_def
      case_prod_beta RemoveDuplicateEntries_ok intro!: rule_pair_none rule_pair_some all_if_empty_ok)

text \<open>Each step changes its own fields only.\<close>

lemma normalise_frames:
  "IncludedCommands (fst (normalise_categories u w)) = IncludedCommands u"
  "IncludedCategories (fst (normalise_commands u w)) = IncludedCategories u"
  "ExcludedCategories (fst (normalise_commands u w)) = ExcludedCategories u"
  "IncludedCategories (fst (normalise_keys u w)) = IncludedCategories u"
  "ExcludedCategories (fst (normalise_keys u w)) = ExcludedCategories u"
  "IncludedCommands (fst (normalise_keys u w)) = IncludedCommands u"
  "ExcludedCommands (fst (normalise_keys u w)) = ExcludedCommands u"
  "NoKeys (fst (normalise_keys u w)) = NoKeys u"
  "IncludedCategories (fst (normalise_channels u w)) = IncludedCategories u"
  "ExcludedCategories (fst (normalise_channels u w)) = ExcludedCategories u"
  "IncludedCommands (fst (normalise_channels u w)) = IncludedCommands u"
  "ExcludedCommands (fst (normalise_channels u w)) = ExcludedCommands u"
  "IncludedReadKeys (fst (normalise_channels u w)) = IncludedReadKeys u"
  "IncludedWriteKeys (fst (normalise_channels u w)) = IncludedWriteKeys u"
  "NoKeys (fst (normalise_channels u w)) = NoKeys u"
  by (simp_all add: normalise_categories_def normalise_commands_def normalise_channels_def normalise_keys_def
      case_prod_beta)

lemmas normalised = normalise_parts normalise_frames

text \<open>The entries that are left of a list: the alias is read as \<open>*\<close>, which stays only where nothing else is given.\<close>

definition rule_set :: "string \<Rightarrow> string list \<Rightarrow> string set" where
  "rule_set alias xs =
     (let ks = (\<lambda>e. if e = alias then ''*'' else e) ` set xs in if ks = {''*''} then ks else ks - {''*''})"

text \<open>What is included: nothing where all is excluded, exactly \<open>*\<close> where the list was empty, and its entries otherwise.\<close>

definition included :: "string \<Rightarrow> string list \<Rightarrow> string list \<Rightarrow> string set" where
  "included alias inc exc =
     (if ''*'' \<in> rule_set alias exc then {} else if inc = [] then {''*''} else rule_set alias inc)"

definition normal_form_of :: "user \<Rightarrow> user \<Rightarrow> bool" where
  "normal_form_of u u' \<longleftrightarrow>
     set (IncludedCategories u') = included ''allCategories'' (IncludedCategories u) (ExcludedCategories u) \<and>
     set (ExcludedCategories u') = rule_set ''allCategories'' (ExcludedCategories u) \<and>
     set (IncludedCommands u') = included ''allCommands'' (IncludedCommands u) (ExcludedCommands u) \<and>
     set (ExcludedCommands u') = rule_set ''allCommands'' (ExcludedCommands u) \<and>
     set (IncludedPubSubChannels u') = included ''allChannels'' (IncludedPubSubChannels u) (ExcludedPubSubChannels u) \<and>
     set (ExcludedPubSubChannels u') = rule_set ''allChannels'' (ExcludedPubSubChannels u) \<and>
     set (IncludedReadKeys u') =
       (if NoKeys u then rule_set ''allKeys'' (IncludedReadKeys u) else included ''allKeys'' (IncludedReadKeys u) []) \<and>
     set (IncludedWriteKeys u') =
       (if NoKeys u then rule_set ''allKeys'' (IncludedWriteKeys u) else included ''allKeys'' (IncludedWriteKeys u) []) \<and>
     mset (Passwords u') = mset (Passwords u) \<and> NoKeys u' = NoKeys u"

lemma remdups_single: "remdups xs = [x] \<longleftrightarrow> set xs = {x}"
proof
  assume xs: "set xs = {x}"
  then have "length (remdups xs) = 1" by (simp add: length_remdups_card_conv)
  then obtain y where "remdups xs = [y]" by (auto simp: length_Suc_conv)
  moreover from this have "y \<in> set xs" by (metis list.set_intros(1) set_remdups)
  ultimately show "remdups xs = [x]" using xs by simp
qed (metis list.simps(15) empty_set set_remdups)

lemma RemoveDuplicateEntries_set: "set (fst (RemoveDuplicateEntries xs alias w)) = rule_set alias xs"
proof -
  define ks where "ks = map (\<lambda>e. if e = alias then ''*'' else e) xs"
  have "set (filter (\<lambda>k. k \<noteq> ''*'') ys) = set ys - {''*''}" for ys by auto
  then have "set (fst (RemoveDuplicateEntries xs alias w)) = (if set ks = {''*''} then set ks else set ks - {''*''})"
    by (simp add: RemoveDuplicateEntries_def ks_def [symmetric] remdups_single case_prod_beta Let_def)
  then show ?thesis by (simp add: rule_set_def ks_def)
qed

lemma rule_set_Nil [simp]: "rule_set alias [] = {}"
  by (simp add: rule_set_def)

lemma rule_set_empty [simp]: "rule_set alias xs = {} \<longleftrightarrow> xs = []"
proof -
  define ks where "ks = (\<lambda>e. if e = alias then ''*'' else e) ` set xs"
  have "rule_set alias xs = (if ks = {''*''} then ks else ks - {''*''})" by (simp add: rule_set_def ks_def)
  moreover have "(if K = {s} then K else K - {s}) = {} \<longleftrightarrow> K = {}" for K :: "string set" and s by auto
  moreover have "ks = {} \<longleftrightarrow> xs = []" unfolding ks_def by (simp only: image_is_empty set_empty)
  ultimately show ?thesis by simp
qed

lemma all_if_empty_set: "set (all_if_empty xs) = (if set xs = {} then {''*''} else set xs)"
  by (simp add: all_if_empty_def)

lemma normalise_sets:
  "set (IncludedCategories (fst (normalise_categories u w))) =
     included ''allCategories'' (IncludedCategories u) (ExcludedCategories u)"
  "set (ExcludedCategories (fst (normalise_categories u w))) = rule_set ''allCategories'' (ExcludedCategories u)"
  "set (IncludedCommands (fst (normalise_commands u w))) =
     included ''allCommands'' (IncludedCommands u) (ExcludedCommands u)"
  "set (ExcludedCommands (fst (normalise_commands u w))) = rule_set ''allCommands'' (ExcludedCommands u)"
  "set (IncludedPubSubChannels (fst (normalise_channels u w))) =
     included ''allChannels'' (IncludedPubSubChannels u) (ExcludedPubSubChannels u)"
  "set (ExcludedPubSubChannels (fst (normalise_channels u w))) = rule_set ''allChannels'' (ExcludedPubSubChannels u)"
  "set (IncludedReadKeys (fst (normalise_keys u w))) =
     (if NoKeys u then rule_set ''allKeys'' (IncludedReadKeys u) else included ''allKeys'' (IncludedReadKeys u) [])"
  "set (IncludedWriteKeys (fst (normalise_keys u w))) =
     (if NoKeys u then rule_set ''allKeys'' (IncludedWriteKeys u) else included ''allKeys'' (IncludedWriteKeys u) [])"
  by (simp_all add: normalise_categories_def normalise_commands_def normalise_channels_def normalise_keys_def
      case_prod_beta included_def RemoveDuplicateEntries_set all_if_empty_set)

lemma normalise_other_fields:
  "ExcludedCommands (fst (normalise_categories u w)) = ExcludedCommands u"
  "IncludedPubSubChannels (fst (normalise_categories u w)) = IncludedPubSubChannels u"
  "ExcludedPubSubChannels (fst (normalise_categories u w)) = ExcludedPubSubChannels u"
  "IncludedPubSubChannels (fst (normalise_commands u w)) = IncludedPubSubChannels u"
  "ExcludedPubSubChannels (fst (normalise_commands u w)) = ExcludedPubSubChannels u"
  "IncludedPubSubChannels (fst (normalise_keys u w)) = IncludedPubSubChannels u"
  "ExcludedPubSubChannels (fst (normalise_keys u w)) = ExcludedPubSubChannels u"
  "IncludedReadKeys (fst (normalise_categories u w)) = IncludedReadKeys u"
  "IncludedWriteKeys (fst (normalise_categories u w)) = IncludedWriteKeys u"
  "IncludedReadKeys (fst (normalise_commands u w)) = IncludedReadKeys u"
  "IncludedWriteKeys (fst (normalise_commands u w)) = IncludedWriteKeys u"
  "NoKeys (fst (normalise_categories u w)) = NoKeys u" "NoKeys (fst (normalise_commands u w)) = NoKeys u"
  "ExcludedCommands (fst (normalise_channels u w)) = ExcludedCommands u"
  "Passwords (fst (normalise_categories u w)) = Passwords u" "Passwords (fst (normalise_commands u w)) = Passwords u"
  "Passwords (fst (normalise_keys u w)) = Passwords u" "Passwords (fst (normalise_channels u w)) = Passwords u"
  by (simp_all add: normalise_categories_def normalise_commands_def normalise_channels_def normalise_keys_def
      case_prod_beta)

text \<open>C35: Whatever its lists of rules hold, and in whatever order the maps are iterated, a user that was normalised has
  no duplicates, the star only where it is the single entry, and its plain passwords before its digests. Each of its lists has the
  entries that the user had, the alias read as star and the star dropped where other entries are given; a list of inclusions that
  was empty becomes the star alone, unless everything is excluded (or, for the keys, the user may use no keys), and where
  everything is excluded the inclusions are emptied. No password is lost or added.\<close>

theorem Normalise_gives_normal_user:
  "normal_user (fst (Normalise u w)) \<and> normal_form_of u (fst (Normalise u w))"
proof
  show "normal_user (fst (Normalise u w))"
    by (simp add: Normalise_def normal_user_def case_prod_beta normalised)
  show "normal_form_of u (fst (Normalise u w))"
    by (simp add: Normalise_def normal_form_of_def case_prod_beta normalise_sets normalise_frames normalise_other_fields)
qed

subsection \<open>The keys of a command\<close>

text \<open>A pattern of the user matches the key.\<close>

definition may_use :: "(string, string \<Rightarrow> bool) gomap \<Rightarrow> string list \<Rightarrow> string \<Rightarrow> bool" where
  "may_use m gs k \<longleftrightarrow> (\<exists>g\<in>set gs. case map_of m g of None \<Rightarrow> False | Some f \<Rightarrow> f k)"

definition compiled :: "(string, string \<Rightarrow> bool) gomap \<Rightarrow> string list \<Rightarrow> bool" where
  "compiled m gs \<longleftrightarrow> (\<forall>g\<in>set gs. map_of m g \<noteq> None)"

lemma may_use_simps [simp]:
  "\<not> may_use m [] k" "map_of m g = Some f \<Longrightarrow> may_use m (g # gs) k \<longleftrightarrow> f k \<or> may_use m gs k"
  by (simp_all add: may_use_def)

lemma compiled_Cons [simp]: "compiled m (g # gs) \<longleftrightarrow> map_of m g \<noteq> None \<and> compiled m gs"
  by (simp add: compiled_def)









subsection \<open>The command after the check\<close>

text \<open>A user that may do everything.\<close>

definition unrestricted :: "acl \<Rightarrow> user \<Rightarrow> bool" where
  "unrestricted a u \<longleftrightarrow>
     IncludedCategories u = [''*''] \<and> ExcludedCategories u = [] \<and> IncludedCommands u = [''*''] \<and> ExcludedCommands u = [] \<and>
     \<not> NoKeys u \<and> IncludedReadKeys u = [''*''] \<and> IncludedWriteKeys u = [''*''] \<and>
     map_of (GlobPatterns a) ''*'' = Some (\<lambda>_. True)"

lemma unrestricted_check:
  assumes "unrestricted a u" "ReadKeys k \<noteq> [] \<or> WriteKeys k \<noteq> []" "''pubsub'' \<notin> set cats"
  shows "\<exists>w'. authorize_user a u comm cats k cmd w = ((Ok (), append_keys k cmd), w')"
proof -
  have "check_keys a u k = Ok ()"
    using assms(1)
    by (cases "ReadKeys k"; cases "WriteKeys k") (simp_all add: unrestricted_def check_keys_def check_write_keys_def)
  moreover have "find (\<lambda>c. False) cats = None" by (simp add: find_None_iff)
  ultimately show ?thesis
    using assms by (auto simp: authorize_user_def unrestricted_def case_prod_beta Let_def)
qed

text \<open>C16: Where passwords are required, the access check itself changes \<open>GETEX key EX n\<close>: the user may do everything, yet what the
  handler receives afterwards is \<open>GETEX key key n\<close>, with the key in the place of the option.\<close>

theorem authorization_rewrites_GETEX:
  assumes "RequirePass (AclSettings a)"
    and "map_of (Connections a) (Some c) = Some \<lparr>Authenticated = True, ConnUser = i\<rparr>"
    and "unrestricted a (user_at a i)"
    and "find (\<lambda>c. CommandName c = ''getex'') generic_commands = Some command"
  shows "fst (AuthorizeConnection a (Some c) [''GETEX'', key, opt, n] command None w) =
    (Ok (), [''GETEX'', key, key, n])"
proof -
  have cmd: "CommandName command = ''getex''" "Categories command = [''write'', ''fast'']"
    "KeyExtractionFunc command = getExKeyFunc"
    using assms(4) by (auto simp: generic_commands_def mk_command_def)
  have k: "getExKeyFunc [''GETEX'', key, opt, n] =
      Ok \<lparr>Channels = [], ReadKeys = [key], WriteKeys = [key], ReadEnd = Some 2\<rparr>" (is "_ = Ok ?k")
    by (simp add: getExKeyFunc_def)
  have app: "append_keys ?k [''GETEX'', key, opt, n] = [''GETEX'', key, key, n]"
    by (simp add: append_keys_def overwrite_def slice_cap.simps)
  obtain w' where "authorize_user a (user_at a i) ''getex'' [''write'', ''fast''] ?k [''GETEX'', key, opt, n] w =
      ((Ok (), append_keys ?k [''GETEX'', key, opt, n]), w')"
    using unrestricted_check [OF assms(3), of ?k "[''write'', ''fast'']" "''getex''" "[''GETEX'', key, opt, n]" w] by auto
  then show ?thesis
    using assms(1,2) by (simp add: AuthorizeConnection_def cmd k app case_simps)
qed

definition open_user :: user where
  "open_user = (CreateUser ''default'')\<lparr>IncludedCategories := [''*''], IncludedCommands := [''*''],
     IncludedReadKeys := [''*''], IncludedWriteKeys := [''*''], IncludedPubSubChannels := [''*'']\<rparr>"

definition open_acl :: acl where
  "open_acl = \<lparr>user_heap = [open_user], Users = [0], Connections = [(Some 7, \<lparr>Authenticated = True, ConnUser = 0\<rparr>)],
     AclSettings = \<lparr>RequirePass = True, ServerPassword = ''pw'', AclConfig = []\<rparr>,
     GlobPatterns = [(''*'', \<lambda>_. True)], Closing = []\<rparr>"

lemma open_unrestricted: "unrestricted open_acl (user_at open_acl 0)"
  by (simp add: unrestricted_def open_acl_def open_user_def CreateUser_def user_at_def)

theorem authorization_rewrites_GETEX_witness:
  "fst (AuthorizeConnection open_acl (Some 7) [''GETEX'', ''k'', ''EX'', ''10'']
      (mk_command ''getex'' ''generic'' [''write'', ''fast''] True getExKeyFunc (handleGetex :: server handler)) None
      (demo_world demo_config [] [])) = (Ok (), [''GETEX'', ''k'', ''k'', ''10''])"
  by (rule authorization_rewrites_GETEX [where i = 0, OF _ _ open_unrestricted])
    (simp_all add: open_acl_def generic_commands_def mk_command_def)

end
