(* ===== verification/HashCommands.thy ===== *)
theory HashCommands
  imports SetCommands
begin

text \<open>
  The hash commands (\<open>internal/modules/hash/commands.go\<close>, \<open>key_funcs.go\<close>). A hash is an
  association list of its fields; a handler that changes the stored map in place does so with
  \<open>WriteThrough\<close> before it stores the map again.
\<close>

subsection \<open>Keys of the commands\<close>

definition hsetKeyFunc :: "string list \<Rightarrow> key_result res" where
  "hsetKeyFunc cmd = (if length cmd < 4 then Err WrongArgsResponse else Ok (writes_of [cmd ! 1]))"

definition hsetnxKeyFunc :: "string list \<Rightarrow> key_result res" where
  "hsetnxKeyFunc cmd = (if length cmd < 4 then Err WrongArgsResponse else Ok (writes_of [cmd ! 1]))"

definition hgetKeyFunc :: "string list \<Rightarrow> key_result res" where
  "hgetKeyFunc cmd = (if length cmd < 3 then Err WrongArgsResponse else Ok (reads_of [cmd ! 1]))"

definition hmgetKeyFunc :: "string list \<Rightarrow> key_result res" where
  "hmgetKeyFunc cmd = (if length cmd < 3 then Err WrongArgsResponse else Ok (reads_of [cmd ! 1]))"

definition hstrlenKeyFunc :: "string list \<Rightarrow> key_result res" where
  "hstrlenKeyFunc cmd = (if length cmd < 3 then Err WrongArgsResponse else Ok (reads_of [cmd ! 1]))"

definition hvalsKeyFunc :: "string list \<Rightarrow> key_result res" where
  "hvalsKeyFunc cmd = (if length cmd \<noteq> 2 then Err WrongArgsResponse else Ok (reads_of (tl cmd)))"

definition hrandfieldKeyFunc :: "string list \<Rightarrow> key_result res" where
  "hrandfieldKeyFunc cmd =
     (if length cmd < 2 \<or> 4 < length cmd then Err WrongArgsResponse else Ok (reads_of [cmd ! 1]))"

definition hlenKeyFunc :: "string list \<Rightarrow> key_result res" where
  "hlenKeyFunc cmd = (if length cmd \<noteq> 2 then Err WrongArgsResponse else Ok (reads_of (tl cmd)))"

definition hkeysKeyFunc :: "string list \<Rightarrow> key_result res" where
  "hkeysKeyFunc cmd = (if length cmd \<noteq> 2 then Err WrongArgsResponse else Ok (reads_of (tl cmd)))"

definition hincrbyKeyFunc :: "string list \<Rightarrow> key_result res" where
  "hincrbyKeyFunc cmd = (if length cmd \<noteq> 4 then Err WrongArgsResponse else Ok (writes_of [cmd ! 1]))"

definition hgetallKeyFunc :: "string list \<Rightarrow> key_result res" where
  "hgetallKeyFunc cmd = (if length cmd \<noteq> 2 then Err WrongArgsResponse else Ok (reads_of (tl cmd)))"

definition hexistsKeyFunc :: "string list \<Rightarrow> key_result res" where
  "hexistsKeyFunc cmd = (if length cmd \<noteq> 3 then Err WrongArgsResponse else Ok (reads_of [cmd ! 1]))"

definition hdelKeyFunc :: "string list \<Rightarrow> key_result res" where
  "hdelKeyFunc cmd = (if length cmd < 3 then Err WrongArgsResponse else Ok (writes_of [cmd ! 1]))"

lemmas hash_key_funcs = hsetKeyFunc_def hsetnxKeyFunc_def hgetKeyFunc_def hmgetKeyFunc_def
  hstrlenKeyFunc_def hvalsKeyFunc_def hrandfieldKeyFunc_def hlenKeyFunc_def hkeysKeyFunc_def
  hincrbyKeyFunc_def hgetallKeyFunc_def hexistsKeyFunc_def hdelKeyFunc_def

subsection \<open>Reading the hash\<close>

definition not_a_hash :: "string \<Rightarrow> string" where
  "not_a_hash key = ''value at '' @ key @ '' is not a hash''"

definition the_hash :: "string \<Rightarrow> go_value \<Rightarrow> 's world \<Rightarrow> (string \<times> go_value) list res \<times> 's world" where
  "the_hash key v w = (case as_hash v of None \<Rightarrow> (Err (not_a_hash key), w) | Some h \<Rightarrow> (Ok h, w))"

text \<open>How the reading handlers begin: a key that is absent has its own reply.\<close>

definition read_hash ::
    "'s params \<Rightarrow> string \<Rightarrow> string \<Rightarrow> 's world \<Rightarrow>
      ((string \<times> go_value) list \<Rightarrow> 's world \<Rightarrow> string res \<times> 's world) \<Rightarrow> string res \<times> 's world" where
  "read_hash p key absent w f =
     (if \<not> gm_bool (KeysExist p (Context p) [key] w) key then (Ok absent, w)
      else and_then (get_one p key w) (\<lambda>v w1. and_then (the_hash key v w1) f))"

text \<open>A field's value in a reply; a type without a branch of its own has none.\<close>

fun field_reply :: "go_value \<Rightarrow> string option" where
  "field_reply (VStr s) = Some (resp_bulk s)"
| "field_reply (VInt d) = Some (resp_int d)"
| "field_reply (VFloat f) = Some (resp_bulk (format_float f))"
| "field_reply _ = None"

definition field_or_nil :: "go_value \<Rightarrow> string" where
  "field_or_nil v = (case field_reply v of None \<Rightarrow> resp_nil | Some r \<Rightarrow> r)"

definition field_or_nothing :: "go_value \<Rightarrow> string" where
  "field_or_nothing v = (case field_reply v of None \<Rightarrow> [] | Some r \<Rightarrow> r)"

definition handleHGET :: "'s handler" where
  "handleHGET p w =
     and_then (hgetKeyFunc (Command p), w) (\<lambda>keys w.
       let fields = drop 2 (Command p)
       in read_hash p (hd (ReadKeys keys)) resp_nil w (\<lambda>h w1.
            (Ok (array_head (int (length fields)) @ concat (map (\<lambda>f. field_or_nil (gm_value h f)) fields)), w1)))"

definition handleHMGET :: "'s handler" where
  "handleHMGET p w =
     and_then (hmgetKeyFunc (Command p), w) (\<lambda>keys w.
       let fields = drop 2 (Command p)
       in read_hash p (hd (ReadKeys keys)) resp_nil w (\<lambda>h w1.
            (Ok (array_head (int (length fields)) @ concat (map (\<lambda>f. field_or_nil (gm_value h f)) fields)), w1)))"

fun value_strlen :: "go_value \<Rightarrow> int" where
  "value_strlen (VStr s) = int (length s)"
| "value_strlen (VFloat f) = int (length (format_float f))"
| "value_strlen (VInt d) = int (length (itoa d))"
| "value_strlen _ = 0"

definition handleHSTRLEN :: "'s handler" where
  "handleHSTRLEN p w =
     and_then (hstrlenKeyFunc (Command p), w) (\<lambda>keys w.
       let fields = drop 2 (Command p)
       in read_hash p (hd (ReadKeys keys)) resp_nil w (\<lambda>h w1.
            (Ok (array_head (int (length fields)) @
                 concat (map (\<lambda>f. resp_int (value_strlen (gm_value h f))) fields)), w1)))"

definition handleHVALS :: "'s handler" where
  "handleHVALS p w =
     and_then (hvalsKeyFunc (Command p), w) (\<lambda>keys w.
       read_hash p (hd (ReadKeys keys)) (array_head 0) w (\<lambda>h w1.
         let (es, w2) = go_range h w1
         in (Ok (array_head (int (length h)) @ concat (map (\<lambda>(f, v). field_or_nothing v) es)), w2)))"

definition handleHLEN :: "'s handler" where
  "handleHLEN p w =
     and_then (hlenKeyFunc (Command p), w) (\<lambda>keys w.
       read_hash p (hd (ReadKeys keys)) (resp_int 0) w (\<lambda>h w1. (Ok (resp_int (int (length h))), w1)))"

definition handleHKEYS :: "'s handler" where
  "handleHKEYS p w =
     and_then (hkeysKeyFunc (Command p), w) (\<lambda>keys w.
       read_hash p (hd (ReadKeys keys)) (array_head 0) w (\<lambda>h w1.
         let (es, w2) = go_range h w1
         in (Ok (array_head (int (length h)) @ concat (map (\<lambda>(f, v). resp_bulk f) es)), w2)))"

definition handleHGETALL :: "'s handler" where
  "handleHGETALL p w =
     and_then (hgetallKeyFunc (Command p), w) (\<lambda>keys w.
       read_hash p (hd (ReadKeys keys)) (array_head 0) w (\<lambda>h w1.
         let (es, w2) = go_range h w1
         in (Ok (array_head (int (length h) * 2) @
                 concat (map (\<lambda>(f, v). resp_bulk f @ field_or_nothing v) es)), w2)))"

definition handleHEXISTS :: "'s handler" where
  "handleHEXISTS p w =
     and_then (hexistsKeyFunc (Command p), w) (\<lambda>keys w.
       read_hash p (hd (ReadKeys keys)) (resp_int 0) w (\<lambda>h w1.
         (Ok (if gm_value h (Command p ! 2) \<noteq> VNil then resp_int 1 else resp_int 0), w1)))"

subsection \<open>Random fields\<close>

text \<open>
  The loop that plucks \<open>n\<close> fields; with a positive count a plucked field leaves the candidates.
\<close>

fun pluck :: "bool \<Rightarrow> nat \<Rightarrow> string list \<Rightarrow> coins \<Rightarrow> string list res \<times> coins" where
  "pluck uniq 0 names cs = (Ok [], cs)"
| "pluck uniq (Suc n) names cs =
     (if names = [] then (Panic intn_panic, cs)
      else let e = names ! intn (cs 0) (length names);
               (r, cs') = pluck uniq n (if uniq then filter (\<lambda>s. s \<noteq> e) names else names) (next_coins cs)
           in (map_res (\<lambda>es. e # es) r, cs'))"

definition hrandfield_reply :: "bool \<Rightarrow> (string \<times> go_value) list \<Rightarrow> string" where
  "hrandfield_reply withvalues es =
     array_head (int (length es) * (if withvalues then 2 else 1)) @
     concat (map (\<lambda>(f, v). resp_bulk f @ (if withvalues then field_or_nothing v else [])) es)"

text \<open>The count (\<open>None\<close> for a zero, which is answered at once) and the modifier.\<close>

definition hrandfield_count :: "string list \<Rightarrow> int option res" where
  "hrandfield_count cmd =
     (if 3 \<le> length cmd
      then (case atoi (cmd ! 2) of
              None \<Rightarrow> Err ''count must be an integer''
            | Some c \<Rightarrow> Ok (if c = 0 then None else Some c))
      else Ok (Some 1))"

definition hrandfield_withvalues :: "string list \<Rightarrow> bool res" where
  "hrandfield_withvalues cmd =
     (if length cmd = 4
      then (if equal_fold (cmd ! 3) ''withvalues'' then Ok True
            else Err ''result modifier must be withvalues'')
      else Ok False)"

definition handleHRANDFIELD :: "'s handler" where
  "handleHRANDFIELD p w =
     and_then (hrandfieldKeyFunc (Command p), w) (\<lambda>keys w.
     and_then (hrandfield_count (Command p), w) (\<lambda>c w.
       case c of
         None \<Rightarrow> (Ok (array_head 0), w)
       | Some cnt \<Rightarrow>
           and_then (hrandfield_withvalues (Command p), w) (\<lambda>wv w.
             read_hash p (hd (ReadKeys keys)) (array_head 0) w (\<lambda>h w1.
               let (es, w2) = go_range h w1
               in if int (length h) \<le> cnt then (Ok (hrandfield_reply wv es), w2)
                  else let (r, cs) = pluck (0 < cnt) (nat (AbsInt cnt)) (map fst es) (coins w2)
                       in and_then (r, w2\<lparr>coins := cs\<rparr>) (\<lambda>fs w3.
                            (Ok (hrandfield_reply wv (map (\<lambda>f. (f, gm_value h f)) fs)), w3))))))"

subsection \<open>Handlers that write\<close>

text \<open>The field and value pairs of HSET; a field given twice has its last value.\<close>

fun hset_entries :: "string list \<Rightarrow> (string, go_value) gomap \<Rightarrow> (string, go_value) gomap" where
  "hset_entries (f # v # args) m = hset_entries args (AList.update f (AdaptType v) m)"
| "hset_entries _ m = m"

text \<open>The merge of the new entries with the stored hash: HSETNX lets the stored value win.\<close>

definition merge_old :: "(string \<times> go_value) list \<Rightarrow> (string, go_value) gomap \<Rightarrow> (string, go_value) gomap" where
  "merge_old h entries = fold (\<lambda>(f, v) m. AList.update f v m) h entries"

definition merge_missing :: "(string \<times> go_value) list \<Rightarrow> (string, go_value) gomap \<Rightarrow> (string, go_value) gomap" where
  "merge_missing h entries =
     fold (\<lambda>(f, v) m. if gm_value m f = VNil then AList.update f v m else m) h entries"

definition hset_merge :: "bool \<Rightarrow> (string \<times> go_value) list \<Rightarrow> (string, go_value) gomap \<Rightarrow> (string, go_value) gomap \<times> nat" where
  "hset_merge nx h entries =
     (if nx
      then (merge_old h entries, length (filter (\<lambda>(f, v). gm_value h f = VNil) entries))
      else let m = merge_missing h entries in (m, length m))"

definition handleHSET :: "'s handler" where
  "handleHSET p w =
     and_then (hsetKeyFunc (Command p), w) (\<lambda>keys w.
       let key = hd (WriteKeys keys);
           exists = gm_bool (KeysExist p (Context p) (WriteKeys keys) w) key;
           entries = hset_entries (drop 2 (Command p)) [];
           save = (\<lambda>m n w. and_then (SetValues p (Context p) [(key, VHash m)] w) (\<lambda>_ w1.
                     (Ok (resp_int (int n)), w1)))
       in if odd (length (drop 2 (Command p))) then (Err ''each field must have a corresponding value'', w)
          else if \<not> exists then save entries (length entries) w
          else and_then (get_one p key w) (\<lambda>v w1.
               case as_hash v of
                 None \<Rightarrow> save entries (length entries) w1
               | Some h \<Rightarrow>
                   let (m, n) = hset_merge (to_lower (hd (Command p)) = ''hsetnx'') h entries in save m n w1))"

text \<open>The increment of HINCRBY and HINCRBYFLOAT: at an integer or a float field.\<close>

datatype increment = IncInt int | IncFloat float64

definition parse_increment :: "string list \<Rightarrow> increment res" where
  "parse_increment cmd =
     (if equal_fold (hd cmd) ''hincrbyfloat''
      then (case parse_float (cmd ! 3) of
              None \<Rightarrow> Err ''increment must be a float'' | Some f \<Rightarrow> Ok (IncFloat f))
      else (case atoi (cmd ! 3) of
              None \<Rightarrow> Err ''increment must be an integer'' | Some i \<Rightarrow> Ok (IncInt i)))"

fun inc_value :: "increment \<Rightarrow> go_value" where
  "inc_value (IncInt i) = VInt i"
| "inc_value (IncFloat f) = VFloat f"

fun add_increment :: "go_value \<Rightarrow> increment \<Rightarrow> go_value option" where
  "add_increment (VInt i) (IncInt n) = Some (VInt (i64 (i + n)))"
| "add_increment (VInt i) (IncFloat x) = Some (VFloat (f_add (float_of_int i) x))"
| "add_increment (VFloat f) (IncInt n) = Some (VFloat (f_add f (float_of_int n)))"
| "add_increment (VFloat f) (IncFloat x) = Some (VFloat (f_add f x))"
| "add_increment _ _ = None"

fun number_reply :: "go_value \<Rightarrow> string" where
  "number_reply (VFloat f) = ''+'' @ format_float f @ crlf"
| "number_reply (VInt i) = resp_int i"
| "number_reply _ = resp_int 0"

definition handleHINCRBY :: "'s handler" where
  "handleHINCRBY p w =
     and_then (hincrbyKeyFunc (Command p), w) (\<lambda>keys w.
       let key = hd (WriteKeys keys); field = Command p ! 2;
           exists = gm_bool (KeysExist p (Context p) (WriteKeys keys) w) key
       in and_then (parse_increment (Command p), w) (\<lambda>inc w.
            if \<not> exists
            then and_then (SetValues p (Context p) [(key, VHash [(field, inc_value inc)])] w) (\<lambda>_ w1.
                   (Ok (number_reply (inc_value inc)), w1))
            else and_then (get_one p key w) (\<lambda>v w1.
                 and_then (the_hash key v w1) (\<lambda>h w2.
                   let h0 = (if gm_value h field = VNil then AList.update field (VInt 0) h else h);
                       w3 = WriteThrough p (Context p) key (VHash h0) w2
                   in case add_increment (gm_value h0 field) inc of
                        None \<Rightarrow> (Err (''value at field '' @ field @ '' is not a number''), w3)
                      | Some x \<Rightarrow>
                          let h1 = AList.update field x h0;
                              w4 = WriteThrough p (Context p) key (VHash h1) w3
                          in and_then (SetValues p (Context p) [(key, VHash h1)] w4) (\<lambda>_ w5.
                               (Ok (number_reply x), w5))))))"

fun hdel_loop :: "(string \<times> go_value) list \<Rightarrow> nat \<Rightarrow> string list \<Rightarrow> (string \<times> go_value) list \<times> nat" where
  "hdel_loop h n [] = (h, n)"
| "hdel_loop h n (f # fs) =
     (if gm_value h f \<noteq> VNil then hdel_loop (AList.delete f h) (Suc n) fs else hdel_loop h n fs)"

definition handleHDEL :: "'s handler" where
  "handleHDEL p w =
     and_then (hdelKeyFunc (Command p), w) (\<lambda>keys w.
       let key = hd (WriteKeys keys)
       in read_hash p key (resp_int 0) w (\<lambda>h w1.
            let (h', n) = hdel_loop h 0 (drop 2 (Command p));
                w2 = WriteThrough p (Context p) key (VHash h') w1
            in and_then (SetValues p (Context p) [(key, VHash h')] w2) (\<lambda>_ w3.
                 (Ok (resp_int (int n)), w3))))"

subsection \<open>The command table\<close>

definition hash_commands :: "'s command list" where
  "hash_commands =
     [mk_command ''hset'' ''hash'' [''hash'', ''write'', ''fast''] True hsetKeyFunc handleHSET,
      mk_command ''hsetnx'' ''hash'' [''hash'', ''write'', ''fast''] True hsetnxKeyFunc handleHSET,
      mk_command ''hget'' ''hash'' [''hash'', ''read'', ''fast''] False hgetKeyFunc handleHGET,
      mk_command ''hmget'' ''hash'' [''hash'', ''read'', ''fast''] False hmgetKeyFunc handleHMGET,
      mk_command ''hstrlen'' ''hash'' [''hash'', ''read'', ''fast''] False hstrlenKeyFunc handleHSTRLEN,
      mk_command ''hvals'' ''hash'' [''hash'', ''read'', ''slow''] False hvalsKeyFunc handleHVALS,
      mk_command ''hrandfield'' ''hash'' [''hash'', ''read'', ''slow''] False hrandfieldKeyFunc handleHRANDFIELD,
      mk_command ''hlen'' ''hash'' [''hash'', ''read'', ''fast''] False hlenKeyFunc handleHLEN,
      mk_command ''hkeys'' ''hash'' [''hash'', ''read'', ''slow''] False hkeysKeyFunc handleHKEYS,
      mk_command ''hincrbyfloat'' ''hash'' [''hash'', ''write'', ''fast''] True hincrbyKeyFunc handleHINCRBY,
      mk_command ''hincrby'' ''hash'' [''hash'', ''write'', ''fast''] True hincrbyKeyFunc handleHINCRBY,
      mk_command ''hgetall'' ''hash'' [''hash'', ''read'', ''slow''] False hgetallKeyFunc handleHGETALL,
      mk_command ''hexists'' ''hash'' [''hash'', ''read'', ''fast''] False hexistsKeyFunc handleHEXISTS,
      mk_command ''hdel'' ''hash'' [''hash'', ''write'', ''fast''] True hdelKeyFunc handleHDEL]"

end
