(* ===== verification/ZSetCommands.thy ===== *)
theory ZSetCommands
  imports ZSetData SetCommands
begin

text \<open>
  The sorted set commands (\<open>internal/modules/sorted_set/commands.go\<close>, \<open>key_funcs.go\<close>). A handler
  that changes the stored set changes it in place (\<open>WriteThrough\<close>) and does not store it again.
\<close>

subsection \<open>Keys of the commands\<close>

definition zaddKeyFunc :: "string list \<Rightarrow> key_result res" where
  "zaddKeyFunc cmd = (if length cmd < 4 then Err WrongArgsResponse else Ok (writes_of [cmd ! 1]))"

definition zcardKeyFunc :: "string list \<Rightarrow> key_result res" where
  "zcardKeyFunc cmd = (if length cmd \<noteq> 2 then Err WrongArgsResponse else Ok (reads_of (tl cmd)))"

definition zcountKeyFunc :: "string list \<Rightarrow> key_result res" where
  "zcountKeyFunc cmd = (if length cmd \<noteq> 4 then Err WrongArgsResponse else Ok (reads_of [cmd ! 1]))"

definition zdiffKeyFunc :: "string list \<Rightarrow> key_result res" where
  "zdiffKeyFunc cmd =
     (if length cmd < 2 then Err WrongArgsResponse
      else if option_index ''withscores'' cmd = - 1 then Ok (reads_of (tl cmd))
      else map_res reads_of (slice_range cmd 1 (option_index ''withscores'' cmd)))"

definition zdiffstoreKeyFunc :: "string list \<Rightarrow> key_result res" where
  "zdiffstoreKeyFunc cmd = store_keys cmd"

definition zincrbyKeyFunc :: "string list \<Rightarrow> key_result res" where
  "zincrbyKeyFunc cmd = (if length cmd \<noteq> 4 then Err WrongArgsResponse else Ok (writes_of [cmd ! 1]))"

text \<open>
  Where the keys of ZINTER and ZUNION end: the index is one into the command less its first
  word, but is used as one into the whole command, so that the last key is left out.
\<close>

definition modifier_index :: "string list \<Rightarrow> int" where
  "modifier_index cmd =
     index_func (\<lambda>s. equal_fold s ''WEIGHTS'' \<or> equal_fold s ''AGGREGATE'' \<or> equal_fold s ''WITHSCORES'') cmd"

definition zinterKeyFunc :: "string list \<Rightarrow> key_result res" where
  "zinterKeyFunc cmd =
     (let e = modifier_index (tl cmd)
      in if length cmd < 2 then Err WrongArgsResponse
         else if e = - 1 then Ok (reads_of (tl cmd))
         else if 1 \<le> e then map_res reads_of (slice_range cmd 1 e)
         else Err WrongArgsResponse)"

definition zinterstoreKeyFunc :: "string list \<Rightarrow> key_result res" where
  "zinterstoreKeyFunc cmd =
     (let e = modifier_index (tl cmd)
      in if length cmd < 3 then Err WrongArgsResponse
         else if e = - 1 then store_keys cmd
         else if 3 \<le> e
         then map_res (\<lambda>ks. \<lparr>Channels = [], ReadKeys = ks, WriteKeys = [cmd ! 1], ReadEnd = Some (nat (e + 1))\<rparr>)
                (slice_range cmd 2 (e + 1))
         else Err WrongArgsResponse)"

definition zmpopKeyFunc :: "string list \<Rightarrow> key_result res" where
  "zmpopKeyFunc cmd =
     (let e = index_func (\<lambda>s. to_upper s \<in> {''MIN'', ''MAX'', ''COUNT''}) cmd
      in if length cmd < 2 then Err WrongArgsResponse
         else if e = - 1 then Ok (writes_of (tl cmd))
         else if 2 \<le> e then map_res writes_of (slice_range cmd 1 e)
         else Err WrongArgsResponse)"

definition zmscoreKeyFunc :: "string list \<Rightarrow> key_result res" where
  "zmscoreKeyFunc cmd = (if length cmd < 3 then Err WrongArgsResponse else Ok (reads_of [cmd ! 1]))"

definition zpopKeyFunc :: "string list \<Rightarrow> key_result res" where
  "zpopKeyFunc cmd =
     (if length cmd < 2 \<or> 3 < length cmd then Err WrongArgsResponse else Ok (writes_of [cmd ! 1]))"

definition zrandmemberKeyFunc :: "string list \<Rightarrow> key_result res" where
  "zrandmemberKeyFunc cmd =
     (if length cmd < 2 \<or> 4 < length cmd then Err WrongArgsResponse else Ok (reads_of [cmd ! 1]))"

definition zrankKeyFunc :: "string list \<Rightarrow> key_result res" where
  "zrankKeyFunc cmd =
     (if length cmd < 3 \<or> 4 < length cmd then Err WrongArgsResponse else Ok (reads_of [cmd ! 1]))"

definition zremKeyFunc :: "string list \<Rightarrow> key_result res" where
  "zremKeyFunc cmd = (if length cmd < 3 then Err WrongArgsResponse else Ok (writes_of [cmd ! 1]))"

definition zrevrankKeyFunc :: "string list \<Rightarrow> key_result res" where
  "zrevrankKeyFunc cmd = (if length cmd < 3 then Err WrongArgsResponse else Ok (reads_of [cmd ! 1]))"

definition zscoreKeyFunc :: "string list \<Rightarrow> key_result res" where
  "zscoreKeyFunc cmd = (if length cmd \<noteq> 3 then Err WrongArgsResponse else Ok (reads_of [cmd ! 1]))"

definition zremrangebylexKeyFunc :: "string list \<Rightarrow> key_result res" where
  "zremrangebylexKeyFunc cmd = (if length cmd \<noteq> 4 then Err WrongArgsResponse else Ok (writes_of [cmd ! 1]))"

definition zremrangebyrankKeyFunc :: "string list \<Rightarrow> key_result res" where
  "zremrangebyrankKeyFunc cmd = (if length cmd \<noteq> 4 then Err WrongArgsResponse else Ok (writes_of [cmd ! 1]))"

definition zremrangebyscoreKeyFunc :: "string list \<Rightarrow> key_result res" where
  "zremrangebyscoreKeyFunc cmd = (if length cmd \<noteq> 4 then Err WrongArgsResponse else Ok (writes_of [cmd ! 1]))"

definition zlexcountKeyFunc :: "string list \<Rightarrow> key_result res" where
  "zlexcountKeyFunc cmd = (if length cmd \<noteq> 4 then Err WrongArgsResponse else Ok (reads_of [cmd ! 1]))"

definition zrangeKeyCount :: "string list \<Rightarrow> key_result res" where
  "zrangeKeyCount cmd =
     (if length cmd < 4 \<or> 10 < length cmd then Err WrongArgsResponse else Ok (reads_of [cmd ! 1]))"

definition zrangeStoreKeyFunc :: "string list \<Rightarrow> key_result res" where
  "zrangeStoreKeyFunc cmd =
     (if length cmd < 5 \<or> 11 < length cmd then Err WrongArgsResponse
      else Ok \<lparr>Channels = [], ReadKeys = [cmd ! 2], WriteKeys = [cmd ! 1], ReadEnd = Some 3\<rparr>)"

definition zunionKeyFunc :: "string list \<Rightarrow> key_result res" where
  "zunionKeyFunc cmd =
     (let e = modifier_index (tl cmd)
      in if length cmd < 2 then Err WrongArgsResponse
         else if e = - 1 then Ok (reads_of (tl cmd))
         else if 1 \<le> e
         then map_res (\<lambda>ks. \<lparr>Channels = [], ReadKeys = ks, WriteKeys = ks, ReadEnd = Some (nat e)\<rparr>) (slice_range cmd 1 e)
         else Err WrongArgsResponse)"

definition zunionstoreKeyFunc :: "string list \<Rightarrow> key_result res" where
  "zunionstoreKeyFunc cmd =
     (let e = modifier_index (tl cmd)
      in if length cmd < 3 then Err WrongArgsResponse
         else if e = - 1 then store_keys cmd
         else if 1 \<le> e
         then map_res (\<lambda>ks. \<lparr>Channels = [], ReadKeys = ks, WriteKeys = [cmd ! 1], ReadEnd = Some (nat (e + 1))\<rparr>)
                (slice_range cmd 2 (e + 1))
         else Err WrongArgsResponse)"

lemmas zset_key_funcs = zaddKeyFunc_def zcardKeyFunc_def zcountKeyFunc_def zdiffKeyFunc_def
  zdiffstoreKeyFunc_def zincrbyKeyFunc_def zinterKeyFunc_def zinterstoreKeyFunc_def zmpopKeyFunc_def
  zmscoreKeyFunc_def zpopKeyFunc_def zrandmemberKeyFunc_def zrankKeyFunc_def zremKeyFunc_def
  zrevrankKeyFunc_def zscoreKeyFunc_def zremrangebylexKeyFunc_def zremrangebyrankKeyFunc_def
  zremrangebyscoreKeyFunc_def zlexcountKeyFunc_def zrangeKeyCount_def zrangeStoreKeyFunc_def
  zunionKeyFunc_def zunionstoreKeyFunc_def

subsection \<open>Shared steps\<close>

definition not_a_zset :: "string \<Rightarrow> string" where
  "not_a_zset key = ''value at '' @ key @ '' is not a sorted set''"

definition not_a_zset_at_key :: "string \<Rightarrow> string" where
  "not_a_zset_at_key key = ''value at key '' @ key @ '' is not a sorted set''"

definition the_zset :: "string \<Rightarrow> go_value \<Rightarrow> 's world \<Rightarrow> zset res \<times> 's world" where
  "the_zset msg v w = (case as_zset v of None \<Rightarrow> (Err msg, w) | Some z \<Rightarrow> (Ok z, w))"

definition read_zset :: "'s params \<Rightarrow> string \<Rightarrow> string \<Rightarrow> 's world \<Rightarrow> zset res \<times> 's world" where
  "read_zset p key msg w = and_then (get_one p key w) (\<lambda>v w1. the_zset msg v w1)"

text \<open>A member in an array reply, each after a line end.\<close>

definition member_reply :: "bool \<Rightarrow> string \<times> float64 \<Rightarrow> string" where
  "member_reply withscores m =
     (let (v, x) = m; bulk = crlf @ ''$'' @ itoa (int (length v)) @ crlf @ v
      in if withscores then crlf @ ''*2'' @ bulk @ crlf @ ''+'' @ format_float x
         else crlf @ ''*1'' @ bulk)"

definition zset_reply :: "bool \<Rightarrow> (string \<times> float64) list \<Rightarrow> string" where
  "zset_reply withscores ms =
     ''*'' @ itoa (int (length ms)) @ concat (map (member_reply withscores) ms) @ crlf"

text \<open>A score argument: what is neither a number nor one of the words allowed is an error.\<close>

definition score_arg :: "(string \<Rightarrow> float64 option) \<Rightarrow> string \<Rightarrow> string \<Rightarrow> float64 res" where
  "score_arg word msg s =
     (case AdaptType s of
        VInt i \<Rightarrow> Ok (float_of_int i)
      | VFloat x \<Rightarrow> Ok x
      | VStr _ \<Rightarrow> (case word s of None \<Rightarrow> Err msg | Some x \<Rightarrow> Ok x)
      | _ \<Rightarrow> Err msg)"

subsection \<open>ZADD\<close>

definition score_like :: "string \<Rightarrow> bool" where
  "score_like s =
     (case AdaptType s of
        VInt _ \<Rightarrow> True
      | VFloat _ \<Rightarrow> True
      | VStr _ \<Rightarrow> to_lower s \<in> {''-inf'', ''+inf''}
      | _ \<Rightarrow> False)"

text \<open>The first index after the command word that looks like a score, zero when there is none.\<close>

definition members_start :: "string list \<Rightarrow> nat" where
  "members_start cmd = (let i = index_func score_like (tl cmd) in if i = - 1 then 0 else nat (i + 1))"

text \<open>The score and member pairs; a pair whose score is another word is passed over.\<close>

fun zadd_members :: "string list \<Rightarrow> (string \<times> float64) list res" where
  "zadd_members (s # v # args) =
     (case AdaptType s of
        VInt i \<Rightarrow> map_res (\<lambda>ms. (v, float_of_int i) # ms) (zadd_members args)
      | VFloat x \<Rightarrow> map_res (\<lambda>ms. (v, x) # ms) (zadd_members args)
      | VStr t \<Rightarrow>
          if to_lower t = ''-inf'' then map_res (\<lambda>ms. (v, FInf True) # ms) (zadd_members args)
          else if to_lower t = ''+inf'' then map_res (\<lambda>ms. (v, FInf False) # ms) (zadd_members args)
          else zadd_members args
      | _ \<Rightarrow> Err ''invalid score in score/member list'')"
| "zadd_members _ = Ok []"

record zadd_options =
  z_policy :: "string option"
  z_comparison :: "string option"
  z_changed :: "string option"
  z_incr :: "string option"

definition no_zadd_options :: zadd_options where
  "no_zadd_options = \<lparr>z_policy = None, z_comparison = None, z_changed = None, z_incr = None\<rparr>"

definition nx_flags_error :: string where
  "nx_flags_error = ''GT/LT flags not allowed if NX flag is provided''"

fun zadd_option_loop :: "nat \<Rightarrow> string list \<Rightarrow> zadd_options \<Rightarrow> zadd_options res" where
  "zadd_option_loop n [] o1 = Ok o1"
| "zadd_option_loop n (s # ss) o1 =
     (if to_lower s \<in> {''xx'', ''nx''}
      then (if equal_fold s ''NX'' \<and> z_comparison o1 \<noteq> None then Err nx_flags_error
            else zadd_option_loop n ss (o1\<lparr>z_policy := Some s\<rparr>))
      else if to_lower s \<in> {''gt'', ''lt''}
      then (if equal_fold (case z_policy o1 of None \<Rightarrow> [] | Some u \<Rightarrow> u) ''NX'' then Err nx_flags_error
            else zadd_option_loop n ss (o1\<lparr>z_comparison := Some s\<rparr>))
      else if equal_fold s ''ch'' then zadd_option_loop n ss (o1\<lparr>z_changed := Some s\<rparr>)
      else if equal_fold s ''incr''
      then (if 1 < n then Err ''cannot pass more than one score/member pair when INCR flag is provided''
            else zadd_option_loop n ss (o1\<lparr>z_incr := Some s\<rparr>))
      else Err (''invalid option '' @ s))"

definition handleZADD :: "'s handler" where
  "handleZADD p w =
     and_then (zaddKeyFunc (Command p), w) (\<lambda>keys w.
       let key = hd (WriteKeys keys); cmd = Command p;
           exists = gm_bool (KeysExist p (Context p) (WriteKeys keys) w) key;
           start = members_start cmd
       in if start < 2 \<or> odd (length (drop start cmd))
          then (Err ''score/member pairs must be float/string'', w)
          else and_then (zadd_members (drop start cmd), w) (\<lambda>ms w.
               and_then (zadd_option_loop (length ms) (drop 2 (take start cmd)) no_zadd_options, w) (\<lambda>opts w.
                 if exists
                 then and_then (read_zset p key (not_a_zset key) w) (\<lambda>z w1.
                      and_then (AddOrUpdate z ms (z_policy opts) (z_comparison opts) (z_changed opts) (z_incr opts), w1)
                        (\<lambda>(z', n) w1.
                          let w2 = WriteThrough p (Context p) key (VZSet z') w1
                          in (Ok (if z_incr opts \<noteq> None
                                  then ''+'' @ format_fixed (Z_Score z' (fst (hd ms))) @ crlf
                                  else resp_int n), w2)))
                 else let z = NewSortedSet ms
                      in and_then (SetValues p (Context p) [(key, VZSet z)] w) (\<lambda>_ w1.
                           (Ok (resp_int (Z_Cardinality z)), w1)))))"

subsection \<open>Counting\<close>

definition handleZCARD :: "'s handler" where
  "handleZCARD p w =
     and_then (zcardKeyFunc (Command p), w) (\<lambda>keys w.
       let key = hd (ReadKeys keys)
       in if \<not> gm_bool (KeysExist p (Context p) (ReadKeys keys) w) key then (Ok (resp_int 0), w)
          else and_then (read_zset p key (not_a_zset key) w) (\<lambda>z w1. (Ok (resp_int (Z_Cardinality z)), w1)))"

definition zcount_min :: "string \<Rightarrow> float64 res" where
  "zcount_min s =
     score_arg (\<lambda>s. if to_lower s = ''+inf'' then Some (FInf False) else None)
       ''min constraint must be a double'' s"

definition zcount_max :: "string \<Rightarrow> float64 res" where
  "zcount_max s =
     score_arg (\<lambda>s. if to_lower s = ''-inf'' then Some (FInf True) else None)
       ''max constraint must be a double'' s"

definition score_between :: "float64 \<Rightarrow> float64 \<Rightarrow> string \<times> float64 \<Rightarrow> bool" where
  "score_between lo hi m \<longleftrightarrow> f_le lo (snd m) \<and> f_le (snd m) hi"

definition handleZCOUNT :: "'s handler" where
  "handleZCOUNT p w =
     and_then (zcountKeyFunc (Command p), w) (\<lambda>keys w.
       let key = hd (ReadKeys keys); exists = gm_bool (KeysExist p (Context p) (ReadKeys keys) w) key
       in and_then (zcount_min (Command p ! 2), w) (\<lambda>lo w.
          and_then (zcount_max (Command p ! 3), w) (\<lambda>hi w.
            if \<not> exists then (Ok (resp_int 0), w)
            else and_then (read_zset p key (not_a_zset key) w) (\<lambda>z w1.
                 let (ms, w2) = Z_GetAll z w1
                 in (Ok (resp_int (int (length (filter (score_between lo hi) ms)))), w2)))))"

definition lex_between :: "string \<Rightarrow> string \<Rightarrow> string \<times> float64 \<Rightarrow> bool" where
  "lex_between lo hi m \<longleftrightarrow> CompareLex (fst m) lo \<in> {1, 0} \<and> CompareLex (fst m) hi \<in> {- 1, 0}"

text \<open>Whether the first \<open>n\<close> neighbours have the same score.\<close>

fun same_scores :: "nat \<Rightarrow> (string \<times> float64) list \<Rightarrow> bool" where
  "same_scores (Suc n) (a # b # ms) \<longleftrightarrow> f_eq (snd a) (snd b) \<and> same_scores n (b # ms)"
| "same_scores _ _ \<longleftrightarrow> True"

text \<open>ZLEXCOUNT leaves the last pair of neighbours out of the comparison.\<close>

definition handleZLEXCOUNT :: "'s handler" where
  "handleZLEXCOUNT p w =
     and_then (zlexcountKeyFunc (Command p), w) (\<lambda>keys w.
       let key = hd (ReadKeys keys); lo = Command p ! 2; hi = Command p ! 3
       in if \<not> gm_bool (KeysExist p (Context p) (ReadKeys keys) w) key then (Ok (resp_int 0), w)
          else and_then (read_zset p key (not_a_zset key) w) (\<lambda>z w1.
               let (ms, w2) = Z_GetAll z w1
               in if \<not> same_scores (length ms - 2) ms then (Ok (resp_int 0), w2)
                  else (Ok (resp_int (int (length (filter (lex_between lo hi) ms)))), w2)))"

subsection \<open>Difference\<close>

fun other_zsets :: "'s params \<Rightarrow> (string, bool) gomap \<Rightarrow> string list \<Rightarrow> 's world \<Rightarrow> zset list res \<times> 's world" where
  "other_zsets p exists [] w = (Ok [], w)"
| "other_zsets p exists (k # ks) w =
     (if \<not> gm_bool exists k then other_zsets p exists ks w
      else and_then (read_zset p k (not_a_zset k) w) (\<lambda>z w1.
           and_then (other_zsets p exists ks w1) (\<lambda>zs w2. (Ok (z # zs), w2))))"

definition zdiff_of :: "'s params \<Rightarrow> (string, bool) gomap \<Rightarrow> string list \<Rightarrow> 's world \<Rightarrow> zset res \<times> 's world" where
  "zdiff_of p exists ks w =
     and_then (read_zset p (hd ks) (not_a_zset (hd ks)) w) (\<lambda>z w1.
     and_then (other_zsets p exists (tl ks) w1) (\<lambda>zs w2. (Ok (Z_Subtract z zs), w2)))"

definition handleZDIFF :: "'s handler" where
  "handleZDIFF p w =
     and_then (zdiffKeyFunc (Command p), w) (\<lambda>keys w.
       let exists = KeysExist p (Context p) (ReadKeys keys) w; ks = ReadKeys keys;
           wi = option_index ''withscores'' (Command p)
       in if - 1 < wi \<and> wi < 2 then (Err WrongArgsResponse, w)
          else if ks = [] then (Panic index_out_of_range, w)
          else if \<not> gm_bool exists (hd ks) then (Ok (array_head 0), w)
          else and_then (zdiff_of p exists ks w) (\<lambda>d w1.
               let (ms, w2) = Z_GetAll d w1 in (Ok (zset_reply (wi \<noteq> - 1 \<and> 2 \<le> wi) ms), w2)))"

definition handleZDIFFSTORE :: "'s handler" where
  "handleZDIFFSTORE p w =
     and_then (zdiffstoreKeyFunc (Command p), w) (\<lambda>keys w.
       let exists = KeysExist p (Context p) (ReadKeys keys) w; ks = ReadKeys keys
       in if \<not> gm_bool exists (hd ks) then (Ok (resp_int 0), w)
          else and_then (zdiff_of p exists ks w) (\<lambda>d w1.
               and_then (SetValues p (Context p) [(hd (WriteKeys keys), VZSet d)] w1) (\<lambda>_ w2.
                 (Ok (resp_int (Z_Cardinality d)), w2))))"

subsection \<open>ZINCRBY\<close>

definition zincrby_arg :: "string \<Rightarrow> float64 res" where
  "zincrby_arg s =
     score_arg (\<lambda>s. if equal_fold ''-inf'' (to_lower s) then Some (FInf True)
                    else if equal_fold ''+inf'' (to_lower s) then Some (FInf False) else None)
       ''increment must be a double'' s"

definition handleZINCRBY :: "'s handler" where
  "handleZINCRBY p w =
     and_then (zincrbyKeyFunc (Command p), w) (\<lambda>keys w.
       let key = hd (WriteKeys keys); v = Command p ! 3;
           exists = gm_bool (KeysExist p (Context p) (WriteKeys keys) w) key
       in and_then (zincrby_arg (Command p ! 2), w) (\<lambda>x w.
            if \<not> exists
            then and_then (SetValues p (Context p) [(key, VZSet (NewSortedSet [(v, x)]))] w) (\<lambda>_ w1.
                   (Ok (''+'' @ format_float x @ crlf), w1))
            else and_then (read_zset p key (not_a_zset key) w) (\<lambda>z w1.
                 and_then (AddOrUpdate z [(v, x)] (Some ''xx'') None None (Some ''incr''), w1) (\<lambda>(z', n) w1.
                   (Ok (''+'' @ format_float (Z_Score z' v) @ crlf),
                    WriteThrough p (Context p) key (VZSet z') w1)))))"

subsection \<open>Intersection and union\<close>

text \<open>
  The sets and their weights, from the values read before: an absent key ends the loop without
  a result for the intersection, and is passed over for the union.
\<close>

fun set_params :: "bool \<Rightarrow> (string, bool) gomap \<Rightarrow> (string, go_value) gomap \<Rightarrow> string list \<Rightarrow> int list \<Rightarrow>
    (zset \<times> int) list option res" where
  "set_params all exists m [] ws = Ok (Some [])"
| "set_params all exists m (k # ks) ws =
     (if \<not> gm_bool exists k then (if all then Ok None else set_params all exists m ks (tl ws))
      else (case as_zset (gm_value m k) of
              None \<Rightarrow> Err (not_a_zset k)
            | Some z \<Rightarrow> map_res (map_option (\<lambda>ps. (z, hd ws) # ps)) (set_params all exists m ks (tl ws))))"

definition handleZINTER :: "'s handler" where
  "handleZINTER p w =
     and_then (zinterKeyFunc (Command p), w) (\<lambda>_ w.
     and_then (extractKeysWeightsAggregateWithScores (Command p), w) (\<lambda>(ks, weights, agg, ws) w.
       let exists = KeysExist p (Context p) ks w
       in and_then (GetValues p (Context p) ks w) (\<lambda>m w1.
          and_then (set_params True exists m ks weights, w1) (\<lambda>ps w2.
            case ps of
              None \<Rightarrow> (Ok (array_head 0), w2)
            | Some ps \<Rightarrow> let (ms, w3) = Z_GetAll (Z_Intersect agg ps) w2 in (Ok (zset_reply ws ms), w3)))))"

definition store_zset :: "'s params \<Rightarrow> string \<Rightarrow> zset \<Rightarrow> 's world \<Rightarrow> string res \<times> 's world" where
  "store_zset p key z w =
     and_then (SetValues p (Context p) [(key, VZSet z)] w) (\<lambda>_ w1. (Ok (resp_int (Z_Cardinality z)), w1))"

text \<open>
  The store variants delete every word equal to the destination from the command before they
  look for the keys, also where it is a source.
\<close>

definition handleZINTERSTORE :: "'s handler" where
  "handleZINTERSTORE p w =
     and_then (zinterstoreKeyFunc (Command p), w) (\<lambda>keys w.
       let exists = KeysExist p (Context p) (ReadKeys keys) w; destination = hd (WriteKeys keys);
           cmd = filter (\<lambda>s. s \<noteq> destination) (Command p)
       in and_then (extractKeysWeightsAggregateWithScores cmd, w) (\<lambda>(ks, weights, agg, ws) w.
          and_then (GetValues p (Context p) ks w) (\<lambda>m w1.
          and_then (set_params True exists m ks weights, w1) (\<lambda>ps w2.
            case ps of
              None \<Rightarrow> (Ok (resp_int 0), w2)
            | Some ps \<Rightarrow> store_zset p destination (Z_Intersect agg ps) w2))))"

definition handleZUNION :: "'s handler" where
  "handleZUNION p w =
     and_then (zunionKeyFunc (Command p), w) (\<lambda>_ w.
     and_then (extractKeysWeightsAggregateWithScores (Command p), w) (\<lambda>(ks, weights, agg, ws) w.
       let exists = KeysExist p (Context p) ks w
       in and_then (GetValues p (Context p) ks w) (\<lambda>m w1.
          and_then (set_params False exists m ks weights, w1) (\<lambda>ps w2.
            let (ms, w3) = Z_GetAll (Z_Union agg (case ps of None \<Rightarrow> [] | Some ps \<Rightarrow> ps)) w2
            in (Ok (zset_reply ws ms), w3)))))"

definition handleZUNIONSTORE :: "'s handler" where
  "handleZUNIONSTORE p w =
     and_then (zunionstoreKeyFunc (Command p), w) (\<lambda>keys w.
       let destination = hd (WriteKeys keys); cmd = filter (\<lambda>s. s \<noteq> destination) (Command p)
       in and_then (extractKeysWeightsAggregateWithScores cmd, w) (\<lambda>(ks, weights, agg, ws) w.
            let exists = KeysExist p (Context p) ks w
            in and_then (GetValues p (Context p) ks w) (\<lambda>m w1.
               and_then (set_params False exists m ks weights, w1) (\<lambda>ps w2.
                 store_zset p destination (Z_Union agg (case ps of None \<Rightarrow> [] | Some ps \<Rightarrow> ps)) w2))))"

subsection \<open>Popping\<close>

definition count_error :: string where
  "count_error = ''count must be a positive integer''"

text \<open>The count of ZMPOP and its place (-1 without one).\<close>

definition zmpop_count :: "string list \<Rightarrow> (int \<times> int) res" where
  "zmpop_count cmd =
     (let i = index_func (\<lambda>s. to_lower s = ''count'') cmd
      in if i = - 1 then Ok (1, - 1)
         else if i < 2 then Err WrongArgsResponse
         else if i = int (length cmd) - 1 then Err count_error
         else (case atoi_res (cmd ! nat (i + 1)) of
                 Ok c \<Rightarrow> if c \<le> 0 then Err count_error else Ok (c, i)
               | Err e \<Rightarrow> Err e | Panic e \<Rightarrow> Panic e | Diverge \<Rightarrow> Diverge))"

definition zmpop_policy :: "string list \<Rightarrow> string res" where
  "zmpop_policy cmd =
     (let i = index_func (\<lambda>s. to_lower s \<in> {''min'', ''max''}) cmd
      in if i = - 1 then Ok ''min''
         else if i < 2 then Err WrongArgsResponse
         else Ok (to_lower (cmd ! nat i)))"

definition pop_from :: "'s params \<Rightarrow> string \<Rightarrow> zset \<Rightarrow> int \<Rightarrow> string \<Rightarrow> 's world \<Rightarrow> string res \<times> 's world" where
  "pop_from p key z cnt policy w =
     and_then (Z_Pop z cnt policy w) (\<lambda>(popped, z') w1.
       let w2 = WriteThrough p (Context p) key (VZSet z') w1; (ms, w3) = Z_GetAll popped w2
       in (Ok (zset_reply True ms), w3))"

text \<open>The first of the keys that holds a sorted set with members is popped from.\<close>

fun zmpop_loop :: "'s params \<Rightarrow> (string, bool) gomap \<Rightarrow> int \<Rightarrow> string \<Rightarrow> string list \<Rightarrow> 's handler" where
  "zmpop_loop p exists cnt policy [] p' w = (Ok (array_head 0), w)"
| "zmpop_loop p exists cnt policy (k # ks) p' w =
     (if \<not> gm_bool exists k then zmpop_loop p exists cnt policy ks p' w
      else and_then (get_one p k w) (\<lambda>v w1.
           case as_zset v of
             None \<Rightarrow> zmpop_loop p exists cnt policy ks p' w1
           | Some z \<Rightarrow>
               if Z_Cardinality z = 0 then zmpop_loop p exists cnt policy ks p' w1
               else pop_from p k z cnt policy w1))"

definition handleZMPOP :: "'s handler" where
  "handleZMPOP p w =
     and_then (zmpopKeyFunc (Command p), w) (\<lambda>keys w.
       let exists = KeysExist p (Context p) (WriteKeys keys) w
       in and_then (zmpop_count (Command p), w) (\<lambda>(cnt, i) w.
          and_then (zmpop_policy (Command p), w) (\<lambda>policy w.
            zmpop_loop p exists cnt policy (WriteKeys keys) p w)))"

definition zpop_count :: "string list \<Rightarrow> int res" where
  "zpop_count cmd =
     (if length cmd = 3 then map_res (\<lambda>c. if 0 < c then c else 1) (atoi_res (cmd ! 2)) else Ok 1)"

definition handleZPOP :: "'s handler" where
  "handleZPOP p w =
     and_then (zpopKeyFunc (Command p), w) (\<lambda>keys w.
       let key = hd (WriteKeys keys);
           exists = gm_bool (KeysExist p (Context p) (WriteKeys keys) w) key;
           policy = (if equal_fold (hd (Command p)) ''zpopmax'' then ''max'' else ''min'')
       in and_then (zpop_count (Command p), w) (\<lambda>cnt w.
            if \<not> exists then (Ok (array_head 0), w)
            else and_then (read_zset p key (not_a_zset_at_key key) w) (\<lambda>z w1.
                 pop_from p key z cnt policy w1)))"

subsection \<open>Reading members\<close>

text \<open>The reply has no line end after a missing member's or a member's line, but one at the end.\<close>

definition mscore_line :: "zset \<Rightarrow> string \<Rightarrow> string" where
  "mscore_line z v = crlf @ (case map_of z v of None \<Rightarrow> ''$-1'' | Some x \<Rightarrow> ''+'' @ format_float x)"

definition handleZMSCORE :: "'s handler" where
  "handleZMSCORE p w =
     and_then (zmscoreKeyFunc (Command p), w) (\<lambda>keys w.
       let key = hd (ReadKeys keys); ms = drop 2 (Command p)
       in if \<not> gm_bool (KeysExist p (Context p) (ReadKeys keys) w) key then (Ok (array_head 0), w)
          else and_then (read_zset p key (not_a_zset key) w) (\<lambda>z w1.
               (Ok (''*'' @ itoa (int (length ms)) @ concat (map (mscore_line z) ms) @ crlf), w1)))"

definition zrandmember_count :: "string list \<Rightarrow> int res" where
  "zrandmember_count cmd =
     (if length cmd < 3 then Ok 1
      else case atoi (cmd ! 2) of
             None \<Rightarrow> Err ''count must be an integer''
           | Some c \<Rightarrow> Ok (if c = 0 then 1 else c))"

definition zrandmember_withscores :: "string list \<Rightarrow> bool res" where
  "zrandmember_withscores cmd =
     (if length cmd = 4
      then (if equal_fold (cmd ! 3) ''withscores'' then Ok True else Err ''last option must be WITHSCORES'')
      else Ok False)"

definition handleZRANDMEMBER :: "'s handler" where
  "handleZRANDMEMBER p w =
     and_then (zrandmemberKeyFunc (Command p), w) (\<lambda>keys w.
       let key = hd (ReadKeys keys); exists = gm_bool (KeysExist p (Context p) (ReadKeys keys) w) key
       in and_then (zrandmember_count (Command p), w) (\<lambda>cnt w.
          and_then (zrandmember_withscores (Command p), w) (\<lambda>withscores w.
            if \<not> exists then (Ok resp_nil, w)
            else and_then (read_zset p key (not_a_zset key) w) (\<lambda>z w1.
                 let (ms, w2) = Z_GetRandom z cnt w1 in (Ok (zset_reply withscores ms), w2)))))"

definition rank_order :: "bool \<Rightarrow> string \<times> float64 \<Rightarrow> string \<times> float64 \<Rightarrow> int" where
  "rank_order reverse a b =
     (if reverse then f_compare (snd b) (snd a) else f_compare (snd a) (snd b))"

definition rank_reply :: "bool \<Rightarrow> string \<Rightarrow> (string \<times> float64) list \<Rightarrow> string" where
  "rank_reply withscores v ms =
     (let i = index_func (\<lambda>m. fst m = v) ms; score = format_float (snd (ms ! nat i))
      in if i = - 1 then resp_nil
         else if withscores
         then ''*2'' @ crlf @ '':'' @ itoa i @ crlf @ ''$'' @ itoa (int (length score)) @ crlf @ score @ crlf
         else ''*1'' @ crlf @ '':'' @ itoa i @ crlf)"

text \<open>ZRANK and ZREVRANK.\<close>

definition handleZRANK :: "'s handler" where
  "handleZRANK p w =
     and_then (zrankKeyFunc (Command p), w) (\<lambda>keys w.
       let key = hd (ReadKeys keys); cmd = Command p;
           withscores = (length cmd = 4 \<and> equal_fold (cmd ! 3) ''withscores'')
       in if \<not> gm_bool (KeysExist p (Context p) (ReadKeys keys) w) key then (Ok resp_nil, w)
          else and_then (read_zset p key (not_a_zset key) w) (\<lambda>z w1.
               let (ms, w2) = Z_GetAll z w1
               in (Ok (rank_reply withscores (cmd ! 2)
                         (sort_func (rank_order (equal_fold (hd cmd) ''zrevrank'')) ms)), w2)))"

definition handleZSCORE :: "'s handler" where
  "handleZSCORE p w =
     and_then (zscoreKeyFunc (Command p), w) (\<lambda>keys w.
       let key = hd (ReadKeys keys)
       in if \<not> gm_bool (KeysExist p (Context p) (ReadKeys keys) w) key then (Ok resp_nil, w)
          else and_then (read_zset p key (not_a_zset key) w) (\<lambda>z w1.
               (Ok (case map_of z (Command p ! 2) of
                      None \<Rightarrow> resp_nil
                    | Some x \<Rightarrow> ''$'' @ itoa (int (length (format_float x))) @ crlf @ format_float x @ crlf), w1)))"

subsection \<open>Removing members\<close>

text \<open>Members are taken out of the stored set one by one; the second result counts those that were in it.\<close>

fun remove_members :: "string list \<Rightarrow> zset \<Rightarrow> int \<Rightarrow> zset \<times> int" where
  "remove_members [] z n = (z, n)"
| "remove_members (v # vs) z n =
     (let (z', removed) = Z_Remove z v in remove_members vs z' (if removed then n + 1 else n))"

definition remove_all :: "string list \<Rightarrow> zset \<Rightarrow> zset" where
  "remove_all vs z = fold (\<lambda>v z. fst (Z_Remove z v)) vs z"

definition handleZREM :: "'s handler" where
  "handleZREM p w =
     and_then (zremKeyFunc (Command p), w) (\<lambda>keys w.
       let key = hd (WriteKeys keys)
       in if \<not> gm_bool (KeysExist p (Context p) (WriteKeys keys) w) key then (Ok (resp_int 0), w)
          else and_then (read_zset p key (not_a_zset key) w) (\<lambda>z w1.
               let (z', n) = remove_members (drop 2 (Command p)) z 0
               in (Ok (resp_int n), WriteThrough p (Context p) key (VZSet z') w1)))"

text \<open>Removing the chosen members; the reply is their number.\<close>

definition remove_chosen :: "'s params \<Rightarrow> string \<Rightarrow> zset \<Rightarrow> (string \<times> float64) list \<Rightarrow> 's world \<Rightarrow> string res \<times> 's world" where
  "remove_chosen p key z ms w =
     (Ok (resp_int (int (length ms))),
      WriteThrough p (Context p) key (VZSet (remove_all (map fst ms) z)) w)"

definition handleZREMRANGEBYSCORE :: "'s handler" where
  "handleZREMRANGEBYSCORE p w =
     and_then (zremrangebyscoreKeyFunc (Command p), w) (\<lambda>keys w.
       let key = hd (WriteKeys keys); exists = gm_bool (KeysExist p (Context p) (WriteKeys keys) w) key
       in and_then (parse_float_res (Command p ! 2), w) (\<lambda>lo w.
          and_then (parse_float_res (Command p ! 3), w) (\<lambda>hi w.
            if \<not> exists then (Ok (resp_int 0), w)
            else and_then (read_zset p key (not_a_zset key) w) (\<lambda>z w1.
                 let (ms, w2) = Z_GetAll z w1
                 in remove_chosen p key z (filter (score_between lo hi) ms) w2))))"

text \<open>A negative rank counts from the end; the ranks may be given in either order.\<close>

definition rank_from_end :: "int \<Rightarrow> zset \<Rightarrow> int" where
  "rank_from_end i z = (if i < 0 then i64 (i + Z_Cardinality z) else i)"

definition rank_ok :: "int \<Rightarrow> zset \<Rightarrow> bool" where
  "rank_ok i z \<longleftrightarrow> 0 \<le> i \<and> i \<le> Z_Cardinality z - 1"

definition between_ranks :: "int \<Rightarrow> int \<Rightarrow> 'a list \<Rightarrow> 'a list" where
  "between_ranks i j ms = drop (nat (min i j)) (take (nat (max i j + 1)) ms)"

definition handleZREMRANGEBYRANK :: "'s handler" where
  "handleZREMRANGEBYRANK p w =
     and_then (zremrangebyrankKeyFunc (Command p), w) (\<lambda>keys w.
       let key = hd (WriteKeys keys); exists = gm_bool (KeysExist p (Context p) (WriteKeys keys) w) key
       in and_then (atoi_res (Command p ! 2), w) (\<lambda>start w.
          and_then (atoi_res (Command p ! 3), w) (\<lambda>stop w.
            if \<not> exists then (Ok (resp_int 0), w)
            else and_then (read_zset p key (not_a_zset key) w) (\<lambda>z w1.
                 let i = rank_from_end start z; j = rank_from_end stop z
                 in if \<not> rank_ok i z \<or> \<not> rank_ok j z then (Err ''indices out of bounds'', w1)
                    else let (ms, w2) = Z_GetAll z w1
                         in remove_chosen p key z (between_ranks i j (sort_func (rank_order False) ms)) w2))))"

definition handleZREMRANGEBYLEX :: "'s handler" where
  "handleZREMRANGEBYLEX p w =
     and_then (zremrangebylexKeyFunc (Command p), w) (\<lambda>keys w.
       let key = hd (WriteKeys keys); lo = Command p ! 2; hi = Command p ! 3
       in if \<not> gm_bool (KeysExist p (Context p) (WriteKeys keys) w) key then (Ok (resp_int 0), w)
          else and_then (read_zset p key (not_a_zset key) w) (\<lambda>z w1.
               let (ms, w2) = Z_GetAll z w1
               in if \<not> same_scores (length ms - 1) ms then (Ok (resp_int 0), w2)
                  else remove_chosen p key z (filter (lex_between lo hi) ms) w2))"

subsection \<open>Ranges\<close>

text \<open>
  The options of ZRANGE and ZRANGESTORE: the bounds are scores unless BYLEX is given, and LIMIT
  gives an offset and a count.
\<close>

record range_options =
  r_lex :: bool
  r_reverse :: bool
  r_lo :: float64
  r_hi :: float64
  r_offset :: int
  r_count :: int

definition has_option :: "string \<Rightarrow> string list \<Rightarrow> bool" where
  "has_option name opts \<longleftrightarrow> (\<exists>s\<in>set opts. equal_fold s name)"

definition score_bounds :: "bool \<Rightarrow> string \<Rightarrow> string \<Rightarrow> (float64 \<times> float64) res" where
  "score_bounds bylex start stop =
     (if bylex then Ok (FInf True, FInf False)
      else fst (and_then (parse_float_res start, ()) (\<lambda>lo u.
                and_then (parse_float_res stop, u) (\<lambda>hi u. (Ok (lo, hi), u)))))"

definition int_or :: "string \<Rightarrow> string \<Rightarrow> int res" where
  "int_or msg s = (case atoi s of None \<Rightarrow> Err msg | Some i \<Rightarrow> Ok i)"

definition limit_option :: "string list \<Rightarrow> (int \<times> int) res" where
  "limit_option opts =
     (let i = option_index ''limit'' opts
      in if i = - 1 then Ok (0, - 1)
         else if int (length opts) - 3 < i then Err ''limit should contain offset and count as integers''
         else fst (and_then (int_or ''limit offset must be integer'' (opts ! nat (i + 1)), ()) (\<lambda>offset u.
                   if offset < 0 then (Err ''limit offset must be >= 0'', u)
                   else and_then (int_or ''limit count must be integer'' (opts ! nat (i + 2)), u) (\<lambda>cnt u.
                        (Ok (offset, cnt), u)))))"

definition parse_range :: "string \<Rightarrow> string \<Rightarrow> string list \<Rightarrow> range_options res" where
  "parse_range start stop opts =
     fst (and_then (score_bounds (has_option ''bylex'' opts) start stop, ()) (\<lambda>bounds u.
          and_then (limit_option opts, u) (\<lambda>window u.
            (Ok \<lparr>r_lex = has_option ''bylex'' opts, r_reverse = has_option ''rev'' opts,
                 r_lo = fst bounds, r_hi = snd bounds, r_offset = fst window, r_count = snd window\<rparr>, u))))"

definition lex_order :: "bool \<Rightarrow> string \<times> float64 \<Rightarrow> string \<times> float64 \<Rightarrow> int" where
  "lex_order reverse a b =
     (if reverse then CompareLex (fst b) (fst a) else CompareLex (fst a) (fst b))"

text \<open>
  The loop \<open>for i := offset; i <= count; i++\<close> with its early end at the length of the list: the
  count, or what replaces a negative one, is the last index that is looked at.
\<close>

definition index_window :: "int \<Rightarrow> int \<Rightarrow> 'a list \<Rightarrow> 'a list" where
  "index_window offset end_index ms = drop (nat offset) (take (nat (end_index + 1)) ms)"

definition range_last :: "range_options \<Rightarrow> zset \<Rightarrow> int" where
  "range_last r z = (if r_count r < 0 then Z_Cardinality z - r_offset r else r_count r)"

text \<open>The chosen members, or none when BYLEX meets two scores.\<close>

definition range_members ::
    "range_options \<Rightarrow> string \<Rightarrow> string \<Rightarrow> zset \<Rightarrow> (string \<times> float64) list \<Rightarrow> (string \<times> float64) list option" where
  "range_members r start stop z ms =
     (if r_lex r
      then (if \<not> same_scores (length ms - 1) ms then None
            else Some (filter (lex_between start stop)
                        (index_window (r_offset r) (range_last r z) (sort_func (lex_order (r_reverse r)) ms))))
      else Some (filter (score_between (r_lo r) (r_hi r))
                  (index_window (r_offset r) (range_last r z) (sort_func (rank_order (r_reverse r)) ms))))"

definition handleZRANGE :: "'s handler" where
  "handleZRANGE p w =
     and_then (zrangeKeyCount (Command p), w) (\<lambda>keys w.
       let key = hd (ReadKeys keys); cmd = Command p;
           exists = gm_bool (KeysExist p (Context p) (ReadKeys keys) w) key
       in and_then (parse_range (cmd ! 2) (cmd ! 3) (drop 4 cmd), w) (\<lambda>r w.
            if \<not> exists then (Ok (array_head 0), w)
            else and_then (read_zset p key (not_a_zset key) w) (\<lambda>z w1.
                 if Z_Cardinality z < r_offset r then (Ok (array_head 0), w1)
                 else let (ms, w2) = Z_GetAll z w1
                      in case range_members r (cmd ! 2) (cmd ! 3) z ms of
                           None \<Rightarrow> (Ok (array_head 0), w2)
                         | Some res \<Rightarrow> (Ok (zset_reply (has_option ''withscores'' (drop 4 cmd)) res), w2))))"

definition handleZRANGESTORE :: "'s handler" where
  "handleZRANGESTORE p w =
     and_then (zrangeStoreKeyFunc (Command p), w) (\<lambda>keys w.
       let destination = hd (WriteKeys keys); source = hd (ReadKeys keys); cmd = Command p;
           exists = gm_bool (KeysExist p (Context p) (ReadKeys keys) w) source
       in and_then (parse_range (cmd ! 3) (cmd ! 4) (drop 5 cmd), w) (\<lambda>r w.
            if \<not> exists then (Ok (array_head 0), w)
            else and_then (read_zset p source (not_a_zset source) w) (\<lambda>z w1.
                 if Z_Cardinality z < r_offset r then (Ok (resp_int 0), w1)
                 else let (ms, w2) = Z_GetAll z w1
                      in case range_members r (cmd ! 3) (cmd ! 4) z ms of
                           None \<Rightarrow> (Ok (resp_int 0), w2)
                         | Some res \<Rightarrow>
                             and_then (SetValues p (Context p) [(destination, VZSet (NewSortedSet res))] w2) (\<lambda>_ w3.
                               (Ok (resp_int (Z_Cardinality (NewSortedSet res))), w3)))))"

subsection \<open>The command table\<close>

definition zset_command :: "string \<Rightarrow> bool \<Rightarrow> bool \<Rightarrow> (string list \<Rightarrow> key_result res) \<Rightarrow> 's handler \<Rightarrow> 's command" where
  "zset_command name write fast kf h =
     mk_command name ''sortedset''
       [''sortedset'', if write then ''write'' else ''read'', if fast then ''fast'' else ''slow''] write kf h"

definition sortedset_commands :: "'s command list" where
  "sortedset_commands =
     [zset_command ''zadd'' True True zaddKeyFunc handleZADD,
      zset_command ''zcard'' False False zcardKeyFunc handleZCARD,
      zset_command ''zcount'' False False zcountKeyFunc handleZCOUNT,
      zset_command ''zdiff'' False False zdiffKeyFunc handleZDIFF,
      zset_command ''zdiffstore'' True False zdiffstoreKeyFunc handleZDIFFSTORE,
      zset_command ''zincrby'' True True zincrbyKeyFunc handleZINCRBY,
      zset_command ''zinter'' False False zinterKeyFunc handleZINTER,
      zset_command ''zinterstore'' True False zinterstoreKeyFunc handleZINTERSTORE,
      zset_command ''zmpop'' True False zmpopKeyFunc handleZMPOP,
      zset_command ''zmscore'' False True zmscoreKeyFunc handleZMSCORE,
      zset_command ''zpopmax'' True False zpopKeyFunc handleZPOP,
      zset_command ''zpopmin'' True False zpopKeyFunc handleZPOP,
      zset_command ''zrandmember'' False False zrandmemberKeyFunc handleZRANDMEMBER,
      zset_command ''zrank'' False False zrankKeyFunc handleZRANK,
      zset_command ''zrevrank'' False False zrevrankKeyFunc handleZRANK,
      zset_command ''zrem'' True True zremKeyFunc handleZREM,
      zset_command ''zscore'' False True zscoreKeyFunc handleZSCORE,
      zset_command ''zremrangebylex'' True False zremrangebylexKeyFunc handleZREMRANGEBYLEX,
      zset_command ''zremrangebyrank'' True False zremrangebyrankKeyFunc handleZREMRANGEBYRANK,
      zset_command ''zremrangebyscore'' True False zremrangebyscoreKeyFunc handleZREMRANGEBYSCORE,
      zset_command ''zlexcount'' False False zlexcountKeyFunc handleZLEXCOUNT,
      zset_command ''zrange'' False False zrangeKeyCount handleZRANGE,
      zset_command ''zrangestore'' True False zrangeStoreKeyFunc handleZRANGESTORE,
      zset_command ''zunion'' False False zunionKeyFunc handleZUNION,
      zset_command ''zunionstore'' True False zunionstoreKeyFunc handleZUNIONSTORE]"

end
