(* ===== verification/AclCommands.thy ===== *)
theory AclCommands
  imports AccessControl
begin

text \<open>
  The commands of the access control module (\<open>internal/modules/acl/commands.go\<close>). The access control
  list is always present, so that the branch \<open>could not load ACL\<close> is never taken.
\<close>

definition plus_line :: "string \<Rightarrow> string" where
  "plus_line s = crlf @ ''+'' @ s"

text \<open>An array of simple strings: the header has no line end, and the last line has one.\<close>

definition simple_array :: "string list \<Rightarrow> string" where
  "simple_array xs =
     ''*'' @ itoa (int (length xs)) @ concat (map plus_line xs) @ (if xs = [] then [] else crlf)"

subsection \<open>ACL CAT\<close>

text \<open>The commands with the categories they belong to, in the order of the table.\<close>

definition command_categories :: "command_info \<Rightarrow> (string \<times> string) list" where
  "command_categories c =
     (if InfoSubs c = [] then map (\<lambda>cat. (cat, InfoName c)) (InfoCategories c)
      else concat (map (\<lambda>(name, md, cats). map (\<lambda>cat. (cat, InfoName c @ ''|'' @ name)) cats) (InfoSubs c)))"

definition all_categories :: "command_info list \<Rightarrow> (string \<times> string) list" where
  "all_categories cs = concat (map command_categories cs)"

definition handleCat :: "'s handler" where
  "handleCat p w =
     (let cmd = Command p; entries = all_categories (GetAllCommands p w);
          (cats, w1) = go_range (remdups (map fst entries)) w
      in if 3 < length cmd then (Err WrongArgsResponse, w)
         else if length cmd = 2 then (Ok (simple_array cats), w1)
         else if length cmd = 3
         then (case find (\<lambda>c. equal_fold c (cmd ! 2)) cats of
                 None \<Rightarrow> (Err (''category '' @ to_upper (cmd ! 2) @ '' not found''), w1)
               | Some c \<Rightarrow> (Ok (simple_array (map snd (filter (\<lambda>e. fst e = c) entries))), w1))
         else (Panic index_out_of_range, w1))"

subsection \<open>ACL GETUSER and ACL LIST\<close>

definition user_flags :: "user \<Rightarrow> string list" where
  "user_flags u =
     [if Enabled u then ''on'' else ''off''] @ (if NoPassword u then [''nopass''] else []) @
     (if NoKeys u then [''nokeys''] else [])"

definition rule_of :: "string \<Rightarrow> string \<Rightarrow> string \<Rightarrow> string" where
  "rule_of sign all_name s = sign @ (if s = ''*'' then all_name else s)"

definition category_rules :: "user \<Rightarrow> string list" where
  "category_rules u =
     map (rule_of ''+@'' ''all'') (IncludedCategories u) @ map (rule_of ''-@'' ''all'') (ExcludedCategories u)"

definition command_rules :: "user \<Rightarrow> string list" where
  "command_rules u =
     map (rule_of ''+'' ''all'') (IncludedCommands u) @ map (rule_of ''-'' ''all'') (ExcludedCommands u)"

definition channel_rules :: "user \<Rightarrow> string list" where
  "channel_rules u =
     map (\<lambda>c. ''+&'' @ c) (IncludedPubSubChannels u) @ map (\<lambda>c. ''-&'' @ c) (ExcludedPubSubChannels u)"

definition all_keys :: "user \<Rightarrow> string list" where
  "all_keys u =
     fold (\<lambda>k ks. if k \<in> set ks then ks else ks @ [k]) (IncludedWriteKeys u @ IncludedReadKeys u) (IncludedReadKeys u)"

definition key_rule :: "user \<Rightarrow> string \<Rightarrow> string" where
  "key_rule u k =
     (if k \<in> set (IncludedWriteKeys u) \<and> k \<in> set (IncludedReadKeys u) then ''%RW~''
      else if k \<in> set (IncludedWriteKeys u) then ''%W~'' else ''%R~'') @ k"

definition rule_section :: "string \<Rightarrow> string list \<Rightarrow> string" where
  "rule_section name rules =
     plus_line name @ crlf @ ''*'' @ itoa (int (length rules)) @ concat (map plus_line rules)"

definition getuser_reply :: "user \<Rightarrow> string" where
  "getuser_reply u =
     ''*12'' @ plus_line ''username'' @ crlf @ ''*1'' @ plus_line (Username u) @
     rule_section ''flags'' (user_flags u) @
     rule_section ''categories'' (category_rules u) @
     rule_section ''commands'' (command_rules u) @
     rule_section ''keys'' (map (key_rule u) (all_keys u)) @
     rule_section ''channels'' (channel_rules u) @ crlf"

definition handleGetUser :: "'s handler" where
  "handleGetUser p w =
     (let a = GetACL p w
      in if length (Command p) \<noteq> 3 then (Err WrongArgsResponse, w)
         else case find_user (Command p ! 2) a of
                None \<Rightarrow> (Err ''user not found'', w)
              | Some i \<Rightarrow> (Ok (getuser_reply (user_at a i)), w))"

definition password_rules :: "password \<Rightarrow> string list" where
  "password_rules pw =
     (if equal_fold (PasswordType pw) ''plaintext'' then [''>'' @ PasswordValue pw] else []) @
     (if equal_fold (PasswordType pw) ''SHA256'' then [CHR 0x23 # PasswordValue pw] else [])"

definition read_key_rule :: "user \<Rightarrow> string \<Rightarrow> string" where
  "read_key_rule u k = (if k \<in> set (IncludedWriteKeys u) then ''%RW~'' else ''%R~'') @ k"

definition user_line :: "user \<Rightarrow> string" where
  "user_line u =
     Username u @ concat (map (\<lambda>r. '' '' @ r)
       (user_flags u @ concat (map password_rules (Passwords u)) @ category_rules u @ command_rules u @
        map (read_key_rule u) (IncludedReadKeys u) @
        map (\<lambda>k. ''%W~'' @ k) (filter (\<lambda>k. k \<notin> set (IncludedReadKeys u)) (IncludedWriteKeys u)) @
        channel_rules u))"

definition bulk_lines :: "string list \<Rightarrow> string" where
  "bulk_lines xs =
     ''*'' @ itoa (int (length xs)) @
     concat (map (\<lambda>x. crlf @ ''$'' @ itoa (int (length x)) @ crlf @ x) xs) @ crlf"

definition handleList :: "'s handler" where
  "handleList p w =
     (let a = GetACL p w
      in if 2 < length (Command p) then (Err WrongArgsResponse, w)
         else (Ok (bulk_lines (map (\<lambda>i. user_line (user_at a i)) (Users a))), w))"

definition handleUsers :: "'s handler" where
  "handleUsers p w =
     (let a = GetACL p w in (Ok (bulk_lines (map (\<lambda>i. Username (user_at a i)) (Users a))), w))"

text \<open>A connection that is not registered, such as the one of a replicated command, has no user.\<close>

definition handleWhoAmI :: "'s handler" where
  "handleWhoAmI p w =
     (let a = GetACL p w
      in case map_of (Connections a) (Connection p) of
           None \<Rightarrow> (Panic nil_deref, w)
         | Some i \<Rightarrow> (Ok (''+'' @ Username (user_at a (ConnUser i)) @ crlf), w))"

subsection \<open>ACL SETUSER and ACL DELUSER\<close>

definition handleSetUser :: "'s handler" where
  "handleSetUser p w =
     and_then (SetUser (Libs p w) (drop 2 (Command p)) (GetACL p w) w) (\<lambda>a w1.
       (Ok OkResponse, PutACL p a w1))"

definition handleDelUser :: "'s handler" where
  "handleDelUser p w =
     (if length (Command p) < 3 then (Err WrongArgsResponse, w)
      else and_then (DeleteUser (drop 2 (Command p)) None (GetACL p w), w) (\<lambda>a w1.
           (Ok OkResponse, PutACL p a w1)))"

subsection \<open>ACL LOAD and ACL SAVE\<close>

text \<open>One user of the file. The patterns of the user are not compiled.\<close>

definition load_user :: "bool \<Rightarrow> user \<Rightarrow> acl \<Rightarrow> 's world \<Rightarrow> acl \<times> 's world" where
  "load_user merge u a w =
     (let (u', w1) = Normalise u w
      in case find_user (Username u') a of
           None \<Rightarrow> (append_user u' a, w1)
         | Some i \<Rightarrow>
             if merge then (let (m, w2) = Merge (user_at a i) u' w1 in (put_user i m a, w2))
             else (put_user i (Replace (user_at a i) u') a, w1))"

fun load_all :: "bool \<Rightarrow> user list \<Rightarrow> acl \<Rightarrow> 's world \<Rightarrow> acl \<times> 's world" where
  "load_all merge [] a w = (a, w)"
| "load_all merge (u # us) a w = (let (a1, w1) = load_user merge u a w in load_all merge us a1 w1)"

definition handleLoad :: "'s handler" where
  "handleLoad p w =
     (let a = GetACL p w
      in if length (Command p) \<noteq> 3 then (Err WrongArgsResponse, w)
         else case load_users (Libs p w) (AclConfig (AclSettings a)) of
                (us, Some e) \<Rightarrow> (Err e, w)
              | (us, None) \<Rightarrow>
                  (let (a1, w1) = load_all (equal_fold (Command p ! 2) ''merge'') us a w
                   in (Ok OkResponse, PutACL p a1 w1)))"

definition handleSave :: "'s handler" where
  "handleSave p w =
     (let a = GetACL p w
      in if 2 < length (Command p) then (Err WrongArgsResponse, w)
         else (map_res (\<lambda>_. OkResponse)
                 (save_users (Libs p w) (AclConfig (AclSettings a)) (map (user_at a) (Users a))), w))"

subsection \<open>The command table\<close>

definition acl_sub :: "string \<Rightarrow> string list \<Rightarrow> bool \<Rightarrow> 's handler \<Rightarrow> 's sub_command" where
  "acl_sub name cats sync h =
     \<lparr>SubCommandName = name, SubModule = ''acl'', SubCategories = cats, SubSync = sync,
      SubKeyExtractionFunc = (\<lambda>_. Ok no_keys), SubHandlerFunc = h\<rparr>"

definition admin_categories :: "string list" where
  "admin_categories = [''admin'', ''slow'', ''dangerous'']"

text \<open>The command itself has no handler: calling a nil function panics.\<close>

definition no_handler :: "'s handler" where
  "no_handler p w = (Panic nil_deref, w)"

definition acl_commands :: "'s command list" where
  "acl_commands =
     [\<lparr>CommandName = ''acl'', Module = ''acl'', Categories = [],
       SubCommands =
         [acl_sub ''cat'' [''slow''] False handleCat,
          acl_sub ''users'' admin_categories False handleUsers,
          acl_sub ''setuser'' admin_categories True handleSetUser,
          acl_sub ''getuser'' admin_categories False handleGetUser,
          acl_sub ''deluser'' admin_categories True handleDelUser,
          acl_sub ''whoami'' [''fast''] True handleWhoAmI,
          acl_sub ''list'' admin_categories True handleList,
          acl_sub ''load'' admin_categories True handleLoad,
          acl_sub ''save'' admin_categories True handleSave],
       Sync = False, KeyExtractionFunc = (\<lambda>_. Ok no_keys), HandlerFunc = no_handler\<rparr>]"

end
