(* ===== verification/ConnectionCommands.thy ===== *)
theory ConnectionCommands
  imports AclCommands
begin

text \<open>
  The connection commands (\<open>internal/modules/connection/commands.go\<close>, \<open>utils.go\<close>) and the admin
  commands (\<open>internal/modules/admin/commands.go\<close>), less \<open>COMMANDS\<close>, which prints the descriptions
  that the command tables of the model do not have.
\<close>

subsection \<open>AUTH, PING, ECHO\<close>

definition handleAuth :: "'s handler" where
  "handleAuth p w =
     (if length (Command p) < 2 \<or> 3 < length (Command p) then (Err WrongArgsResponse, w)
      else and_then (AuthenticateConnection (Libs p w) (Connection p) (Command p) (GetACL p w), w) (\<lambda>a w1.
           (Ok OkResponse, PutACL p a w1)))"

definition handlePing :: "'s handler" where
  "handlePing p w =
     (case Command p of
        [_] \<Rightarrow> (Ok (''+PONG'' @ crlf), w)
      | [_, msg] \<Rightarrow> (Ok (resp_bulk msg), w)
      | _ \<Rightarrow> (Err WrongArgsResponse, w))"

definition handleEcho :: "'s handler" where
  "handleEcho p w =
     (case Command p of [_, msg] \<Rightarrow> (Ok (resp_bulk msg), w) | _ \<Rightarrow> (Err WrongArgsResponse, w))"

subsection \<open>HELLO\<close>

record hello_options =
  hello_clientname :: string
  hello_auth :: "(string \<times> string) option"

fun getHelloOptions :: "string list \<Rightarrow> hello_options \<Rightarrow> hello_options res" where
  "getHelloOptions [] o1 = Ok o1"
| "getHelloOptions (s # ss) o1 =
     (if to_lower s = ''auth''
      then (case ss of
              u # pw # rest \<Rightarrow> getHelloOptions rest (o1\<lparr>hello_auth := Some (u, pw)\<rparr>)
            | _ \<Rightarrow> Err WrongArgsResponse)
      else if to_lower s = ''setname''
      then (case ss of
              name # rest \<Rightarrow> getHelloOptions rest (o1\<lparr>hello_clientname := name\<rparr>)
            | _ \<Rightarrow> Err WrongArgsResponse)
      else Err (''unknown keywork '' @ to_upper s))"

definition plus_bulk :: "string \<Rightarrow> string \<Rightarrow> string" where
  "plus_bulk name v = ''+'' @ name @ crlf @ resp_bulk v"

definition BuildHelloResponse :: "server_info \<Rightarrow> conn_info \<Rightarrow> string" where
  "BuildHelloResponse si ci =
     (if ConnProtocol ci = 2 then ''*14'' @ crlf else ''%7'' @ crlf) @
     plus_bulk ''server'' (Server si) @ plus_bulk ''version'' (Version si) @
     ''+proto'' @ crlf @ resp_int (ConnProtocol ci) @ ''+id'' @ crlf @ resp_int (ConnId ci) @
     plus_bulk ''mode'' (Mode si) @ plus_bulk ''role'' (Role si) @
     ''+modules'' @ crlf @ array_head (int (length (Modules si))) @ concat (map resp_bulk (Modules si))"

definition hello_protocol :: "string \<Rightarrow> int res" where
  "hello_protocol s =
     (case atoi_res s of
        Ok n \<Rightarrow> if n \<in> {2, 3} then Ok n else Err ''protocol must be 2 or 3''
      | r \<Rightarrow> r)"

definition hello_login :: "(string \<times> string) option \<Rightarrow> 's params \<Rightarrow> 's world \<Rightarrow> unit res \<times> 's world" where
  "hello_login auth p w =
     (case auth of
        None \<Rightarrow> (Ok (), w)
      | Some (u, pw) \<Rightarrow>
          and_then (AuthenticateConnection (Libs p w) (Connection p) [''AUTH'', u, pw] (GetACL p w), w) (\<lambda>a w1.
            (Ok (), PutACL p a w1)))"

definition handleHello :: "'s handler" where
  "handleHello p w =
     (let cmd = Command p; conn = Connection p
      in if length cmd \<notin> {1, 2, 4, 5, 7} then (Err WrongArgsResponse, w)
         else if length cmd = 1 then (Ok (BuildHelloResponse (GetServerInfo p w) (GetConnectionInfo p conn w)), w)
         else and_then (getHelloOptions (drop 2 cmd) \<lparr>hello_clientname = [], hello_auth = None\<rparr>, w) (\<lambda>opts w.
              and_then (hello_protocol (cmd ! 1), w) (\<lambda>protocol w.
              and_then (hello_login (hello_auth opts) p w) (\<lambda>_ w1.
                let w2 = SetConnectionInfo p conn (hello_clientname opts) protocol
                           (ConnDatabase (GetConnectionInfo p conn w1)) w1
                in (Ok (BuildHelloResponse (GetServerInfo p w2) (GetConnectionInfo p conn w2)), w2)))))"

subsection \<open>SELECT and SWAPDB\<close>

definition handleSelect :: "'s handler" where
  "handleSelect p w =
     (if length (Command p) \<noteq> 2 then (Err WrongArgsResponse, w)
      else and_then (atoi_res (Command p ! 1), w) (\<lambda>d w.
           if d < 0 then (Err ''database must be >= 0'', w)
           else let i = GetConnectionInfo p (Connection p) w
                in (Ok OkResponse, SetConnectionInfo p (Connection p) (ConnName i) (ConnProtocol i) d w)))"

definition database_index :: "string \<Rightarrow> int res" where
  "database_index s =
     (case atoi s of None \<Rightarrow> Err ''both database indices must be integers'' | Some d \<Rightarrow> Ok d)"

definition handleSwapDB :: "'s handler" where
  "handleSwapDB p w =
     (if length (Command p) \<noteq> 3 then (Err WrongArgsResponse, w)
      else and_then (database_index (Command p ! 1), w) (\<lambda>d1 w.
           and_then (database_index (Command p ! 2), w) (\<lambda>d2 w.
             if d1 < 0 \<or> d2 < 0 then (Err ''database indices must be >= 0'', w)
             else (Ok OkResponse, SwapDatabases p d1 d2 w))))"

definition no_key_command :: "string \<Rightarrow> string \<Rightarrow> string list \<Rightarrow> bool \<Rightarrow> 's handler \<Rightarrow> 's command" where
  "no_key_command name md cats sync h = mk_command name md cats sync (\<lambda>_. Ok no_keys) h"

definition connection_commands :: "'s command list" where
  "connection_commands =
     [no_key_command ''auth'' ''connection'' [''connection'', ''slow''] False handleAuth,
      no_key_command ''ping'' ''connection'' [''connection'', ''fast''] False handlePing,
      no_key_command ''echo'' ''connection'' [''connection'', ''fast''] False handleEcho,
      no_key_command ''hello'' ''connection'' [''fast'', ''connection''] False handleHello,
      no_key_command ''select'' ''connection'' [''fast'', ''connection''] False handleSelect,
      no_key_command ''swapdb'' ''connection'' [''keyspace'', ''slow'', ''dangerous'', ''connection''] False handleSwapDB]"

subsection \<open>Information about commands\<close>

definition command_count :: "command_info \<Rightarrow> nat" where
  "command_count c = (if InfoSubs c = [] then 1 else length (InfoSubs c))"

definition handleCommandCount :: "'s handler" where
  "handleCommandCount p w =
     (Ok (resp_int (int (sum_list (map command_count (GetAllCommands p w))))), w)"

text \<open>A command as the filters see it: its full name, module and categories.\<close>

definition command_rows :: "command_info \<Rightarrow> (string \<times> string \<times> string list) list" where
  "command_rows c =
     (if InfoSubs c = [] then [(InfoName c, InfoModule c, InfoCategories c)]
      else map (\<lambda>(name, md, cats). (InfoName c @ '' '' @ name, md, cats)) (InfoSubs c))"

definition command_filter :: "libs \<Rightarrow> string \<Rightarrow> string \<Rightarrow> (string \<times> string \<times> string list \<Rightarrow> bool) res" where
  "command_filter l kind arg =
     (if equal_fold ''ACLCAT'' kind then Ok (\<lambda>(name, md, cats). to_lower arg \<in> set cats)
      else if equal_fold ''PATTERN'' kind
      then (case glob_compile l arg of None \<Rightarrow> Panic malformed_glob | Some g \<Rightarrow> Ok (\<lambda>(name, md, cats). g name))
      else if equal_fold ''MODULE'' kind then Ok (\<lambda>(name, md, cats). equal_fold md (to_lower arg))
      else Err (''expected filter to be ACLCAT or PATTERN, got '' @ to_upper kind))"

definition handleCommandList :: "'s handler" where
  "handleCommandList p w =
     (let cmd = Command p; rows = concat (map command_rows (GetAllCommands p w))
      in if length cmd = 2 then (Ok (resp_array (map fst rows)), w)
         else if length cmd = 5
         then (if \<not> equal_fold ''FILTERBY'' (cmd ! 2)
               then (Err (''expected FILTERBY, got '' @ to_upper (cmd ! 2)), w)
               else (map_res (\<lambda>f. resp_array (map fst (filter f rows)))
                       (command_filter (Libs p w) (cmd ! 3) (cmd ! 4)), w))
         else (Err WrongArgsResponse, w))"

definition handleCommandDocs :: "'s handler" where
  "handleCommandDocs p w = (Ok (array_head 0), w)"

subsection \<open>Snapshots, the append-only file and modules\<close>

definition handleAdminSave :: "'s handler" where
  "handleAdminSave p w = and_then (TakeSnapshot p w) (\<lambda>_ w1. (Ok OkResponse, w1))"

definition handleLastSave :: "'s handler" where
  "handleLastSave p w =
     (let t = GetLatestSnapshotTime p w
      in if t = 0 then (Err ''no snapshot'', w) else (Ok (resp_int t), w))"

definition handleRewriteAOF :: "'s handler" where
  "handleRewriteAOF p w = and_then (RewriteAOF p w) (\<lambda>_ w1. (Ok OkResponse, w1))"

definition handleModuleLoad :: "'s handler" where
  "handleModuleLoad p w =
     (if length (Command p) < 3 then (Err WrongArgsResponse, w)
      else and_then (LoadModule p (Command p ! 2) (drop 3 (Command p)) w) (\<lambda>_ w1. (Ok OkResponse, w1)))"

definition handleModuleUnload :: "'s handler" where
  "handleModuleUnload p w =
     (if length (Command p) \<noteq> 3 then (Err WrongArgsResponse, w)
      else (Ok OkResponse, UnloadModule p (Command p ! 2) w))"

definition handleModuleList :: "'s handler" where
  "handleModuleList p w = (Ok (resp_array (ListModules p w)), w)"

definition admin_sub :: "string \<Rightarrow> string list \<Rightarrow> bool \<Rightarrow> 's handler \<Rightarrow> 's sub_command" where
  "admin_sub name cats sync h =
     \<lparr>SubCommandName = name, SubModule = ''admin'', SubCategories = cats, SubSync = sync,
      SubKeyExtractionFunc = (\<lambda>_. Ok no_keys), SubHandlerFunc = h\<rparr>"

definition admin_parent :: "string \<Rightarrow> 's sub_command list \<Rightarrow> 's command" where
  "admin_parent name subs =
     \<lparr>CommandName = name, Module = ''admin'', Categories = [], SubCommands = subs, Sync = False,
      KeyExtractionFunc = (\<lambda>_. Ok no_keys), HandlerFunc = no_handler\<rparr>"

definition admin_commands :: "'s command list" where
  "admin_commands =
     [admin_parent ''command''
        [admin_sub ''docs'' [''slow'', ''connection''] False handleCommandDocs,
         admin_sub ''count'' [''admin'', ''slow''] False handleCommandCount,
         admin_sub ''list'' [''admin'', ''slow''] False handleCommandList],
      no_key_command ''save'' ''admin'' admin_categories True handleAdminSave,
      no_key_command ''lastsave'' ''admin'' [''admin'', ''fast'', ''dangerous''] False handleLastSave,
      no_key_command ''rewriteaof'' ''admin'' admin_categories False handleRewriteAOF,
      admin_parent ''module''
        [admin_sub ''load'' admin_categories True handleModuleLoad,
         admin_sub ''unload'' admin_categories True handleModuleUnload,
         admin_sub ''list'' admin_categories False handleModuleList]]"

end
