(* ===== verification/Dispatch.thy ===== *)
theory Dispatch
  imports KvStore ListCommands HashCommands StringCommands GenericCommands ZSetCommands PubSub ConnectionCommands
begin

text \<open>
  From a message to a reply (\<open>sugardb/modules.go\<close>, \<open>sugardb.go\<close>, \<open>cluster.go\<close>, \<open>internal/utils.go\<close>,
  \<open>internal/raft/fsm.go\<close>): finding the command, the access check, the handler, the append-only file
  and the replication of synchronised commands; and the life of a connection.
\<close>

subsection \<open>The command table\<close>

definition all_commands :: "server command list" where
  "all_commands =
     acl_commands @ admin_commands @ connection_commands @ generic_commands @ hash_commands @ list_commands @
     pubsub_commands @ set_commands @ sortedset_commands @ string_commands"

definition info_of :: "server command \<Rightarrow> command_info" where
  "info_of c =
     \<lparr>InfoName = CommandName c, InfoModule = Module c, InfoCategories = Categories c,
      InfoSubs = map (\<lambda>sc. (SubCommandName sc, SubModule sc, SubCategories sc)) (SubCommands c)\<rparr>"

text \<open>The functions of a command are those of its module; subcommands that were removed are gone.\<close>

definition kept_subs :: "command_info \<Rightarrow> server command \<Rightarrow> server command" where
  "kept_subs i c = c\<lparr>SubCommands := filter (\<lambda>sc. SubCommandName sc \<in> fst ` set (InfoSubs i)) (SubCommands c)\<rparr>"

definition getCommand :: "server \<Rightarrow> string \<Rightarrow> server command res" where
  "getCommand s name =
     (case find (\<lambda>i. equal_fold (InfoName i) name) (commands s) of
        None \<Rightarrow> Err (''command '' @ name @ '' not supported'')
      | Some i \<Rightarrow>
          (case find (\<lambda>c. CommandName c = InfoName i) all_commands of
             None \<Rightarrow> Err (''command '' @ name @ '' not supported'')
           | Some c \<Rightarrow> Ok (kept_subs i c)))"

definition GetSubCommand :: "server command \<Rightarrow> string list \<Rightarrow> server sub_command option res" where
  "GetSubCommand c cmd =
     (if SubCommands c = [] \<or> length cmd < 2 then Ok None
      else case find (\<lambda>sc. equal_fold (SubCommandName sc) (cmd ! 1)) (SubCommands c) of
             Some sc \<Rightarrow> Ok (Some sc)
           | None \<Rightarrow> Err (''command '' @ cmd ! 0 @ '' '' @ cmd ! 1 @ '' not supported''))"

definition IsWriteCommand :: "server command \<Rightarrow> server sub_command option \<Rightarrow> bool" where
  "IsWriteCommand c sub \<longleftrightarrow>
     ''write'' \<in> set (Categories c @ (case sub of None \<Rightarrow> [] | Some sc \<Rightarrow> SubCategories sc))"

subsection \<open>Replication\<close>

definition raftApplyCommand :: "ctx \<Rightarrow> string list \<Rightarrow> sworld \<Rightarrow> string res \<times> sworld" where
  "raftApplyCommand cx cmd w =
     (let s = srv w; req = CommandRequest (ServerID cx) (ConnectionID cx) (Protocol cx) (Database cx) cmd
      in (raft_apply s (raftLog s) req, w\<lparr>srv := s\<lparr>raftLog := raftLog s @ [req]\<rparr>\<rparr>))"

text \<open>What every node does with an entry of the log: there is no connection behind it.\<close>

definition chosen_handler :: "server command \<Rightarrow> server sub_command option \<Rightarrow> server handler" where
  "chosen_handler c sub = (case sub of None \<Rightarrow> HandlerFunc c | Some sc \<Rightarrow> SubHandlerFunc sc)"

definition FSM_Apply :: "apply_request \<Rightarrow> sworld \<Rightarrow> string res \<times> sworld" where
  "FSM_Apply req w =
     (case req of
        DeleteKeyRequest sid protocol d key \<Rightarrow>
          and_then (deleteKey \<lparr>ServerID = sid, ConnectionName = [], Protocol = protocol, Database = d,
                               ConnectionID = ''nil''\<rparr> key w)
            (\<lambda>_ w1. (Ok ''OK'', w1))
      | CommandRequest sid cid protocol d cmd \<Rightarrow>
          if cmd = [] then (Panic index_out_of_range, w)
          else and_then (getCommand (srv w) (hd cmd), w) (\<lambda>c w.
               and_then (GetSubCommand c cmd, w) (\<lambda>sub w.
                 chosen_handler c sub
                   (getHandlerFuncParams
                      \<lparr>ServerID = sid, ConnectionName = [], Protocol = protocol, Database = d, ConnectionID = cid\<rparr>
                      cmd None) w)))"

subsection \<open>Handling a message\<close>

text \<open>
  The connection's details replace those of the context. A replayed command has no connection, and
  reads the details of one that does not exist.
\<close>

definition command_context :: "server \<Rightarrow> ctx \<Rightarrow> nat option \<Rightarrow> bool \<Rightarrow> bool \<Rightarrow> ctx" where
  "command_context s cx conn replay emb =
     (let i = (if emb \<and> \<not> replay then embedded s else connInfo s conn)
      in cx\<lparr>ConnectionName := ConnName i, Protocol := ConnProtocol i, Database := ConnDatabase i\<rparr>)"

text \<open>The append-only file exists outside of clusters only.\<close>

definition log_command :: "nat option \<Rightarrow> string \<Rightarrow> sworld \<Rightarrow> unit res \<times> sworld" where
  "log_command conn message w =
     (let s = srv w
      in if isInCluster s then (Panic nil_deref, w)
         else (Ok (), w\<lparr>srv := s\<lparr>appendStore := Log_Write (ConnDatabase (connInfo s conn)) message (appendStore s)\<rparr>\<rparr>))"

definition begin_mutation :: "bool \<Rightarrow> sworld \<Rightarrow> sworld" where
  "begin_mutation write w = (if write then upd (\<lambda>s. s\<lparr>stateMutationInProgress := True\<rparr>) w else w)"

definition end_mutation :: "sworld \<Rightarrow> sworld" where
  "end_mutation w = upd (\<lambda>s. s\<lparr>stateMutationInProgress := False\<rparr>) w"

text \<open>The handler run here, then the log; an error returns before the mutation flag is cleared.\<close>

definition run_local ::
    "server command \<Rightarrow> server sub_command option \<Rightarrow> ctx \<Rightarrow> string list \<Rightarrow> string \<Rightarrow> nat option \<Rightarrow> bool \<Rightarrow>
      sworld \<Rightarrow> string res \<times> sworld" where
  "run_local c sub cx cmd message conn replay w =
     and_then (chosen_handler c sub (getHandlerFuncParams cx cmd conn) w) (\<lambda>res w1.
     and_then (if IsWriteCommand c sub \<and> \<not> replay then log_command conn message w1 else (Ok (), w1)) (\<lambda>_ w2.
       (Ok res, end_mutation w2)))"

definition is_sync :: "server command \<Rightarrow> server sub_command option \<Rightarrow> bool" where
  "is_sync c sub \<longleftrightarrow> (case sub of None \<Rightarrow> Sync c | Some sc \<Rightarrow> SubSync sc)"

definition run_command ::
    "server command \<Rightarrow> server sub_command option \<Rightarrow> ctx \<Rightarrow> string list \<Rightarrow> string \<Rightarrow> nat option \<Rightarrow> bool \<Rightarrow>
      sworld \<Rightarrow> string res \<times> sworld" where
  "run_command c sub cx cmd message conn replay w =
     (if \<not> isInCluster (srv w) \<or> \<not> is_sync c sub then run_local c sub cx cmd message conn replay w
      else if raftLeader (srv w) then raftApplyCommand cx cmd w
      else if ForwardCommand (config (srv w))
      then (Ok OkResponse, upd (\<lambda>s. s\<lparr>forwardedCommands := forwardedCommands s @ [message]\<rparr>) w)
      else (Err ''not cluster leader, cannot carry out command'', w))"

definition authorize ::
    "nat option \<Rightarrow> bool \<Rightarrow> string list \<Rightarrow> server command \<Rightarrow> server sub_command option \<Rightarrow> sworld \<Rightarrow>
      string list res \<times> sworld" where
  "authorize conn emb cmd c sub w =
     (if conn = None \<or> emb then (Ok cmd, w)
      else let ((r, cmd'), w1) = AuthorizeConnection (acl (srv w)) conn cmd c sub w
           in (map_res (\<lambda>_. cmd') r, w1))"

text \<open>A write command waits, as \<open>None\<close>, while the state is copied.\<close>

definition handleCommand ::
    "ctx \<Rightarrow> string \<Rightarrow> nat option \<Rightarrow> bool \<Rightarrow> bool \<Rightarrow> sworld \<Rightarrow> (string res \<times> sworld) option" where
  "handleCommand cx0 message conn replay emb w =
     (let cx = command_context (srv w) cx0 conn replay emb;
          found = (case Decode (libs (srv w)) message of
                     Ok cmd \<Rightarrow>
                       if cmd = [] then Err ''empty command''
                       else if equal_fold (hd cmd) ''quit'' then Err ''EOF''
                       else (case getCommand (srv w) (hd cmd) of
                               Ok c \<Rightarrow> map_res (\<lambda>sub. (cmd, c, sub)) (GetSubCommand c cmd)
                             | Err e \<Rightarrow> Err e | Panic e \<Rightarrow> Panic e | Diverge \<Rightarrow> Diverge)
                   | Err e \<Rightarrow> Err e | Panic e \<Rightarrow> Panic e | Diverge \<Rightarrow> Diverge)
      in case found of
           Ok (cmd, c, sub) \<Rightarrow>
             (let (r, w1) = authorize conn emb cmd c sub w; write = IsWriteCommand c sub
              in case r of
                   Ok cmd' \<Rightarrow>
                     if write \<and> stateCopyInProgress (srv w1) then None
                     else Some (run_command c sub cx cmd' message conn replay (begin_mutation write w1))
                 | Err e \<Rightarrow> Some (Err e, w1) | Panic e \<Rightarrow> Some (Panic e, w1) | Diverge \<Rightarrow> Some (Diverge, w1))
         | Err e \<Rightarrow> Some (Err e, w) | Panic e \<Rightarrow> Some (Panic e, w) | Diverge \<Rightarrow> Some (Diverge, w))"

subsection \<open>Connections\<close>

text \<open>A new connection, under a number that no other has.\<close>

definition open_connection :: "nat \<Rightarrow> sworld \<Rightarrow> unit res \<times> sworld" where
  "open_connection c w =
     and_then (RegisterConnection (Some c) (acl (srv w)), w) (\<lambda>a w.
       (Ok (), upd (\<lambda>s. s\<lparr>acl := a, connId := connId s + 1,
          tcpClients := AList.update (Some c)
            \<lparr>ConnId = connId s + 1, ConnName = [], ConnProtocol = 2, ConnDatabase = 0\<rparr> (tcpClients s)\<rparr>) w))"

text \<open>A long reply is written in chunks of 1024 bytes.\<close>

definition chunk_size :: nat where
  "chunk_size = 1024"

function reply_chunks :: "string \<Rightarrow> string list" where
  "reply_chunks res =
     (if length res < chunk_size + 1 then [res]
      else take chunk_size res # reply_chunks (drop chunk_size res))"
  by pat_completeness auto
termination
  by (relation "measure length") (auto simp: chunk_size_def)

declare reply_chunks.simps [simp del]

definition written_reply :: "string res \<Rightarrow> string list" where
  "written_reply r =
     (case r of
        Ok res \<Rightarrow> if res = [] then [] else reply_chunks res
      | Err e \<Rightarrow> [''-Error '' @ e @ crlf]
      | _ \<Rightarrow> [])"

end
