(* ===== verification/KeyWords.thy ===== *)
theory KeyWords
  imports Dispatch
begin

text \<open>
  The key extraction functions of all commands: on a message that names the command they fail with an error
  or return words of the message, so none of them reads past its end and none panics.
\<close>

definition in_message :: "string list \<Rightarrow> key_result res \<Rightarrow> bool" where
  "in_message cmd r =
     (case r of
        Ok k \<Rightarrow> set (Channels k) \<union> set (ReadKeys k) \<union> set (WriteKeys k) \<subseteq> set cmd
      | Err _ \<Rightarrow> True | Panic _ \<Rightarrow> False | Diverge \<Rightarrow> False)"

definition reads_words :: "'s command \<Rightarrow> string list \<Rightarrow> bool" where
  "reads_words c cmd \<longleftrightarrow>
     in_message cmd (KeyExtractionFunc c cmd) \<and>
     list_all (\<lambda>sc. in_message cmd (SubKeyExtractionFunc sc cmd)) (SubCommands c)"

lemma in_message_simps [simp]:
  "in_message cmd (Err e)" "in_message cmd (Ok no_keys)"
  "in_message cmd (Ok (reads_of ks)) \<longleftrightarrow> set ks \<subseteq> set cmd"
  "in_message cmd (Ok (writes_of ks)) \<longleftrightarrow> set ks \<subseteq> set cmd"
  "in_message cmd (Ok (channels_of ks)) \<longleftrightarrow> set ks \<subseteq> set cmd"
  "in_message cmd (Ok \<lparr>Channels = cs, ReadKeys = rs, WriteKeys = ws, ReadEnd = i\<rparr>) \<longleftrightarrow>
     set cs \<union> set rs \<union> set ws \<subseteq> set cmd"
  by (simp_all add: in_message_def no_keys_def reads_of_def writes_of_def channels_of_def)

lemma in_message_if [simp]:
  "in_message cmd (if b then x else y) \<longleftrightarrow> (b \<longrightarrow> in_message cmd x) \<and> (\<not> b \<longrightarrow> in_message cmd y)"
  by simp

lemma tl_words [simp]: "set (tl xs) \<subseteq> set xs"
  by (cases xs) auto

lemma drop_words [simp]: "set (drop n xs) \<subseteq> set xs"
  by (rule set_drop_subset)

lemma evens_words: "set (evens xs) \<subseteq> set xs"
  by (induction xs rule: evens.induct) auto

lemma index_func_le: "index_func P xs < int (length xs)"
  by (induction xs) (auto simp: Let_def)

lemma index_func_first: "\<not> P x \<Longrightarrow> index_func P (x # xs) \<noteq> - 1 \<Longrightarrow> 1 \<le> index_func P (x # xs)"
  using index_func_ge [of P xs] by (auto simp: Let_def)

text \<open>The words before an option.\<close>

lemma range_words:
  assumes "0 \<le> i" "i \<le> j" "j \<le> int (length cmd)"
    and "\<And>ks. set ks \<subseteq> set cmd \<Longrightarrow> in_message cmd (Ok (f ks))"
  shows "in_message cmd (map_res f (slice_range cmd i j))"
proof -
  have "set (take (nat (j - i)) (drop (nat i) cmd)) \<subseteq> set cmd"
    using set_take_subset set_drop_subset by (metis order_trans)
  then show ?thesis using assms by (simp add: slice_range_def)
qed

lemma before_option:
  assumes "cmd \<noteq> []" "\<not> P (hd cmd)" "index_func P cmd \<noteq> - 1"
    and "\<And>ks. set ks \<subseteq> set cmd \<Longrightarrow> in_message cmd (Ok (f ks))"
  shows "in_message cmd (map_res f (slice_range cmd 1 (index_func P cmd)))"
  using assms index_func_le [of P cmd] index_func_first [of P "hd cmd" "tl cmd"] by (intro range_words) simp_all

subsection \<open>The commands\<close>

lemma modifier_le: "cmd \<noteq> [] \<Longrightarrow> modifier_index (tl cmd) + 1 < int (length cmd)"
  using index_func_le by (cases cmd) (auto simp: modifier_index_def)

lemma named_not:
  assumes "equal_fold name (hd cmd)" "fold_key name \<noteq> fold_key opt"
  shows "\<not> equal_fold (hd cmd) opt"
  using assms by (simp add: equal_fold_def)

lemma not_options: "fold_key ''sintercard'' \<noteq> fold_key ''limit''" "fold_key ''zdiff'' \<noteq> fold_key ''withscores''"
  by code_simp+

lemma option_words:
  "cmd \<noteq> [] \<Longrightarrow> equal_fold ''sintercard'' (hd cmd) \<Longrightarrow> in_message cmd (sintercardKeyFunc cmd)"
  "cmd \<noteq> [] \<Longrightarrow> equal_fold ''zdiff'' (hd cmd) \<Longrightarrow> in_message cmd (zdiffKeyFunc cmd)"
  unfolding sintercardKeyFunc_def limit_index_def zdiffKeyFunc_def option_index_def
  using not_options by (auto intro!: before_option dest: named_not)

lemma word_at [simp]: "i < length cmd \<Longrightarrow> cmd ! i \<in> set cmd"
  by (rule nth_mem)

lemma store_words [simp]: "in_message cmd (store_keys cmd)"
  by (simp add: store_keys_def)

lemma modifier_words:
  assumes "cmd \<noteq> []"
  shows "in_message cmd (zinterKeyFunc cmd)" "in_message cmd (zinterstoreKeyFunc cmd)"
    "in_message cmd (zunionKeyFunc cmd)" "in_message cmd (zunionstoreKeyFunc cmd)"
  using modifier_le [OF assms]
  by (auto simp: zinterKeyFunc_def zinterstoreKeyFunc_def zunionKeyFunc_def zunionstoreKeyFunc_def Let_def
      intro!: range_words)

lemma zmpop_words: "in_message cmd (zmpopKeyFunc cmd)"
  using index_func_le [of "\<lambda>s. to_upper s \<in> {''MIN'', ''MAX'', ''COUNT''}" cmd]
  by (auto simp: zmpopKeyFunc_def Let_def intro!: range_words)

definition well_read :: "string list \<Rightarrow> 's command \<Rightarrow> bool" where
  "well_read cmd c \<longleftrightarrow> (equal_fold (CommandName c) (hd cmd) \<longrightarrow> reads_words c cmd)"

lemma well_read_mk [simp]:
  "well_read cmd (mk_command name md cats sync kf h) \<longleftrightarrow> (equal_fold name (hd cmd) \<longrightarrow> in_message cmd (kf cmd))"
  by (simp add: well_read_def reads_words_def mk_command_def)

lemma string_words: "list_all (well_read cmd) string_commands"
  by (simp add: string_commands_def setRangeKeyFunc_def strLenKeyFunc_def subStrKeyFunc_def appendKeyFunc_def)

lemma list_words: "list_all (well_read cmd) list_commands"
  by (simp add: list_commands_def lpushKeyFunc_def popKeyFunc_def llenKeyFunc_def lrangeKeyFunc_def lindexKeyFunc_def
      lsetKeyFunc_def ltrimKeyFunc_def lremKeyFunc_def rpushKeyFunc_def lmoveKeyFunc_def)

lemma hash_words: "list_all (well_read cmd) hash_commands"
  by (simp add: hash_commands_def hsetKeyFunc_def hsetnxKeyFunc_def hgetKeyFunc_def hmgetKeyFunc_def hstrlenKeyFunc_def
      hvalsKeyFunc_def hrandfieldKeyFunc_def hlenKeyFunc_def hkeysKeyFunc_def hincrbyKeyFunc_def hgetallKeyFunc_def
      hexistsKeyFunc_def hdelKeyFunc_def)

lemma generic_words: "list_all (well_read cmd) generic_commands"
  using order_trans [OF evens_words [of "tl cmd"] tl_words]
  by (simp add: generic_commands_def setKeyFunc_def msetKeyFunc_def getKeyFunc_def mgetKeyFunc_def delKeyFunc_def
      persistKeyFunc_def expireTimeKeyFunc_def ttlKeyFunc_def expireKeyFunc_def expireAtKeyFunc_def incrKeyFunc_def
      decrKeyFunc_def incrByKeyFunc_def incrByFloatKeyFunc_def decrByKeyFunc_def renameKeyFunc_def flushKeyFunc_def
      randomKeyFunc_def getDelKeyFunc_def getExKeyFunc_def typeKeyFunc_def touchKeyFunc_def objFreqKeyFunc_def
      objIdleTimeKeyFunc_def)

lemma set_words: "cmd \<noteq> [] \<Longrightarrow> list_all (well_read cmd) set_commands"
  by (simp add: set_commands_def saddKeyFunc_def scardKeyFunc_def sdiffKeyFunc_def sdiffstoreKeyFunc_def sinterKeyFunc_def
      option_words sinterstoreKeyFunc_def sismemberKeyFunc_def smembersKeyFunc_def smismemberKeyFunc_def smoveKeyFunc_def
      spopKeyFunc_def srandmemberKeyFunc_def sremKeyFunc_def sunionKeyFunc_def sunionstoreKeyFunc_def)

lemma sortedset_words: "cmd \<noteq> [] \<Longrightarrow> list_all (well_read cmd) sortedset_commands"
  by (simp add: sortedset_commands_def zset_command_def option_words modifier_words zmpop_words zaddKeyFunc_def
      zcardKeyFunc_def zcountKeyFunc_def zdiffstoreKeyFunc_def zincrbyKeyFunc_def zmscoreKeyFunc_def zpopKeyFunc_def
      zrandmemberKeyFunc_def zrankKeyFunc_def zremKeyFunc_def zrevrankKeyFunc_def zscoreKeyFunc_def
      zremrangebylexKeyFunc_def zremrangebyrankKeyFunc_def zremrangebyscoreKeyFunc_def zlexcountKeyFunc_def
      zrangeKeyCount_def zrangeStoreKeyFunc_def)

lemma pubsub_words: "list_all (well_read cmd) pubsub_commands"
  by (simp add: pubsub_commands_def subscribe_keys_def publish_keys_def unsubscribe_keys_def)
    (simp add: well_read_def reads_words_def pubsub_sub_def)

lemma keyless_words:
  "list_all (well_read cmd) acl_commands" "list_all (well_read cmd) admin_commands"
  "list_all (well_read cmd) connection_commands"
  by (simp_all add: acl_commands_def acl_sub_def admin_commands_def admin_sub_def admin_parent_def connection_commands_def
      no_key_command_def) (simp_all add: well_read_def reads_words_def)

lemma commands_well_read: "cmd \<noteq> [] \<Longrightarrow> c \<in> set all_commands \<Longrightarrow> well_read cmd c"
  using string_words [of cmd] list_words [of cmd] hash_words [of cmd] generic_words [of cmd] set_words [of cmd]
    sortedset_words [of cmd] pubsub_words [of cmd] keyless_words [of cmd]
  unfolding all_commands_def list_all_iff by auto

text \<open>Of the command that is found for a message.\<close>

lemma found_reads_words:
  assumes "getCommand s (hd cmd) = Ok c" "cmd \<noteq> []"
  shows "reads_words c cmd"
proof -
  obtain i c0 where i: "find (\<lambda>i. equal_fold (InfoName i) (hd cmd)) (commands s) = Some i"
    "find (\<lambda>c. CommandName c = InfoName i) all_commands = Some c0" "c = kept_subs i c0"
    using assms(1) by (auto simp: getCommand_def split: option.splits)
  then have c0: "c0 \<in> set all_commands" "equal_fold (CommandName c0) (hd cmd)"
    by (auto simp: find_Some_iff)
  then have "reads_words c0 cmd" using commands_well_read [OF assms(2)] by (auto simp: well_read_def)
  then show ?thesis by (auto simp: reads_words_def i(3) kept_subs_def list_all_iff)
qed

end
