(* ===== verification/DispatchSpecs.thy ===== *)
theory DispatchSpecs
  imports KeyWords AclSpecs
begin

text \<open>
  Dispatch: what happens around a handler. The command that a message denotes is fixed by the
  hypotheses of \<open>dispatched\<close>; the statements hold for every command of the table.
\<close>

subsection \<open>Replies\<close>

lemma reply_chunks_small: "length res \<le> chunk_size \<Longrightarrow> reply_chunks res = [res]"
  by (subst reply_chunks.simps) simp

lemma reply_chunks_large:
  "chunk_size < length res \<Longrightarrow> reply_chunks res = take chunk_size res # reply_chunks (drop chunk_size res)"
  by (subst reply_chunks.simps) simp

text \<open>C34: The chunks in which a reply is written carry the reply unchanged, each of them at most 1024 bytes long and all but
  the last one full.\<close>

theorem reply_chunks_roundtrip:
  "concat (reply_chunks res) = res \<and> list_all (\<lambda>c. length c \<le> 1024) (reply_chunks res) \<and>
   list_all (\<lambda>c. length c = 1024) (butlast (reply_chunks res))"
proof (induction res rule: reply_chunks.induct)
  case (1 res)
  show ?case
  proof (cases "chunk_size < length res")
    case True
    then have "\<not> length res < chunk_size + 1" by simp
    note IH = "1.IH" [OF this]
    let ?first = "take chunk_size res" and ?rest = "reply_chunks (drop chunk_size res)"
    have split: "reply_chunks res = ?first # ?rest" by (rule reply_chunks_large [OF True])
    have "?rest \<noteq> []" by (subst reply_chunks.simps) simp
    then have "butlast (?first # ?rest) = ?first # butlast ?rest" by simp
    moreover have "length ?first = 1024" using True by (simp add: chunk_size_def)
    moreover have "?first @ concat ?rest = res" using IH by simp
    ultimately show ?thesis unfolding split using IH by simp
  next
    case False
    then have "reply_chunks res = [res]" by (simp add: reply_chunks_small)
    then show ?thesis using False by (simp add: chunk_size_def)
  qed
qed

subsection \<open>One message\<close>

text \<open>What a message denotes: a command that is decoded and found, with its subcommand.\<close>

definition dispatched :: "server \<Rightarrow> string \<Rightarrow> string list \<Rightarrow> server command \<Rightarrow> server sub_command option \<Rightarrow> bool" where
  "dispatched s message cmd c sub \<longleftrightarrow>
     Decode (libs s) message = Ok cmd \<and> cmd \<noteq> [] \<and> \<not> equal_fold (hd cmd) ''quit'' \<and>
     getCommand s (hd cmd) = Ok c \<and> GetSubCommand c cmd = Ok sub"

lemma handle_dispatched:
  assumes "dispatched (srv w) message cmd c sub"
  shows "handleCommand cx message conn replay emb w =
    (let (r, w1) = authorize conn emb cmd c sub w; write = IsWriteCommand c sub
     in case r of
          Ok cmd' \<Rightarrow>
            if write \<and> stateCopyInProgress (srv w1) then None
            else Some (run_command c sub (command_context (srv w) cx conn replay emb) cmd' message conn replay
                         (begin_mutation write w1))
        | Err e \<Rightarrow> Some (Err e, w1) | Panic e \<Rightarrow> Some (Panic e, w1) | Diverge \<Rightarrow> Some (Diverge, w1))"
  using assms by (simp add: dispatched_def handleCommand_def Let_def)


text \<open>The name that is checked, and the names that need no access.\<close>

definition full_name :: "server command \<Rightarrow> server sub_command option \<Rightarrow> string" where
  "full_name c sub = (case sub of None \<Rightarrow> CommandName c | Some sc \<Rightarrow> CommandName c @ ''|'' @ SubCommandName sc)"

definition public_command :: "string \<Rightarrow> bool" where
  "public_command name \<longleftrightarrow>
     equal_fold name ''ack'' \<or> to_lower name \<in> {''ping'', ''echo'', ''hello''} \<or> equal_fold name ''auth''"

definition authenticated :: "acl \<Rightarrow> nat \<Rightarrow> bool" where
  "authenticated a i = (case map_of (Connections a) (Some i) of None \<Rightarrow> False | Some ci \<Rightarrow> Authenticated ci)"

lemma dispatched_words:
  assumes "dispatched s message cmd c sub"
  shows "in_message cmd (KeyExtractionFunc c cmd)" "sub = Some sc \<Longrightarrow> in_message cmd (SubKeyExtractionFunc sc cmd)"
  using assms found_reads_words [of s cmd c]
  by (auto simp: dispatched_def reads_words_def list_all_iff GetSubCommand_def find_Some_iff split: if_splits option.splits)

definition extraction_error :: "server command \<Rightarrow> server sub_command option \<Rightarrow> string list \<Rightarrow> string \<Rightarrow> bool" where
  "extraction_error c sub cmd e \<longleftrightarrow>
     KeyExtractionFunc c cmd = Err e \<or> (case sub of None \<Rightarrow> False | Some sc \<Rightarrow> SubKeyExtractionFunc sc cmd = Err e)"

lemma refused:
  assumes "RequirePass (AclSettings a)" "\<not> authenticated a i" "\<not> public_command (full_name c sub)"
    and "in_message cmd (KeyExtractionFunc c cmd)" "\<And>sc. sub = Some sc \<Longrightarrow> in_message cmd (SubKeyExtractionFunc sc cmd)"
  shows "\<exists>e. (e = ''user must be authenticated'' \<or> extraction_error c sub cmd e) \<and>
    AuthorizeConnection a (Some i) cmd c sub w = ((Err e, cmd), w)"
  using assms
  by (auto simp: AuthorizeConnection_def public_command_def full_name_def authenticated_def extraction_error_def
      in_message_def Let_def split: res.splits option.splits)

text \<open>C7: Where passwords are required, a connection that has not authenticated runs no command but the four that need no
  access (and the name \<open>ack\<close>): whatever other command of the server a message denotes, and whatever its words are, the reply is an
  error, that the user must be authenticated or that of the key extraction function of the command or its subcommand, and nothing of the server changes.
  The extraction function, which runs before the connection is looked at, cannot be made to panic: it fails or returns words of
  the message.\<close>

theorem unauthenticated_is_refused:
  assumes "dispatched (srv w) message cmd c sub"
    and "RequirePass (AclSettings (acl (srv w)))" "\<not> authenticated (acl (srv w)) i"
    and "\<not> public_command (full_name c sub)"
  shows "\<exists>e. handleCommand cx message (Some i) replay False w = Some (Err e, w) \<and>
    (e = ''user must be authenticated'' \<or> extraction_error c sub cmd e) \<and> in_message cmd (KeyExtractionFunc c cmd)"
proof -
  obtain e where "e = ''user must be authenticated'' \<or> extraction_error c sub cmd e"
    "AuthorizeConnection (acl (srv w)) (Some i) cmd c sub w = ((Err e, cmd), w)"
    using refused [OF assms(2-4) dispatched_words [OF assms(1)]] by blast
  then show ?thesis
    using dispatched_words(1) [OF assms(1)] by (auto simp: handle_dispatched [OF assms(1)] authorize_def)
qed

text \<open>Commands of the server itself and of users that are allowed to run them.\<close>

definition allowed :: "nat option \<Rightarrow> bool \<Rightarrow> string list \<Rightarrow> server command \<Rightarrow> server sub_command option \<Rightarrow> sworld \<Rightarrow> bool" where
  "allowed conn emb cmd c sub w \<longleftrightarrow> authorize conn emb cmd c sub w = (Ok cmd, w)"

lemma allowed_open:
  "conn = None \<or> emb \<Longrightarrow> allowed conn emb cmd c sub w"
  by (auto simp: allowed_def authorize_def)

lemma handle_allowed:
  assumes "dispatched (srv w) message cmd c sub" "allowed conn emb cmd c sub w"
    and "IsWriteCommand c sub \<Longrightarrow> \<not> stateCopyInProgress (srv w)"
  shows "handleCommand cx message conn replay emb w =
    Some (run_command c sub (command_context (srv w) cx conn replay emb) cmd message conn replay
            (begin_mutation (IsWriteCommand c sub) w))"
  using assms by (auto simp: handle_dispatched [OF assms(1)] allowed_def Let_def)

lemma begin_mutation_srv [simp]:
  "isInCluster (srv (begin_mutation b w)) = isInCluster (srv w)"
  "raftLeader (srv (begin_mutation b w)) = raftLeader (srv w)"
  by (simp_all add: begin_mutation_def isInCluster_def)

text \<open>C9: Outside of a cluster, a write command whose handler succeeds is answered with the handler's reply and is recorded,
  exactly once and with the connection's database, at the end of the append-only log; the mutation flag is cleared.\<close>

theorem successful_write_is_logged:
  assumes "dispatched (srv w) message cmd c sub" "allowed conn emb cmd c sub w"
    and "IsWriteCommand c sub" "\<not> stateCopyInProgress (srv w)" "\<not> isInCluster (srv w)"
    and "chosen_handler c sub (getHandlerFuncParams (command_context (srv w) cx conn False emb) cmd conn)
           (begin_mutation True w) = (Ok res, w1)"
    and "\<not> isInCluster (srv w1)"
  shows "\<exists>w2. handleCommand cx message conn False emb w = Some (Ok res, w2) \<and>
    appendStore (srv w2) = Log_Write (ConnDatabase (connInfo (srv w1) conn)) message (appendStore (srv w1)) \<and>
    \<not> stateMutationInProgress (srv w2) \<and> store (srv w2) = store (srv w1)"
proof -
  let ?cx = "command_context (srv w) cx conn False emb"
  have run: "run_command c sub ?cx cmd message conn False (begin_mutation True w) =
      run_local c sub ?cx cmd message conn False (begin_mutation True w)"
    using assms(5) by (simp add: run_command_def)
  show ?thesis
    using assms(3,4,6,7)
    by (simp add: handle_allowed [OF assms(1,2)] run run_local_def log_command_def end_mutation_def Let_def upd_def)
qed


text \<open>C12: Outside of a cluster and with no copy of the state in progress, when the handler of an authorised write command fails at
  once, changing nothing, nothing is logged, but the flag that a mutation is in progress stays set.\<close>

theorem failed_write_leaves_the_flag:
  assumes "dispatched (srv w) message cmd c sub" "allowed conn emb cmd c sub w"
    and "IsWriteCommand c sub" "\<not> stateCopyInProgress (srv w)" "\<not> isInCluster (srv w)"
    and "chosen_handler c sub (getHandlerFuncParams (command_context (srv w) cx conn replay emb) cmd conn)
           (begin_mutation True w) = (Err e, begin_mutation True w)"
  shows "\<exists>w1. handleCommand cx message conn replay emb w = Some (Err e, w1) \<and>
    stateMutationInProgress (srv w1) \<and> store (srv w1) = store (srv w) \<and> appendStore (srv w1) = appendStore (srv w)"
  using assms(3-6)
  by (simp add: handle_allowed [OF assms(1,2)] run_command_def run_local_def)
    (simp add: begin_mutation_def upd_def)

text \<open>C17: A write command that is not marked for replication, such as SCARD or SINTER, cannot succeed in a cluster: the node runs it
  itself and then fails on the log it does not have.\<close>

theorem local_write_in_cluster_panics:
  assumes "dispatched (srv w) message cmd c sub" "allowed conn emb cmd c sub w"
    and "IsWriteCommand c sub" "\<not> is_sync c sub" "\<not> stateCopyInProgress (srv w)" "isInCluster (srv w)"
    and "chosen_handler c sub (getHandlerFuncParams (command_context (srv w) cx conn False emb) cmd conn)
           (begin_mutation True w) = (Ok res, w1)"
    and "isInCluster (srv w1)"
  shows "handleCommand cx message conn False emb w = Some (Panic nil_deref, w1)"
  using assms(3-8)
  by (simp add: handle_allowed [OF assms(1,2)] run_command_def run_local_def log_command_def)

subsection \<open>Examples\<close>

text \<open>A server with one command in its table, whose messages all denote the same words.\<close>

definition wire_world :: "config \<Rightarrow> acl \<Rightarrow> server command \<Rightarrow> string list \<Rightarrow> sworld" where
  "wire_world cfg a c cmd =
     (demo_world cfg [] [])\<lparr>srv := (demo_server cfg [])
        \<lparr>acl := a, commands := [info_of c], libs := demo_libs\<lparr>read_value := (\<lambda>_. Ok (words_value cmd))\<rparr>\<rparr>\<rparr>"

definition cluster_config :: config where
  "cluster_config = demo_config\<lparr>BootstrapCluster := True\<rparr>"

definition persist_command :: "server command" where
  "persist_command = mk_command ''persist'' ''generic'' [''keyspace'', ''write'', ''fast''] True persistKeyFunc handlePersist"

definition scard_command :: "server command" where
  "scard_command = mk_command ''scard'' ''set'' [''set'', ''write'', ''fast''] False scardKeyFunc handleSCARD"

lemma find_append: "find P (xs @ ys) = (case find P xs of None \<Rightarrow> find P ys | Some x \<Rightarrow> Some x)"
  by (induction xs) auto

lemma table_persist: "find (\<lambda>c. CommandName c = ''persist'') all_commands = Some persist_command"
  by (simp add: all_commands_def find_append persist_command_def acl_commands_def admin_commands_def
      connection_commands_def generic_commands_def no_key_command_def admin_parent_def mk_command_def)

lemma table_scard: "find (\<lambda>c. CommandName c = ''scard'') all_commands = Some scard_command"
  by (simp add: all_commands_def find_append scard_command_def acl_commands_def admin_commands_def
      connection_commands_def generic_commands_def hash_commands_def list_commands_def pubsub_commands_def
      set_commands_def no_key_command_def admin_parent_def mk_command_def)

lemma wire_dispatched:
  assumes "find (\<lambda>d. CommandName d = CommandName c) all_commands = Some c" "SubCommands c = []"
    and "\<not> equal_fold (CommandName c) ''quit''"
  shows "dispatched (srv (wire_world cfg a c (CommandName c # ws))) message (CommandName c # ws) c None"
  using assms
  by (simp add: dispatched_def wire_world_def getCommand_def info_of_def GetSubCommand_def kept_subs_def Decode_words
      libs.defs)

lemma persist_dispatched:
  "dispatched (srv (wire_world cfg a persist_command (''persist'' # ws))) message (''persist'' # ws) persist_command None"
  using wire_dispatched [of persist_command cfg a ws message] table_persist
  by (simp add: persist_command_def mk_command_def case_simps)

lemma scard_dispatched:
  "dispatched (srv (wire_world cfg a scard_command (''scard'' # ws))) message (''scard'' # ws) scard_command None"
  using wire_dispatched [of scard_command cfg a ws message] table_scard
  by (simp add: scard_command_def mk_command_def case_simps)

theorem unauthenticated_is_refused_witness:
  "handleCommand demo_ctx ''m'' (Some 8) False False
     (wire_world demo_config open_acl persist_command [''persist'', ''k'']) =
   Some (Err ''user must be authenticated'', wire_world demo_config open_acl persist_command [''persist'', ''k''])"
proof -
  have "\<exists>e. handleCommand demo_ctx ''m'' (Some 8) False False
      (wire_world demo_config open_acl persist_command [''persist'', ''k'']) =
      Some (Err e, wire_world demo_config open_acl persist_command [''persist'', ''k'']) \<and>
    (e = ''user must be authenticated'' \<or> extraction_error persist_command None [''persist'', ''k''] e) \<and>
    in_message [''persist'', ''k''] (KeyExtractionFunc persist_command [''persist'', ''k''])"
    by (rule unauthenticated_is_refused [OF persist_dispatched])
      (simp_all add: wire_world_def open_acl_def authenticated_def full_name_def public_command_def persist_command_def
        mk_command_def case_simps)
  then show ?thesis by (auto simp: extraction_error_def persist_command_def mk_command_def persistKeyFunc_def)
qed

lemma persist_missing:
  "chosen_handler persist_command None (getHandlerFuncParams cx [''persist'', ''k''] conn)
     (begin_mutation True (wire_world cfg a c cmd)) =
   (Ok (resp_int 0), begin_mutation True (wire_world cfg a c cmd))"
  by (simp add: chosen_handler_def persist_command_def mk_command_def handlePersist_def persistKeyFunc_def writes_of_def
      keysExist_def gm_bool_def lookup_key_def db_of_def begin_mutation_def upd_def wire_world_def demo_server_def)

theorem successful_write_is_logged_witness:
  "\<exists>w2. handleCommand demo_ctx ''m'' None False True
        (wire_world demo_config demo_acl persist_command [''persist'', ''k'']) = Some (Ok (resp_int 0), w2) \<and>
    appendStore (srv w2) = Log_Write 0 ''m'' (NewAppendStore (Some [])) \<and> \<not> stateMutationInProgress (srv w2) \<and> store (srv w2) = [(0, [])]"
  using successful_write_is_logged [where conn = None and emb = True and cx = demo_ctx,
      OF persist_dispatched [where cfg = demo_config and a = demo_acl and ws = "[''k'']" and message = "''m''"] allowed_open _ _ _ persist_missing]
  by (simp add: IsWriteCommand_def persist_command_def mk_command_def wire_world_def begin_mutation_def upd_def
      demo_server_def isInCluster_def demo_config_def connInfo_def no_conn_info_def NewAppendStore_def)

lemma persist_short:
  "chosen_handler persist_command None (getHandlerFuncParams cx [''persist''] conn)
     (begin_mutation True (wire_world cfg a c cmd)) =
   (Err WrongArgsResponse, begin_mutation True (wire_world cfg a c cmd))"
  by (simp add: chosen_handler_def persist_command_def mk_command_def handlePersist_def persistKeyFunc_def)

theorem failed_write_leaves_the_flag_witness:
  "\<exists>w1. handleCommand demo_ctx ''m'' None False True (wire_world demo_config demo_acl persist_command [''persist'']) =
      Some (Err WrongArgsResponse, w1) \<and>
    stateMutationInProgress (srv w1) \<and> store (srv w1) = [(0, [])] \<and> appendStore (srv w1) = NewAppendStore (Some [])"
  using failed_write_leaves_the_flag [where replay = False and conn = None and emb = True and cx = demo_ctx,
      OF persist_dispatched [where cfg = demo_config and a = demo_acl and ws = "[]" and message = "''m''"] allowed_open _ _ _ persist_short]
  by (simp add: IsWriteCommand_def persist_command_def mk_command_def wire_world_def
      demo_server_def isInCluster_def demo_config_def NewAppendStore_def)

lemma scard_missing:
  "chosen_handler scard_command None (getHandlerFuncParams cx [''scard'', ''k''] conn)
     (begin_mutation True (wire_world cfg a c cmd)) =
   (Ok (resp_int 0), begin_mutation True (wire_world cfg a c cmd))"
  by (simp add: chosen_handler_def scard_command_def mk_command_def handleSCARD_def scardKeyFunc_def reads_of_def
      keysExist_def gm_bool_def lookup_key_def db_of_def begin_mutation_def upd_def wire_world_def demo_server_def)

theorem local_write_in_cluster_panics_witness:
  "\<exists>w1. handleCommand demo_ctx ''m'' None False True
      (wire_world cluster_config demo_acl scard_command [''scard'', ''k'']) = Some (Panic nil_deref, w1)"
  using local_write_in_cluster_panics [where conn = None and emb = True and cx = demo_ctx,
      OF scard_dispatched [where cfg = cluster_config and a = demo_acl and ws = "[''k'']" and message = "''m''"] allowed_open _ _ _ _ scard_missing]
  by (simp add: IsWriteCommand_def is_sync_def scard_command_def mk_command_def wire_world_def begin_mutation_def upd_def
      demo_server_def isInCluster_def demo_config_def cluster_config_def)

end
