(* ===== verification/Persistence.thy ===== *)
theory Persistence
  imports Dispatch
begin

text \<open>
  Starting from files (\<open>internal/aof/engine.go\<close>, \<open>sugardb/sugardb.go\<close>): the preamble and then the commands of
  the append-only log, or the latest snapshot.
\<close>

text \<open>A command of the log is handled as a replay, on no connection; its error is printed.\<close>

definition replay_ctx :: "int \<Rightarrow> ctx" where
  "replay_ctx d = \<lparr>ServerID = [], ConnectionName = [], Protocol = 2, Database = d, ConnectionID = []\<rparr>"

fun replay_commands :: "(int \<times> string) list \<Rightarrow> sworld \<Rightarrow> unit res \<times> sworld" where
  "replay_commands [] w = (Ok (), w)"
| "replay_commands ((d, m) # cs) w =
     (case handleCommand (replay_ctx d) m None True False w of
        None \<Rightarrow> (Diverge, w)
      | Some (Panic e, w1) \<Rightarrow> (Panic e, w1)
      | Some (Diverge, w1) \<Rightarrow> (Diverge, w1)
      | Some (_, w1) \<Rightarrow> replay_commands cs w1)"

definition AOF_Restore :: "sworld \<Rightarrow> unit res \<times> sworld" where
  "AOF_Restore w =
     (let (p, w1) = Preamble_Restore w
      in and_then (wrap_err ''restore aof error: restore preamble error: '' p, w1) (\<lambda>_ w1.
           let (cs, r) = Log_Restore (libs (srv w1)) (appendStore (srv w1))
           in and_then (replay_commands cs w1) (\<lambda>_ w2.
                (wrap_err ''restore aof error: restore aof error: '' r, w2))))"

text \<open>Start-up outside of a cluster; an error of either restore is printed.\<close>

definition restore_at_start :: "bool \<Rightarrow> bool \<Rightarrow> sworld \<Rightarrow> unit res \<times> sworld" where
  "restore_at_start from_aof from_snapshot w =
     (case (if from_aof then AOF_Restore w else if from_snapshot then Engine_Restore w else (Ok (), w)) of
        (Err e, w1) \<Rightarrow> (Ok (), w1)
      | r \<Rightarrow> r)"

end
