(* ===== verification/RespReader.thy ===== *)
theory RespReader
  imports RespParse
begin

text \<open>
  What the development relies on of the RESP library, as a predicate, and a reader that has it: it
  reads simple strings, errors, integers, bulk strings and arrays of bulk strings. The examples use
  the reader where the program uses the library.
\<close>

subsection \<open>The contract\<close>

definition plain_line :: "string \<Rightarrow> bool" where
  "plain_line s \<longleftrightarrow> CHR 0x0D \<notin> set s \<and> CHR 0x0A \<notin> set s"

definition reads_resp :: "libs \<Rightarrow> bool" where
  "reads_resp l \<longleftrightarrow>
     (\<forall>ws. Decode l (resp_array ws) = Ok ws) \<and>
     (\<forall>s. plain_line s \<longrightarrow> ParseStringResponse l (''+'' @ s @ crlf) = Ok s) \<and>
     (\<forall>n. in_i64 n \<longrightarrow> ParseIntegerResponse l (resp_int n) = Ok n) \<and>
     (\<forall>wss. read_messages l (concat (map resp_array wss)) = (map resp_array wss, None))"

lemma reads_respD:
  assumes "reads_resp l"
  shows "Decode l (resp_array ws) = Ok ws"
    and "plain_line s \<Longrightarrow> ParseStringResponse l (''+'' @ s @ crlf) = Ok s"
    and "in_i64 n \<Longrightarrow> ParseIntegerResponse l (resp_int n) = Ok n"
    and "read_messages l (concat (map resp_array wss)) = (map resp_array wss, None)"
  using assms by (simp_all add: reads_resp_def)

subsection \<open>A reader\<close>

definition is_digit :: "char \<Rightarrow> bool" where
  "is_digit c \<longleftrightarrow> digit_val c \<noteq> None"

text \<open>A number and the end of its line; the rest.\<close>

definition read_num :: "string \<Rightarrow> (nat \<times> string) option" where
  "read_num s =
     (let ds = takeWhile is_digit s; t = dropWhile is_digit s
      in if ds = [] \<or> take 2 t \<noteq> crlf then None
         else map_option (\<lambda>n. (n, drop 2 t)) (digits_value 0 ds))"

definition read_bulk :: "string \<Rightarrow> (string \<times> string) option" where
  "read_bulk s =
     (case s of
        [] \<Rightarrow> None
      | c # t \<Rightarrow>
          if c \<noteq> CHR ''$'' then None
          else case read_num t of
                 None \<Rightarrow> None
               | Some (n, u) \<Rightarrow> if length u < n + 2 then None else Some (take n u, drop (n + 2) u))"

fun read_bulks :: "nat \<Rightarrow> string \<Rightarrow> (string list \<times> string) option" where
  "read_bulks 0 s = Some ([], s)"
| "read_bulks (Suc n) s =
     (case read_bulk s of
        None \<Rightarrow> None
      | Some (w, t) \<Rightarrow> map_option (\<lambda>(ws, u). (w # ws, u)) (read_bulks n t))"

definition read_array :: "string \<Rightarrow> (string list \<times> string) option" where
  "read_array s =
     (case s of
        [] \<Rightarrow> None
      | c # t \<Rightarrow>
          if c \<noteq> CHR ''*'' then None
          else case read_num t of None \<Rightarrow> None | Some (n, u) \<Rightarrow> read_bulks n u)"

text \<open>All arrays of a text; every array takes at least a byte, so the length of the text is fuel enough.\<close>

fun read_arrays :: "nat \<Rightarrow> string \<Rightarrow> string list \<times> string option" where
  "read_arrays _ [] = ([], None)"
| "read_arrays 0 s = ([], Some ''unexpected EOF'')"
| "read_arrays (Suc n) s =
     (case read_array s of
        None \<Rightarrow> ([], Some ''Protocol error'')
      | Some (ws, t) \<Rightarrow> (let (ms, e) = read_arrays n t in (resp_array ws # ms, e)))"

definition line_of :: "string \<Rightarrow> string" where
  "line_of s = takeWhile (\<lambda>c. c \<noteq> CHR 0x0D) s"

definition bulk_value :: "string \<Rightarrow> rvalue" where
  "bulk_value s = RValue False ''BulkString'' s 0 FNaN False []"

definition reader_value :: "string \<Rightarrow> rvalue res" where
  "reader_value s =
     (case s of
        [] \<Rightarrow> Err ''EOF''
      | c # t \<Rightarrow>
          if c = CHR ''+'' then Ok (RValue False ''SimpleString'' (line_of t) 0 FNaN False [])
          else if c = CHR ''-'' then Ok (RValue False ''Error'' (line_of t) 0 FNaN False [])
          else if c = CHR '':''
          then (case atoi (line_of t) of
                  None \<Rightarrow> Err ''Protocol error: invalid integer''
                | Some n \<Rightarrow> Ok (RValue False ''Integer'' (line_of t) n FNaN (n = 1) []))
          else if s = resp_nil \<or> s = resp_nil_array then Ok (RValue True ''BulkString'' [] 0 FNaN False [])
          else if c = CHR ''$''
          then (case read_bulk s of None \<Rightarrow> Err ''Protocol error'' | Some (w, _) \<Rightarrow> Ok (bulk_value w))
          else (case read_array s of
                  None \<Rightarrow> Err ''Protocol error''
                | Some (ws, _) \<Rightarrow> Ok (RValue False ''Array'' [] 0 FNaN False (map bulk_value ws))))"

subsection \<open>It reads what the server writes\<close>

lemma is_digit_char: "d < 10 \<Longrightarrow> is_digit (digit_char d)"
  by (simp add: is_digit_def digit_val_digit_char)

lemma nat_digits_digits: "list_all is_digit (nat_digits n)"
proof (induction n rule: nat_digits.induct)
  case (1 n)
  then show ?case by (subst nat_digits.simps) (auto simp: is_digit_char)
qed

lemma cr_not_digit: "\<not> is_digit (CHR 0x0D)"
  by (simp add: is_digit_def digit_val.simps)

lemma read_num_itoa: "read_num (itoa (int n) @ crlf @ s) = Some (n, s)"
proof -
  have d: "itoa (int n) = nat_digits n" by (simp add: itoa_def)
  have all: "\<forall>c\<in>set (nat_digits n). is_digit c" using nat_digits_digits [of n] by (simp add: list_all_iff)
  have "takeWhile is_digit (nat_digits n @ crlf @ s) = nat_digits n"
    "dropWhile is_digit (nat_digits n @ crlf @ s) = crlf @ s"
    using all cr_not_digit by (simp_all add: takeWhile_append2 dropWhile_append2 crlf_def)
  then show ?thesis
    unfolding d by (simp add: read_num_def digits_value_nat_digits) (simp add: crlf_def)
qed

lemma read_bulk_resp: "read_bulk (resp_bulk w @ s) = Some (w, s)"
  using read_num_itoa [of "length w" "w @ crlf @ s"]
  by (simp add: read_bulk_def resp_bulk_def) (simp add: crlf_def)

lemma read_bulks_resp: "read_bulks (length ws) (concat (map resp_bulk ws) @ s) = Some (ws, s)"
  by (induction ws) (simp_all add: read_bulk_resp)

lemma read_array_resp: "read_array (resp_array ws @ s) = Some (ws, s)"
  using read_num_itoa [of "length ws" "concat (map resp_bulk ws) @ s"]
  by (simp add: read_array_def resp_array_def array_head_def read_bulks_resp)

lemma resp_array_Cons: "\<exists>t. resp_array ws = CHR ''*'' # t"
  by (simp add: resp_array_def array_head_def)

lemma resp_array_length: "0 < length (resp_array ws)"
  using resp_array_Cons [of ws] by auto

lemma read_arrays_step:
  "0 < n \<Longrightarrow> read_arrays n (resp_array ws @ s) = (let (ms, e) = read_arrays (n - 1) s in (resp_array ws # ms, e))"
  using resp_array_Cons [of ws] read_array_resp [of ws s] by (cases n) auto

lemma read_arrays_resp:
  "length (concat (map resp_array wss)) \<le> n \<Longrightarrow> read_arrays n (concat (map resp_array wss)) = (map resp_array wss, None)"
proof (induction wss arbitrary: n)
  case (Cons ws wss)
  have "0 < n" "length (concat (map resp_array wss)) \<le> n - 1"
    using Cons.prems resp_array_length [of ws] by (simp_all del: length_greater_0_conv)
  then show ?case using Cons.IH [of "n - 1"] by (simp add: read_arrays_step)
qed simp

lemma reader_value_array:
  "reader_value (resp_array ws) = Ok (RValue False ''Array'' [] 0 FNaN False (map bulk_value ws))"
proof -
  obtain t where t: "resp_array ws = CHR ''*'' # t" using resp_array_Cons by blast
  obtain d cs where d: "d < 10" "nat_digits (length ws) = digit_char d # cs" using nat_digits_hd by blast
  then have "resp_array ws \<noteq> resp_nil_array"
    using digit_char_not_sign [of d]
    by (simp add: resp_array_def array_head_def resp_nil_array_def itoa_def)
  moreover have "resp_array ws \<noteq> resp_nil" by (simp add: t resp_nil_def)
  moreover have "read_array (resp_array ws) = Some (ws, [])" using read_array_resp [of ws "[]"] by simp
  ultimately show ?thesis unfolding reader_value_def t by simp
qed

lemma line_of_plain: "plain_line s \<Longrightarrow> line_of (s @ crlf) = s"
  by (induction s) (auto simp: line_of_def plain_line_def crlf_def)

lemma plain_itoa: "plain_line (itoa n)"
proof -
  have "\<not> is_digit (CHR 0x0A)" by (simp add: is_digit_def digit_val.simps)
  then have "plain_line (nat_digits m)" for m
    using nat_digits_digits [of m] cr_not_digit by (auto simp: plain_line_def list_all_iff)
  then show ?thesis by (auto simp: itoa_def plain_line_def)
qed

definition with_reader :: "libs \<Rightarrow> libs" where
  "with_reader l = l\<lparr>read_value := reader_value, read_messages := (\<lambda>s. read_arrays (length s) s)\<rparr>"

lemma reader_reads: "reads_resp (with_reader l)"
proof -
  have "Decode (with_reader l) (resp_array ws) = Ok ws" for ws
    by (simp add: Decode_def with_reader_def reader_value_array bulk_value_def comp_def)
  moreover have "ParseStringResponse (with_reader l) (''+'' @ s @ crlf) = Ok s" if "plain_line s" for s
    using line_of_plain [OF that] by (simp add: ParseStringResponse_def with_reader_def reader_value_def)
  moreover have "ParseIntegerResponse (with_reader l) (resp_int n) = Ok n" if "in_i64 n" for n
    using line_of_plain [OF plain_itoa] that
    by (simp add: ParseIntegerResponse_def with_reader_def reader_value_def resp_int_def atoi_itoa)
  moreover have "read_messages (with_reader l) (concat (map resp_array wss)) = (map resp_array wss, None)" for wss
    using read_arrays_resp [of wss "length (concat (map resp_array wss))"] by (simp add: with_reader_def)
  ultimately show ?thesis by (simp add: reads_resp_def)
qed

end
