(* ===== verification/LogSpecs.thy ===== *)
theory LogSpecs
  imports Persistence RespReader Demo
begin

text \<open>
  The append-only log, written and read back: which databases it can hold, and that what was written
  is what is replayed.
\<close>

subsection \<open>The line that selects a database\<close>

lemma nat_digits_length: "length (nat_digits n) = Suc 0 \<longleftrightarrow> n < 10"
proof -
  have "nat_digits n = (if n < 10 then [digit_char n] else nat_digits (n div 10) @ [digit_char (n mod 10)])"
    by (rule nat_digits.simps)
  then show ?thesis by (cases "n < 10") simp_all
qed

lemma itoa_length: "length (itoa d) = Suc 0 \<longleftrightarrow> 0 \<le> d \<and> d \<le> 9"
  by (auto simp: itoa_def nat_digits_length)

lemma nat_digits_inj: "nat_digits m = nat_digits n \<Longrightarrow> m = n"
  by (metis digits_value_nat_digits option.inject)

lemma select_words: "resp_array [''SELECT'', itoa d] =
    ''*2'' @ crlf @ ''$6'' @ crlf @ ''SELECT'' @ crlf @ ''$'' @ itoa (int (length (itoa d))) @ crlf @ itoa d @ crlf"
proof -
  have "itoa 2 = ''2''" "itoa 6 = ''6''" by code_simp+
  then show ?thesis by (simp add: resp_array_def array_head_def resp_bulk_def)
qed

lemma one_digit: "itoa 1 = ''1''"
  by code_simp

lemma select_is_select: "equal_fold ''SELECT'' ''select''"
  by code_simp

lemma select_line_digit: "0 \<le> d \<Longrightarrow> d \<le> 9 \<Longrightarrow> select_line d = resp_array [''SELECT'', itoa d]"
  using itoa_length [of d] one_digit by (simp add: select_words select_line_def)

text \<open>The line that the log writes before a command of another database is the SELECT command of that database exactly for
  the databases 0 to 9: the length it announces is always one byte.\<close>

theorem select_line_wellformed_iff:
  "select_line d = resp_array [''SELECT'', itoa d] \<longleftrightarrow> 0 \<le> d \<and> d \<le> 9"
proof
  assume eq: "select_line d = resp_array [''SELECT'', itoa d]"
  then have "length (itoa (int (length (itoa d)))) = Suc 0"
    unfolding select_words select_line_def by (auto dest: arg_cong [where f = length])
  then have "nat_digits (length (itoa d)) = nat_digits 1"
    using eq one_digit unfolding select_words select_line_def by (auto simp: itoa_def)
  then show "0 \<le> d \<and> d \<le> 9" using nat_digits_inj itoa_length [of d] by simp
qed (simp add: select_line_digit)

subsection \<open>Writing and reading back\<close>

text \<open>The commands of the log, the changes of database among them.\<close>

fun log_words :: "int \<Rightarrow> (int \<times> string list) list \<Rightarrow> string list list" where
  "log_words cur [] = []"
| "log_words cur ((d, ws) # xs) =
     (if d = cur then [ws] else [[''SELECT'', itoa d], ws]) @ log_words d xs"

definition loggable :: "int \<times> string list \<Rightarrow> bool" where
  "loggable x \<longleftrightarrow> 0 \<le> fst x \<and> fst x \<le> 9 \<and> snd x \<noteq> [] \<and> \<not> equal_fold (hd (snd x)) ''select''"

definition log_all :: "(int \<times> string list) list \<Rightarrow> append_store \<Rightarrow> append_store" where
  "log_all xs st = fold (\<lambda>(d, ws). Log_Write d (EncodeCommand ws)) xs st"

lemma log_all_bytes:
  "list_all loggable xs \<Longrightarrow> log_file st = Some bytes \<Longrightarrow>
    log_file (log_all xs st) = Some (bytes @ concat (map resp_array (log_words (currentDatabase st) xs)))"
proof (induction xs arbitrary: st bytes)
  case (Cons x xs)
  obtain d ws where x: "x = (d, ws)" by (cases x)
  let ?st = "Log_Write d (EncodeCommand ws) st"
  let ?new = "(if d = currentDatabase st then [] else select_line d) @ resp_array ws"
  have "log_file ?st = Some (bytes @ ?new)" "currentDatabase ?st = d"
    using Cons.prems(2) by (simp_all add: Log_Write_def EncodeCommand_def)
  moreover have "select_line d = resp_array [''SELECT'', itoa d]"
    using Cons.prems(1) by (simp add: x loggable_def select_line_digit)
  moreover have "log_all (x # xs) st = log_all xs ?st" by (simp add: log_all_def x)
  ultimately show ?case using Cons.IH [of ?st] Cons.prems(1) by (simp add: x)
qed (simp add: log_all_def)

lemma atoi_digit: "0 \<le> d \<Longrightarrow> d \<le> 9 \<Longrightarrow> atoi_res (itoa d) = Ok d"
  by (simp add: atoi_res_def atoi_itoa in_i64_def)

lemma restore_log_words:
  assumes "reads_resp l" "list_all loggable xs"
  shows "restore_loop l cur (map resp_array (log_words cur xs)) None =
    (map (\<lambda>(d, ws). (d, resp_array ws)) xs, Ok ())"
  using assms(2)
proof (induction xs arbitrary: cur)
  case (Cons x xs)
  obtain d ws where x: "x = (d, ws)" by (cases x)
  have d: "0 \<le> d" "d \<le> 9" and ws: "ws \<noteq> []" "\<not> equal_fold (hd ws) ''select''"
    using Cons.prems by (simp_all add: x loggable_def)
  show ?case
    using Cons.IH [of d] Cons.prems d ws select_is_select
    by (cases "d = cur") (simp_all add: x reads_respD(1) [OF assms(1)] atoi_digit)
qed simp

lemma log_written_restored:
  assumes "reads_resp l" "list_all loggable xs"
  shows "Log_Restore l (log_all xs (NewAppendStore (Some []))) = (map (\<lambda>(d, ws). (d, EncodeCommand ws)) xs, Ok ())"
proof (cases xs)
  case Nil
  then show ?thesis
    using reads_respD(4) [OF assms(1), of "[]"] by (simp add: Log_Restore_def log_all_def NewAppendStore_def)
next
  case (Cons x ys)
  obtain d ws where x: "x = (d, ws)" by (cases x)
  have d: "0 \<le> d" "d \<le> 9" using assms(2) by (simp_all add: Cons x loggable_def)
  have "log_file (log_all xs (NewAppendStore (Some []))) = Some (concat (map resp_array (log_words (- 1) xs)))"
    using log_all_bytes [OF assms(2), of "NewAppendStore (Some [])" "[]"] by (simp add: NewAppendStore_def)
  then have "Log_Restore l (log_all xs (NewAppendStore (Some []))) =
      restore_loop l 0 (map resp_array (log_words (- 1) xs)) None"
    by (simp add: Log_Restore_def reads_respD(4) [OF assms(1)])
  also have "\<dots> = restore_loop l d (map resp_array (log_words d xs)) None"
    using d select_is_select by (simp add: Cons x reads_respD(1) [OF assms(1)] atoi_digit)
  finally show ?thesis using restore_log_words [OF assms, of d] by (simp add: EncodeCommand_def)
qed

text \<open>C5: Commands that were logged for databases 0 to 9, none of them SELECT, are replayed as they were logged: the same
  commands, in their order, each with its database, whatever the changes of database between them.\<close>

theorem log_replay_roundtrip:
  assumes "reads_resp l" "list_all loggable xs"
  shows "Log_Restore l (log_all xs (NewAppendStore (Some []))) = (map (\<lambda>(d, ws). (d, EncodeCommand ws)) xs, Ok ())"
  by (rule log_written_restored [OF assms])

theorem log_replay_roundtrip_witness:
  "Log_Restore (with_reader demo_libs)
     (log_all [(3, [''SET'', ''k'', ''v'']), (3, [''DEL'', ''k'']), (0, [''INCR'', ''n''])] (NewAppendStore (Some []))) =
   ([(3, EncodeCommand [''SET'', ''k'', ''v'']), (3, EncodeCommand [''DEL'', ''k'']), (0, EncodeCommand [''INCR'', ''n''])],
    Ok ())"
  using log_replay_roundtrip [OF reader_reads [of demo_libs],
      of "[(3, [''SET'', ''k'', ''v'']), (3, [''DEL'', ''k'']), (0, [''INCR'', ''n''])]"]
  by (simp add: loggable_def) code_simp

end
