(* ===== verification/EmbeddedApi.thy ===== *)
theory EmbeddedApi
  imports Dispatch
begin

text \<open>
  The server embedded in a program (\<open>sugardb/api_*.go\<close>): each function builds the words of a command,
  has it handled as a message of no connection, and reads the reply as the type it returns. A map
  given as an argument is iterated in any order. This theory holds the call itself and the functions
  of the admin, access control, connection, generic and string commands.
\<close>

subsection \<open>Calls\<close>

text \<open>
  \<open>server.context\<close>; the identity of the server is stored in it under another key than the one it is
  read by. A write that waits for a copy of the state, and so does not return, is \<open>Diverge\<close>.
\<close>

definition server_context :: ctx where
  "server_context = \<lparr>ServerID = [], ConnectionName = [], Protocol = 0, Database = 0, ConnectionID = []\<rparr>"

definition ExecuteCommand :: "string list \<Rightarrow> sworld \<Rightarrow> string res \<times> sworld" where
  "ExecuteCommand cmd w =
     (case handleCommand server_context (EncodeCommand cmd) None False True w of
        None \<Rightarrow> (Diverge, w)
      | Some r \<Rightarrow> r)"

definition api_call :: "string list \<Rightarrow> (libs \<Rightarrow> string \<Rightarrow> 'a res) \<Rightarrow> sworld \<Rightarrow> 'a res \<times> sworld" where
  "api_call cmd parse w = and_then (ExecuteCommand cmd w) (\<lambda>b w1. (parse (libs (srv w1)) b, w1))"

definition ok_response :: "libs \<Rightarrow> string \<Rightarrow> bool res" where
  "ok_response l b = map_res (\<lambda>s. equal_fold s ''ok'') (ParseStringResponse l b)"

definition opt_word :: "bool \<Rightarrow> string \<Rightarrow> string list" where
  "opt_word b s = (if b then [s] else [])"

text \<open>The entries of a map, as words, in the order of its iteration.\<close>

definition pair_words :: "('a \<Rightarrow> string) \<Rightarrow> ('b \<Rightarrow> string) \<Rightarrow> ('a, 'b) gomap \<Rightarrow> sworld \<Rightarrow> string list \<times> sworld" where
  "pair_words f g m w = (let (es, w1) = go_range m w in (concat (map (\<lambda>(k, v). [f k, g v]) es), w1))"

subsection \<open>Admin commands\<close>

record command_list_options =
  ACLCAT :: string
  PATTERN :: string
  MODULE :: string

definition command_list_words :: "command_list_options list \<Rightarrow> string list" where
  "command_list_words options =
     (case options of
        [] \<Rightarrow> []
      | o1 # _ \<Rightarrow>
          if ACLCAT o1 \<noteq> [] then [''FILTERBY'', ''ACLCAT'', ACLCAT o1]
          else if PATTERN o1 \<noteq> [] then [''FILTERBY'', ''PATTERN'', PATTERN o1]
          else if MODULE o1 \<noteq> [] then [''FILTERBY'', ''MODULE'', MODULE o1]
          else [])"

definition API_CommandList :: "command_list_options list \<Rightarrow> sworld \<Rightarrow> string list res \<times> sworld" where
  "API_CommandList options =
     api_call ([''COMMAND'', ''LIST''] @ command_list_words options) ParseStringArrayResponse"

definition API_CommandCount :: "sworld \<Rightarrow> int res \<times> sworld" where
  "API_CommandCount = api_call [''COMMAND'', ''COUNT''] ParseIntegerResponse"

definition API_Save :: "sworld \<Rightarrow> bool res \<times> sworld" where
  "API_Save = api_call [''SAVE''] ok_response"

definition API_LastSave :: "sworld \<Rightarrow> int res \<times> sworld" where
  "API_LastSave = api_call [''LASTSAVE''] ParseIntegerResponse"

definition API_RewriteAOF :: "sworld \<Rightarrow> string res \<times> sworld" where
  "API_RewriteAOF = api_call [''REWRITEAOF''] ParseStringResponse"

text \<open>Of more than two words, none is removed.\<close>

definition RemoveCommand :: "string list \<Rightarrow> server \<Rightarrow> server" where
  "RemoveCommand command s =
     (case command of
        [c] \<Rightarrow> s\<lparr>commands := filter (\<lambda>i. \<not> equal_fold (InfoName i) c) (commands s)\<rparr>
      | [c, sc] \<Rightarrow>
          s\<lparr>commands := map (\<lambda>i. if equal_fold (InfoName i) c
                                then i\<lparr>InfoSubs := filter (\<lambda>(name, _). \<not> equal_fold name sc) (InfoSubs i)\<rparr>
                                else i) (commands s)\<rparr>
      | _ \<Rightarrow> s)"

subsection \<open>Access control\<close>

record acl_load_options =
  LoadMerge :: bool
  LoadReplace :: bool

record api_user =
  ApiUsername :: string
  ApiEnabled :: bool
  ApiNoPassword :: bool
  ApiNoKeys :: bool
  NoCommands :: bool
  ResetPass :: bool
  ResetKeys :: bool
  ResetChannels :: bool
  AddPlainPasswords :: "string list"
  RemovePlainPasswords :: "string list"
  AddHashPasswords :: "string list"
  RemoveHashPasswords :: "string list"
  IncludeCategories :: "string list"
  ExcludeCategories :: "string list"
  IncludeCommands :: "string list"
  ExcludeCommands :: "string list"
  IncludeReadWriteKeys :: "string list"
  IncludeReadKeys :: "string list"
  IncludeWriteKeys :: "string list"
  IncludeChannels :: "string list"
  ExcludeChannels :: "string list"

definition prefixed :: "string \<Rightarrow> string list \<Rightarrow> string list" where
  "prefixed s xs = map (\<lambda>x. s @ x) xs"

definition user_words :: "api_user \<Rightarrow> string list" where
  "user_words u =
     [if ApiEnabled u then ''on'' else ''off''] @
     opt_word (ApiNoPassword u) ''nopass'' @ opt_word (ApiNoKeys u) ''nokeys'' @
     opt_word (NoCommands u) ''nocommands'' @ opt_word (ResetPass u) ''resetpass'' @
     opt_word (ResetKeys u) ''resetkeys'' @ opt_word (ResetChannels u) ''resetchannels'' @
     prefixed ''>'' (AddPlainPasswords u) @ prefixed ''<'' (RemovePlainPasswords u) @
     prefixed ''#'' (AddHashPasswords u) @ prefixed ''!'' (RemoveHashPasswords u) @
     prefixed ''+@'' (IncludeCategories u) @ prefixed ''-@'' (ExcludeCategories u) @
     prefixed ''+'' (IncludeCommands u) @ prefixed ''-'' (ExcludeCommands u) @
     prefixed ''%RW~'' (IncludeReadWriteKeys u) @ prefixed ''%R~'' (IncludeReadKeys u) @
     prefixed ''%W~'' (IncludeWriteKeys u) @
     prefixed ''+&'' (IncludeChannels u) @ prefixed ''-&'' (ExcludeChannels u)"

definition API_ACLCat :: "string list \<Rightarrow> sworld \<Rightarrow> string list res \<times> sworld" where
  "API_ACLCat category = api_call ([''ACL'', ''CAT''] @ take 1 category) ParseStringArrayResponse"

definition API_ACLUsers :: "sworld \<Rightarrow> string list res \<times> sworld" where
  "API_ACLUsers = api_call [''ACL'', ''USERS''] ParseStringArrayResponse"

definition API_ACLSetUser :: "api_user \<Rightarrow> sworld \<Rightarrow> bool res \<times> sworld" where
  "API_ACLSetUser u = api_call ([''ACL'', ''SETUSER'', ApiUsername u] @ user_words u) ok_response"

text \<open>The reply as a map from every name to the list after it.\<close>

fun user_entries :: "rvalue list \<Rightarrow> (string, string list) gomap \<Rightarrow> (string, string list) gomap res" where
  "user_entries [] m = Ok m"
| "user_entries [k] m = Panic index_out_of_range"
| "user_entries (k # v # vs) m = user_entries vs (AList.update (v_string k) (map v_string (v_array v)) m)"

definition get_user_response :: "libs \<Rightarrow> string \<Rightarrow> (string, string list) gomap res" where
  "get_user_response l b =
     (case read_value l b of
        Ok v \<Rightarrow> user_entries (v_array v) []
      | Err e \<Rightarrow> Err e | Panic e \<Rightarrow> Panic e | Diverge \<Rightarrow> Diverge)"

definition API_ACLGetUser :: "string \<Rightarrow> sworld \<Rightarrow> (string, string list) gomap res \<times> sworld" where
  "API_ACLGetUser username = api_call [''ACL'', ''GETUSER'', username] get_user_response"

definition API_ACLDelUser :: "string list \<Rightarrow> sworld \<Rightarrow> bool res \<times> sworld" where
  "API_ACLDelUser usernames = api_call ([''ACL'', ''DELUSER''] @ usernames) ok_response"

definition API_ACLList :: "sworld \<Rightarrow> string list res \<times> sworld" where
  "API_ACLList = api_call [''ACL'', ''LIST''] ParseStringArrayResponse"

definition API_ACLLoad :: "acl_load_options \<Rightarrow> sworld \<Rightarrow> bool res \<times> sworld" where
  "API_ACLLoad options =
     api_call [''ACL'', ''LOAD'', if LoadMerge options then ''MERGE'' else ''REPLACE''] ok_response"

definition API_ACLSave :: "sworld \<Rightarrow> bool res \<times> sworld" where
  "API_ACLSave = api_call [''ACL'', ''SAVE''] ok_response"

subsection \<open>Keys and values\<close>

text \<open>The options are constants that are their own words; None is a nil option.\<close>

record set_settings =
  WriteOpt :: "string option"
  ExpireOpt :: "string option"
  ExpireTime :: int
  Get :: bool

definition set_words :: "set_settings \<Rightarrow> string list" where
  "set_words options =
     (case WriteOpt options of None \<Rightarrow> [] | Some s \<Rightarrow> [s]) @
     (case ExpireOpt options of None \<Rightarrow> [] | Some s \<Rightarrow> [s, itoa (ExpireTime options)]) @
     opt_word (Get options) ''GET''"

text \<open>The previous value, and whether the value was set.\<close>

definition API_Set :: "string \<Rightarrow> string \<Rightarrow> set_settings \<Rightarrow> sworld \<Rightarrow> (string \<times> bool) res \<times> sworld" where
  "API_Set key v options =
     api_call ([''SET'', key, v] @ set_words options)
       (\<lambda>l b. map_res (\<lambda>s. (if Get options then s else [], True)) (ParseStringResponse l b))"

definition API_MSet :: "(string, string) gomap \<Rightarrow> sworld \<Rightarrow> bool res \<times> sworld" where
  "API_MSet kvPairs w =
     (let (ws, w1) = pair_words (\<lambda>k. k) (\<lambda>v. v) kvPairs w in api_call (''MSET'' # ws) ok_response w1)"

definition API_Get :: "string \<Rightarrow> sworld \<Rightarrow> string res \<times> sworld" where
  "API_Get key = api_call [''GET'', key] ParseStringResponse"

definition API_MGet :: "string list \<Rightarrow> sworld \<Rightarrow> string list res \<times> sworld" where
  "API_MGet keys = api_call (''MGET'' # keys) ParseStringArrayResponse"

definition API_Del :: "string list \<Rightarrow> sworld \<Rightarrow> int res \<times> sworld" where
  "API_Del keys = api_call (''DEL'' # keys) ParseIntegerResponse"

definition API_Persist :: "string \<Rightarrow> sworld \<Rightarrow> bool res \<times> sworld" where
  "API_Persist key = api_call [''PERSIST'', key] ParseBooleanResponse"

definition API_ExpireTime :: "string \<Rightarrow> sworld \<Rightarrow> int res \<times> sworld" where
  "API_ExpireTime key = api_call [''EXPIRETIME'', key] ParseIntegerResponse"

definition API_PExpireTime :: "string \<Rightarrow> sworld \<Rightarrow> int res \<times> sworld" where
  "API_PExpireTime key = api_call [''PEXPIRETIME'', key] ParseIntegerResponse"

definition API_TTL :: "string \<Rightarrow> sworld \<Rightarrow> int res \<times> sworld" where
  "API_TTL key = api_call [''TTL'', key] ParseIntegerResponse"

definition API_PTTL :: "string \<Rightarrow> sworld \<Rightarrow> int res \<times> sworld" where
  "API_PTTL key = api_call [''PTTL'', key] ParseIntegerResponse"

definition API_Expire :: "string \<Rightarrow> int \<Rightarrow> string option list \<Rightarrow> sworld \<Rightarrow> bool res \<times> sworld" where
  "API_Expire key secs options =
     api_call ([''EXPIRE'', key, itoa secs] @ List.map_filter id options) ParseBooleanResponse"

definition API_PExpire :: "string \<Rightarrow> int \<Rightarrow> string option list \<Rightarrow> sworld \<Rightarrow> bool res \<times> sworld" where
  "API_PExpire key millis options =
     api_call ([''PEXPIRE'', key, itoa millis] @ List.map_filter id options) ParseBooleanResponse"

definition API_ExpireAt :: "string \<Rightarrow> int \<Rightarrow> string option list \<Rightarrow> sworld \<Rightarrow> int res \<times> sworld" where
  "API_ExpireAt key unixSeconds options =
     api_call ([''EXPIREAT'', key, itoa unixSeconds] @ List.map_filter id options) ParseIntegerResponse"

definition API_PExpireAt :: "string \<Rightarrow> int \<Rightarrow> string option list \<Rightarrow> sworld \<Rightarrow> int res \<times> sworld" where
  "API_PExpireAt key unixMilliseconds options =
     api_call ([''PEXPIREAT'', key, itoa unixMilliseconds] @ List.map_filter id options) ParseIntegerResponse"

definition API_Incr :: "string \<Rightarrow> sworld \<Rightarrow> int res \<times> sworld" where
  "API_Incr key = api_call [''INCR'', key] ParseIntegerResponse"

definition API_Decr :: "string \<Rightarrow> sworld \<Rightarrow> int res \<times> sworld" where
  "API_Decr key = api_call [''DECR'', key] ParseIntegerResponse"

definition API_IncrBy :: "string \<Rightarrow> string \<Rightarrow> sworld \<Rightarrow> int res \<times> sworld" where
  "API_IncrBy key v = api_call [''INCRBY'', key, v] ParseIntegerResponse"

definition API_IncrByFloat :: "string \<Rightarrow> string \<Rightarrow> sworld \<Rightarrow> float64 res \<times> sworld" where
  "API_IncrByFloat key v = api_call [''INCRBYFLOAT'', key, v] ParseFloatResponse"

definition API_DecrBy :: "string \<Rightarrow> string \<Rightarrow> sworld \<Rightarrow> int res \<times> sworld" where
  "API_DecrBy key v = api_call [''DECRBY'', key, v] ParseIntegerResponse"

definition API_Rename :: "string \<Rightarrow> string \<Rightarrow> sworld \<Rightarrow> string res \<times> sworld" where
  "API_Rename oldKey newKey = api_call [''RENAME'', oldKey, newKey] ParseStringResponse"

definition API_RandomKey :: "sworld \<Rightarrow> string res \<times> sworld" where
  "API_RandomKey = api_call [''RANDOMKEY''] ParseStringResponse"

definition API_GetDel :: "string \<Rightarrow> sworld \<Rightarrow> string res \<times> sworld" where
  "API_GetDel key = api_call [''GETDEL'', key] ParseStringResponse"

definition API_GetEx :: "string \<Rightarrow> string option \<Rightarrow> int \<Rightarrow> sworld \<Rightarrow> string res \<times> sworld" where
  "API_GetEx key option unixtime =
     api_call ([''GETEX'', key] @ (case option of None \<Rightarrow> [] | Some s \<Rightarrow> [s]) @
       opt_word (unixtime \<noteq> 0) (itoa unixtime)) ParseStringResponse"

definition API_Touch :: "string list \<Rightarrow> sworld \<Rightarrow> int res \<times> sworld" where
  "API_Touch keys = api_call (''TOUCH'' # keys) ParseIntegerResponse"

definition API_ObjectFreq :: "string \<Rightarrow> sworld \<Rightarrow> int res \<times> sworld" where
  "API_ObjectFreq key = api_call [''OBJECTFREQ'', key] ParseIntegerResponse"

definition API_ObjectIdleTime :: "string \<Rightarrow> sworld \<Rightarrow> float64 res \<times> sworld" where
  "API_ObjectIdleTime key = api_call [''OBJECTIDLETIME'', key] ParseFloatResponse"

definition API_Type :: "string \<Rightarrow> sworld \<Rightarrow> string res \<times> sworld" where
  "API_Type key = api_call [''TYPE'', key] ParseStringResponse"

subsection \<open>Strings\<close>

definition API_SetRange :: "string \<Rightarrow> int \<Rightarrow> string \<Rightarrow> sworld \<Rightarrow> int res \<times> sworld" where
  "API_SetRange key offset new = api_call [''SETRANGE'', key, itoa offset, new] ParseIntegerResponse"

definition API_StrLen :: "string \<Rightarrow> sworld \<Rightarrow> int res \<times> sworld" where
  "API_StrLen key = api_call [''STRLEN'', key] ParseIntegerResponse"

definition API_SubStr :: "string \<Rightarrow> int \<Rightarrow> int \<Rightarrow> sworld \<Rightarrow> string res \<times> sworld" where
  "API_SubStr key start end1 = api_call [''SUBSTR'', key, itoa start, itoa end1] ParseStringResponse"

definition API_GetRange :: "string \<Rightarrow> int \<Rightarrow> int \<Rightarrow> sworld \<Rightarrow> string res \<times> sworld" where
  "API_GetRange key start end1 = api_call [''GETRANGE'', key, itoa start, itoa end1] ParseStringResponse"

definition API_Append :: "string \<Rightarrow> string \<Rightarrow> sworld \<Rightarrow> int res \<times> sworld" where
  "API_Append key v = api_call [''APPEND'', key, v] ParseIntegerResponse"

end
