(* ===== verification/EmbeddedData.thy ===== *)
theory EmbeddedData
  imports EmbeddedApi
begin

text \<open>
  The embedded functions of the hash, list, set and sorted set commands (\<open>sugardb/api_hash.go\<close>,
  \<open>api_list.go\<close>, \<open>api_set.go\<close>, \<open>api_sorted_set.go\<close>). An unsigned number is an \<open>int\<close>; its conversion
  to a signed one wraps.
\<close>

subsection \<open>Hashes\<close>

record hrandfield_options =
  HRandCount :: int
  WithValues :: bool

definition API_HSet :: "string \<Rightarrow> (string, string) gomap \<Rightarrow> sworld \<Rightarrow> int res \<times> sworld" where
  "API_HSet key fieldValuePairs w =
     (let (ws, w1) = pair_words (\<lambda>k. k) (\<lambda>v. v) fieldValuePairs w
      in api_call ([''HSET'', key] @ ws) ParseIntegerResponse w1)"

definition API_HSetNX :: "string \<Rightarrow> (string, string) gomap \<Rightarrow> sworld \<Rightarrow> int res \<times> sworld" where
  "API_HSetNX key fieldValuePairs w =
     (let (ws, w1) = pair_words (\<lambda>k. k) (\<lambda>v. v) fieldValuePairs w
      in api_call ([''HSETNX'', key] @ ws) ParseIntegerResponse w1)"

definition API_HGet :: "string \<Rightarrow> string list \<Rightarrow> sworld \<Rightarrow> string list res \<times> sworld" where
  "API_HGet key fs = api_call ([''HGET'', key] @ fs) ParseStringArrayResponse"

definition API_HMGet :: "string \<Rightarrow> string list \<Rightarrow> sworld \<Rightarrow> string list res \<times> sworld" where
  "API_HMGet key fs = api_call ([''HMGET'', key] @ fs) ParseStringArrayResponse"

definition API_HStrLen :: "string \<Rightarrow> string list \<Rightarrow> sworld \<Rightarrow> int list res \<times> sworld" where
  "API_HStrLen key fs = api_call ([''HSTRLEN'', key] @ fs) ParseIntegerArrayResponse"

definition API_HVals :: "string \<Rightarrow> sworld \<Rightarrow> string list res \<times> sworld" where
  "API_HVals key = api_call [''HVALS'', key] ParseStringArrayResponse"

definition API_HRandField :: "string \<Rightarrow> hrandfield_options \<Rightarrow> sworld \<Rightarrow> string list res \<times> sworld" where
  "API_HRandField key options =
     api_call ([''HRANDFIELD'', key, itoa (if HRandCount options = 0 then 1 else i64 (HRandCount options))] @
       opt_word (WithValues options) ''WITHVALUES'') ParseStringArrayResponse"

definition API_HLen :: "string \<Rightarrow> sworld \<Rightarrow> int res \<times> sworld" where
  "API_HLen key = api_call [''HLEN'', key] ParseIntegerResponse"

definition API_HKeys :: "string \<Rightarrow> sworld \<Rightarrow> string list res \<times> sworld" where
  "API_HKeys key = api_call [''HKEYS'', key] ParseStringArrayResponse"

definition API_HIncrBy :: "string \<Rightarrow> string \<Rightarrow> int \<Rightarrow> sworld \<Rightarrow> float64 res \<times> sworld" where
  "API_HIncrBy key f increment = api_call [''HINCRBY'', key, f, itoa increment] ParseFloatResponse"

definition API_HIncrByFloat :: "string \<Rightarrow> string \<Rightarrow> float64 \<Rightarrow> sworld \<Rightarrow> float64 res \<times> sworld" where
  "API_HIncrByFloat key f increment =
     api_call [''HINCRBYFLOAT'', key, f, format_float increment] ParseFloatResponse"

definition API_HGetAll :: "string \<Rightarrow> sworld \<Rightarrow> string list res \<times> sworld" where
  "API_HGetAll key = api_call [''HGETALL'', key] ParseStringArrayResponse"

definition API_HExists :: "string \<Rightarrow> string \<Rightarrow> sworld \<Rightarrow> bool res \<times> sworld" where
  "API_HExists key f = api_call [''HEXISTS'', key, f] ParseBooleanResponse"

definition API_HDel :: "string \<Rightarrow> string list \<Rightarrow> sworld \<Rightarrow> int res \<times> sworld" where
  "API_HDel key fs = api_call ([''HDEL'', key] @ fs) ParseIntegerResponse"

subsection \<open>Lists\<close>

definition API_LLen :: "string \<Rightarrow> sworld \<Rightarrow> int res \<times> sworld" where
  "API_LLen key = api_call [''LLEN'', key] ParseIntegerResponse"

definition API_LRange :: "string \<Rightarrow> int \<Rightarrow> int \<Rightarrow> sworld \<Rightarrow> string list res \<times> sworld" where
  "API_LRange key start end1 = api_call [''LRANGE'', key, itoa start, itoa end1] ParseStringArrayResponse"

definition API_LIndex :: "string \<Rightarrow> int \<Rightarrow> sworld \<Rightarrow> string res \<times> sworld" where
  "API_LIndex key index1 = api_call [''LINDEX'', key, itoa (i64 index1)] ParseStringResponse"

definition API_LSet :: "string \<Rightarrow> int \<Rightarrow> string \<Rightarrow> sworld \<Rightarrow> bool res \<times> sworld" where
  "API_LSet key index1 v = api_call [''LSET'', key, itoa index1, v] ok_response"

definition API_LTrim :: "string \<Rightarrow> int \<Rightarrow> int \<Rightarrow> sworld \<Rightarrow> bool res \<times> sworld" where
  "API_LTrim key start end1 = api_call [''LTRIM'', key, itoa start, itoa end1] ok_response"

definition API_LRem :: "string \<Rightarrow> int \<Rightarrow> string \<Rightarrow> sworld \<Rightarrow> int res \<times> sworld" where
  "API_LRem key n v = api_call [''LREM'', key, itoa n, v] ParseIntegerResponse"

definition API_LMove :: "string \<Rightarrow> string \<Rightarrow> string \<Rightarrow> string \<Rightarrow> sworld \<Rightarrow> bool res \<times> sworld" where
  "API_LMove source destination whereFrom whereTo =
     api_call [''LMOVE'', source, destination, whereFrom, whereTo] ok_response"

definition API_LPop :: "string \<Rightarrow> int \<Rightarrow> sworld \<Rightarrow> string list res \<times> sworld" where
  "API_LPop key n = api_call [''LPOP'', key, itoa (i64 n)] ParseStringArrayResponse"

definition API_RPop :: "string \<Rightarrow> int \<Rightarrow> sworld \<Rightarrow> string list res \<times> sworld" where
  "API_RPop key n = api_call [''RPOP'', key, itoa (i64 n)] ParseStringArrayResponse"

definition API_LPush :: "string \<Rightarrow> string list \<Rightarrow> sworld \<Rightarrow> int res \<times> sworld" where
  "API_LPush key vs = api_call ([''LPUSH'', key] @ vs) ParseIntegerResponse"

definition API_LPushX :: "string \<Rightarrow> string list \<Rightarrow> sworld \<Rightarrow> int res \<times> sworld" where
  "API_LPushX key vs = api_call ([''LPUSHX'', key] @ vs) ParseIntegerResponse"

definition API_RPush :: "string \<Rightarrow> string list \<Rightarrow> sworld \<Rightarrow> int res \<times> sworld" where
  "API_RPush key vs = api_call ([''RPUSH'', key] @ vs) ParseIntegerResponse"

definition API_RPushX :: "string \<Rightarrow> string list \<Rightarrow> sworld \<Rightarrow> int res \<times> sworld" where
  "API_RPushX key vs = api_call ([''RPUSHX'', key] @ vs) ParseIntegerResponse"

subsection \<open>Sets\<close>

definition API_SAdd :: "string \<Rightarrow> string list \<Rightarrow> sworld \<Rightarrow> int res \<times> sworld" where
  "API_SAdd key mems = api_call ([''SADD'', key] @ mems) ParseIntegerResponse"

definition API_SCard :: "string \<Rightarrow> sworld \<Rightarrow> int res \<times> sworld" where
  "API_SCard key = api_call [''SCARD'', key] ParseIntegerResponse"

definition API_SDiff :: "string list \<Rightarrow> sworld \<Rightarrow> string list res \<times> sworld" where
  "API_SDiff keys = api_call (''SDIFF'' # keys) ParseStringArrayResponse"

definition API_SDiffStore :: "string \<Rightarrow> string list \<Rightarrow> sworld \<Rightarrow> int res \<times> sworld" where
  "API_SDiffStore destination keys = api_call ([''SDIFFSTORE'', destination] @ keys) ParseIntegerResponse"

definition API_SInter :: "string list \<Rightarrow> sworld \<Rightarrow> string list res \<times> sworld" where
  "API_SInter keys = api_call (''SINTER'' # keys) ParseStringArrayResponse"

definition API_SInterCard :: "string list \<Rightarrow> int \<Rightarrow> sworld \<Rightarrow> int res \<times> sworld" where
  "API_SInterCard keys limit =
     api_call (''SINTERCARD'' # keys @ (if 0 < limit then [''LIMIT'', itoa (i64 limit)] else [])) ParseIntegerResponse"

definition API_SInterStore :: "string \<Rightarrow> string list \<Rightarrow> sworld \<Rightarrow> int res \<times> sworld" where
  "API_SInterStore destination keys = api_call ([''SINTERSTORE'', destination] @ keys) ParseIntegerResponse"

definition API_SisMember :: "string \<Rightarrow> string \<Rightarrow> sworld \<Rightarrow> bool res \<times> sworld" where
  "API_SisMember key member = api_call [''SISMEMBER'', key, member] ParseBooleanResponse"

definition API_SMembers :: "string \<Rightarrow> sworld \<Rightarrow> string list res \<times> sworld" where
  "API_SMembers key = api_call [''SMEMBERS'', key] ParseStringArrayResponse"

definition API_SMisMember :: "string \<Rightarrow> string list \<Rightarrow> sworld \<Rightarrow> bool list res \<times> sworld" where
  "API_SMisMember key mems = api_call ([''SMISMEMBER'', key] @ mems) ParseBooleanArrayResponse"

definition API_SMove :: "string \<Rightarrow> string \<Rightarrow> string \<Rightarrow> sworld \<Rightarrow> bool res \<times> sworld" where
  "API_SMove source destination member = api_call [''SMOVE'', source, destination, member] ParseBooleanResponse"

definition API_SPop :: "string \<Rightarrow> int \<Rightarrow> sworld \<Rightarrow> string list res \<times> sworld" where
  "API_SPop key n = api_call [''SPOP'', key, itoa (i64 n)] ParseStringArrayResponse"

definition API_SRandMember :: "string \<Rightarrow> int \<Rightarrow> sworld \<Rightarrow> string list res \<times> sworld" where
  "API_SRandMember key n = api_call [''SRANDMEMBER'', key, itoa n] ParseStringArrayResponse"

definition API_SRem :: "string \<Rightarrow> string list \<Rightarrow> sworld \<Rightarrow> int res \<times> sworld" where
  "API_SRem key mems = api_call ([''SREM'', key] @ mems) ParseIntegerResponse"

definition API_SUnion :: "string list \<Rightarrow> sworld \<Rightarrow> string list res \<times> sworld" where
  "API_SUnion keys = api_call (''SUNION'' # keys) ParseStringArrayResponse"

definition API_SUnionStore :: "string \<Rightarrow> string list \<Rightarrow> sworld \<Rightarrow> int res \<times> sworld" where
  "API_SUnionStore destination keys = api_call ([''SUNIONSTORE'', destination] @ keys) ParseIntegerResponse"

subsection \<open>Sorted sets\<close>

record zadd_settings =
  NX :: bool
  XX :: bool
  GT :: bool
  LT :: bool
  CH :: bool
  INCR :: bool

record zinter_options =
  Weights :: "float64 list"
  Aggregate :: string
  ZInterScores :: bool

record zmpop_options =
  Min :: bool
  Max :: bool
  ZMPopCount :: int

record zrange_options =
  ZRangeScores :: bool
  ByScore :: bool
  ByLex :: bool
  Rev :: bool
  Offset :: int
  ZRangeCount :: int

text \<open>An entry of the reply without a score cannot be indexed when scores were asked for.\<close>

fun member_scores :: "bool \<Rightarrow> string list list \<Rightarrow> (string, float64) gomap \<Rightarrow> (string, float64) gomap res" where
  "member_scores withscores [] m = Ok m"
| "member_scores withscores (e # es) m =
     (if withscores
      then if length e < 2 then Panic index_out_of_range
           else (case parse_float_res (e ! 1) of
                   Ok x \<Rightarrow> member_scores withscores es (AList.update (e ! 0) x m)
                 | Err s \<Rightarrow> Err s | Panic s \<Rightarrow> Panic s | Diverge \<Rightarrow> Diverge)
      else if e = [] then Panic index_out_of_range
      else member_scores withscores es (AList.update (e ! 0) (FFin 0) m))"

definition buildMemberScoreMap :: "string list list \<Rightarrow> bool \<Rightarrow> (string, float64) gomap res" where
  "buildMemberScoreMap arr withscores = member_scores withscores arr []"

definition score_map_response :: "bool \<Rightarrow> libs \<Rightarrow> string \<Rightarrow> (string, float64) gomap res" where
  "score_map_response withscores l b =
     (case ParseNestedStringArrayResponse l b of
        Ok arr \<Rightarrow> buildMemberScoreMap arr withscores
      | Err s \<Rightarrow> Err s | Panic s \<Rightarrow> Panic s | Diverge \<Rightarrow> Diverge)"

definition zadd_words :: "zadd_settings \<Rightarrow> string list" where
  "zadd_words o1 =
     (if NX o1 then [''NX''] else if XX o1 then [''XX''] else []) @
     (if GT o1 then [''GT''] else if LT o1 then [''LT''] else []) @
     opt_word (CH o1) ''CH'' @ opt_word (INCR o1) ''INCR''"

text \<open>A score and its member for every entry, in the order of the iteration.\<close>

definition API_ZAdd :: "string \<Rightarrow> (string, float64) gomap \<Rightarrow> zadd_settings \<Rightarrow> sworld \<Rightarrow> int res \<times> sworld" where
  "API_ZAdd key scored options w =
     (let (es, w1) = go_range scored w
      in api_call ([''ZADD'', key] @ zadd_words options @ concat (map (\<lambda>(m, x). [format_float x, m]) es))
           ParseIntegerResponse w1)"

definition API_ZCard :: "string \<Rightarrow> sworld \<Rightarrow> int res \<times> sworld" where
  "API_ZCard key = api_call [''ZCARD'', key] ParseIntegerResponse"

definition API_ZCount :: "string \<Rightarrow> float64 \<Rightarrow> float64 \<Rightarrow> sworld \<Rightarrow> int res \<times> sworld" where
  "API_ZCount key min1 max1 =
     api_call [''ZCOUNT'', key, format_float min1, format_float max1] ParseIntegerResponse"

definition API_ZDiff :: "bool \<Rightarrow> string list \<Rightarrow> sworld \<Rightarrow> (string, float64) gomap res \<times> sworld" where
  "API_ZDiff withscores keys =
     api_call (''ZDIFF'' # keys @ opt_word withscores ''WITHSCORES'') (score_map_response withscores)"

definition API_ZDiffStore :: "string \<Rightarrow> string list \<Rightarrow> sworld \<Rightarrow> int res \<times> sworld" where
  "API_ZDiffStore destination keys = api_call ([''ZDIFFSTORE'', destination] @ keys) ParseIntegerResponse"

definition zinter_words :: "zinter_options \<Rightarrow> string list" where
  "zinter_words o1 =
     (if Weights o1 = [] then [] else ''WEIGHTS'' # map format_float (Weights o1)) @
     (if Aggregate o1 = [] then [] else [''AGGREGATE'', Aggregate o1]) @
     opt_word (ZInterScores o1) ''WITHSCORES''"

definition API_ZInter :: "string list \<Rightarrow> zinter_options \<Rightarrow> sworld \<Rightarrow> (string, float64) gomap res \<times> sworld" where
  "API_ZInter keys options =
     api_call (''ZINTER'' # keys @ zinter_words options) (score_map_response (ZInterScores options))"

definition API_ZInterStore :: "string \<Rightarrow> string list \<Rightarrow> zinter_options \<Rightarrow> sworld \<Rightarrow> int res \<times> sworld" where
  "API_ZInterStore destination keys options =
     api_call ([''ZINTERSTORE'', destination] @ keys @ zinter_words options) ParseIntegerResponse"

definition API_ZUnion :: "string list \<Rightarrow> zinter_options \<Rightarrow> sworld \<Rightarrow> (string, float64) gomap res \<times> sworld" where
  "API_ZUnion keys options =
     api_call (''ZUNION'' # keys @ zinter_words options) (score_map_response (ZInterScores options))"

definition API_ZUnionStore :: "string \<Rightarrow> string list \<Rightarrow> zinter_options \<Rightarrow> sworld \<Rightarrow> int res \<times> sworld" where
  "API_ZUnionStore destination keys options =
     api_call ([''ZUNIONSTORE'', destination] @ keys @ zinter_words options) ParseIntegerResponse"

definition API_ZIncrBy :: "string \<Rightarrow> float64 \<Rightarrow> string \<Rightarrow> sworld \<Rightarrow> float64 res \<times> sworld" where
  "API_ZIncrBy key increment member =
     api_call [''ZINCRBY'', key, format_float increment, member] ParseFloatResponse"

definition zmpop_words :: "zmpop_options \<Rightarrow> string list" where
  "zmpop_words o1 =
     [if Min o1 then ''MIN'' else if Max o1 then ''MAX'' else ''MIN'', ''COUNT'',
      itoa (if ZMPopCount o1 \<noteq> 0 then i64 (ZMPopCount o1) else 1)]"

definition API_ZMPop :: "string list \<Rightarrow> zmpop_options \<Rightarrow> sworld \<Rightarrow> string list list res \<times> sworld" where
  "API_ZMPop keys options = api_call (''ZMPOP'' # keys @ zmpop_words options) ParseNestedStringArrayResponse"

text \<open>The score of every member, None for an absent one.\<close>

fun scores_of :: "string list \<Rightarrow> float64 option list res" where
  "scores_of [] = Ok []"
| "scores_of (e # es) =
     (if e = [] then map_res ((#) None) (scores_of es)
      else case parse_float_res e of
             Ok x \<Rightarrow> map_res ((#) (Some x)) (scores_of es)
           | Err s \<Rightarrow> Err s | Panic s \<Rightarrow> Panic s | Diverge \<Rightarrow> Diverge)"

definition scores_response :: "libs \<Rightarrow> string \<Rightarrow> float64 option list res" where
  "scores_response l b =
     (case ParseStringArrayResponse l b of
        Ok arr \<Rightarrow> scores_of arr
      | Err s \<Rightarrow> Err s | Panic s \<Rightarrow> Panic s | Diverge \<Rightarrow> Diverge)"

definition API_ZMScore :: "string \<Rightarrow> string list \<Rightarrow> sworld \<Rightarrow> float64 option list res \<times> sworld" where
  "API_ZMScore key mems = api_call ([''ZMSCORE'', key] @ mems) scores_response"

definition API_ZLexCount :: "string \<Rightarrow> string \<Rightarrow> string \<Rightarrow> sworld \<Rightarrow> int res \<times> sworld" where
  "API_ZLexCount key min1 max1 = api_call [''ZLEXCOUNT'', key, min1, max1] ParseIntegerResponse"

definition API_ZPopMax :: "string \<Rightarrow> int \<Rightarrow> sworld \<Rightarrow> string list list res \<times> sworld" where
  "API_ZPopMax key n = api_call [''ZPOPMAX'', key, itoa (i64 n)] ParseNestedStringArrayResponse"

definition API_ZPopMin :: "string \<Rightarrow> int \<Rightarrow> sworld \<Rightarrow> string list list res \<times> sworld" where
  "API_ZPopMin key n = api_call [''ZPOPMIN'', key, itoa (i64 n)] ParseNestedStringArrayResponse"

definition API_ZRandMember :: "string \<Rightarrow> int \<Rightarrow> bool \<Rightarrow> sworld \<Rightarrow> string list list res \<times> sworld" where
  "API_ZRandMember key n withscores =
     api_call ([''ZRANDMEMBER'', key] @ opt_word (n \<noteq> 0) (itoa n) @ opt_word withscores ''WITHSCORES'') ParseNestedStringArrayResponse"

text \<open>The rank and its score; the error of a reply that is not read is overwritten.\<close>

definition rank_response :: "bool \<Rightarrow> libs \<Rightarrow> string \<Rightarrow> (int, float64) gomap res" where
  "rank_response withscores l b =
     (case ParseStringArrayResponse l b of
        Panic s \<Rightarrow> Panic s | Diverge \<Rightarrow> Diverge | Err s \<Rightarrow> Ok []
      | Ok [] \<Rightarrow> Ok []
      | Ok (e # es) \<Rightarrow>
          (case atoi_res e of
             Ok s \<Rightarrow>
               if \<not> withscores then Ok [(s, FFin 0)]
               else (case es of
                       [] \<Rightarrow> Panic index_out_of_range
                     | x # _ \<Rightarrow> map_res (\<lambda>f. [(s, f)]) (parse_float_res x))
           | Err s \<Rightarrow> Err s | Panic s \<Rightarrow> Panic s | Diverge \<Rightarrow> Diverge))"

definition API_ZRank :: "string \<Rightarrow> string \<Rightarrow> bool \<Rightarrow> sworld \<Rightarrow> (int, float64) gomap res \<times> sworld" where
  "API_ZRank key member withscores =
     api_call ([''ZRANK'', key, member] @ opt_word withscores ''WITHSCORES'') (rank_response withscores)"

definition API_ZRevRank :: "string \<Rightarrow> string \<Rightarrow> bool \<Rightarrow> sworld \<Rightarrow> (int, float64) gomap res \<times> sworld" where
  "API_ZRevRank key member withscores =
     api_call ([''ZREVRANK'', key, member] @ opt_word withscores ''WITHSCORES'') (rank_response withscores)"

definition score_response :: "libs \<Rightarrow> string \<Rightarrow> float64 option res" where
  "score_response l b =
     (case ParseNilResponse l b of
        Ok isNil \<Rightarrow> if isNil then Ok None else map_res Some (ParseFloatResponse l b)
      | Err s \<Rightarrow> Err s | Panic s \<Rightarrow> Panic s | Diverge \<Rightarrow> Diverge)"

definition API_ZScore :: "string \<Rightarrow> string \<Rightarrow> sworld \<Rightarrow> float64 option res \<times> sworld" where
  "API_ZScore key member = api_call [''ZSCORE'', key, member] score_response"

definition API_ZRem :: "string \<Rightarrow> string list \<Rightarrow> sworld \<Rightarrow> int res \<times> sworld" where
  "API_ZRem key mems = api_call ([''ZREM'', key] @ mems) ParseIntegerResponse"

definition API_ZRemRangeByScore :: "string \<Rightarrow> float64 \<Rightarrow> float64 \<Rightarrow> sworld \<Rightarrow> int res \<times> sworld" where
  "API_ZRemRangeByScore key min1 max1 =
     api_call [''ZREMRANGEBYSCORE'', key, format_float min1, format_float max1] ParseIntegerResponse"

definition API_ZRemRangeByLex :: "string \<Rightarrow> string \<Rightarrow> string \<Rightarrow> sworld \<Rightarrow> int res \<times> sworld" where
  "API_ZRemRangeByLex key min1 max1 = api_call [''ZREMRANGEBYLEX'', key, min1, max1] ParseIntegerResponse"

definition API_ZRemRangeByRank :: "string \<Rightarrow> int \<Rightarrow> int \<Rightarrow> sworld \<Rightarrow> int res \<times> sworld" where
  "API_ZRemRangeByRank key min1 max1 =
     api_call [''ZREMRANGEBYRANK'', key, itoa min1, itoa max1] ParseIntegerResponse"

definition range_kind :: "zrange_options \<Rightarrow> string" where
  "range_kind o1 =
     (if ByScore o1 then ''BYSCORE'' else if ByLex o1 then ''BYLEX'' else if Rev o1 then ''REV'' else ''BYSCORE'')"

text \<open>An offset of zero drops the limit.\<close>

definition limit_words :: "zrange_options \<Rightarrow> string list" where
  "limit_words o1 =
     (if Offset o1 \<noteq> 0 \<and> ZRangeCount o1 \<noteq> 0
      then [''LIMIT'', itoa (i64 (Offset o1)), itoa (i64 (ZRangeCount o1))] else [])"

definition API_ZRange ::
    "string \<Rightarrow> string \<Rightarrow> string \<Rightarrow> zrange_options \<Rightarrow> sworld \<Rightarrow> (string, float64) gomap res \<times> sworld" where
  "API_ZRange key start stop options =
     api_call ([''ZRANGE'', key, start, stop, range_kind options] @ opt_word (ZRangeScores options) ''WITHSCORES'' @
       limit_words options) (score_map_response (ZRangeScores options))"

definition API_ZRangeStore ::
    "string \<Rightarrow> string \<Rightarrow> string \<Rightarrow> string \<Rightarrow> zrange_options \<Rightarrow> sworld \<Rightarrow> int res \<times> sworld" where
  "API_ZRangeStore destination source start stop options =
     api_call ([''ZRANGESTORE'', destination, source, start, stop, range_kind options] @ limit_words options)
       ParseIntegerResponse"

end
