(* ===== verification/EmbeddedSpecs.thy ===== *)
theory EmbeddedSpecs
  imports EmbeddedData RespReader DispatchSpecs
begin

text \<open>
  The embedded functions from end to end: a call is encoded, dispatched, handled and its reply parsed.
\<close>

subsection \<open>Finding a command\<close>

text \<open>The server has the commands it was built with, and nothing stops a write.\<close>

definition serving :: "server \<Rightarrow> bool" where
  "serving s \<longleftrightarrow> commands s = map info_of all_commands \<and> \<not> stateCopyInProgress s \<and> \<not> isInCluster s"

lemma find_map: "find P (map f xs) = map_option f (find (\<lambda>x. P (f x)) xs)"
  by (induction xs) auto

lemma getCommand_full:
  assumes "commands s = map info_of all_commands"
    and "find (\<lambda>n. equal_fold n name) (map CommandName all_commands) = Some found"
    and "find (\<lambda>c. CommandName c = found) all_commands = Some c" "SubCommands c = []"
  shows "getCommand s name = Ok c"
proof -
  obtain d where d: "find (\<lambda>d. equal_fold (CommandName d) name) all_commands = Some d" "CommandName d = found"
    using assms(2) by (auto simp: find_map)
  have "find (\<lambda>i. equal_fold (InfoName i) name) (commands s) = Some (info_of d)"
    using d(1) by (simp add: assms(1) find_map info_of_def)
  then show ?thesis
    using assms(3,4) d(2) by (simp add: getCommand_def info_of_def kept_subs_def)
qed

lemma plain_dispatched:
  assumes "reads_resp (libs s)" "getCommand s (hd cmd) = Ok c" "SubCommands c = []"
    and "cmd \<noteq> []" "\<not> equal_fold (hd cmd) ''quit''"
  shows "dispatched s (EncodeCommand cmd) cmd c None"
  using assms by (simp add: dispatched_def EncodeCommand_def reads_respD(1) GetSubCommand_def)

definition set_command :: "server command" where
  "set_command = mk_command ''set'' ''generic'' [''write'', ''slow''] True setKeyFunc handleSet"

definition get_command :: "server command" where
  "get_command = mk_command ''get'' ''generic'' [''read'', ''fast''] False getKeyFunc handleGet"

lemmas table_defs = all_commands_def find_append acl_commands_def admin_commands_def connection_commands_def
  generic_commands_def no_key_command_def admin_parent_def mk_command_def

lemma table_set: "find (\<lambda>c. CommandName c = ''set'') all_commands = Some set_command"
  by (simp add: table_defs set_command_def)

lemma table_get: "find (\<lambda>c. CommandName c = ''get'') all_commands = Some get_command"
  by (simp add: table_defs get_command_def)

lemma find_set: "find (\<lambda>n. equal_fold n ''SET'') (map CommandName all_commands) = Some ''set''"
  by code_simp

lemma find_get: "find (\<lambda>n. equal_fold n ''GET'') (map CommandName all_commands) = Some ''get''"
  by code_simp

lemma not_quit: "\<not> equal_fold ''SET'' ''quit''" "\<not> equal_fold ''GET'' ''quit''"
  by code_simp+

lemma SET_dispatched:
  assumes "reads_resp (libs s)" "serving s"
  shows "dispatched s (EncodeCommand (''SET'' # ws)) (''SET'' # ws) set_command None"
  using assms plain_dispatched [OF assms(1), of "''SET'' # ws" set_command] getCommand_full [OF _ find_set table_set, of s]
  by (simp add: serving_def not_quit) (simp add: set_command_def mk_command_def)

lemma GET_dispatched:
  assumes "reads_resp (libs s)" "serving s"
  shows "dispatched s (EncodeCommand (''GET'' # ws)) (''GET'' # ws) get_command None"
  using assms plain_dispatched [OF assms(1), of "''GET'' # ws" get_command] getCommand_full [OF _ find_get table_get, of s]
  by (simp add: serving_def not_quit) (simp add: get_command_def mk_command_def)

subsection \<open>The handlers\<close>

text \<open>What the call machinery reads of the server and writing a value leaves alone.\<close>

definition plumbing :: "server \<Rightarrow> command_info list \<times> libs \<times> bool \<times> conn_info \<times> config" where
  "plumbing s = (commands s, libs s, stateCopyInProgress s, embedded s, config s)"

lemma plumbing_put [simp]: "plumbing (put_key d k e s) = plumbing s" "plumbing (ensure_db d s) = plumbing s"
  by (simp_all add: plumbing_def put_key_def ensure_db_def createDatabase_def)

lemma write_key_plumbing: "plumbing (srv (snd (write_key cx k v w))) = plumbing (srv w)"
proof -
  let ?data = "\<lparr>Value = v, ExpireAt = case lookup_key (srv w) (Database cx) k of None \<Rightarrow> None | Some e \<Rightarrow> ExpireAt e\<rparr>"
  show ?thesis
    by (cases "KeyData_GetMem (heap w) ?data")
      (simp_all add: write_key_def Let_def upd_def, simp_all add: plumbing_def put_key_def)
qed

lemma setValues_one_plumbing: "plumbing (srv (snd (setValues cx [(k, v)] w))) = plumbing (srv w)"
proof -
  let ?w1 = "snd (go_range [(k, v)] (upd (ensure_db (Database cx)) w))"
  have "mset (fst (go_range [(k, v)] (upd (ensure_db (Database cx)) w))) = {#(k, v)#}" by simp
  then have "fst (go_range [(k, v)] (upd (ensure_db (Database cx)) w)) = [(k, v)]"
    by (rule iffD1 [OF mset_single_iff])
  moreover obtain r w2 where "write_key cx k v ?w1 = (r, w2)" by fastforce
  moreover have "plumbing (srv w2) = plumbing (srv w)"
    using write_key_plumbing [of cx k v ?w1] calculation(2) by (simp add: upd_def)
  ultimately show ?thesis
    by (cases r) (simp_all add: setValues_def Let_def case_prod_beta upd_def plumbing_def)
qed

lemma AdaptType_ok: "value_ok h (AdaptType v)"
  by (auto simp: AdaptType_def value_ok_def Let_def split: option.splits bignum.splits)

text \<open>SET without options on a store without a memory limit.\<close>

lemma SET_stores:
  assumes "unlimited w"
  shows "\<exists>w1. handleSet (getHandlerFuncParams cx [n, k, v] conn) w = (Ok OkResponse, w1) \<and> unlimited w1 \<and>
    plumbing (srv w1) = plumbing (srv w) \<and>
    entry_of cx w1 = (entry_of cx w)(k := Some (AdaptType v, case entry_of cx w k of None \<Rightarrow> False | Some (_, b) \<Rightarrow> b))"
proof -
  obtain w1 where w1: "setValues cx [(k, AdaptType v)] w = (Ok (), w1)" "unlimited w1"
    "entry_of cx w1 = written [(k, AdaptType v)] (entry_of cx w)"
    by (rule un.set_one [OF assms un.never_full [OF assms] AdaptType_ok [of _ v], of cx "[n, k, v]" conn k, unfolded params_simps])
  have "plumbing (srv w1) = plumbing (srv w)" using setValues_one_plumbing [of cx k "AdaptType v" w] w1(1) by simp
  then show ?thesis
    using w1 by (simp add: handleSet_def setKeyFunc_def writes_of_def no_options_def written_one Let_def)
qed

text \<open>GET of a key that is there and not past its expiry.\<close>

lemma GET_reads:
  assumes "unlimited w" "entry_of cx w k = Some (v, False)"
  shows "\<exists>w1. handleGet (getHandlerFuncParams cx [n, k] conn) w = (Ok (''+'' @ fmt_v (heap w) v @ crlf), w1) \<and>
    plumbing (srv w1) = plumbing (srv w)"
proof -
  obtain m w1 where w1: "getValues cx [k] w = (Ok m, w1)" "gm_value m k = v" "heap w1 = heap w"
    by (rule un.get_live [OF assms(1), of cx k v "[n, k]" conn, unfolded params_simps, OF assms(2)])
  moreover have "plumbing (srv w1) = plumbing (srv w)"
  proof -
    have "snd (read_keys cx [k] [] w) = w" using assms(2) by (intro read_keys_live) simp
    then show ?thesis
      using w1(1) by (cases "fst (read_keys cx [k] [] w)")
        (auto simp: getValues_def prod_eq_iff and_then_def case_prod_beta upd_def plumbing_def split: res.splits)
  qed
  moreover have "gm_bool (keysExist cx [k] w) k" using assms(2) un.exist1 [of cx "[n, k]" conn k w] by simp
  ultimately show ?thesis
    by (simp add: handleGet_def getKeyFunc_def reads_of_def print_one_def get_one_def)
qed

subsection \<open>A value set and read back\<close>

definition embedded_ctx :: "server \<Rightarrow> ctx" where
  "embedded_ctx s = command_context s server_context None False True"

lemma embedded_ctx_plumbing: "plumbing s' = plumbing s \<Longrightarrow> embedded_ctx s' = embedded_ctx s"
  by (simp add: embedded_ctx_def command_context_def plumbing_def)

text \<open>Flags and the log are not part of the store.\<close>

lemma unlimited_frame:
  assumes "unlimited w" "heap w' = heap w" "next_addr w' = next_addr w"
    and "store (srv w') = store (srv w)" "keysWithExpiry (srv w') = keysWithExpiry (srv w)"
    and "lfuCache (srv w') = lfuCache (srv w)" "lruCache (srv w') = lruCache (srv w)"
    and "config (srv w') = config (srv w)" "memUsed (srv w') = memUsed (srv w)" "raft_apply (srv w') = raft_apply (srv w)"
  shows "unlimited w'"
  using assms sinv_cong [of w w'] by (simp add: unlimited_def server_ok_def raft_sane_def)

definition plain_set :: set_settings where
  "plain_set = \<lparr>WriteOpt = None, ExpireOpt = None, ExpireTime = 0, Get = False\<rparr>"

lemma ok_plain: "plain_line ''OK''"
  by (simp add: plain_line_def)

lemma Set_call:
  assumes "reads_resp (libs (srv w))" "serving (srv w)" "unlimited w"
  shows "\<exists>w1. API_Set key v plain_set w = (Ok ([], True), w1) \<and> unlimited w1 \<and> plumbing (srv w1) = plumbing (srv w) \<and>
    entry_of (embedded_ctx (srv w)) w1 = (entry_of (embedded_ctx (srv w)) w)
      (key := Some (AdaptType v, case entry_of (embedded_ctx (srv w)) w key of None \<Rightarrow> False | Some (_, b) \<Rightarrow> b))"
proof -
  let ?cx = "embedded_ctx (srv w)" and ?w0 = "begin_mutation True w"
  have "entry_of ?cx ?w0 = entry_of ?cx w"
    by (rule entry_of_frame) (simp_all add: begin_mutation_def upd_def)
  moreover have "unlimited ?w0" "plumbing (srv ?w0) = plumbing (srv w)"
    by (rule unlimited_frame [OF assms(3)], simp_all add: begin_mutation_def upd_def plumbing_def)
  ultimately have w0: "unlimited ?w0" "entry_of ?cx ?w0 = entry_of ?cx w" "plumbing (srv ?w0) = plumbing (srv w)"
    by simp_all
  obtain w1 where w1: "handleSet (getHandlerFuncParams ?cx [''SET'', key, v] None) ?w0 = (Ok OkResponse, w1)" "unlimited w1"
      "plumbing (srv w1) = plumbing (srv ?w0)"
      "entry_of ?cx w1 = (entry_of ?cx ?w0)(key := Some (AdaptType v, case entry_of ?cx ?w0 key of None \<Rightarrow> False | Some (_, b) \<Rightarrow> b))"
    using SET_stores [OF w0(1), of ?cx "''SET''" key v None] by blast
  define w2 where "w2 = end_mutation (snd (log_command None (EncodeCommand [''SET'', key, v]) w1))"
  have cluster: "\<not> isInCluster (srv w)" "\<not> isInCluster (srv w1)"
    using assms(2) w1(3) w0(3) by (simp_all add: serving_def isInCluster_def plumbing_def)
  have w2: "unlimited w2" "plumbing (srv w2) = plumbing (srv w1)"
    by (rule unlimited_frame [OF w1(2)],
        simp_all add: w2_def log_command_def cluster end_mutation_def upd_def Let_def plumbing_def)
  moreover have "entry_of ?cx w2 = entry_of ?cx w1"
    by (rule entry_of_frame) (simp_all add: w2_def log_command_def cluster end_mutation_def upd_def Let_def)
  moreover have "ExecuteCommand [''SET'', key, v] w = (Ok OkResponse, w2)"
    using handle_allowed [OF SET_dispatched [OF assms(1,2), of "[key, v]"] allowed_open [of None True],
        where cx = server_context and replay = False]
      w1(1) assms(2) cluster
    by (simp add: ExecuteCommand_def serving_def run_command_def run_local_def chosen_handler_def set_command_def
        mk_command_def IsWriteCommand_def embedded_ctx_def w2_def log_command_def Let_def)
  moreover have "ParseStringResponse (libs (srv w2)) OkResponse = Ok ''OK''"
    using reads_respD(2) [OF assms(1) ok_plain] w2(2) w1(3) w0(3) by (simp add: OkResponse_def plumbing_def)
  ultimately show ?thesis
    using w1 w0 by (simp add: API_Set_def set_words_def plain_set_def opt_word_def api_call_def)
qed

text \<open>C4: Over the embedded interface, a value that is set is the value that is read back: on a standalone server without a memory
  limit, Set of a key that is not past its expiry succeeds, and Get then returns the value in the form in which the server keeps
  it, provided that form fits on the line of the reply.\<close>

theorem API_Set_Get_roundtrip:
  assumes "reads_resp (libs (srv w))" "serving (srv w)" "unlimited w"
    and "case entry_of (embedded_ctx (srv w)) w key of None \<Rightarrow> True | Some (_, b) \<Rightarrow> \<not> b"
    and "plain_line (fmt_v (heap w) (AdaptType v))"
  shows "\<exists>w1 w2. API_Set key v plain_set w = (Ok ([], True), w1) \<and>
    API_Get key w1 = (Ok (fmt_v (heap w) (AdaptType v)), w2)"
proof -
  let ?cx = "embedded_ctx (srv w)" and ?s = "fmt_v (heap w) (AdaptType v)"
  obtain w1 where w1: "API_Set key v plain_set w = (Ok ([], True), w1)" "unlimited w1"
      "plumbing (srv w1) = plumbing (srv w)" "entry_of ?cx w1 key = Some (AdaptType v, False)"
    using Set_call [OF assms(1-3), of key v] assms(4) by (auto split: option.splits)
  have same: "reads_resp (libs (srv w1))" "serving (srv w1)" "embedded_ctx (srv w1) = ?cx"
    using assms(1,2) w1(3) embedded_ctx_plumbing [OF w1(3)] by (simp_all add: plumbing_def serving_def isInCluster_def)
  have fmt: "fmt_v (heap w1) (AdaptType v) = ?s"
    by (simp add: AdaptType_def fmt_v_def Let_def split: option.split bignum.split)
  obtain w2 where w2: "handleGet (getHandlerFuncParams ?cx [''GET'', key] None) w1 = (Ok (''+'' @ ?s @ crlf), w2)"
      "plumbing (srv w2) = plumbing (srv w1)"
    using GET_reads [OF w1(2,4), of "''GET''" None] unfolding fmt by blast
  then have "ExecuteCommand [''GET'', key] w1 = (Ok (''+'' @ ?s @ crlf), end_mutation w2)"
    using handle_allowed [OF GET_dispatched [OF same(1,2), of "[key]"] allowed_open [of None True],
        where cx = server_context and replay = False] same(2,3)
    by (simp add: ExecuteCommand_def serving_def run_command_def run_local_def chosen_handler_def get_command_def
        mk_command_def IsWriteCommand_def embedded_ctx_def begin_mutation_def)
  moreover have "libs (srv (end_mutation w2)) = libs (srv w)"
    using w2(2) w1(3) by (simp add: plumbing_def end_mutation_def upd_def)
  ultimately have "API_Get key w1 = (Ok ?s, end_mutation w2)"
    using reads_respD(2) [OF assms(1,5)] by (simp add: API_Get_def api_call_def)
  then show ?thesis using w1(1) by blast
qed

definition embedded_world :: "(string \<times> keydata) list \<Rightarrow> sworld" where
  "embedded_world es =
     (demo_world demo_config [] es)
       \<lparr>srv := (demo_server demo_config es)\<lparr>commands := map info_of all_commands, libs := with_reader demo_libs\<rparr>\<rparr>"

lemma embedded_world_unlimited:
  assumes "distinct (map fst es)" "\<forall>x\<in>set es. case Value (snd x) of VSet a \<Rightarrow> False | VSlice _ \<Rightarrow> False | VHash m \<Rightarrow> gm_wf m | VZSet z \<Rightarrow> gm_wf z | _ \<Rightarrow> True"
  shows "unlimited (embedded_world es)"
proof (rule unlimited_frame [of "demo_world demo_config [] es"])
  have "\<forall>x\<in>set es. case Value (snd x) of VSet a \<Rightarrow> a < length ([] :: goset list) | VSlice _ \<Rightarrow> False | VHash m \<Rightarrow> gm_wf m | VZSet z \<Rightarrow> gm_wf z | _ \<Rightarrow> True"
    using assms(2) by (auto split: go_value.split)
  then show "unlimited (demo_world demo_config [] es)" using assms(1) by (intro demo_unlimited) auto
qed (simp_all add: embedded_world_def demo_world_def)

theorem API_Set_Get_roundtrip_witness:
  "\<exists>w1 w2. API_Set ''k'' ''007'' plain_set (embedded_world [(''k'', kept (VStr ''old''))]) = (Ok ([], True), w1) \<and>
    API_Get ''k'' w1 = (Ok ''7'', w2)"
proof -
  let ?w = "embedded_world [(''k'', kept (VStr ''old''))]"
  have fmt: "fmt_v (heap ?w) (AdaptType ''007'') = ''7''" by code_simp
  have "reads_resp (libs (srv ?w))" using reader_reads [of demo_libs] by (simp add: embedded_world_def)
  moreover have "serving (srv ?w)"
    by (simp add: serving_def embedded_world_def demo_server_def isInCluster_def demo_config_def)
  moreover have "unlimited ?w" by (rule embedded_world_unlimited) (simp_all add: kept_def)
  moreover have "case entry_of (embedded_ctx (srv ?w)) ?w ''k'' of None \<Rightarrow> True | Some (_, b) \<Rightarrow> \<not> b"
    by (simp add: entry_of_def lookup_key_def db_of_def embedded_world_def demo_server_def embedded_ctx_def
        command_context_def expired_def kept_def)
  ultimately show ?thesis
    using API_Set_Get_roundtrip [of ?w "''k''" "''007''"] by (simp add: fmt plain_line_def)
qed

end
