(* ===== verification/EmbeddedPubSub.thy ===== *)
theory EmbeddedPubSub
  imports EmbeddedApi
begin

text \<open>
  Publish and subscribe for the program that embeds the server (\<open>sugardb/api_pubsub.go\<close>). A tag names
  a pipe; the server writes to one end of it as to a connection, and the program reads the other. A
  subscription is handled by a goroutine of its own, a step of the model (\<open>run_pending\<close>); that the
  goroutine waits at every write until the program reads is not shown.
\<close>

subsection \<open>Pipes\<close>

text \<open>
  A pipe is the number by which the server knows its end. \<open>pending\<close> are the goroutines that have not
  run yet, \<open>messages_read\<close> counts what was read from each pipe.
\<close>

record embedded_state =
  pipes :: "(string, nat) gomap"
  next_pipe :: nat
  pending :: "(nat \<times> string list) list"
  messages_read :: "(nat, nat) gomap"

definition establishConnections :: "string \<Rightarrow> embedded_state \<Rightarrow> nat \<times> embedded_state" where
  "establishConnections tag e =
     (case map_of (pipes e) tag of
        Some c \<Rightarrow> (c, e)
      | None \<Rightarrow> (next_pipe e, e\<lparr>pipes := AList.update tag (next_pipe e) (pipes e), next_pipe := next_pipe e + 1\<rparr>))"

subsection \<open>Subscriptions\<close>

definition start_subscription :: "string \<Rightarrow> string \<Rightarrow> string list \<Rightarrow> embedded_state \<Rightarrow> nat \<times> embedded_state" where
  "start_subscription name tag names e =
     (let (c, e1) = establishConnections tag e in (c, e1\<lparr>pending := pending e1 @ [(c, name # names)]\<rparr>))"

definition API_Subscribe :: "string \<Rightarrow> string list \<Rightarrow> embedded_state \<Rightarrow> nat \<times> embedded_state" where
  "API_Subscribe tag names e = start_subscription ''SUBSCRIBE'' tag names e"

definition API_PSubscribe :: "string \<Rightarrow> string list \<Rightarrow> embedded_state \<Rightarrow> nat \<times> embedded_state" where
  "API_PSubscribe tag patterns e = start_subscription ''PSUBSCRIBE'' tag patterns e"

text \<open>A command of a pipe: its reply and its error are dropped. A panic ends the program.\<close>

definition pipe_command :: "nat \<Rightarrow> string list \<Rightarrow> sworld \<Rightarrow> unit res \<times> sworld" where
  "pipe_command c cmd w =
     (case handleCommand server_context (EncodeCommand cmd) (Some c) False True w of
        None \<Rightarrow> (Diverge, w)
      | Some (Panic e, w1) \<Rightarrow> (Panic e, w1)
      | Some (Diverge, w1) \<Rightarrow> (Diverge, w1)
      | Some (_, w1) \<Rightarrow> (Ok (), w1))"

definition run_pending :: "nat \<Rightarrow> embedded_state \<Rightarrow> sworld \<Rightarrow> (unit res \<times> sworld) \<times> embedded_state" where
  "run_pending i e w =
     (if i < length (pending e)
      then (pipe_command (fst (pending e ! i)) (snd (pending e ! i)) w,
            e\<lparr>pending := take i (pending e) @ drop (Suc i) (pending e)\<rparr>)
      else ((Ok (), w), e))"

definition leave_tag :: "string \<Rightarrow> string \<Rightarrow> string list \<Rightarrow> embedded_state \<Rightarrow> sworld \<Rightarrow> unit res \<times> sworld" where
  "leave_tag name tag names e w =
     (case map_of (pipes e) tag of None \<Rightarrow> (Ok (), w) | Some c \<Rightarrow> pipe_command c (name # names) w)"

definition API_Unsubscribe :: "string \<Rightarrow> string list \<Rightarrow> embedded_state \<Rightarrow> sworld \<Rightarrow> unit res \<times> sworld" where
  "API_Unsubscribe tag names e w = leave_tag ''UNSUBSCRIBE'' tag names e w"

definition API_PUnsubscribe :: "string \<Rightarrow> string list \<Rightarrow> embedded_state \<Rightarrow> sworld \<Rightarrow> unit res \<times> sworld" where
  "API_PUnsubscribe tag patterns e w = leave_tag ''PUNSUBSCRIBE'' tag patterns e w"

text \<open>The next message of a pipe, None while there is none.\<close>

definition value_string :: "resp_value \<Rightarrow> string" where
  "value_string v = (case v of RespString s \<Rightarrow> s | RespInt n \<Rightarrow> itoa n)"

definition pipe_messages :: "nat \<Rightarrow> pubsub \<Rightarrow> resp_value list list" where
  "pipe_messages c ps = map snd (filter (\<lambda>(d, _). d = c) (written_to ps))"

definition ReadPubSubMessage :: "nat \<Rightarrow> embedded_state \<Rightarrow> sworld \<Rightarrow> (string list \<times> embedded_state) option" where
  "ReadPubSubMessage c e w =
     (let n = (case map_of (messages_read e) c of None \<Rightarrow> 0 | Some n \<Rightarrow> n); ms = pipe_messages c (pubSub (srv w))
      in if n < length ms
         then Some (map value_string (ms ! n), e\<lparr>messages_read := AList.update c (n + 1) (messages_read e)\<rparr>)
         else None)"

subsection \<open>Publishing and inspection\<close>

definition API_Publish :: "string \<Rightarrow> string \<Rightarrow> sworld \<Rightarrow> bool res \<times> sworld" where
  "API_Publish ch message = api_call [''PUBLISH'', ch, message] ok_response"

definition API_PubSubChannels :: "string \<Rightarrow> sworld \<Rightarrow> string list res \<times> sworld" where
  "API_PubSubChannels pattern =
     api_call ([''PUBSUB'', ''CHANNELS''] @ opt_word (pattern \<noteq> []) pattern) ParseStringArrayResponse"

definition API_PubSubNumPat :: "sworld \<Rightarrow> int res \<times> sworld" where
  "API_PubSubNumPat = api_call [''PUBSUB'', ''NUMPAT''] ParseIntegerResponse"

fun numsub_map :: "rvalue list \<Rightarrow> (string, int) gomap \<Rightarrow> (string, int) gomap res" where
  "numsub_map [] m = Ok m"
| "numsub_map (v # vs) m =
     (case v_array v of
        a # b # _ \<Rightarrow> numsub_map vs (AList.update (v_string a) (v_integer b) m)
      | _ \<Rightarrow> Panic index_out_of_range)"

definition numsub_response :: "libs \<Rightarrow> string \<Rightarrow> (string, int) gomap res" where
  "numsub_response l b =
     (case read_value l b of
        Ok v \<Rightarrow> numsub_map (v_array v) []
      | Err e \<Rightarrow> Err e | Panic e \<Rightarrow> Panic e | Diverge \<Rightarrow> Diverge)"

definition API_PubSubNumSub :: "string list \<Rightarrow> sworld \<Rightarrow> (string, int) gomap res \<times> sworld" where
  "API_PubSubNumSub names = api_call ([''PUBSUB'', ''NUMSUB''] @ names) numsub_response"

end
