(* ===== verification/Configuration.thy ===== *)
theory Configuration
  imports Keyspace RespParse
begin

text \<open>
  The configuration (\<open>internal/config/config.go\<close>, \<open>default.go\<close>, \<open>sugardb/config.go\<close>): its defaults, the
  options of \<open>NewSugarDB\<close>, the flags of the command line and the file that overrides them. The
  standard library parses a flag's value; the values of the flags that the program parses itself
  are the words given. A duration is in nanoseconds. The address and the free port the host finds are arguments, as
  is the decoder of the file.
\<close>

record config_data =
  CfgTLS :: bool
  CfgMTLS :: bool
  CfgCertKeyPairs :: "string list list"
  CfgClientCAs :: "string list"
  CfgPort :: int
  CfgServerID :: string
  CfgJoinAddr :: string
  CfgBindAddr :: string
  CfgDataDir :: string
  CfgBootstrapCluster :: bool
  CfgAclConfig :: string
  CfgForwardCommand :: bool
  CfgRequirePass :: bool
  CfgPassword :: string
  CfgSnapShotThreshold :: int
  CfgSnapshotInterval :: int
  CfgRestoreSnapshot :: bool
  CfgRestoreAOF :: bool
  CfgAOFSyncStrategy :: string
  CfgMaxMemory :: int
  CfgEvictionPolicy :: string
  CfgEvictionSample :: int
  CfgEvictionInterval :: int
  CfgModules :: "string list"
  CfgDiscoveryPort :: int
  CfgRaftBindAddr :: string
  CfgRaftBindPort :: int

subsection \<open>Defaults and options\<close>

definition DefaultConfig :: "string \<times> int \<Rightarrow> config_data" where
  "DefaultConfig addr =
     \<lparr>CfgTLS = False,
      CfgMTLS = False,
      CfgCertKeyPairs = [],
      CfgClientCAs = [],
      CfgPort = 7480,
      CfgServerID = [],
      CfgJoinAddr = [],
      CfgBindAddr = ''localhost'',
      CfgDataDir = ''.'',
      CfgBootstrapCluster = False,
      CfgAclConfig = [],
      CfgForwardCommand = False,
      CfgRequirePass = False,
      CfgPassword = [],
      CfgSnapShotThreshold = 1000,
      CfgSnapshotInterval = 300 * 10 ^ 9,
      CfgRestoreSnapshot = False,
      CfgRestoreAOF = False,
      CfgAOFSyncStrategy = ''everysec'',
      CfgMaxMemory = 0,
      CfgEvictionPolicy = NoEviction,
      CfgEvictionSample = 20,
      CfgEvictionInterval = 100 * 10 ^ 6,
      CfgModules = [],
      CfgDiscoveryPort = 7946,
      CfgRaftBindAddr = fst addr,
      CfgRaftBindPort = snd addr mod 2 ^ 16\<rparr>"

text \<open>An option that takes an optional flag sets it when none is given.\<close>

definition flag_or_true :: "bool list \<Rightarrow> bool" where
  "flag_or_true b = (case b of [] \<Rightarrow> True | x # _ \<Rightarrow> x)"

definition WithTLS :: "bool list \<Rightarrow> config_data \<Rightarrow> config_data" where
  "WithTLS b cfg = cfg\<lparr>CfgTLS := flag_or_true b\<rparr>"

definition WithMTLS :: "bool list \<Rightarrow> config_data \<Rightarrow> config_data" where
  "WithMTLS b cfg = cfg\<lparr>CfgMTLS := flag_or_true b\<rparr>"

definition WithBootstrapCluster :: "bool list \<Rightarrow> config_data \<Rightarrow> config_data" where
  "WithBootstrapCluster b cfg = cfg\<lparr>CfgBootstrapCluster := flag_or_true b\<rparr>"

definition WithForwardCommand :: "bool list \<Rightarrow> config_data \<Rightarrow> config_data" where
  "WithForwardCommand b cfg = cfg\<lparr>CfgForwardCommand := flag_or_true b\<rparr>"

definition WithRequirePass :: "bool list \<Rightarrow> config_data \<Rightarrow> config_data" where
  "WithRequirePass b cfg = cfg\<lparr>CfgRequirePass := flag_or_true b\<rparr>"

definition WithRestoreSnapshot :: "bool list \<Rightarrow> config_data \<Rightarrow> config_data" where
  "WithRestoreSnapshot b cfg = cfg\<lparr>CfgRestoreSnapshot := flag_or_true b\<rparr>"

definition WithRestoreAOF :: "bool list \<Rightarrow> config_data \<Rightarrow> config_data" where
  "WithRestoreAOF b cfg = cfg\<lparr>CfgRestoreAOF := flag_or_true b\<rparr>"

definition WithCertKeyPairs :: "(string \<times> string) list \<Rightarrow> config_data \<Rightarrow> config_data" where
  "WithCertKeyPairs ps cfg = cfg\<lparr>CfgCertKeyPairs := CfgCertKeyPairs cfg @ map (\<lambda>(c, k). [c, k]) ps\<rparr>"

definition WithClientCAs :: "string list \<Rightarrow> config_data \<Rightarrow> config_data" where
  "WithClientCAs x cfg = cfg\<lparr>CfgClientCAs := x\<rparr>"

definition WithPort :: "int \<Rightarrow> config_data \<Rightarrow> config_data" where
  "WithPort x cfg = cfg\<lparr>CfgPort := x\<rparr>"

definition WithServerID :: "string \<Rightarrow> config_data \<Rightarrow> config_data" where
  "WithServerID x cfg = cfg\<lparr>CfgServerID := x\<rparr>"

definition WithJoinAddr :: "string \<Rightarrow> config_data \<Rightarrow> config_data" where
  "WithJoinAddr x cfg = cfg\<lparr>CfgJoinAddr := x\<rparr>"

definition WithBindAddr :: "string \<Rightarrow> config_data \<Rightarrow> config_data" where
  "WithBindAddr x cfg = cfg\<lparr>CfgBindAddr := x\<rparr>"

definition WithDataDir :: "string \<Rightarrow> config_data \<Rightarrow> config_data" where
  "WithDataDir x cfg = cfg\<lparr>CfgDataDir := x\<rparr>"

definition WithAclConfig :: "string \<Rightarrow> config_data \<Rightarrow> config_data" where
  "WithAclConfig x cfg = cfg\<lparr>CfgAclConfig := x\<rparr>"

definition WithPassword :: "string \<Rightarrow> config_data \<Rightarrow> config_data" where
  "WithPassword x cfg = cfg\<lparr>CfgPassword := x\<rparr>"

definition WithSnapShotThreshold :: "int \<Rightarrow> config_data \<Rightarrow> config_data" where
  "WithSnapShotThreshold x cfg = cfg\<lparr>CfgSnapShotThreshold := x\<rparr>"

definition WithSnapshotInterval :: "int \<Rightarrow> config_data \<Rightarrow> config_data" where
  "WithSnapshotInterval x cfg = cfg\<lparr>CfgSnapshotInterval := x\<rparr>"

definition WithAOFSyncStrategy :: "string \<Rightarrow> config_data \<Rightarrow> config_data" where
  "WithAOFSyncStrategy x cfg = cfg\<lparr>CfgAOFSyncStrategy := x\<rparr>"

definition WithMaxMemory :: "int \<Rightarrow> config_data \<Rightarrow> config_data" where
  "WithMaxMemory x cfg = cfg\<lparr>CfgMaxMemory := x\<rparr>"

definition WithEvictionPolicy :: "string \<Rightarrow> config_data \<Rightarrow> config_data" where
  "WithEvictionPolicy x cfg = cfg\<lparr>CfgEvictionPolicy := x\<rparr>"

definition WithEvictionSample :: "int \<Rightarrow> config_data \<Rightarrow> config_data" where
  "WithEvictionSample x cfg = cfg\<lparr>CfgEvictionSample := x\<rparr>"

definition WithEvictionInterval :: "int \<Rightarrow> config_data \<Rightarrow> config_data" where
  "WithEvictionInterval x cfg = cfg\<lparr>CfgEvictionInterval := x\<rparr>"

definition WithModules :: "string list \<Rightarrow> config_data \<Rightarrow> config_data" where
  "WithModules x cfg = cfg\<lparr>CfgModules := x\<rparr>"

definition WithDiscoveryPort :: "int \<Rightarrow> config_data \<Rightarrow> config_data" where
  "WithDiscoveryPort x cfg = cfg\<lparr>CfgDiscoveryPort := x\<rparr>"

definition WithRaftBindAddr :: "string \<Rightarrow> config_data \<Rightarrow> config_data" where
  "WithRaftBindAddr x cfg = cfg\<lparr>CfgRaftBindAddr := x\<rparr>"

definition WithRaftBindPort :: "int \<Rightarrow> config_data \<Rightarrow> config_data" where
  "WithRaftBindPort x cfg = cfg\<lparr>CfgRaftBindPort := x\<rparr>"

subsection \<open>Flags\<close>

text \<open>White space is that of ASCII.\<close>

definition is_space :: "char \<Rightarrow> bool" where
  "is_space c \<longleftrightarrow> c \<in> {CHR 0x09, CHR 0x0A, CHR 0x0B, CHR 0x0C, CHR 0x0D, CHR '' ''}"

definition trim_space :: "string \<Rightarrow> string" where
  "trim_space s = rev (dropWhile is_space (rev (dropWhile is_space s)))"

fun split_comma :: "string \<Rightarrow> string list" where
  "split_comma [] = [[]]"
| "split_comma (c # s) =
     (if c = CHR '','' then [] # split_comma s
      else case split_comma s of [] \<Rightarrow> [[c]] | x # xs \<Rightarrow> (c # x) # xs)"

text \<open>What the flags that are parsed by the program have gathered so far.\<close>

record flag_state =
  certKeyPairs :: "string list list"
  clientCAs :: "string list"
  aofSyncStrategy :: string
  maxMemory :: int
  evictionPolicy :: string
  so_modules :: "string list"

definition initial_flags :: flag_state where
  "initial_flags =
     \<lparr>certKeyPairs = [], clientCAs = [], aofSyncStrategy = ''everysec'', maxMemory = 0,
      evictionPolicy = NoEviction, so_modules = []\<rparr>"

definition cert_key_pair_flag :: "string \<Rightarrow> flag_state \<Rightarrow> flag_state res" where
  "cert_key_pair_flag s st =
     (let pair = map trim_space (split_comma (trim_space s))
      in if length pair \<noteq> 2 then Err ''certKeyPair must be 2 comma separated strings''
         else Ok (st\<lparr>certKeyPairs := certKeyPairs st @ [pair]\<rparr>))"

definition client_ca_flag :: "string \<Rightarrow> flag_state \<Rightarrow> flag_state res" where
  "client_ca_flag s st = Ok (st\<lparr>clientCAs := clientCAs st @ [s]\<rparr>)"

definition apostrophes :: "string \<Rightarrow> string" where
  "apostrophes s = byte 39 # s @ [byte 39]"

definition aof_sync_strategy_flag :: "string \<Rightarrow> flag_state \<Rightarrow> flag_state res" where
  "aof_sync_strategy_flag option st =
     (if list_ex (\<lambda>s. equal_fold s option) [''always'', ''everysec'', ''no'']
      then Ok (st\<lparr>aofSyncStrategy := to_lower option\<rparr>)
      else Err (''aofSyncStrategy must be '' @ apostrophes ''always'' @ '', '' @ apostrophes ''everysec'' @ '' or '' @
                 apostrophes ''no''))"

definition max_memory_flag :: "string \<Rightarrow> flag_state \<Rightarrow> flag_state res" where
  "max_memory_flag memory st = map_res (\<lambda>b. st\<lparr>maxMemory := b\<rparr>) (ParseMemory memory)"

definition policies :: "string list" where
  "policies = [NoEviction, AllKeysLFU, AllKeysLRU, AllKeysRandom, VolatileLFU, VolatileLRU, VolatileRandom]"

definition eviction_policy_flag :: "string \<Rightarrow> flag_state \<Rightarrow> flag_state res" where
  "eviction_policy_flag policy st =
     (if to_lower policy \<in> set policies then Ok (st\<lparr>evictionPolicy := to_lower policy\<rparr>)
      else Err (''policy '' @ policy @ '' is not a valid policy''))"

definition loadmodule_flag :: "string \<Rightarrow> flag_state \<Rightarrow> flag_state res" where
  "loadmodule_flag p st =
     (if drop (length p - 3) p \<noteq> ''.so'' then Err (byte 34 # p @ byte 34 # '' is not a .so file'')
      else Ok (st\<lparr>so_modules := so_modules st @ [p]\<rparr>))"

definition func_flag :: "string \<Rightarrow> string \<Rightarrow> flag_state \<Rightarrow> flag_state res" where
  "func_flag name v st =
     (if name = ''cert-key-pair'' then cert_key_pair_flag v st
      else if name = ''client-ca'' then client_ca_flag v st
      else if name = ''aof-sync-strategy'' then aof_sync_strategy_flag v st
      else if name = ''max-memory'' then max_memory_flag v st
      else if name = ''eviction-policy'' then eviction_policy_flag v st
      else if name = ''loadmodule'' then loadmodule_flag v st
      else Err (''flag provided but not defined: -'' @ name))"

fun parse_flags :: "(string \<times> string) list \<Rightarrow> flag_state \<Rightarrow> flag_state res" where
  "parse_flags [] st = Ok st"
| "parse_flags ((name, v) # fs) st =
     (case func_flag name v st of Ok st' \<Rightarrow> parse_flags fs st' | r \<Rightarrow> r)"

text \<open>The defaults of the flags of plain types.\<close>

definition flag_defaults :: config_data where
  "flag_defaults =
     (DefaultConfig ([], 0))\<lparr>CfgServerID := ''1'', CfgBindAddr := ''127.0.0.1''\<rparr>"

definition zero_config :: config_data where
  "zero_config =
     \<lparr>CfgTLS = False,
      CfgMTLS = False,
      CfgCertKeyPairs = [],
      CfgClientCAs = [],
      CfgPort = 0,
      CfgServerID = [],
      CfgJoinAddr = [],
      CfgBindAddr = [],
      CfgDataDir = [],
      CfgBootstrapCluster = False,
      CfgAclConfig = [],
      CfgForwardCommand = False,
      CfgRequirePass = False,
      CfgPassword = [],
      CfgSnapShotThreshold = 0,
      CfgSnapshotInterval = 0,
      CfgRestoreSnapshot = False,
      CfgRestoreAOF = False,
      CfgAOFSyncStrategy = [],
      CfgMaxMemory = 0,
      CfgEvictionPolicy = [],
      CfgEvictionSample = 0,
      CfgEvictionInterval = 0,
      CfgModules = [],
      CfgDiscoveryPort = 0,
      CfgRaftBindAddr = [],
      CfgRaftBindPort = 0\<rparr>"

text \<open>
  \<open>plain\<close> are the values of the plain flags, \<open>fs\<close> those of the others in the order given; a flag that is
  refused ends the program, as does a file that cannot be opened. A JSON file that cannot be decoded
  gives an empty configuration and no error.
\<close>

definition file_ext :: "string \<Rightarrow> string" where
  "file_ext p =
     (let base = rev (takeWhile (\<lambda>c. c \<noteq> CHR ''/'') (rev p))
      in if CHR ''.'' \<in> set base
         then CHR ''.'' # rev (takeWhile (\<lambda>c. c \<noteq> CHR ''.'') (rev base)) else [])"

definition config_file ::
    "(string \<Rightarrow> config_data \<Rightarrow> config_data res) \<Rightarrow> string \<Rightarrow> config_data \<Rightarrow> config_data res" where
  "config_file decode path conf =
     (let ext = file_ext path
      in if ext = ''.json'' then (case decode path conf of Err _ \<Rightarrow> Ok zero_config | r \<Rightarrow> r)
         else if ext \<in> {''.yaml'', ''.yml''} then decode path conf
         else Ok conf)"

definition GetConfig ::
    "(string \<Rightarrow> config_data \<Rightarrow> config_data res) \<Rightarrow> string \<times> int \<Rightarrow> config_data \<Rightarrow> (string \<times> string) list \<Rightarrow> string \<Rightarrow>
      config_data res" where
  "GetConfig decode addr plain fs path =
     (case parse_flags fs initial_flags of
        Ok st \<Rightarrow>
          (let conf0 = plain\<lparr>CfgCertKeyPairs := certKeyPairs st, CfgClientCAs := clientCAs st,
                 CfgPort := CfgPort plain mod 2 ^ 16, CfgDiscoveryPort := CfgDiscoveryPort plain mod 2 ^ 16,
                 CfgAOFSyncStrategy := aofSyncStrategy st, CfgMaxMemory := maxMemory st,
                 CfgEvictionPolicy := evictionPolicy st, CfgModules := so_modules st,
                 CfgRaftBindAddr := fst addr, CfgRaftBindPort := snd addr mod 2 ^ 16\<rparr>
           in case (if path = [] then Ok conf0 else config_file decode path conf0) of
                Ok conf \<Rightarrow>
                  if CfgRequirePass conf \<and> CfgPassword conf = []
                  then Err ''password cannot be empty if requirePass is true'' else Ok conf
              | r \<Rightarrow> r)
      | Err e \<Rightarrow> Err e | Panic e \<Rightarrow> Panic e | Diverge \<Rightarrow> Diverge)"

subsection \<open>What the server reads\<close>

definition server_config :: "config_data \<Rightarrow> config" where
  "server_config c =
     \<lparr>MaxMemory = CfgMaxMemory c, EvictionPolicy = CfgEvictionPolicy c, EvictionSample = CfgEvictionSample c,
      BootstrapCluster = CfgBootstrapCluster c, JoinAddr = CfgJoinAddr c, ConfigServerID = CfgServerID c,
      ForwardCommand = CfgForwardCommand c\<rparr>"

definition acl_settings :: "config_data \<Rightarrow> acl_config" where
  "acl_settings c =
     \<lparr>RequirePass = CfgRequirePass c, ServerPassword = CfgPassword c, AclConfig = CfgAclConfig c\<rparr>"

end
