(* ===== verification/StartUp.thy ===== *)
theory StartUp
  imports Configuration Persistence
begin

text \<open>
  A server's start and its work (\<open>sugardb/sugardb.go\<close>): building it from a configuration, the caches,
  the goroutine that evicts keys at an interval, and the loop that serves a connection. Starting raft
  and memberlist, listening and TLS are not modelled.
\<close>

subsection \<open>Building the server\<close>

text \<open>
  What the host provides: the libraries and raft's answers, the clocks, and the files found in the
  data directory.
\<close>

record environment =
  env_libs :: libs
  env_raft_apply :: "apply_request list \<Rightarrow> apply_request \<Rightarrow> string res"
  env_leader :: bool
  env_clock :: int
  env_millis :: int
  env_log :: "string option"
  env_preamble :: "saved_state option option"
  env_manifest :: "(int \<times> string) option option"
  env_snapshots :: "(int, saved_state \<times> int) gomap"
  env_md5 :: "saved_state \<times> int \<Rightarrow> string"
  env_address :: "string \<times> int"

definition no_acl :: acl where
  "no_acl = \<lparr>user_heap = [], Users = [], Connections = [],
     AclSettings = \<lparr>RequirePass = False, ServerPassword = [], AclConfig = []\<rparr>, GlobPatterns = [], Closing = []\<rparr>"

definition fresh_server :: "environment \<Rightarrow> config_data \<Rightarrow> server" where
  "fresh_server env conf =
     \<lparr>config = server_config conf, store = [], memUsed = 0, keysWithExpiry = [], lfuCache = [], lruCache = [],
      tcpClients = [],
      embedded = \<lparr>ConnId = 0, ConnName = ''embedded'', ConnProtocol = 2, ConnDatabase = 0\<rparr>,
      clockNow = env_clock env, wallMillis = env_millis env, changeCount = 0, raftLeader = env_leader env,
      raft_apply = env_raft_apply env, raftLog = [], forwarded = [], tasks = [],
      acl = no_acl, pubSub = NewPubSub, commands = map info_of all_commands, libs = env_libs env,
      forwardedCommands = [], appendStore = NewAppendStore (env_log env), preambleFile = env_preamble env,
      manifestFile = env_manifest env, snapshotFiles = env_snapshots env, md5_sum = env_md5 env,
      snapshotInProgress = False, rewriteAOFInProgress = False, stateCopyInProgress = False,
      stateMutationInProgress = False, latestSnapshotMilliseconds = 0, snapshotsStarted = 0, connId = 0\<rparr>"

definition initialiseCaches :: "server \<Rightarrow> server" where
  "initialiseCaches s =
     s\<lparr>lfuCache := map (\<lambda>(d, _). (d, NewCacheLFU)) (store s),
       lruCache := map (\<lambda>(d, _). (d, NewCacheLRU)) (store s)\<rparr>"

definition clustered :: "config_data \<Rightarrow> bool" where
  "clustered conf \<longleftrightarrow> CfgBootstrapCluster conf \<or> CfgJoinAddr conf \<noteq> []"

text \<open>
  A ticker of an interval that is not positive panics, in the goroutine that would use it. This ends the
  program, whenever the goroutine runs, and is taken as a panic of building the server.
\<close>

definition NewTicker :: "int \<Rightarrow> unit res" where
  "NewTicker interval = (if interval \<le> 0 then Panic ''non-positive interval for NewTicker'' else Ok ())"

definition start_tickers :: "config_data \<Rightarrow> unit res" where
  "start_tickers conf =
     (case (if \<not> clustered conf \<and> CfgSnapshotInterval conf \<noteq> 0
            then NewTicker (CfgSnapshotInterval conf) else Ok ()) of
        Ok _ \<Rightarrow> if CfgEvictionPolicy conf \<noteq> NoEviction then NewTicker (CfgEvictionInterval conf) else Ok ()
      | r \<Rightarrow> r)"

text \<open>The options apply in their order; a plugin that is not found is skipped.\<close>

definition NewSugarDB ::
    "environment \<Rightarrow> (config_data \<Rightarrow> config_data) list \<Rightarrow> coins \<Rightarrow> unit res \<times> sworld" where
  "NewSugarDB env options cs =
     (let conf = fold (\<lambda>f. f) options (DefaultConfig (env_address env));
          w0 = \<lparr>heap = (\<lambda>_. None), next_addr = 0, coins = cs, srv = fresh_server env conf\<rparr>
      in and_then (NewACL (env_libs env) (acl_settings conf) w0) (\<lambda>a w1.
         and_then (start_tickers conf, upd (\<lambda>s. s\<lparr>acl := a\<rparr>) w1) (\<lambda>_ w2.
           if CfgTLS conf \<and> CfgCertKeyPairs conf = []
           then (Err ''must provide certificate and key file paths for TLS mode'', w2)
           else let w3 = upd initialiseCaches w2
                in if isInCluster (srv w3) then (Ok (), w3)
                   else restore_at_start (CfgRestoreAOF conf) (CfgRestoreSnapshot conf) w3)))"

subsection \<open>Evicting at an interval\<close>

text \<open>
  One tick: a goroutine for every database with a list of volatile keys, run here one after the
  other, in any order; its error is printed.
\<close>

definition background_ctx :: "int \<Rightarrow> ctx" where
  "background_ctx d = \<lparr>ServerID = [], ConnectionName = [], Protocol = 0, Database = d, ConnectionID = []\<rparr>"

fun evict_databases :: "int list \<Rightarrow> sworld \<Rightarrow> unit res \<times> sworld" where
  "evict_databases [] w = (Ok (), w)"
| "evict_databases (d # ds) w =
     (case evictKeysWithExpiredTTL (background_ctx d) w of
        (Panic e, w1) \<Rightarrow> (Panic e, w1)
      | (Diverge, w1) \<Rightarrow> (Diverge, w1)
      | (_, w1) \<Rightarrow> evict_databases ds w1)"

definition eviction_tick :: "sworld \<Rightarrow> unit res \<times> sworld" where
  "eviction_tick w =
     (if EvictionPolicy (config (srv w)) = NoEviction then (Ok (), w)
      else let (ds, w1) = go_range (map fst (keysWithExpiry (srv w))) w in evict_databases ds w1)"

subsection \<open>Serving a connection\<close>

text \<open>
  \<open>sid\<close> is the identity of the server in the context it was given, None without one. The loop handles
  the messages read from the connection and writes the replies; it ends at the command that quits,
  or with the connection. A panic ends the program.
\<close>

definition connection_ctx :: "string option \<Rightarrow> int \<Rightarrow> ctx" where
  "connection_ctx sid cid =
     \<lparr>ServerID = (case sid of None \<Rightarrow> [] | Some s \<Rightarrow> s), ConnectionName = [], Protocol = 0, Database = 0,
      ConnectionID = (case sid of None \<Rightarrow> ''%!s(<nil>)'' | Some s \<Rightarrow> s) @ ''-'' @ itoa cid\<rparr>"

fun handle_messages :: "ctx \<Rightarrow> nat \<Rightarrow> string list \<Rightarrow> sworld \<Rightarrow> string list \<times> unit res \<times> sworld" where
  "handle_messages cx c [] w = ([], Ok (), w)"
| "handle_messages cx c (m # ms) w =
     (case handleCommand cx m (Some c) False False w of
        None \<Rightarrow> ([], Diverge, w)
      | Some (Panic e, w1) \<Rightarrow> ([], Panic e, w1)
      | Some (Diverge, w1) \<Rightarrow> ([], Diverge, w1)
      | Some (r, w1) \<Rightarrow>
          if r = Err ''EOF'' then ([], Ok (), w1)
          else let (out, z, w2) = handle_messages cx c ms w1 in (written_reply r @ out, z, w2))"

definition handleConnection ::
    "string option \<Rightarrow> nat \<Rightarrow> string list list \<Rightarrow> sworld \<Rightarrow> string list \<times> unit res \<times> sworld" where
  "handleConnection sid c incoming w =
     (case open_connection c w of
        (Ok _, w1) \<Rightarrow> handle_messages (connection_ctx sid (connId (srv w1))) c (map ReadMessage incoming) w1
      | (r, w1) \<Rightarrow> ([], r, w1))"

end
