(* ===== verification/Cluster.thy ===== *)
theory Cluster
  imports Configuration Dispatch
begin

text \<open>
  Messages between the nodes of a cluster (\<open>internal/memberlist\<close>) and the members raft knows
  (\<open>internal/raft/raft.go\<close>). The gossip library carries a message to the other nodes; its queue is the
  list of the messages handed to it, in order. The JSON form of a message is read back as the
  message. What raft answers to a change of its members is an argument.
\<close>

subsection \<open>Messages\<close>

record node_meta =
  NodeServerID :: string
  MemberlistAddr :: string
  RaftAddr :: string

record broadcast_message =
  Sender :: node_meta
  Action :: string
  Content :: string
  ContentHash :: string
  MsgConnId :: string

record cluster_state =
  broadcastQueue :: "broadcast_message list"
  noOfNodes :: int
  voters :: "(string \<times> string) list" \<comment> \<open>the servers of the raft configuration: identity and address\<close>

definition Invalidates :: "broadcast_message \<Rightarrow> broadcast_message \<Rightarrow> bool" where
  "Invalidates m other \<longleftrightarrow>
     (if Action m = ''RaftJoin'' then Action m = Action other \<and> NodeServerID (Sender m) = NodeServerID (Sender other)
      else if Action m = ''MutateData'' then Action m = Action other \<and> ContentHash m = ContentHash other
      else False)"

text \<open>The queue drops older messages that the new one invalidates; here it keeps all that were handed to it.\<close>

definition QueueBroadcast :: "broadcast_message \<Rightarrow> cluster_state \<Rightarrow> cluster_state" where
  "QueueBroadcast m cs = cs\<lparr>broadcastQueue := broadcastQueue cs @ [m]\<rparr>"

definition host_port :: "string \<Rightarrow> int \<Rightarrow> string" where
  "host_port h p = h @ '':'' @ itoa p"

definition NodeMeta :: "config_data \<Rightarrow> node_meta" where
  "NodeMeta conf =
     \<lparr>NodeServerID = CfgServerID conf, MemberlistAddr = host_port (CfgBindAddr conf) (CfgDiscoveryPort conf),
      RaftAddr = host_port (CfgRaftBindAddr conf) (CfgRaftBindPort conf)\<rparr>"

definition broadcastRaftAddress :: "config_data \<Rightarrow> cluster_state \<Rightarrow> cluster_state" where
  "broadcastRaftAddress conf cs =
     QueueBroadcast
       \<lparr>Sender = \<lparr>NodeServerID = CfgServerID conf, MemberlistAddr = [],
                  RaftAddr = host_port (CfgRaftBindAddr conf) (CfgRaftBindPort conf)\<rparr>,
        Action = ''RaftJoin'', Content = [], ContentHash = replicate 16 (CHR 0x00), MsgConnId = []\<rparr> cs"

text \<open>The forwarding node: the message has the connection, and no database.\<close>

definition forwarding_node :: "config_data \<Rightarrow> node_meta" where
  "forwarding_node conf =
     \<lparr>NodeServerID = CfgServerID conf, MemberlistAddr = [],
      RaftAddr = host_port (CfgBindAddr conf) (CfgRaftBindPort conf)\<rparr>"

definition delete_message :: "(string \<Rightarrow> string) \<Rightarrow> config_data \<Rightarrow> ctx \<Rightarrow> string \<Rightarrow> broadcast_message" where
  "delete_message md5 conf cx key =
     \<lparr>Sender = forwarding_node conf, Action = ''DeleteKey'', Content = key, ContentHash = md5 key,
      MsgConnId = ConnectionID cx\<rparr>"

definition mutation_message :: "(string \<Rightarrow> string) \<Rightarrow> config_data \<Rightarrow> ctx \<Rightarrow> string \<Rightarrow> broadcast_message" where
  "mutation_message md5 conf cx cmd =
     \<lparr>Sender = forwarding_node conf, Action = ''MutateData'', Content = cmd, ContentHash = md5 cmd,
      MsgConnId = ConnectionID cx\<rparr>"

definition ForwardDeleteKey ::
    "(string \<Rightarrow> string) \<Rightarrow> config_data \<Rightarrow> ctx \<Rightarrow> string \<Rightarrow> cluster_state \<Rightarrow> cluster_state" where
  "ForwardDeleteKey md5 conf cx key cs = QueueBroadcast (delete_message md5 conf cx key) cs"

definition ForwardDataMutation ::
    "(string \<Rightarrow> string) \<Rightarrow> config_data \<Rightarrow> ctx \<Rightarrow> string \<Rightarrow> cluster_state \<Rightarrow> cluster_state" where
  "ForwardDataMutation md5 conf cx cmd cs = QueueBroadcast (mutation_message md5 conf cx cmd) cs"

subsection \<open>Members of raft\<close>

type_synonym change_members = "string \<Rightarrow> string \<Rightarrow> (string \<times> string) list \<Rightarrow> (string \<times> string) list res"

definition AddVoter :: "change_members \<Rightarrow> bool \<Rightarrow> string \<Rightarrow> string \<Rightarrow> cluster_state \<Rightarrow> unit res \<times> cluster_state" where
  "AddVoter raft_add leader i address cs =
     (if \<not> leader then (Ok (), cs)
      else if (i, address) \<in> set (voters cs)
      then (Err (''node with id '' @ i @ '' and address '' @ address @ '' already exists''), cs)
      else and_then (raft_add i address (voters cs), cs) (\<lambda>vs cs. (Ok (), cs\<lparr>voters := vs\<rparr>)))"

definition RemoveServer :: "change_members \<Rightarrow> bool \<Rightarrow> node_meta \<Rightarrow> cluster_state \<Rightarrow> unit res \<times> cluster_state" where
  "RemoveServer raft_remove leader meta cs =
     (if \<not> leader then (Err ''not leader, could not remove node'', cs)
      else and_then (raft_remove (NodeServerID meta) [] (voters cs), cs) (\<lambda>vs cs. (Ok (), cs\<lparr>voters := vs\<rparr>)))"

definition HasJoinedCluster :: "bool \<Rightarrow> string \<Rightarrow> string \<Rightarrow> bool" where
  "HasJoinedCluster isFollower leaderAddr leaderID \<longleftrightarrow> isFollower \<and> leaderAddr \<noteq> [] \<and> leaderID \<noteq> []"

subsection \<open>Receiving\<close>

text \<open>What the leader does with a forwarded message has a context without database and protocol.\<close>

definition message_ctx :: "broadcast_message \<Rightarrow> ctx" where
  "message_ctx m =
     \<lparr>ServerID = NodeServerID (Sender m), ConnectionName = [], Protocol = 0, Database = 0,
      ConnectionID = MsgConnId m\<rparr>"

text \<open>Errors are printed; a panic ends the program.\<close>

definition printed :: "'a res \<times> 'w \<Rightarrow> unit res \<times> 'w" where
  "printed rw =
     (case rw of (Panic e, w) \<Rightarrow> (Panic e, w) | (Diverge, w) \<Rightarrow> (Diverge, w) | (_, w) \<Rightarrow> (Ok (), w))"

definition NotifyMsg ::
    "change_members \<Rightarrow> broadcast_message \<Rightarrow> cluster_state \<Rightarrow> sworld \<Rightarrow> (unit res \<times> sworld) \<times> cluster_state" where
  "NotifyMsg raft_add m cs w =
     (if Action m \<notin> {''RaftJoin'', ''DeleteKey'', ''MutateData''} then ((Ok (), w), cs)
      else if \<not> raftLeader (srv w) then ((Ok (), w), QueueBroadcast m cs)
      else if Action m = ''RaftJoin''
      then let (r, cs1) = AddVoter raft_add (raftLeader (srv w)) (NodeServerID (Sender m)) (RaftAddr (Sender m)) cs
           in (printed (r, w), cs1)
      else if Action m = ''DeleteKey'' then (printed (raftApplyDeleteKey (message_ctx m) (Content m) w), cs)
      else (case Decode (libs (srv w)) (Content m) of
              Ok cmd \<Rightarrow> (printed (raftApplyCommand (message_ctx m) cmd w), cs)
            | Err _ \<Rightarrow> ((Ok (), w), cs)
            | Panic e \<Rightarrow> ((Panic e, w), cs)
            | Diverge \<Rightarrow> ((Diverge, w), cs)))"

definition NotifyJoin :: "cluster_state \<Rightarrow> cluster_state" where
  "NotifyJoin cs = cs\<lparr>noOfNodes := noOfNodes cs + 1\<rparr>"

text \<open>The details of the node that leaves are None where they cannot be read.\<close>

definition NotifyLeave :: "change_members \<Rightarrow> bool \<Rightarrow> node_meta option \<Rightarrow> cluster_state \<Rightarrow> cluster_state" where
  "NotifyLeave raft_remove leader meta cs =
     (let cs1 = cs\<lparr>noOfNodes := noOfNodes cs - 1\<rparr>
      in case meta of None \<Rightarrow> cs1 | Some m \<Rightarrow> snd (RemoveServer raft_remove leader m cs1))"

end
