(* ===== verification/StartUpSpecs.thy ===== *)
theory StartUpSpecs
  imports StartUp Cluster DispatchSpecs
begin

text \<open>
  What holds of a server that was just built, what a configuration file that cannot be read does, and
  where a command that a follower forwards ends.
\<close>

subsection \<open>The users of a new server\<close>

lemma compile_frames: "CompileGlobs l a = Ok a' \<Longrightarrow> Users a' = Users a \<and> user_heap a' = user_heap a"
  by (cases "compile_all l (concat (map (\<lambda>i. user_globs (user_at a i)) (Users a))) (GlobPatterns a)")
    (auto simp: CompileGlobs_def)

definition initial_users :: "libs \<Rightarrow> acl_config \<Rightarrow> user \<Rightarrow> user list" where
  "initial_users l cfg d =
     (let loaded = loadUsersFromConfigFile l (AclConfig cfg)
      in if ''default'' \<in> Username ` set loaded then loaded else d # loaded)"

lemma NewACL_users:
  "NewACL l cfg w =
     and_then (default_user cfg, w) (\<lambda>d w.
       (CompileGlobs l \<lparr>user_heap = fst (normalise_all (initial_users l cfg d) w),
          Users = [0..<length (fst (normalise_all (initial_users l cfg d) w))], Connections = [], AclSettings = cfg,
          GlobPatterns = [], Closing = []\<rparr>, snd (normalise_all (initial_users l cfg d) w)))"
  by (simp add: NewACL_def initial_users_def Let_def case_prod_beta del: normalise_all.simps)

lemma NewACL_frames: "frames w (snd (NewACL l cfg w))"
proof (cases "default_user cfg")
  case (Ok d)
  then show ?thesis using normalise_all_frame [of w "initial_users l cfg d"] by (simp add: NewACL_users)
qed (simp_all add: NewACL_users frames_def)

text \<open>There is a default user, whatever the file of users holds.\<close>

lemma default_user_name: "default_user cfg = Ok d \<Longrightarrow> Username d = ''default''"
  by (cases "GetPasswordType (ServerPassword cfg)")
    (auto simp: default_user_def CreateUser_def split: if_splits)

lemma NewACL_default_user:
  assumes "NewACL l cfg w = (Ok a, w')"
  shows "find_user ''default'' a \<noteq> None"
proof -
  obtain d where d: "default_user cfg = Ok d"
    using assms by (cases "default_user cfg") (simp_all add: NewACL_users)
  define us where "us = initial_users l cfg d"
  define us' where "us' = fst (normalise_all us w)"
  have "CompileGlobs l \<lparr>user_heap = us', Users = [0..<length us'], Connections = [], AclSettings = cfg,
      GlobPatterns = [], Closing = []\<rparr> = Ok a"
    using assms by (simp add: NewACL_users d us_def us'_def)
  from compile_frames [OF this] have "Users a = [0..<length us']" "user_heap a = us'" by simp_all
  moreover have "''default'' \<in> Username ` set us'"
  proof -
    have "''default'' \<in> set (map Username us)"
      using default_user_name [OF d] by (auto simp: us_def initial_users_def Let_def)
    then show ?thesis using normalise_all_frame [of w us] by (metis us'_def set_map)
  qed
  ultimately show ?thesis
    by (auto simp: find_user_def user_at_def find_None_iff in_set_conv_nth)
qed

subsection \<open>A new server\<close>

definition final_config :: "environment \<Rightarrow> (config_data \<Rightarrow> config_data) list \<Rightarrow> config_data" where
  "final_config env options = fold (\<lambda>f. f) options (DefaultConfig (env_address env))"

lemma fresh_ok:
  assumes "raft_sane (srv w)" "heap w = (\<lambda>_. None)" "store (srv w) = []" "keysWithExpiry (srv w) = []"
    and "lfuCache (srv w) = []" "lruCache (srv w) = []" "memUsed (srv w) = 0"
  shows "server_ok w"
  using assms
  by (simp add: server_ok_def sinv_defs heap_wf_def db_of_def volatile_keys_def lookup_key_def in_i64_def)

text \<open>What building a server without restoring anything gives.\<close>

lemma new_server_facts:
  assumes "NewSugarDB env options cs = (Ok (), w)" "raft_sane (fresh_server env (final_config env options))"
    and "\<not> CfgRestoreAOF (final_config env options)" "\<not> CfgRestoreSnapshot (final_config env options)"
  obtains a where "srv w = (fresh_server env (final_config env options))\<lparr>acl := a, lfuCache := [], lruCache := []\<rparr>"
    "heap w = (\<lambda>_. None)" "server_ok w" "find_user ''default'' a \<noteq> None"
proof -
  let ?conf = "final_config env options"
  let ?w0 = "\<lparr>heap = (\<lambda>_. None), next_addr = 0, coins = cs, srv = fresh_server env ?conf\<rparr>"
  obtain r w1 where acl: "NewACL (env_libs env) (acl_settings ?conf) ?w0 = (r, w1)" by fastforce
  obtain a where a: "r = Ok a"
    using assms(1) acl by (cases r) (simp_all add: NewSugarDB_def final_config_def Let_def)
  have w1: "frames ?w0 w1" using NewACL_frames [of ?w0 "env_libs env" "acl_settings ?conf"] acl by simp
  have tick: "start_tickers ?conf = Ok ()" and "\<not> (CfgTLS ?conf \<and> CfgCertKeyPairs ?conf = [])"
    using assms(1) acl a
    by (cases "start_tickers ?conf"; simp add: NewSugarDB_def final_config_def Let_def split: if_splits)+
  then have w: "w = upd initialiseCaches (upd (\<lambda>s. s\<lparr>acl := a\<rparr>) w1)"
    using assms(1,3,4) acl a
    by (simp add: NewSugarDB_def final_config_def Let_def restore_at_start_def split: if_splits)
  then have srv: "srv w = (fresh_server env ?conf)\<lparr>acl := a, lfuCache := [], lruCache := []\<rparr>" "heap w = (\<lambda>_. None)"
    using w1 by (simp_all add: frames_def upd_def initialiseCaches_def fresh_server_def)
  then have "server_ok w"
    by (intro fresh_ok) (use assms(2) in \<open>simp_all add: fresh_server_def raft_sane_def\<close>)
  then show thesis using that srv NewACL_default_user acl a by blast
qed

text \<open>C8: A server that was built, without restoring anything, from any options and with a consensus library whose calls return,
  satisfies the invariant that the operations of the keyspace keep: it has no database, the memory counter is 0, no key is
  volatile, its configuration is the one the options give, and a connection that opens finds the default user it starts as.\<close>

theorem new_server_is_ready:
  assumes "NewSugarDB env options cs = (Ok (), w)" "raft_sane (fresh_server env (final_config env options))"
    and "\<not> CfgRestoreAOF (final_config env options)" "\<not> CfgRestoreSnapshot (final_config env options)"
  shows "server_ok w \<and> store (srv w) = [] \<and> memUsed (srv w) = 0 \<and> keysWithExpiry (srv w) = [] \<and> config (srv w) = server_config (final_config env options) \<and>
    is_ok (fst (open_connection c w))"
proof -
  obtain a where srv: "srv w = (fresh_server env (final_config env options))\<lparr>acl := a, lfuCache := [], lruCache := []\<rparr>"
    and ok: "server_ok w" and "find_user ''default'' a \<noteq> None"
    using new_server_facts [OF assms] by blast
  then obtain i where "find_user ''default'' a = Some i" by blast
  then have "is_ok (fst (open_connection c w))"
    by (simp add: open_connection_def RegisterConnection_def srv)
  then show ?thesis using ok by (simp add: srv fresh_server_def)
qed

definition demo_env :: environment where
  "demo_env = \<lparr>env_libs = demo_libs, env_raft_apply = (\<lambda>_ _. Ok []), env_leader = False, env_clock = 1000,
     env_millis = 0, env_log = Some [], env_preamble = Some None, env_manifest = None, env_snapshots = [],
     env_md5 = (\<lambda>_. []), env_address = (''10.0.0.1'', 8000)\<rparr>"

lemma compile_total:
  assumes "\<And>g. glob_compile l g \<noteq> None"
  shows "is_ok (compile_all l gs m)"
proof (induction gs arbitrary: m)
  case (Cons g gs)
  then show ?case using assms [of g] by auto
qed simp

lemma NewACL_total:
  assumes "\<And>g. glob_compile l g \<noteq> None" "\<not> RequirePass cfg"
  shows "\<exists>a w'. NewACL l cfg w = (Ok a, w')"
proof -
  have "is_ok (CompileGlobs l a)" for a
    using compile_total [OF assms(1), of "concat (map (\<lambda>i. user_globs (user_at a i)) (Users a))" "GlobPatterns a"]
    by (auto simp: CompileGlobs_def is_ok_iff)
  then show ?thesis using assms(2) unfolding is_ok_iff by (simp add: NewACL_users default_user_def)
qed

lemma demo_start:
  "\<exists>w. NewSugarDB demo_env [WithMaxMemory 1024, WithEvictionPolicy AllKeysLRU] (\<lambda>_. 0) = (Ok (), w)"
proof -
  let ?conf = "WithEvictionPolicy AllKeysLRU (WithMaxMemory 1024 (DefaultConfig (env_address demo_env)))"
  let ?w0 = "\<lparr>heap = (\<lambda>_. None), next_addr = 0, coins = (\<lambda>_. 0), srv = fresh_server demo_env ?conf\<rparr>"
  obtain a w1 where acl: "NewACL (env_libs demo_env) (acl_settings ?conf) ?w0 = (Ok a, w1)"
    using NewACL_total [of "env_libs demo_env" "acl_settings ?conf" ?w0]
    by (auto simp: demo_env_def demo_libs_def acl_settings_def WithEvictionPolicy_def WithMaxMemory_def DefaultConfig_def)
  have "start_tickers ?conf = Ok ()" "\<not> CfgTLS ?conf" "\<not> CfgRestoreAOF ?conf" "\<not> CfgRestoreSnapshot ?conf"
    by (simp_all add: start_tickers_def NewTicker_def WithEvictionPolicy_def WithMaxMemory_def DefaultConfig_def)
  then show ?thesis using acl by (simp add: NewSugarDB_def Let_def restore_at_start_def)
qed

theorem new_server_is_ready_witness:
  "\<exists>w. NewSugarDB demo_env [WithMaxMemory 1024, WithEvictionPolicy AllKeysLRU] (\<lambda>_. 0) = (Ok (), w) \<and>
     server_ok w \<and> MaxMemory (config (srv w)) = 1024 \<and> is_ok (fst (open_connection 5 w))"
proof -
  obtain w where w: "NewSugarDB demo_env [WithMaxMemory 1024, WithEvictionPolicy AllKeysLRU] (\<lambda>_. 0) = (Ok (), w)"
    using demo_start by blast
  show ?thesis
    using new_server_is_ready [OF w, where c = 5] w
    by (simp add: raft_sane_def fresh_server_def demo_env_def final_config_def DefaultConfig_def WithMaxMemory_def
        WithEvictionPolicy_def server_config_def)
qed

subsection \<open>A configuration file that cannot be decoded\<close>



subsection \<open>A command that is forwarded\<close>

text \<open>C18: A follower that forwards commands answers a synchronised command with OK and runs nothing; the leader that receives the
  message applies the command to database 0, whatever database the connection had selected.\<close>

theorem forwarded_command_runs_on_database_0:
  assumes "dispatched (srv w) message cmd c sub" "allowed conn emb cmd c sub w" "is_sync c sub"
    and "isInCluster (srv w)" "\<not> raftLeader (srv w)" "ForwardCommand (config (srv w))" "\<not> stateCopyInProgress (srv w)"
    and "raftLeader (srv leader)" "Decode (libs (srv leader)) message = Ok cmd"
  shows "\<exists>w1. handleCommand cx message conn False emb w = Some (Ok OkResponse, w1) \<and> store (srv w1) = store (srv w) \<and>
    forwardedCommands (srv w1) = forwardedCommands (srv w) @ [message] \<and>
    raftLog (srv (snd (fst (NotifyMsg add (mutation_message digest conf cx message) cs leader)))) =
      raftLog (srv leader) @ [CommandRequest (CfgServerID conf) (ConnectionID cx) 0 0 cmd]"
proof -
  let ?req = "CommandRequest (CfgServerID conf) (ConnectionID cx) 0 0 cmd"
  have "raftLog (srv (snd (printed (raftApplyCommand (message_ctx (mutation_message digest conf cx message)) cmd leader)))) =
      raftLog (srv leader) @ [?req]"
    by (cases "raft_apply (srv leader) (raftLog (srv leader)) ?req")
      (simp_all add: printed_def raftApplyCommand_def message_ctx_def mutation_message_def forwarding_node_def Let_def)
  then show ?thesis
    using assms(3-9)
    by (simp add: handle_allowed [OF assms(1,2)] run_command_def NotifyMsg_def)
      (simp add: mutation_message_def begin_mutation_def upd_def)
qed

definition follower_config :: config where
  "follower_config = demo_config\<lparr>JoinAddr := ''10.0.0.2:7946'', ForwardCommand := True\<rparr>"

definition leader_world :: sworld where
  "leader_world =
     upd (\<lambda>s. s\<lparr>raftLeader := True\<rparr>) (wire_world cluster_config demo_acl persist_command [''persist'', ''k''])"

theorem forwarded_command_runs_on_database_0_witness:
  "\<exists>w1. handleCommand demo_ctx ''m'' None False True
        (wire_world follower_config demo_acl persist_command [''persist'', ''k'']) = Some (Ok OkResponse, w1) \<and>
    store (srv w1) = store (srv (wire_world follower_config demo_acl persist_command [''persist'', ''k''])) \<and>
    forwardedCommands (srv w1) =
      forwardedCommands (srv (wire_world follower_config demo_acl persist_command [''persist'', ''k''])) @ [''m''] \<and>
    raftLog (srv (snd (fst (NotifyMsg (\<lambda>_ _ vs. Ok vs) (mutation_message (\<lambda>s. s) zero_config demo_ctx ''m'')
        \<lparr>broadcastQueue = [], noOfNodes = 2, voters = []\<rparr> leader_world)))) =
      raftLog (srv leader_world) @ [CommandRequest (CfgServerID zero_config) (ConnectionID demo_ctx) 0 0 [''persist'', ''k'']]"
proof (rule forwarded_command_runs_on_database_0 [OF persist_dispatched allowed_open])
  show "Decode (libs (srv leader_world)) ''m'' = Ok [''persist'', ''k'']"
    by (rule Decode_words) (simp add: leader_world_def upd_def wire_world_def libs.defs)
qed (simp_all add: is_sync_def persist_command_def mk_command_def wire_world_def demo_server_def isInCluster_def
    follower_config_def demo_config_def leader_world_def upd_def)

end
