(* ===== verification/KvExpiry.thy ===== *)
theory KvExpiry
  imports SetSpecs
begin

text \<open>
  The interface \<open>kv_store\<close> with the expiry times themselves, which its entries reduce to whether a key is
  past its expiry: reading live keys and writing any keys change none, deleting a key removes its own.
\<close>

locale kv_expiring = kv_store +
  fixes expiry :: "'a world \<Rightarrow> string \<Rightarrow> gotime"
  assumes expiry_get: "(\<And>k v. k \<in> set ks \<Longrightarrow> entry w k \<noteq> Some (v, True)) \<Longrightarrow>
        expiry (snd (GetValues p (Context p) ks w)) = expiry w"
    and expiry_set: "expiry (snd (SetValues p (Context p) es w)) = expiry w"
    and expiry_delete: "inv w \<Longrightarrow> entry w k \<noteq> None \<Longrightarrow>
        expiry (snd (DeleteKey p (Context p) k w)) = (expiry w)(k := None)"
begin

lemma expiry_and_then:
  assumes "expiry (snd x) = e" "\<And>a w1. expiry w1 = e \<Longrightarrow> expiry (snd (f a w1)) = e"
  shows "expiry (snd (and_then x f)) = e"
  using assms by (cases "fst x") (simp_all add: and_then_def)

lemma expiry_get_one:
  "(\<And>v. entry w k \<noteq> Some (v, True)) \<Longrightarrow> expiry (snd (get_one p k w)) = expiry w"
  unfolding get_one_def by (rule expiry_and_then) (auto intro: expiry_get)

end

subsection \<open>The keyspace provides it\<close>

lemma getExpiry_cong: "lookup_key (srv w') = lookup_key (srv w) \<Longrightarrow> getExpiry cx k w' = getExpiry cx k w"
  by (simp add: getExpiry_def)

lemma write_key_expiry: "getExpiry cx k' (snd (write_key cx k v w)) = getExpiry cx k' w"
proof -
  let ?data = "\<lparr>Value = v, ExpireAt = case lookup_key (srv w) (Database cx) k of None \<Rightarrow> None | Some e \<Rightarrow> ExpireAt e\<rparr>"
  have "getExpiry cx k' (w\<lparr>srv := put_key (Database cx) k ?data (srv w)\<rparr>) = getExpiry cx k' w"
    by (auto simp: getExpiry_def put_key_def lookup_key_def db_of_def split: option.split)
  then show ?thesis
    by (cases "KeyData_GetMem (heap w) ?data")
      (simp_all add: write_key_def Let_def upd_def getExpiry_def lookup_key_def db_of_def)
qed

lemma write_keys_expiry: "getExpiry cx k (snd (write_keys cx es w)) = getExpiry cx k w"
proof (induction es arbitrary: w)
  case (Cons e es)
  obtain k' v where e: "e = (k', v)" by force
  show ?case
    using write_key_expiry [of cx k k' v w] Cons.IH [of "snd (write_key cx k' v w)"]
    by (cases "fst (write_key cx k' v w)") (simp_all add: e and_then_def)
qed simp

lemma setValues_expiry: "getExpiry cx k (snd (setValues cx es w)) = getExpiry cx k w"
proof -
  let ?w1 = "upd (ensure_db (Database cx)) w"
  let ?es = "fst (go_range es ?w1)" and ?w2 = "snd (go_range es ?w1)"
  have "getExpiry cx k ?w2 = getExpiry cx k w"
    by (auto simp: getExpiry_def lookup_key_def db_of_def upd_def ensure_db_def createDatabase_def)
  then have "getExpiry cx k (snd (write_keys cx ?es ?w2)) = getExpiry cx k w"
    by (simp add: write_keys_expiry)
  then show ?thesis
    by (cases "fst (write_keys cx ?es ?w2)")
      (simp_all add: setValues_def Let_def split_beta and_then_def upd_def getExpiry_def lookup_key_def db_of_def)
qed

lemma getValues_expiry:
  assumes "\<And>k v. k \<in> set ks \<Longrightarrow> entry_of cx w k \<noteq> Some (v, True)"
  shows "getExpiry cx k (snd (getValues cx ks w)) = getExpiry cx k w"
proof -
  have "snd (read_keys cx ks [] w) = w" using assms by (intro read_keys_live) blast
  then show ?thesis
    by (cases "fst (read_keys cx ks [] w)")
      (simp_all add: getValues_def and_then_def upd_def getExpiry_def lookup_key_def db_of_def)
qed

lemma deleteKey_expiry:
  assumes "server_ok w" "entry_of cx w k \<noteq> None"
  shows "getExpiry cx k' (snd (deleteKey cx k w)) = (if k' = k then None else getExpiry cx k' w)"
proof -
  have "map_of (store (srv w)) (Database cx) \<noteq> None"
    using assms(2) lookup_db_exists by (force simp: entry_of_def split: option.splits)
  then show ?thesis
    using deleteKey_spec [of w cx k] assms(1) by (auto simp: server_ok_def getExpiry_def)
qed

interpretation ke: kv_expiring "getHandlerFuncParams cx cmd conn" "entry_of cx" memory_full server_ok "\<lambda>w k. getExpiry cx k w"
  for cx cmd conn
proof
  show "(\<lambda>k. getExpiry cx k (snd (GetValues (getHandlerFuncParams cx cmd conn) (Context (getHandlerFuncParams cx cmd conn)) ks w))) =
      (\<lambda>k. getExpiry cx k w)" if "\<And>k v. k \<in> set ks \<Longrightarrow> entry_of cx w k \<noteq> Some (v, True)" for ks w
    using getValues_expiry [OF that] by simp
  show "(\<lambda>k. getExpiry cx k (snd (SetValues (getHandlerFuncParams cx cmd conn) (Context (getHandlerFuncParams cx cmd conn)) es w))) =
      (\<lambda>k. getExpiry cx k w)" for es w
    by (simp add: setValues_expiry)
  show "(\<lambda>k'. getExpiry cx k' (snd (DeleteKey (getHandlerFuncParams cx cmd conn) (Context (getHandlerFuncParams cx cmd conn)) k w))) =
      (\<lambda>k'. getExpiry cx k' w)(k := None)" if "server_ok w" "entry_of cx w k \<noteq> None" for k w
    using deleteKey_expiry [OF that] by (simp add: fun_eq_iff)
qed

end
