(* ===== verification/HashSpecs.thy ===== *)
theory HashSpecs
  imports HashCommands KvExpiry
begin

text \<open>
  What the hash commands do, proved against the interface \<open>kv_store\<close>: a hash is a partial map from
  fields to values, HSET and HSETNX override one map by another, HDEL restricts one, HGET applies one.
\<close>

subsection \<open>Hashes as maps\<close>

text \<open>The fields given to HSET, as the map from each to its last value.\<close>

fun assigned :: "string list \<Rightarrow> string \<Rightarrow> go_value option" where
  "assigned (f # v # ws) = (if assigned ws f = None then (assigned ws)(f \<mapsto> AdaptType v) else assigned ws)"
| "assigned _ = Map.empty"

lemma AdaptType_not_nil [simp]: "AdaptType v \<noteq> VNil"
  by (auto simp: AdaptType_def Let_def split: option.split bignum.split)

lemma hset_entries_map: "map_of (hset_entries ws m) = map_of m ++ assigned ws"
  by (induction ws m rule: hset_entries.induct) (auto simp: map_add_def fun_eq_iff split: option.split)

lemma entries_of_words_wf: "gm_wf m \<Longrightarrow> gm_wf (hset_entries ws m)"
  by (induction ws m rule: hset_entries.induct) simp_all

lemma assigned_not_nil: "assigned ws f \<noteq> Some VNil"
  by (induction ws rule: assigned.induct) simp_all

lemma merge_old_map: "gm_wf h \<Longrightarrow> map_of (merge_old h m) = map_of m ++ map_of h \<and> (gm_wf m \<longrightarrow> gm_wf (merge_old h m))"
proof (induction h arbitrary: m)
  case (Cons x h)
  obtain f v where x: "x = (f, v)" by force
  have "gm_wf h" "map_of h f = None" using Cons.prems x by (auto simp: gm_wf_def map_of_eq_None_iff)
  then show ?case
    using Cons.IH [of "AList.update f v m"] x
    by (auto simp: merge_old_def map_add_def fun_eq_iff split: option.split)
qed (simp add: merge_old_def)

lemma merge_missing_map:
  "gm_wf h \<Longrightarrow> (\<And>f. f \<in> set (gm_keys h) \<Longrightarrow> map_of m f \<noteq> Some VNil) \<Longrightarrow>
    map_of (merge_missing h m) = map_of h ++ map_of m \<and> (gm_wf m \<longrightarrow> gm_wf (merge_missing h m))"
proof (induction h arbitrary: m)
  case (Cons x h)
  obtain f v where x: "x = (f, v)" by force
  have h: "gm_wf h" "f \<notin> set (gm_keys h)" using Cons.prems(1) x by (auto simp: gm_wf_def gm_keys_def)
  let ?m = "if gm_value m f = VNil then AList.update f v m else m"
  have "map_of ?m g \<noteq> Some VNil" if "g \<in> set (gm_keys h)" for g
    using that Cons.prems(2) [of g] h(2) x by (auto simp: gm_keys_def)
  moreover have "map_of m f \<noteq> Some VNil" using Cons.prems(2) x by (simp add: gm_keys_def)
  moreover have "map_of h f = None" using h(2) by (auto simp: gm_keys_dom)
  ultimately show ?case
    using Cons.IH [OF h(1), of ?m] x
    by (cases "map_of m f") (auto simp: merge_missing_def gm_value_def map_add_def fun_eq_iff split: option.split)
qed (simp add: merge_missing_def)

text \<open>What HDEL keeps: the fields that are named lose their values, unless the value is nil.\<close>

lemma gm_length_delete: "gm_wf m \<Longrightarrow> map_of m k = Some v \<Longrightarrow> Suc (length (AList.delete k m)) = length m"
  by (induction m) (auto simp: gm_wf_def)

lemma hdel_loop_map:
  "gm_wf h \<Longrightarrow> (\<And>f. map_of h f \<noteq> Some VNil) \<Longrightarrow> hdel_loop h n fs = (h', n') \<Longrightarrow>
    gm_wf h' \<and> map_of h' = map_of h |` (- set fs) \<and> n' + length h' = n + length h"
proof (induction h n fs rule: hdel_loop.induct)
  case (2 h n f fs)
  show ?case
  proof (cases "map_of h f")
    case None
    have "map_of h |` (- set fs) = map_of h |` (- set (f # fs))"
      using None by (auto simp: restrict_map_def fun_eq_iff)
    then show ?thesis using 2 None by (simp add: gm_value_def)
  next
    case (Some v)
    then have "gm_value h f \<noteq> VNil" using "2.prems"(2) by (auto simp: gm_value_def)
    moreover have "map_of (AList.delete f h) g \<noteq> Some VNil" for g using "2.prems"(2) by (simp add: delete_conv')
    moreover have "Suc (length (AList.delete f h)) = length h" using "2.prems"(1) Some by (rule gm_length_delete)
    ultimately show ?thesis
      using 2 by (auto simp: delete_conv' restrict_map_def fun_eq_iff)
  qed
qed auto

subsection \<open>The handlers\<close>

context kv_store begin

lemma read_live:
  assumes "inv w" "entry w k = Some (v, False)"
  obtains w1 where "get_one p k w = (Ok v, w1)" "inv w1" "heap w1 = heap w" "entry w1 = entry w" "full w1 = full w"
  using get_one_ok [OF assms(1), of k] assms(2) by (metis (no_types) live_value_simps(2) option.sel prod.inject)

lemma set_live:
  assumes "inv w" "\<not> full w" "entry w k = Some (v0, b)" "value_ok (heap w) v"
  obtains w' where "SetValues p (Context p) [(k, v)] w = (Ok (), w')" "inv w'" "heap w' = heap w"
    "entry w' = (entry w)(k := Some (v, b))"
proof -
  obtain w' where "SetValues p (Context p) [(k, v)] w = (Ok (), w')" "inv w'" "heap w' = heap w"
    "entry w' = written [(k, v)] (entry w)"
    by (rule set_one [OF assms(1,2,4)])
  then show thesis using that assms(3) by (simp add: written_one)
qed

lemma handleHSET_live:
  assumes "inv w" "\<not> full w" "Command p = c # key # ws" "even (length ws)" "ws \<noteq> []"
    and "entry w key = Some (VHash h, False)"
  shows "\<exists>n m w'. hset_merge (to_lower c = ''hsetnx'') h (hset_entries ws []) = (m, n) \<and>
    handleHSET p w = (Ok (resp_int (int n)), w') \<and> inv w' \<and> entry w' = (entry w)(key := Some (VHash m, False))"
proof -
  obtain m n where m: "hset_merge (to_lower c = ''hsetnx'') h (hset_entries ws []) = (m, n)" by force
  obtain w1 where w1: "get_one p key w = (Ok (VHash h), w1)" "inv w1" "entry w1 = entry w" "full w1 = full w"
    using read_live [OF assms(1,6)] by metis
  have "gm_wf h" using inv_value [OF assms(1,6)] by (simp add: value_ok_def)
  then have "gm_wf m"
    using m merge_old_map [of h "hset_entries ws []"] merge_missing_map [of h "hset_entries ws []"] entries_of_words_wf [of "[]" ws]
    by (auto simp: hset_merge_def Let_def hset_entries_map assigned_not_nil split: if_splits)
  then obtain w2 where w2: "SetValues p (Context p) [(key, VHash m)] w1 = (Ok (), w2)" "inv w2"
    "entry w2 = (entry w1)(key := Some (VHash m, False))"
    using set_live [of w1 key "VHash h" False "VHash m"] w1 assms(2,6) by (auto simp: value_ok_def)
  have "2 \<le> length ws" using assms(4,5) by (cases ws rule: remdups_adj.cases) auto
  then have "handleHSET p w = (Ok (resp_int (int n)), w2)"
    using assms(3-6) w1(1) w2(1) m exist1 [of key w]
    by (simp add: handleHSET_def hsetKeyFunc_def writes_of_def Let_def)
  then show ?thesis using m w2 w1(3) by auto
qed

lemma handleHDEL_live:
  assumes "inv w" "\<not> full w" "Command p = c # key # fs" "fs \<noteq> []" "entry w key = Some (VHash h, False)"
  shows "\<exists>h' n w'. hdel_loop h 0 fs = (h', n) \<and> handleHDEL p w = (Ok (resp_int (int n)), w') \<and> inv w' \<and>
    (gm_wf h' \<longrightarrow> entry w' = (entry w)(key := Some (VHash h', False)))"
proof -
  obtain h' n where h': "hdel_loop h 0 fs = (h', n)" by force
  have wf: "gm_wf h" using inv_value [OF assms(1,5)] by (simp add: value_ok_def)
  have wf': "gm_wf h \<Longrightarrow> gm_wf (fst (hdel_loop h n fs))" for h n
    by (induction h n fs rule: hdel_loop.induct) simp_all
  then have "gm_wf h'" using wf h' by (metis fst_conv)
  obtain w1 where w1: "get_one p key w = (Ok (VHash h), w1)" "inv w1" "heap w1 = heap w" "entry w1 = entry w" "full w1 = full w"
    using read_live [OF assms(1,5)] by metis
  let ?w2 = "WriteThrough p (Context p) key (VHash h') w1"
  have v: "value_ok (heap w1) (VHash h')" using \<open>gm_wf h'\<close> by (simp add: value_ok_def)
  have e1: "entry w1 key = Some (VHash h, False)" using w1(4) assms(5) by simp
  note t = through [OF w1(2) e1 v]
  have e2: "entry ?w2 key = Some (VHash h', False)" and v2: "value_ok (heap ?w2) (VHash h')" using t v by simp_all
  have "inv ?w2" "\<not> full ?w2" using t w1(5) assms(2) by simp_all
  then obtain w3 where w3: "SetValues p (Context p) [(key, VHash h')] ?w2 = (Ok (), w3)" "inv w3"
    "entry w3 = (entry ?w2)(key := Some (VHash h', False))"
    by (rule set_live [OF _ _ e2 v2])
  have "handleHDEL p w = (Ok (resp_int (int n)), w3)"
    using assms(3-5) w1(1) w3(1) h' exist1 [of key w]
    by (cases fs) (simp_all add: handleHDEL_def hdelKeyFunc_def writes_of_def read_hash_def the_hash_def Let_def)
  then show ?thesis using h' w3 t w1(4) by auto
qed

lemma handleHGET_live:
  assumes "inv w" "Command p = c # key # fs" "fs \<noteq> []" "entry w key = Some (VHash h, False)"
  shows "\<exists>w'. handleHGET p w = (Ok (array_head (int (length fs)) @ concat (map (\<lambda>f. field_or_nil (gm_value h f)) fs)), w') \<and>
    inv w' \<and> entry w' = entry w"
proof -
  obtain w1 where w1: "get_one p key w = (Ok (VHash h), w1)" "inv w1" "entry w1 = entry w"
    using read_live [OF assms(1,4)] by metis
  then show ?thesis
    using assms(2-4) exist1 [of key w]
    by (cases fs) (simp_all add: handleHGET_def hgetKeyFunc_def reads_of_def read_hash_def the_hash_def Let_def)
qed

end

subsection \<open>On the server\<close>

text \<open>No expiry time changes.\<close>

context kv_expiring begin

lemma handleHSET_expiry:
  assumes "Command p = c # key # ws" "entry w key = Some (v, False)"
  shows "expiry (snd (handleHSET p w)) = expiry w"
proof -
  have save: "expiry (snd (and_then (SetValues p (Context p) [(key, VHash m)] w1) (\<lambda>_ w2. (Ok (resp_int (int n)), w2)))) =
      expiry w" if "expiry w1 = expiry w" for m n w1
    by (rule expiry_and_then) (simp_all add: expiry_set that)
  have get: "expiry (snd (get_one p key w)) = expiry w" using assms(2) by (intro expiry_get_one) simp
  have merge: "expiry (snd (and_then (get_one p key w) (\<lambda>v w1. case as_hash v of
      None \<Rightarrow> and_then (SetValues p (Context p) [(key, VHash m)] w1) (\<lambda>_ w2. (Ok (resp_int (int n)), w2))
    | Some h \<Rightarrow> let (m, n) = f h in
        and_then (SetValues p (Context p) [(key, VHash m)] w1) (\<lambda>_ w2. (Ok (resp_int (int n)), w2))))) = expiry w" for m n f
    by (rule expiry_and_then [OF get]) (simp add: save split_beta Let_def split: option.split)
  show ?thesis
    using assms(1) merge by (simp add: handleHSET_def hsetKeyFunc_def writes_of_def save Let_def cong: option.case_cong)
qed

end

lemma stored_hash_wf: "server_ok w \<Longrightarrow> entry_of cx w key = Some (VHash h, b) \<Longrightarrow> gm_wf h"
  using server_value_ok [of w cx key] by (auto simp: value_ok_def)

text \<open>C15: HSET overrides: on a live hash, with memory below the limit and a value for every field, it leaves the map in which the fields
  that are given have their last given values and all others the values they had, and replies with the number of all fields,
  also those that were there before. The expiry times of this and of every other key are unchanged.\<close>

theorem HSET_overrides:
  assumes "server_ok w" "\<not> memory_full w" "entry_of cx w key = Some (VHash h, False)"
    and "even (length ws)" "ws \<noteq> []"
  shows "\<exists>m w'. handleHSET (getHandlerFuncParams cx (''HSET'' # key # ws) conn) w = (Ok (resp_int (int (length m))), w') \<and>
    server_ok w' \<and> entry_of cx w' = (entry_of cx w)(key := Some (VHash m, False)) \<and>
    (\<forall>k. getExpiry cx k w' = getExpiry cx k w) \<and> gm_wf m \<and> map_of m = map_of h ++ assigned ws"
proof -
  have nx: "to_lower ''HSET'' \<noteq> ''hsetnx''" by code_simp
  let ?m = "merge_missing h (hset_entries ws [])"
  have "map_of ?m = map_of h ++ assigned ws" "gm_wf ?m"
    using merge_missing_map [OF stored_hash_wf [OF assms(1,3)], of "hset_entries ws []"] entries_of_words_wf [of "[]" ws]
    by (simp_all add: hset_entries_map assigned_not_nil)
  then obtain w' where w': "handleHSET (getHandlerFuncParams cx (''HSET'' # key # ws) conn) w = (Ok (resp_int (int (length ?m))), w')"
    "server_ok w'" "entry_of cx w' = (entry_of cx w)(key := Some (VHash ?m, False))"
    using ks.handleHSET_live [where cmd = "''HSET'' # key # ws" and conn = conn, OF assms(1,2) _ assms(4,5,3), of "''HSET''"] nx
    by (auto simp: hset_merge_def Let_def)
  have "getExpiry cx k w' = getExpiry cx k w" for k
    using ke.handleHSET_expiry [where cx = cx and cmd = "''HSET'' # key # ws" and conn = conn, OF _ assms(3), of "''HSET''" ws] w'(1)
    by (simp add: fun_eq_iff)
  then show ?thesis using w' \<open>map_of ?m = map_of h ++ assigned ws\<close> \<open>gm_wf ?m\<close> by blast
qed

theorem HSET_overrides_witness:
  "\<exists>m w'. handleHSET (getHandlerFuncParams demo_ctx [''HSET'', ''h'', ''a'', ''two'', ''b'', ''three''] None)
      (demo_world demo_config [] [(''h'', kept (VHash [(''a'', VInt 1), (''c'', VStr ''x'')]))]) =
      (Ok (resp_int (int (length m))), w') \<and>
    map_of m ''a'' = Some (VStr ''two'') \<and> map_of m ''b'' = Some (VStr ''three'') \<and> map_of m ''c'' = Some (VStr ''x'')"
proof -
  let ?w = "demo_world demo_config [] [(''h'', kept (VHash [(''a'', VInt 1), (''c'', VStr ''x'')]))]"
  have "unlimited ?w" by (rule demo_unlimited) (simp_all add: gm_wf_def)
  then have w: "server_ok ?w" "\<not> memory_full ?w" by (simp_all add: unlimited_def unlimited_not_full)
  have "entry_of demo_ctx ?w ''h'' = Some (VHash [(''a'', VInt 1), (''c'', VStr ''x'')], False)" by simp
  moreover have "AdaptType ''two'' = VStr ''two''" "AdaptType ''three'' = VStr ''three''" by code_simp+
  ultimately show ?thesis
    using HSET_overrides [OF w, of demo_ctx "''h''" _ "[''a'', ''two'', ''b'', ''three'']" None]
    by (auto simp: map_add_def)
qed

text \<open>HDEL restricts: on a live hash it leaves the map without the fields that are given, keeps the key also where no field is
  left, and replies with the number of fields by which the hash has shrunk.\<close>

theorem HDEL_restricts:
  assumes "server_ok w" "\<not> memory_full w" "entry_of cx w key = Some (VHash h, False)"
    and "VNil \<notin> snd ` set h" "fs \<noteq> []"
  shows "\<exists>h' w'. handleHDEL (getHandlerFuncParams cx (''HDEL'' # key # fs) conn) w =
      (Ok (resp_int (int (length h) - int (length h'))), w') \<and>
    server_ok w' \<and> entry_of cx w' = (entry_of cx w)(key := Some (VHash h', False)) \<and>
    gm_wf h' \<and> map_of h' = map_of h |` (- set fs)"
proof -
  obtain h' n w' where r: "hdel_loop h 0 fs = (h', n)"
    "handleHDEL (getHandlerFuncParams cx (''HDEL'' # key # fs) conn) w = (Ok (resp_int (int n)), w')" "server_ok w'"
    "gm_wf h' \<longrightarrow> entry_of cx w' = (entry_of cx w)(key := Some (VHash h', False))"
    using ks.handleHDEL_live [where cmd = "''HDEL'' # key # fs" and conn = conn, OF assms(1,2) _ assms(5,3), of "''HDEL''"] by auto
  have "map_of h f \<noteq> Some VNil" for f using assms(4) map_of_SomeD [of h f VNil] by force
  from hdel_loop_map [OF stored_hash_wf [OF assms(1,3)] this r(1)]
  have "gm_wf h'" "map_of h' = map_of h |` (- set fs)" "int n = int (length h) - int (length h')" by simp_all
  then show ?thesis using r by (metis (no_types))
qed

theorem HDEL_restricts_witness:
  "\<exists>h' w'. handleHDEL (getHandlerFuncParams demo_ctx [''HDEL'', ''h'', ''a'', ''z'', ''a''] None)
      (demo_world demo_config [] [(''h'', kept (VHash [(''a'', VInt 1), (''c'', VStr ''x'')]))]) =
      (Ok (resp_int (2 - int (length h'))), w') \<and> map_of h' = [''c'' \<mapsto> VStr ''x'']"
proof -
  let ?w = "demo_world demo_config [] [(''h'', kept (VHash [(''a'', VInt 1), (''c'', VStr ''x'')]))]"
  have "unlimited ?w" by (rule demo_unlimited) (simp_all add: gm_wf_def)
  then have w: "server_ok ?w" "\<not> memory_full ?w" by (simp_all add: unlimited_def unlimited_not_full)
  have e: "entry_of demo_ctx ?w ''h'' = Some (VHash [(''a'', VInt 1), (''c'', VStr ''x'')], False)" by simp
  have "[''a'' \<mapsto> VInt 1, ''c'' \<mapsto> VStr ''x''] |` (- {''a'', ''z''}) = [''c'' \<mapsto> VStr ''x'']"
    by (auto simp: restrict_map_def fun_eq_iff)
  then show ?thesis
    using HDEL_restricts [OF w e, of "[''a'', ''z'', ''a'']" None] by (auto simp: fun_upd_twist)
qed

end
