(* ===== verification/GenericSpecs.thy ===== *)
theory GenericSpecs
  imports GenericCommands HashSpecs
begin

text \<open>
  What the generic commands do, proved against the interface \<open>kv_store\<close>: counters with their
  wrap-around, RENAME, DEL with any order of the iteration over its keys, and times to live.
\<close>

subsection \<open>The handlers\<close>

context kv_store begin

text \<open>One increment of a counter that is stored as a number or as its text.\<close>

lemma handleIncr_live:
  assumes "inv w" "\<not> full w" "Command p = [c, key]" "entry w key = Some (v, False)" "current_int v = Ok (Some i)"
  shows "\<exists>w'. handleIncr p w = (Ok (resp_int (i64 (i + 1))), w') \<and> inv w' \<and>
    entry w' = (entry w)(key := Some (VStr (itoa (i64 (i + 1))), False))"
proof -
  obtain w1 where w1: "get_one p key w = (Ok v, w1)" "inv w1" "entry w1 = entry w" "full w1 = full w"
    using read_live [OF assms(1,4)] by metis
  have e1: "entry w1 key = Some (v, False)" "\<not> full w1" using w1 assms(2,4) by simp_all
  have "value_ok (heap w1) (VStr (itoa (i64 (i + 1))))" by (simp add: value_ok_def)
  then obtain w2 where "SetValues p (Context p) [(key, VStr (itoa (i64 (i + 1))))] w1 = (Ok (), w2)" "inv w2"
    "entry w2 = (entry w1)(key := Some (VStr (itoa (i64 (i + 1))), False))"
    using set_live [OF w1(2) e1(2,1)] by metis
  then show ?thesis
    using assms(3,5) w1 by (simp add: handleIncr_def incrKeyFunc_def writes_of_def counter_def)
qed

lemma handleRename_live:
  assumes "inv w" "\<not> full w" "Command p = [c, old, new]" "entry w old = Some (v, False)" "v \<noteq> VNil"
  shows "\<exists>w'. handleRename p w = (Ok OkResponse, w') \<and> inv w' \<and>
    entry w' = (entry w)(new := Some (v, case entry w new of None \<Rightarrow> False | Some (_, b) \<Rightarrow> b), old := None)"
proof -
  obtain w1 where w1: "get_one p old w = (Ok v, w1)" "inv w1" "heap w1 = heap w" "entry w1 = entry w" "full w1 = full w"
    using read_live [OF assms(1,4)] by metis
  have "value_ok (heap w1) v" using inv_value [OF assms(1,4)] w1(3) by simp
  then obtain w2 where w2: "SetValues p (Context p) [(new, v)] w1 = (Ok (), w2)" "inv w2"
    "entry w2 = (entry w1)(new := Some (v, case entry w1 new of None \<Rightarrow> False | Some (_, b) \<Rightarrow> b))"
    using set_one [of w1 v new] w1 assms(2) unfolding written_one by metis
  have "entry w2 old \<noteq> None" using w2(3) w1(4) assms(4) by (cases "old = new") simp_all
  then obtain w3 where "DeleteKey p (Context p) old w2 = (Ok (), w3)" "inv w3" "entry w3 = (entry w2)(old := None)"
    using delete [OF w2(2)] by metis
  then show ?thesis
    using assms(3,5) w1 w2 by (auto simp: handleRename_def Let_def)
qed

text \<open>The loop of DEL, over any list of distinct keys with what was found of them.\<close>

lemma del_loop_ok:
  assumes "inv w" "distinct (map fst ks)" "\<And>k b. (k, b) \<in> set ks \<Longrightarrow> b = (entry w k \<noteq> None)"
  shows "\<exists>w'. del_loop p ks n w = (Ok (n + int (length (filter snd ks))), w') \<and> inv w' \<and>
    entry w' = entry w |` (- fst ` set ks)"
  using assms
proof (induction ks arbitrary: n w)
  case Nil
  then show ?case by (intro exI [of _ w]) simp
next
  case (Cons x ks)
  obtain k b where x: "x = (k, b)" by force
  have b: "b = (entry w k \<noteq> None)" using Cons.prems(3) x by simp
  show ?case
  proof (cases b)
    case False
    obtain w' where "del_loop p ks n w = (Ok (n + int (length (filter snd ks))), w')" "inv w'"
      "entry w' = entry w |` (- fst ` set ks)"
      using Cons.IH [of w n] Cons.prems by auto
    moreover from this(3) have "entry w' = entry w |` (- fst ` set (x # ks))"
      using False b x by (cases "entry w k") (auto simp: restrict_map_def fun_eq_iff)
    ultimately show ?thesis using False x by auto
  next
    case True
    then obtain w1 where w1: "DeleteKey p (Context p) k w = (Ok (), w1)" "inv w1" "entry w1 = (entry w)(k := None)"
      using delete [OF Cons.prems(1), of k] b by blast
    have "entry w1 k' = entry w k'" if "(k', b') \<in> set ks" for k' b'
      using that Cons.prems(2) x w1(3) by force
    then obtain w' where w': "del_loop p ks (n + 1) w1 = (Ok (n + 1 + int (length (filter snd ks))), w')" "inv w'"
      "entry w' = entry w1 |` (- fst ` set ks)"
      using Cons.IH [OF w1(2), of "n + 1"] Cons.prems(2,3) by force
    have "entry w' = entry w |` (- fst ` set (x # ks))"
      using w'(3) w1(3) x by (auto simp: restrict_map_def fun_eq_iff)
    then show ?thesis using w' w1(1) True x by (auto simp: add.commute add.left_commute)
  qed
qed

lemma handleDel_ok:
  assumes "inv w" "Command p = c # ks" "ks \<noteq> []"
  shows "\<exists>w'. handleDel p w = (Ok (resp_int (int (card {k \<in> set ks. entry w k \<noteq> None}))), w') \<and> inv w' \<and>
    entry w' = entry w |` (- set ks)"
proof -
  let ?m = "KeysExist p (Context p) ks w"
  let ?es = "fst (go_range ?m w)" and ?w1 = "snd (go_range ?m w)"
  have wf: "distinct (map fst ?m)" using exist_wf [of ks w] by (simp add: gm_wf_def)
  have es: "set ?es = set ?m" "mset (map fst ?es) = mset (map fst ?m)"
    by simp_all
  have d: "distinct (map fst ?es)" using wf mset_eq_imp_distinct_iff [OF es(2)] by simp
  have dom: "fst ` set ?m = set ks" using exist_dom [of ks w] by (simp add: dom_map_of_conv_image_fst)
  have val: "b = (entry w k \<noteq> None)" if "(k, b) \<in> set ?m" for k b
  proof -
    have "map_of ?m k = Some b" using that wf by simp
    moreover have "k \<in> set ks" using that dom by force
    ultimately show ?thesis using exist [of ks w k] by (auto simp: gm_bool_def)
  qed
  have w1: "inv ?w1" "entry ?w1 = entry w"
    using inv_world [OF assms(1), of ?w1] entry_world [of ?w1 w] inv_heap_wf [OF assms(1)]
    by (auto simp: heap_wf_def live_def)
  obtain w' where w': "del_loop p ?es 0 ?w1 = (Ok (0 + int (length (filter snd ?es))), w')" "inv w'"
    "entry w' = entry ?w1 |` (- fst ` set ?es)"
    using del_loop_ok [OF w1(1) d, of 0] val w1(2) es(1) by (metis (no_types))
  have "fst ` set (filter snd ?es) = {k \<in> set ks. entry w k \<noteq> None}"
    using dom val es(1) by (force simp: image_iff)
  moreover have "distinct (map fst (filter snd ?es))" using d by (rule distinct_map_filter)
  ultimately have "length (filter snd ?es) = card {k \<in> set ks. entry w k \<noteq> None}"
    using distinct_card [of "map fst (filter snd ?es)"] by simp
  then show ?thesis
    using w' w1(2) es(1) dom assms(2,3)
    by (cases ks) (simp_all add: handleDel_def delKeyFunc_def writes_of_def split_beta)
qed

end

text \<open>Their expiry times: INCR changes none, RENAME removes that of the old name and gives the new name none.\<close>

context kv_expiring begin

lemma handleIncr_expiry:
  assumes "Command p = [c, key]" "entry w key = Some (v, False)"
  shows "expiry (snd (handleIncr p w)) = expiry w"
proof -
  have save: "expiry (snd (and_then (SetValues p (Context p) [(key, VStr t)] w1) (\<lambda>_ w2. (Ok r, w2)))) = expiry w"
    if "expiry w1 = expiry w" for t r w1
    by (rule expiry_and_then) (simp_all add: expiry_set that)
  have get: "expiry (snd (get_one p key w)) = expiry w" using assms(2) by (intro expiry_get_one) simp
  have "expiry (snd (counter key s f p w)) = expiry w" for s f
    unfolding counter_def Let_def
    by (intro expiry_and_then [OF get] expiry_and_then [OF _ save]) simp_all
  then show ?thesis using assms(1) by (simp add: handleIncr_def incrKeyFunc_def writes_of_def)
qed

lemma handleRename_expiry:
  assumes "inv w" "\<not> full w" "Command p = [c, old, new]" "entry w old = Some (v, False)" "v \<noteq> VNil"
  shows "expiry (snd (handleRename p w)) = (expiry w)(old := None)"
proof -
  obtain w1 where w1: "get_one p old w = (Ok v, w1)" "inv w1" "heap w1 = heap w" "entry w1 = entry w" "full w1 = full w"
    using read_live [OF assms(1,4)] by metis
  have "value_ok (heap w1) v" using inv_value [OF assms(1,4)] w1(3) by simp
  then obtain w2 where w2: "SetValues p (Context p) [(new, v)] w1 = (Ok (), w2)" "inv w2"
    "entry w2 = (entry w1)(new := Some (v, case entry w1 new of None \<Rightarrow> False | Some (_, b) \<Rightarrow> b))"
    using set_one [of w1 v new] w1 assms(2) unfolding written_one by metis
  have "entry w2 old \<noteq> None" using w2(3) w1(4) assms(4) by (cases "old = new") simp_all
  then obtain w3 where w3: "DeleteKey p (Context p) old w2 = (Ok (), w3)"
    "expiry w3 = (expiry w2)(old := None)"
    using delete [OF w2(2)] expiry_delete [OF w2(2)] by (metis snd_conv)
  have "expiry w1 = expiry w" using expiry_get_one [of w old] assms(4) w1(1) by simp
  moreover have "expiry w2 = expiry w1" using expiry_set [of "[(new, v)]" w1] w2(1) by simp
  ultimately show ?thesis
    using assms(3,5) w1(1) w2(1) w3 by (auto simp: handleRename_def Let_def)
qed

end

subsection \<open>Counters\<close>

text \<open>INCR as many times as the number says, and once more.\<close>

fun incr_run :: "ctx \<Rightarrow> nat option \<Rightarrow> string \<Rightarrow> nat \<Rightarrow> sworld \<Rightarrow> string res \<times> sworld" where
  "incr_run cx conn key 0 w = handleIncr (getHandlerFuncParams cx [''INCR'', key] conn) w"
| "incr_run cx conn key (Suc n) w =
     and_then (handleIncr (getHandlerFuncParams cx [''INCR'', key] conn) w) (\<lambda>_ w1. incr_run cx conn key n w1)"

text \<open>C21: INCR counts modulo the 64-bit integers: after any number of increments of a live key that holds an integer, or the text of
  one, the last reply and the stored text are the start plus that number, wrapped around at \<open>2 ^ 63\<close> without an error; the
  expiry time of every key stays as it is, that of the key itself included, and so do all other keys. The server has no memory limit,
  so that no write is refused and nothing is evicted.\<close>

theorem INCR_counts:
  assumes "unlimited w" "entry_of cx w key = Some (v, False)" "current_int v = Ok (Some i)"
  shows "\<exists>w'. incr_run cx conn key n w = (Ok (resp_int (i64 (i + 1 + int n))), w') \<and> unlimited w' \<and>
    entry_of cx w' = (entry_of cx w)(key := Some (VStr (itoa (i64 (i + 1 + int n))), False)) \<and>
    (\<forall>k. getExpiry cx k w' = getExpiry cx k w)"
  using assms
proof (induction n arbitrary: w v i)
  case 0
  then show ?case
    using un.handleIncr_live [where cmd = "[''INCR'', key]" and conn = conn, OF 0(1) unlimited_not_full [OF 0(1)] _ 0(2,3)]
      ke.handleIncr_expiry [where cmd = "[''INCR'', key]" and conn = conn, OF _ 0(2)]
    by (auto simp: fun_upd_def fun_eq_iff)
next
  case (Suc n)
  have step: "getExpiry cx k (snd (handleIncr (getHandlerFuncParams cx [''INCR'', key] conn) w)) = getExpiry cx k w" for k
    using ke.handleIncr_expiry [where cmd = "[''INCR'', key]" and conn = conn, OF _ Suc(3)] by (simp add: fun_eq_iff)
  obtain w1 where w1: "handleIncr (getHandlerFuncParams cx [''INCR'', key] conn) w = (Ok (resp_int (i64 (i + 1))), w1)"
    "unlimited w1" "entry_of cx w1 = (entry_of cx w)(key := Some (VStr (itoa (i64 (i + 1))), False))"
    using un.handleIncr_live [where cmd = "[''INCR'', key]" and conn = conn, OF Suc(2) unlimited_not_full [OF Suc(2)] _ Suc(3,4)]
    by auto
  have "current_int (VStr (itoa (i64 (i + 1)))) = Ok (Some (i64 (i + 1)))"
    by (simp add: current_int_def atoi_itoa)
  moreover have "entry_of cx w1 key = Some (VStr (itoa (i64 (i + 1))), False)" using w1(3) by simp
  ultimately obtain w' where w': "incr_run cx conn key n w1 = (Ok (resp_int (i64 (i64 (i + 1) + 1 + int n))), w')" "unlimited w'"
    "entry_of cx w' = (entry_of cx w1)(key := Some (VStr (itoa (i64 (i64 (i + 1) + 1 + int n))), False))"
    "\<forall>k. getExpiry cx k w' = getExpiry cx k w1"
    using Suc.IH [OF w1(2)] by blast
  have "i64 (i64 (i + 1) + 1 + int n) = i64 (i + 1 + int (Suc n))"
    using i64_add [of "i + 1" "1 + int n"] by (simp add: algebra_simps)
  moreover have "getExpiry cx k w1 = getExpiry cx k w" for k using step [of k] w1(1) by simp
  ultimately show ?case using w' w1 by (auto simp: fun_upd_def)
qed

theorem INCR_counts_witness:
  "\<exists>w'. incr_run demo_ctx None ''n'' 1 (demo_world demo_config [] [(''n'', kept (VInt (2 ^ 63 - 1)))]) =
      (Ok (resp_int (- (2 ^ 63) + 1)), w') \<and>
    entry_of demo_ctx w' ''n'' = Some (VStr (itoa (- (2 ^ 63) + 1)), False)"
proof -
  let ?w = "demo_world demo_config [] [(''n'', kept (VInt (2 ^ 63 - 1)))]"
  have w: "unlimited ?w" by (rule demo_unlimited) simp_all
  have "entry_of demo_ctx ?w ''n'' = Some (VInt (2 ^ 63 - 1), False)" by simp
  moreover have "current_int (VInt (2 ^ 63 - 1)) = Ok (Some (2 ^ 63 - 1))" by (simp add: current_int_def)
  moreover have "i64 (2 ^ 63 - 1 + 1 + int 1) = - (2 ^ 63) + 1" by code_simp
  ultimately show ?thesis using INCR_counts [OF w, of demo_ctx "''n''" "VInt (2 ^ 63 - 1)" "2 ^ 63 - 1" None 1] by auto
qed

subsection \<open>Names\<close>

text \<open>C38: RENAME of a live key, with memory below the limit, gives the value to the new name and removes the old one. The expiry
  time of the new name is the one it had before, which is none if it was not there, so that the expiry time of the old name is lost
  and a value renamed to a key past its expiry is gone at once; a key that is renamed to itself is deleted. No other key or expiry
  time changes.\<close>

theorem RENAME_moves_the_value:
  assumes "server_ok w" "\<not> memory_full w" "entry_of cx w old = Some (v, False)" "v \<noteq> VNil"
  shows "\<exists>w'. handleRename (getHandlerFuncParams cx [''RENAME'', old, new] conn) w = (Ok OkResponse, w') \<and> server_ok w' \<and>
    entry_of cx w' = (entry_of cx w)
      (new := Some (v, case entry_of cx w new of None \<Rightarrow> False | Some (_, b) \<Rightarrow> b), old := None) \<and>
    (\<forall>k. getExpiry cx k w' = (if k = old then None else getExpiry cx k w))"
  using ks.handleRename_live [where cmd = "[''RENAME'', old, new]" and conn = conn, OF assms(1,2) _ assms(3,4)]
    ke.handleRename_expiry [where cmd = "[''RENAME'', old, new]" and conn = conn, OF assms(1,2) _ assms(3,4)]
  by (auto simp: fun_eq_iff)

theorem RENAME_moves_the_value_witness:
  "\<exists>w'. handleRename (getHandlerFuncParams demo_ctx [''RENAME'', ''k'', ''l''] None)
      (demo_world demo_config [] [(''k'', kept (VStr ''v'')), (''l'', until 7 (VInt 1))]) = (Ok OkResponse, w') \<and>
    gone (entry_of demo_ctx w' ''k'') \<and> gone (entry_of demo_ctx w' ''l'')"
proof -
  let ?w = "demo_world demo_config [] [(''k'', kept (VStr ''v'')), (''l'', until 7 (VInt 1))]"
  have "unlimited ?w" by (rule demo_unlimited) simp_all
  then have w: "server_ok ?w" "\<not> memory_full ?w" by (simp_all add: unlimited_def unlimited_not_full)
  have "entry_of demo_ctx ?w ''k'' = Some (VStr ''v'', False)" by simp
  from RENAME_moves_the_value [OF w this, of "''l''" None] show ?thesis by auto
qed

text \<open>C39: DEL removes the given keys, expired ones included, and no other, and replies with the number of different ones that were
  there, in whatever order the map of what exists is iterated over.\<close>

theorem DEL_removes:
  assumes "server_ok w" "ks \<noteq> []"
  shows "\<exists>w'. handleDel (getHandlerFuncParams cx (''DEL'' # ks) conn) w =
      (Ok (resp_int (int (card {k \<in> set ks. entry_of cx w k \<noteq> None}))), w') \<and>
    server_ok w' \<and> entry_of cx w' = entry_of cx w |` (- set ks)"
  using ks.handleDel_ok [where cx = cx and cmd = "''DEL'' # ks" and conn = conn, OF assms(1) _ assms(2)] by simp

theorem DEL_removes_witness:
  "\<exists>w'. handleDel (getHandlerFuncParams demo_ctx [''DEL'', ''a'', ''x'', ''a''] None)
      (demo_world demo_config [] [(''a'', kept (VInt 1)), (''b'', kept (VInt 2))]) = (Ok (resp_int 1), w') \<and>
    entry_of demo_ctx w' ''a'' = None \<and> entry_of demo_ctx w' ''b'' = Some (VInt 2, False)"
proof -
  let ?w = "demo_world demo_config [] [(''a'', kept (VInt 1)), (''b'', kept (VInt 2))]"
  have w: "server_ok ?w" by (rule demo_ok) simp_all
  have "{k \<in> {''a'', ''x''}. entry_of demo_ctx ?w k \<noteq> None} = {''a''}" by auto
  then have "card {k \<in> set [''a'', ''x'', ''a'']. entry_of demo_ctx ?w k \<noteq> None} = 1" by (simp add: insert_commute)
  then show ?thesis
    using DEL_removes [OF w, of "[''a'', ''x'', ''a'']" demo_ctx None] by (auto simp: restrict_map_def)
qed

subsection \<open>Times to live\<close>

text \<open>C22: The time to live that is asked for is the one that is reported: EXPIRE of a key by a number of seconds that a duration can
  hold replies 1, keeps every value, and TTL at the same instant replies that number.\<close>

theorem EXPIRE_then_TTL:
  assumes "server_ok w" "entry_of cx w key \<noteq> None" "atoi arg = Some n" "0 < n" "n * 10 ^ 9 < 2 ^ 63"
    and "0 \<le> clockNow (srv w)" "clockNow (srv w) < 2 ^ 63"
  shows "\<exists>w'. handleExpire (getHandlerFuncParams cx [''EXPIRE'', key, arg] conn) w = (Ok (resp_int 1), w') \<and> server_ok w' \<and>
    handleTTL (getHandlerFuncParams cx [''TTL'', key] conn) w' = (Ok (resp_int n), w') \<and>
    map_option fst (entry_of cx w' k) = map_option fst (entry_of cx w k)"
proof -
  obtain e where e: "lookup_key (srv w) (Database cx) key = Some e"
    using assms(2) by (auto simp: entry_of_def split: option.splits)
  let ?t = "clockNow (srv w) + n * 10 ^ 9"
  have sec: "seconds n = n * 10 ^ 9" using assms(4,5) by (simp add: seconds_def in_i64_def)
  obtain w' where w': "setExpiry cx key (Some ?t) True w = (Ok (), w')" "writes w w'"
    "\<forall>d k'. lookup_key (srv w') d k' =
       (if d = Database cx \<and> k' = key then Some \<lparr>Value = Value e, ExpireAt = Some ?t\<rparr> else lookup_key (srv w) d k')"
    "memUsed (srv w') = memUsed (srv w)"
    using setExpiry_spec [of w cx key e "Some ?t" True] assms(1) e by (auto simp: server_ok_def)
  have clock: "clockNow (srv w') = clockNow (srv w)" and ok: "server_ok w'"
    using w'(2,4) assms(1) by (simp_all add: writes_def server_ok_def raft_sane_def)
  have unix: "to_unix ?t - to_unix (clockNow (srv w)) = n" "in_i64 n"
  proof -
    have "?t div 10 ^ 9 = clockNow (srv w) div 10 ^ 9 + n" by simp
    moreover have "0 \<le> clockNow (srv w) div 10 ^ 9" using assms(6) by (simp add: pos_imp_zdiv_nonneg_iff)
    moreover have "clockNow (srv w) div 10 ^ 9 < 2 ^ 34"
      using zdiv_mono1 [of "clockNow (srv w)" "2 ^ 63" "10 ^ 9"] assms(7) by simp
    moreover have "n < 2 ^ 34" using assms(5) by simp
    ultimately show "to_unix ?t - to_unix (clockNow (srv w)) = n" "in_i64 n"
      using assms(4) by (simp_all add: to_unix_def in_i64_def)
  qed
  have lower: "to_lower ''EXPIRE'' \<noteq> ''pexpire''" "to_lower ''TTL'' \<noteq> ''pttl''" by code_simp+
  have ex: "gm_bool (keysExist cx [key] w) key" "gm_bool (keysExist cx [key] w') key"
    using e w'(3) by (simp_all add: keysExist_spec entry_of_def)
  have "handleExpire (getHandlerFuncParams cx [''EXPIRE'', key, arg] conn) w = (Ok (resp_int 1), w')"
    using assms(3) ex(1) w'(1) lower(1) sec
    by (simp add: handleExpire_def expireKeyFunc_def writes_of_def apply_expiry_def)
  moreover have "handleTTL (getHandlerFuncParams cx [''TTL'', key] conn) w' = (Ok (resp_int n), w')"
    using ex(2) w'(3) clock unix lower(2) assms(4)
    by (simp add: handleTTL_def ttlKeyFunc_def reads_of_def getExpiry_def Let_def)
  moreover have "map_option fst (entry_of cx w' k) = map_option fst (entry_of cx w k)"
    using w'(3) e by (simp add: entry_of_def split: option.split)
  ultimately show ?thesis using ok by blast
qed

theorem EXPIRE_then_TTL_witness:
  "\<exists>w'. handleExpire (getHandlerFuncParams demo_ctx [''EXPIRE'', ''k'', itoa 60] None)
      (demo_world demo_config [] [(''k'', kept (VStr ''v''))]) = (Ok (resp_int 1), w') \<and>
    handleTTL (getHandlerFuncParams demo_ctx [''TTL'', ''k''] None) w' = (Ok (resp_int 60), w')"
proof -
  let ?w = "demo_world demo_config [] [(''k'', kept (VStr ''v''))]"
  have w: "server_ok ?w" by (rule demo_ok) simp_all
  have "atoi (itoa 60) = Some 60" by (rule atoi_itoa) (simp add: in_i64_def)
  moreover have "clockNow (srv ?w) = 1000" by (simp add: demo_world_def demo_server_def)
  ultimately show ?thesis using EXPIRE_then_TTL [OF w, of demo_ctx "''k''" "itoa 60" 60 None] by auto
qed

end
