(* ===== verification/HandlerSafety.thy ===== *)
theory HandlerSafety
  imports Dispatch
begin

text \<open>
  What no command breaks: a calculus for operations that keep an invariant unless they panic or never
  return, and with it the proof that every handler of the command table keeps the invariant of the
  keyspace, FLUSHALL and FLUSHDB excepted.
\<close>

subsection \<open>The calculus\<close>

text \<open>An operation that returns, with a result or an error, has kept the invariant.\<close>

definition safe :: "('w \<Rightarrow> bool) \<Rightarrow> 'a res \<times> 'w \<Rightarrow> bool" where
  "safe I m \<longleftrightarrow> (case fst m of Ok _ \<Rightarrow> I (snd m) | Err _ \<Rightarrow> I (snd m) | Panic _ \<Rightarrow> True | Diverge \<Rightarrow> True)"

named_theorems safe_rules "rules that reduce the safety of an operation to that of its parts"

lemma safe_result: "I w \<Longrightarrow> safe I (r, w)"
  by (cases r) (simp_all add: safe_def)

lemma safe_results [simp]:
  "safe I (Ok a, w) \<longleftrightarrow> I w" "safe I (Err e, w) \<longleftrightarrow> I w" "safe I (Panic e, w)" "safe I (Diverge, w)"
  by (simp_all add: safe_def)

lemma safe_bind:
  assumes "safe I m" "\<And>a w. I w \<Longrightarrow> safe I (f a w)"
  shows "safe I (and_then m f)"
  using assms by (cases m; cases "fst m") (auto simp: and_then_def safe_def)

lemma and_then_assoc: "and_then (and_then m f) g = and_then m (\<lambda>a w. and_then (f a w) g)"
  by (cases m; cases "fst m") auto

lemma safe_value:
  assumes "I w" "\<And>a. r = Ok a \<Longrightarrow> safe I (f a w)"
  shows "safe I (and_then (r, w) f)"
  using assms by (cases r) simp_all

lemma safe_if [safe_rules]: "(b \<Longrightarrow> safe I x) \<Longrightarrow> (\<not> b \<Longrightarrow> safe I y) \<Longrightarrow> safe I (if b then x else y)"
  by simp

lemma safe_option [safe_rules]:
  "(x = None \<Longrightarrow> safe I m) \<Longrightarrow> (\<And>y. x = Some y \<Longrightarrow> safe I (f y)) \<Longrightarrow>
    safe I (case x of None \<Rightarrow> m | Some y \<Rightarrow> f y)"
  by (cases x) simp_all

declare safe_result [safe_rules] safe_value [safe_rules]

subsection \<open>A store that keeps its invariant\<close>

text \<open>
  The further functions of the interface. A key is deleted only where the database exists, which is
  what \<open>based\<close> says.
\<close>

locale kv_safe = kv_store p entry full inv
  for p :: "'s params" and entry :: "'s world \<Rightarrow> string \<Rightarrow> (go_value \<times> bool) option"
    and full :: "'s world \<Rightarrow> bool" and inv :: "'s world \<Rightarrow> bool" +
  fixes based :: "'s world \<Rightarrow> bool"
  assumes based_entry: "entry w k \<noteq> None \<Longrightarrow> based w"
    and based_get: "inv w \<Longrightarrow> based w \<Longrightarrow> GetValues p (Context p) ks w = (Ok m, w') \<Longrightarrow> based w'"
    and based_set: "SetValues p (Context p) es w = (Ok u, w') \<Longrightarrow> based w'"
    and based_world: "srv w' = srv w \<Longrightarrow> based w' = based w"
    and delete_based: "inv w \<Longrightarrow> based w \<Longrightarrow>
          \<exists>w'. DeleteKey p (Context p) k w = (Ok (), w') \<and> inv w' \<and> based w'"
    and expiry_safe: "inv w \<Longrightarrow> safe inv (SetExpiry p (Context p) k t touch w)"
    and set_dangling: "inv w \<Longrightarrow> heap w a = None \<Longrightarrow> safe inv (SetValues p (Context p) [(k, VSet a)] w)"
    and through_absent: "entry w k = None \<Longrightarrow> WriteThrough p (Context p) k v w = w"
    and touch_safe: "inv w \<Longrightarrow> safe inv (TouchKeys p (Context p) ks w)"
    and idle_safe: "inv w \<Longrightarrow> safe inv (ObjectIdleTime p (Context p) k w)"
    and random_inv: "inv w \<Longrightarrow> inv (snd (RandomKey p (Context p) w))"
    and swap_inv: "inv w \<Longrightarrow> inv (SwapDatabases p d1 d2 w)"
    and acl_inv: "inv w \<Longrightarrow> inv (PutACL p al w)"
    and pubsub_inv: "inv w \<Longrightarrow> inv (PutPubSub p ps w)"
    and connection_inv: "inv w \<Longrightarrow> inv (SetConnectionInfo p c name protocol d w)"
    and snapshot_safe: "inv w \<Longrightarrow> safe inv (TakeSnapshot p w)"
    and rewrite_safe: "inv w \<Longrightarrow> safe inv (RewriteAOF p w)"
    and load_safe: "inv w \<Longrightarrow> safe inv (LoadModule p path args w)"
    and unload_inv: "inv w \<Longrightarrow> inv (UnloadModule p name w)"

context kv_safe begin

lemma inv_same: "heap w' = heap w \<Longrightarrow> next_addr w' = next_addr w \<Longrightarrow> srv w' = srv w \<Longrightarrow> inv w \<Longrightarrow> inv w'"
  by (rule inv_world [of w]) (use inv_heap_wf in \<open>auto simp: heap_wf_def live_def\<close>)

lemma inv_range [simp]: "inv w \<Longrightarrow> inv (snd (go_range xs w))"
  by (rule inv_same) simp_all

lemma inv_flip [simp]: "inv w \<Longrightarrow> inv (snd (flip w))"
  by (rule inv_same) simp_all

lemma inv_coins [simp]: "inv w \<Longrightarrow> inv (w\<lparr>coins := cs\<rparr>)"
  by (rule inv_same) simp_all

lemma get_values_ok:
  assumes "inv w"
  obtains m w' where "GetValues p (Context p) ks w = (Ok m, w')" "inv w'" "heap w' = heap w" "gm_wf m"
    "\<And>k. value_ok (heap w') (gm_value m k)" "\<And>k. gm_value m k \<noteq> VNil \<Longrightarrow> entry w k \<noteq> None"
proof -
  obtain m w' where g: "GetValues p (Context p) ks w = (Ok m, w')" "inv w'" "heap w' = heap w" "gm_wf m"
    "\<And>k. gm_value m k = (if k \<in> set ks then live_value (entry w k) else VNil)"
    using get [OF assms, of ks] by auto
  have ok: "value_ok (heap w) (live_value (entry w k))" for k
    using inv_value [OF assms, of k] by (auto simp: live_value_def value_ok_def split: option.split bool.split)
  have "value_ok (heap w') (gm_value m k)" for k
    using ok [of k] by (simp add: g value_ok_def [of _ VNil])
  moreover have "gm_value m k \<noteq> VNil \<Longrightarrow> entry w k \<noteq> None" for k
    by (cases "entry w k") (auto simp: g live_value_def split: if_splits)
  ultimately show thesis using g(1-4) by (rule that [rotated -2])
qed

lemma safe_get [safe_rules]:
  assumes "inv w"
    and "\<And>m w'. inv w' \<Longrightarrow> gm_wf m \<Longrightarrow> (\<And>k. value_ok (heap w') (gm_value m k)) \<Longrightarrow> safe inv (f m w')"
  shows "safe inv (and_then (GetValues p (Context p) ks w) f)"
  using get_values_ok [OF assms(1), of ks] assms(2) by (metis and_then_simps(1))

lemma safe_get_one [safe_rules]:
  assumes "inv w" "\<And>v w'. inv w' \<Longrightarrow> value_ok (heap w') v \<Longrightarrow> safe inv (f v w')"
  shows "safe inv (and_then (get_one p k w) f)"
proof -
  obtain m w' where g: "GetValues p (Context p) [k] w = (Ok m, w')" "inv w'" "value_ok (heap w') (gm_value m k)"
    using get_values_ok [OF assms(1), of "[k]"] by metis
  then show ?thesis using assms(2) by (simp add: get_one_def)
qed

lemma set_safe:
  assumes "inv w" "gm_wf es" "\<And>v. v \<in> snd ` set es \<Longrightarrow> value_ok (heap w) v"
  shows "safe inv (SetValues p (Context p) es w)"
proof (cases "full w")
  case True
  then show ?thesis using assms(1) by (simp add: set_full)
next
  case False
  from set_ok [OF assms(1) False assms(2,3)] show ?thesis by auto
qed

lemma safe_set [safe_rules]:
  assumes "inv w" "gm_wf es" "\<And>v. v \<in> snd ` set es \<Longrightarrow> value_ok (heap w) v" "\<And>w'. inv w' \<Longrightarrow> safe inv (f () w')"
  shows "safe inv (and_then (SetValues p (Context p) es w) f)"
  using safe_bind [OF set_safe [OF assms(1-3)]] assms(4) by (metis (full_types) old.unit.exhaust)

lemma through_inv [simp]: "inv w \<Longrightarrow> value_ok (heap w) v \<Longrightarrow> inv (WriteThrough p (Context p) k v w)"
  by (cases "entry w k") (auto simp: through_absent dest: through)

lemma through_heap [simp]: "inv w \<Longrightarrow> value_ok (heap w) v \<Longrightarrow> heap (WriteThrough p (Context p) k v w) = heap w"
  by (cases "entry w k") (auto simp: through_absent dest: through)

lemma safe_expiry [safe_rules]:
  "inv w \<Longrightarrow> (\<And>w'. inv w' \<Longrightarrow> safe inv (f () w')) \<Longrightarrow>
    safe inv (and_then (SetExpiry p (Context p) k t touch w) f)"
  by (rule safe_bind [OF expiry_safe]) simp_all

end

subsection \<open>Strings and hashes\<close>

lemma value_ok_plain [simp]:
  "value_ok h (VStr s)" "value_ok h (VInt i)" "value_ok h (VInt64 i)" "value_ok h (VFloat x)" "value_ok h VNil"
  "value_ok h (VList l)" "value_ok h (VHash m) \<longleftrightarrow> gm_wf m" "value_ok h (VZSet z) \<longleftrightarrow> gm_wf z"
  by (simp_all add: value_ok_def)

lemma AdaptType_plain [simp]: "value_ok h (AdaptType s)"
  by (auto simp: AdaptType_def split: option.split bignum.split)

lemma update_values: "v \<in> snd ` set (AList.update k x m) \<Longrightarrow> v = x \<or> v \<in> snd ` set m"
  by (induction m) (auto split: if_splits)

lemma gm_wf_one [simp]: "gm_wf [(k, v)]"
  by (simp add: gm_wf_def)

lemma as_hash_ok: "value_ok hp v \<Longrightarrow> as_hash v = Some m \<Longrightarrow> gm_wf m"
  by (cases v) simp_all

text \<open>What a handler makes of a hash without repeated fields has none either.\<close>

lemma hset_entries_wf [simp]: "gm_wf m \<Longrightarrow> gm_wf (hset_entries ws m)"
  by (induction ws m rule: hset_entries.induct) simp_all

lemma merge_old_wf [simp]: "gm_wf m \<Longrightarrow> gm_wf (merge_old h m)"
  unfolding merge_old_def by (induction h arbitrary: m) auto

lemma merge_missing_wf [simp]: "gm_wf m \<Longrightarrow> gm_wf (merge_missing h m)"
  unfolding merge_missing_def by (induction h arbitrary: m) auto

lemma hset_merge_wf [simp]: "gm_wf m \<Longrightarrow> gm_wf (fst (hset_merge nx h m))"
  by (simp add: hset_merge_def Let_def)

lemma hdel_loop_wf [simp]: "gm_wf m \<Longrightarrow> gm_wf (fst (hdel_loop m n fs))"
  by (induction m n fs rule: hdel_loop.induct) simp_all

context kv_safe begin

lemma safe_the_hash [safe_rules]:
  "inv w \<Longrightarrow> value_ok (heap w) v \<Longrightarrow> (\<And>h. gm_wf h \<Longrightarrow> safe inv (f h w)) \<Longrightarrow> safe inv (and_then (the_hash key v w) f)"
  by (auto simp: the_hash_def as_hash_ok split: option.split)

lemma safe_read_hash [safe_rules]:
  assumes "inv w" "\<And>h w'. inv w' \<Longrightarrow> gm_wf h \<Longrightarrow> safe inv (f h w')"
  shows "safe inv (read_hash p key absent w f)"
  unfolding read_hash_def by (intro safe_rules) (use assms in simp_all)

lemmas unfold_handler = Let_def split_beta

lemma hash_reads_safe:
  assumes "inv w"
  shows "safe inv (handleHGET p w)" "safe inv (handleHMGET p w)" "safe inv (handleHSTRLEN p w)"
    "safe inv (handleHVALS p w)" "safe inv (handleHLEN p w)" "safe inv (handleHKEYS p w)"
    "safe inv (handleHGETALL p w)" "safe inv (handleHEXISTS p w)"
  unfolding handleHGET_def handleHMGET_def handleHSTRLEN_def handleHVALS_def handleHLEN_def handleHKEYS_def
    handleHGETALL_def handleHEXISTS_def unfold_handler
  by (intro safe_rules; simp add: assms)+

lemma handleHRANDFIELD_safe: "inv w \<Longrightarrow> safe inv (handleHRANDFIELD p w)"
  unfolding handleHRANDFIELD_def unfold_handler by (intro safe_rules; simp)

lemma handleHSET_safe: "inv w \<Longrightarrow> safe inv (handleHSET p w)"
  unfolding handleHSET_def unfold_handler by (intro safe_rules; simp)

lemma handleHINCRBY_safe: "inv w \<Longrightarrow> safe inv (handleHINCRBY p w)"
  unfolding handleHINCRBY_def unfold_handler by (intro safe_rules; simp)

lemma handleHDEL_safe: "inv w \<Longrightarrow> safe inv (handleHDEL p w)"
  unfolding handleHDEL_def unfold_handler by (intro safe_rules; simp)

end

context kv_safe begin

lemma safe_the_str [safe_rules]:
  "inv w \<Longrightarrow> (\<And>s. safe inv (f s w)) \<Longrightarrow> safe inv (and_then (the_str msg v w) f)"
  by (simp add: the_str_def split: option.split)

lemma safe_options [safe_rules]:
  "inv w \<Longrightarrow> (\<And>a b. safe inv (f a b)) \<Longrightarrow> safe inv m \<Longrightarrow>
    safe inv (case (x, y) of (Some a, Some b) \<Rightarrow> f a b | _ \<Rightarrow> m)"
  by (simp split: option.split)

lemma string_handlers_safe:
  assumes "inv w"
  shows "safe inv (handleSetRange p w)" "safe inv (handleStrLen p w)" "safe inv (handleSubStr p w)"
    "safe inv (handleAppend p w)"
  unfolding handleSetRange_def handleStrLen_def handleSubStr_def handleAppend_def unfold_handler
  by (intro safe_rules; simp add: assms)+

end

subsection \<open>Lists\<close>

context kv_safe begin

lemma safe_the_list [safe_rules]:
  "inv w \<Longrightarrow> (\<And>l. safe inv (f l w)) \<Longrightarrow> safe inv (and_then (the_list msg v w) f)"
  by (simp add: the_list_def split: option.split)

lemma list_reads_safe:
  assumes "inv w"
  shows "safe inv (handleLLen p w)" "safe inv (handleLIndex p w)" "safe inv (handleLRange p w)"
  unfolding handleLLen_def handleLIndex_def handleLRange_def unfold_handler
  by (intro safe_rules; simp add: assms)+

lemma list_writes_safe:
  assumes "inv w"
  shows "safe inv (handleLSet p w)" "safe inv (handleLRem p w)" "safe inv (handlePop p w)"
  unfolding handleLSet_def handleLRem_def handlePop_def unfold_handler
  by (intro safe_rules; simp add: assms)+

lemma lmove_left_left_inv [simp]: "inv w \<Longrightarrow> inv (lmove_left_left p source src dst w)"
  by (simp add: lmove_left_left_def split_beta)

lemma lmove_left_left_heap [simp]: "inv w \<Longrightarrow> heap (lmove_left_left p source src dst w) = heap w"
  by (simp add: lmove_left_left_def split_beta)

lemma two_lists:
  "gm_wf (AList.update k (VList a) [(j, VList b)])"
  "v \<in> snd ` set (AList.update k (VList a) [(j, VList b)]) \<Longrightarrow> value_ok h v"
  by (auto simp: gm_wf_def split: if_splits)

lemma handleLMove_safe: "inv w \<Longrightarrow> safe inv (handleLMove p w)"
  unfolding handleLMove_def unfold_handler by (intro safe_rules; simp add: two_lists del: AList.update.simps)

lemma push_handler_safe: "inv w \<Longrightarrow> safe inv (push_handler left xn xe te p w)"
  unfolding push_handler_def unfold_handler by (intro safe_rules safe_bind set_safe; simp)

text \<open>Where a key is deleted, its database exists.\<close>

lemma based_exists: "gm_bool (KeysExist p (Context p) ks w) k \<Longrightarrow> based w"
  by (rule based_entry [of _ k]) (simp add: exist)

lemma safe_get_one_based:
  assumes "inv w" "based w" "\<And>v w'. inv w' \<Longrightarrow> based w' \<Longrightarrow> value_ok (heap w') v \<Longrightarrow> safe inv (f v w')"
  shows "safe inv (and_then (get_one p k w) f)"
proof -
  obtain m w' where g: "GetValues p (Context p) [k] w = (Ok m, w')" "inv w'" "value_ok (heap w') (gm_value m k)"
    using get_values_ok [OF assms(1), of "[k]"] by metis
  then show ?thesis using assms(3) based_get [OF assms(1,2) g(1)] by (simp add: get_one_def)
qed

lemma safe_delete [safe_rules]:
  assumes "inv w" "based w" "\<And>w'. inv w' \<Longrightarrow> based w' \<Longrightarrow> safe inv (f () w')"
  shows "safe inv (and_then (DeleteKey p (Context p) k w) f)"
  using delete_based [OF assms(1,2), of k] assms(3) by auto

lemmas safe_rules_based = safe_if safe_option safe_value safe_get_one_based safe_the_list safe_set safe_delete safe_result

lemma handleLTrim_safe: "inv w \<Longrightarrow> safe inv (handleLTrim p w)"
  unfolding handleLTrim_def unfold_handler by (intro safe_rules_based; simp add: based_exists)

end

subsection \<open>Generic commands\<close>

context kv_safe begin

lemma print_one_safe [safe_rules]: "inv w \<Longrightarrow> safe inv (print_one p key w)"
  unfolding print_one_def by (intro safe_rules; simp)

lemma generic_reads_safe:
  assumes "inv w"
  shows "safe inv (handleGet p w)" "safe inv (handleMGet p w)" "safe inv (handleType p w)"
     "safe inv (handleObjFreq p w)" "safe inv (handleExpireTime p w)" "safe inv (handleTTL p w)"
  unfolding handleGet_def handleMGet_def handleType_def handleObjFreq_def handleExpireTime_def handleTTL_def unfold_handler
  by (intro safe_rules; simp add: assms)+

lemma counters_safe:
  assumes "inv w"
  shows "safe inv (handleIncr p w)" "safe inv (handleDecr p w)" "safe inv (handleIncrBy p w)" "safe inv (handleDecrBy p w)" "safe inv (handleIncrByFloat p w)"
  unfolding handleIncr_def handleDecr_def handleIncrBy_def handleDecrBy_def handleIncrByFloat_def counter_def unfold_handler
  by (intro safe_rules; simp add: assms)+

lemma handlePersist_safe: "inv w \<Longrightarrow> safe inv (handlePersist p w)"
  unfolding handlePersist_def unfold_handler by (intro safe_rules; simp)

lemma apply_expiry_safe [safe_rules]: "inv w \<Longrightarrow> safe inv (apply_expiry p key e t w)"
  unfolding apply_expiry_def unfold_handler
  by (auto intro!: safe_rules safe_bind expiry_safe split: option.split bool.split)

lemma expire_handlers_safe:
  assumes "inv w"
  shows "safe inv (handleExpire p w)" "safe inv (handleExpireAt p w)" "safe inv (handleGetex p w)"
  unfolding handleExpire_def handleExpireAt_def handleGetex_def unfold_handler
  by (intro safe_rules; simp add: assms)+

lemma handleGetdel_safe: "inv w \<Longrightarrow> safe inv (handleGetdel p w)"
  unfolding handleGetdel_def unfold_handler by (intro safe_rules_based; simp add: based_exists)

lemma handleRename_safe: "inv w \<Longrightarrow> safe inv (handleRename p w)"
proof -
  assume inv: "inv w"
  have "safe inv (and_then (SetValues p (Context p) [(new, v)] w1) (\<lambda>_ w2.
      and_then (DeleteKey p (Context p) old w2) (\<lambda>_ w3. (Ok OkResponse, w3))))"
    if "inv w1" "value_ok (heap w1) v" for new v old w1
  proof -
    have s: "safe inv (SetValues p (Context p) [(new, v)] w1)" by (rule set_safe) (use that in simp_all)
    show ?thesis
    proof (cases "SetValues p (Context p) [(new, v)] w1")
      case (Pair r w2)
      then show ?thesis
        using s by (cases r) (auto intro!: safe_delete dest: based_set)
    qed
  qed
  then show ?thesis
    unfolding handleRename_def unfold_handler using inv by (intro safe_if safe_get_one safe_result) auto
qed

lemma del_loop_safe: "inv w \<Longrightarrow> (\<exists>(k, e)\<in>set es. e) \<longrightarrow> based w \<Longrightarrow> safe inv (del_loop p es n w)"
proof (induction es arbitrary: n w)
  case (Cons x es)
  obtain k e where x: "x = (k, e)" by force
  show ?case
  proof (cases e)
    case True
    then obtain w' where "DeleteKey p (Context p) k w = (Ok (), w')" "inv w'" "based w'"
      using delete_based [of w k] Cons.prems x by auto
    then show ?thesis using Cons.IH [of w'] True by (simp add: x)
  qed (use Cons x in auto)
qed simp

lemma handleDel_safe: "inv w \<Longrightarrow> safe inv (handleDel p w)"
proof -
  assume inv: "inv w"
  have "safe inv (del_loop p (fst (go_range (KeysExist p (Context p) ks w) w)) 0 (snd (go_range (KeysExist p (Context p) ks w) w)))" for ks
  proof (rule del_loop_safe)
    show "(\<exists>(k, e)\<in>set (fst (go_range (KeysExist p (Context p) ks w) w)). e) \<longrightarrow>
        based (snd (go_range (KeysExist p (Context p) ks w) w))"
    proof
      assume "\<exists>(k, e)\<in>set (fst (go_range (KeysExist p (Context p) ks w) w)). e"
      then obtain k where "(k, True) \<in> set (KeysExist p (Context p) ks w)" by auto
      then have "gm_bool (KeysExist p (Context p) ks w) k" using exist_wf by (auto simp: gm_bool_def gm_wf_def)
      from based_exists [OF this] show "based (snd (go_range (KeysExist p (Context p) ks w) w))"
        by (subst based_world [of _ w]) simp_all
    qed
  qed (use inv in simp)
  then show ?thesis
    unfolding handleDel_def unfold_handler using inv by (intro safe_value safe_bind) simp_all
qed

lemma mset_entries_ok:
  "gm_wf m \<Longrightarrow> gm_wf (mset_entries ws m)"
  "(\<And>v. v \<in> snd ` set m \<Longrightarrow> value_ok h v) \<Longrightarrow> v \<in> snd ` set (mset_entries ws m) \<Longrightarrow> value_ok h v"
proof (induction ws m rule: mset_entries.induct)
  case (1 k x args m)
  { case 1 then show ?case using "1.IH"(1) by simp }
  { case 2
    have "value_ok h y" if "y \<in> snd ` set (AList.update k (AdaptType x) m)" for y
      using that 2(1) by (auto dest!: update_values)
    then show ?case using "1.IH"(2) 2 by simp }
qed auto

lemma generic_writes_safe:
  assumes "inv w"
  shows "safe inv (handleMSet p w)" "safe inv (handleTouch p w)" "safe inv (handleObjIdleTime p w)" "safe inv (handleRandomkey p w)"
  unfolding handleMSet_def handleTouch_def handleObjIdleTime_def handleRandomkey_def unfold_handler
  by (intro safe_rules safe_bind touch_safe idle_safe;
      (rule mset_entries_ok(2) [of "[]"])?; simp add: assms mset_entries_ok(1) random_inv)+

lemma handleSet_safe: "inv w \<Longrightarrow> safe inv (handleSet p w)"
  unfolding handleSet_def unfold_handler
  by (auto intro!: safe_rules safe_bind expiry_safe set_safe split: option.split)

end

subsection \<open>Sorted sets\<close>

lemma as_zset_ok: "value_ok hp v \<Longrightarrow> as_zset v = Some z \<Longrightarrow> gm_wf z"
  by (cases v) simp_all

lemma NewSortedSet_wf [simp]: "gm_wf (NewSortedSet ms)"
proof -
  have "gm_wf z \<Longrightarrow> gm_wf (fold (\<lambda>(v, x) z. AList.update v x z) ms z)" for z :: zset
    by (induction ms arbitrary: z) auto
  then show ?thesis by (simp add: NewSortedSet_def)
qed

lemma Z_Remove_wf [simp]: "gm_wf z \<Longrightarrow> gm_wf (fst (Z_Remove z v))"
  by (simp add: Z_Remove_def)

lemma add_member_wf: "gm_wf z \<Longrightarrow> gm_wf (fst (add_member policy cond ch z m))"
  by (cases m) (simp add: add_member_def)

lemma add_members_wf: "gm_wf z \<Longrightarrow> gm_wf (fst (add_members policy cond ch z n ms))"
  by (induction policy cond ch z n ms rule: add_members.induct) (auto simp: split_beta add_member_wf)

lemma add_members_snd: "add_members policy cond ch z n ms = (z', k) \<Longrightarrow> gm_wf z \<Longrightarrow> gm_wf z'"
  using add_members_wf by (metis fst_conv)

lemma AddOrUpdate_wf: "gm_wf z \<Longrightarrow> AddOrUpdate z ms u c ch i = Ok (z', n) \<Longrightarrow> gm_wf z'"
  unfolding AddOrUpdate_def incr_member_def
  by (auto simp: and_then_def split: res.splits if_splits list.splits prod.splits
      dest!: add_members_snd)

lemma remove_members_wf [simp]: "gm_wf z \<Longrightarrow> gm_wf (fst (remove_members vs z n))"
  by (induction vs z n rule: remove_members.induct) (simp_all add: split_beta)

lemma remove_all_wf [simp]: "gm_wf z \<Longrightarrow> gm_wf (remove_all vs z)"
  unfolding remove_all_def by (induction vs arbitrary: z) simp_all

lemma Z_Subtract_wf [simp]: "gm_wf (Z_Subtract z others)"
proof -
  have "gm_wf r \<Longrightarrow> gm_wf (fold (\<lambda>(v, x) r. if Z_Contains r v then fst (Z_Remove r v) else r) other r)" for other r
    by (induction other arbitrary: r) auto
  then have "gm_wf r \<Longrightarrow> gm_wf (fold (\<lambda>other res.
      fold (\<lambda>(v, x) r. if Z_Contains r v then fst (Z_Remove r v) else r) other res) others r)" for r
    by (induction others arbitrary: r) auto
  then show ?thesis by (simp add: Z_Subtract_def)
qed

lemma Z_Union_wf [simp]: "gm_wf (Z_Union agg ps)"
  by (subst Z_Union.simps) (simp split: list.split)

lemma Z_Intersect_wf [simp]: "gm_wf (Z_Intersect agg ps)"
  by (subst Z_Intersect.simps) (simp split: list.split)

lemma Z_Pop_wf: "gm_wf z \<Longrightarrow> Z_Pop z n policy w = (Ok (popped, z'), w') \<Longrightarrow> gm_wf z'"
proof -
  have "gm_wf z \<Longrightarrow> gm_wf (fold (\<lambda>(v, x) r. fst (Z_Remove r v)) ms z)" for ms
    by (induction ms arbitrary: z) auto
  then show "gm_wf z \<Longrightarrow> Z_Pop z n policy w = (Ok (popped, z'), w') \<Longrightarrow> gm_wf z'"
    by (auto simp: Z_Pop_def split_beta Let_def split: if_splits)
qed

context kv_safe begin

lemma Z_GetAll_inv [simp]: "inv w \<Longrightarrow> inv (snd (Z_GetAll z w))" "heap (snd (Z_GetAll z w)) = heap w"
  by (simp_all add: Z_GetAll_def)

lemma Z_GetRandom_inv [simp]: "inv w \<Longrightarrow> inv (snd (Z_GetRandom z n w))"
  by (simp add: Z_GetRandom_def split_beta Let_def)

lemma safe_read_zset [safe_rules]:
  assumes "inv w" "\<And>z w'. inv w' \<Longrightarrow> gm_wf z \<Longrightarrow> safe inv (f z w')"
  shows "safe inv (and_then (read_zset p key msg w) f)"
proof -
  obtain m w' where g: "GetValues p (Context p) [key] w = (Ok m, w')" "inv w'" "value_ok (heap w') (gm_value m key)"
    using get_values_ok [OF assms(1), of "[key]"] by metis
  then show ?thesis
    using assms(2) by (auto simp: read_zset_def get_one_def the_zset_def as_zset_ok split: option.split)
qed

lemma zset_reads_safe:
  assumes "inv w"
  shows "safe inv (handleZCARD p w)" "safe inv (handleZCOUNT p w)" "safe inv (handleZLEXCOUNT p w)"
    "safe inv (handleZMSCORE p w)" "safe inv (handleZRANDMEMBER p w)" "safe inv (handleZRANK p w)"
    "safe inv (handleZSCORE p w)" "safe inv (handleZRANGE p w)"
  unfolding handleZCARD_def handleZCOUNT_def handleZLEXCOUNT_def handleZMSCORE_def handleZRANDMEMBER_def
    handleZRANK_def handleZSCORE_def handleZRANGE_def unfold_handler
  by (intro safe_rules; simp add: assms)+

lemma zset_ranges_safe:
  assumes "inv w"
  shows "safe inv (handleZRANGESTORE p w)" "safe inv (handleZREM p w)" "safe inv (handleZREMRANGEBYSCORE p w)"
    "safe inv (handleZREMRANGEBYRANK p w)" "safe inv (handleZREMRANGEBYLEX p w)"
  unfolding handleZRANGESTORE_def handleZREM_def handleZREMRANGEBYSCORE_def handleZREMRANGEBYRANK_def
    handleZREMRANGEBYLEX_def remove_chosen_def unfold_handler
  by (intro safe_rules; simp add: assms)+

lemma zset_algebra_safe:
  assumes "inv w"
  shows "safe inv (handleZINTER p w)" "safe inv (handleZINTERSTORE p w)" "safe inv (handleZUNION p w)"
    "safe inv (handleZUNIONSTORE p w)"
  unfolding handleZINTER_def handleZINTERSTORE_def handleZUNION_def handleZUNIONSTORE_def store_zset_def unfold_handler
  by (intro safe_rules; simp add: assms)+

lemma other_zsets_safe: "inv w \<Longrightarrow> safe inv (other_zsets p e ks w)"
proof (induction ks arbitrary: w)
  case (Cons k ks)
  show ?case
    using Cons by (auto intro!: safe_read_zset [OF _ safe_bind])
qed simp

lemma safe_zdiff [safe_rules]:
  assumes "inv w" "\<And>d w'. inv w' \<Longrightarrow> gm_wf d \<Longrightarrow> safe inv (f d w')"
  shows "safe inv (and_then (zdiff_of p e ks w) f)"
  unfolding zdiff_of_def and_then_assoc using assms by (auto intro!: safe_read_zset [OF _ safe_bind] other_zsets_safe)

lemma zset_difference_safe:
  assumes "inv w"
  shows "safe inv (handleZDIFF p w)" "safe inv (handleZDIFFSTORE p w)"
  unfolding handleZDIFF_def handleZDIFFSTORE_def unfold_handler
  by (intro safe_rules; simp add: assms)+

lemma pop_from_safe:
  assumes "inv w" "gm_wf z"
  shows "safe inv (pop_from p k z cnt policy w)"
proof -
  have "inv (snd (Z_Pop z cnt policy w))" "heap (snd (Z_Pop z cnt policy w)) = heap w"
    using assms(1) by (simp_all add: Z_Pop_def split_beta Let_def)
  then show ?thesis
    using Z_Pop_wf [OF assms(2), of cnt policy w]
    by (cases "Z_Pop z cnt policy w"; cases "fst (Z_Pop z cnt policy w)")
      (auto simp: pop_from_def split_beta Let_def)
qed

lemma zmpop_loop_safe: "inv w \<Longrightarrow> safe inv (zmpop_loop p e cnt policy ks p' w)"
proof (induction ks arbitrary: w)
  case (Cons k ks)
  then show ?case
    by (auto intro!: safe_get_one safe_option pop_from_safe dest: as_zset_ok)
qed simp

lemma zset_pops_safe:
  assumes "inv w"
  shows "safe inv (handleZMPOP p w)" "safe inv (handleZPOP p w)"
  unfolding handleZMPOP_def handleZPOP_def unfold_handler
  by (intro safe_rules zmpop_loop_safe pop_from_safe; simp add: assms)+

lemma safe_add_or_update [safe_rules]:
  assumes "inv w" "gm_wf z" "\<And>z' n. gm_wf z' \<Longrightarrow> safe inv (f (z', n) w)"
  shows "safe inv (and_then (AddOrUpdate z ms u c ch i, w) f)"
  using assms AddOrUpdate_wf [OF assms(2)] by (auto intro!: safe_value)

lemma zset_updates_safe:
  assumes "inv w"
  shows "safe inv (handleZADD p w)" "safe inv (handleZINCRBY p w)"
  unfolding handleZADD_def handleZINCRBY_def Let_def
  by (intro safe_rules; simp add: assms)+

end

subsection \<open>Sets\<close>

lemma inter_loop_wf: "set_wf acc \<Longrightarrow> set_wf (fst (inter_loop limit b ms acc))"
  by (induction limit b ms acc rule: inter_loop.induct) (simp_all add: Set_Add_wf)

lemma Set_GetAll_heap [simp]: "heap (snd (Set_GetAll s w)) = heap w"
  by (simp add: Set_GetAll_def)

lemma Set_GetRandom_heap [simp]: "heap (snd (Set_GetRandom s n w)) = heap w"
  by (simp add: Set_GetRandom_def split_beta Let_def split: option.split)

context kv_safe begin

lemma inv_alloc [simp]: "inv w \<Longrightarrow> set_wf s \<Longrightarrow> inv (snd (alloc s w))"
  by (rule inv_world [OF _ heap_wf_alloc [OF inv_heap_wf]]) (auto simp: alloc_def live_def)

lemma inv_put [simp]: "inv w \<Longrightarrow> heap w a = Some t \<Longrightarrow> set_wf s \<Longrightarrow> inv (put_set a s w)"
  by (rule inv_world [OF _ heap_wf_put [OF inv_heap_wf]]) (auto simp: live_def)

lemma Set_GetAll_inv [simp]: "inv w \<Longrightarrow> inv (snd (Set_GetAll s w))"
  by (simp add: Set_GetAll_def)

lemma safe_deref [safe_rules]:
  "inv w \<Longrightarrow> (\<And>s. heap w a = Some s \<Longrightarrow> set_wf s \<Longrightarrow> safe inv (f s)) \<Longrightarrow> safe inv (deref_set a w f)"
  using heap_wfD [OF inv_heap_wf] by (auto simp: deref_set_def split: option.split)

lemma safe_the_set [safe_rules]:
  "inv w \<Longrightarrow> (\<And>a. safe inv (f a w)) \<Longrightarrow> safe inv (and_then (the_set msg v w) f)"
  by (simp add: the_set_def split: option.split)

text \<open>Storing a pointer: a dangling one panics before the store is changed for good.\<close>

lemma safe_set_pointer:
  assumes "inv w" "\<And>w'. inv w' \<Longrightarrow> safe inv (f () w')"
  shows "safe inv (and_then (SetValues p (Context p) [(k, VSet a)] w) f)"
proof (rule safe_bind)
  show "safe inv (SetValues p (Context p) [(k, VSet a)] w)"
  proof (cases "heap w a")
    case None
    then show ?thesis by (rule set_dangling [OF assms(1)])
  next
    case (Some s)
    then show ?thesis by (intro set_safe assms(1)) (simp_all add: value_ok_def)
  qed
qed (use assms(2) in simp)

lemma handleSADD_safe: "inv w \<Longrightarrow> safe inv (handleSADD p w)"
  unfolding handleSADD_def unfold_handler
  by (intro safe_if safe_value safe_get_one safe_the_set safe_deref safe_set_pointer safe_result; simp add: Set_Add_wf)

lemma set_reads_safe:
  assumes "inv w"
  shows "safe inv (handleSCARD p w)" "safe inv (handleSISMEMBER p w)" "safe inv (handleSMEMBERS p w)"
    "safe inv (handleSMISMEMBER p w)"
  unfolding handleSCARD_def handleSISMEMBER_def handleSMEMBERS_def handleSMISMEMBER_def unfold_handler
  by (intro safe_rules; simp add: assms)+

lemma handleSREM_safe: "inv w \<Longrightarrow> safe inv (handleSREM p w)"
  unfolding handleSREM_def unfold_handler by (intro safe_rules; simp add: Set_Remove_wf)

lemma Set_GetRandom_inv [simp]: "inv w \<Longrightarrow> inv (snd (Set_GetRandom s n w))"
  by (simp add: Set_GetRandom_def split_beta Let_def split: option.split)

lemma handleSRANDMEMBER_safe: "inv w \<Longrightarrow> safe inv (handleSRANDMEMBER p w)"
proof -
  have "safe inv (Set_GetRandom s n w)" if "inv w" for s n w
    using that by (metis safe_result surjective_pairing Set_GetRandom_inv)
  then show "inv w \<Longrightarrow> safe inv (handleSRANDMEMBER p w)"
    unfolding handleSRANDMEMBER_def unfold_handler
    by (intro safe_if safe_value safe_get_one safe_the_set safe_deref safe_result safe_bind; simp)
qed

lemma handleSPOP_safe: "inv w \<Longrightarrow> safe inv (handleSPOP p w)"
proof -
  have "safe inv (and_then (Set_Pop s n w) (\<lambda>x w3. (Ok (elems_reply (fst x)), put_set a (snd x) w3)))"
    if "inv w" "heap w a = Some s" "set_wf s" for s n w a
  proof -
    have "inv (snd (Set_GetRandom s n w))" "heap (snd (Set_GetRandom s n w)) a = Some s" using that by simp_all
    then show ?thesis
      using that(3)
      by (cases "Set_GetRandom s n w"; cases "fst (Set_GetRandom s n w)")
        (simp_all add: Set_Pop_def Set_Remove_wf)
  qed
  then show "inv w \<Longrightarrow> safe inv (handleSPOP p w)"
    unfolding handleSPOP_def unfold_handler
    by (intro safe_if safe_value safe_get_one safe_the_set safe_deref safe_result; simp)
qed

lemma handleSMOVE_safe: "inv w \<Longrightarrow> safe inv (handleSMOVE p w)"
proof -
  have "safe inv (Set_Move a b e w)" if "inv w" for a b e w
    unfolding Set_Move_def unfold_handler using that
    by (intro safe_deref safe_if safe_result; auto intro!: inv_put Set_Remove_wf Set_Add_wf)
  then show "inv w \<Longrightarrow> safe inv (handleSMOVE p w)"
    unfolding handleSMOVE_def unfold_handler
    by (intro safe_if safe_value safe_get safe_the_set safe_result safe_bind; simp)
qed

lemma collect_sets_safe: "inv w \<Longrightarrow> safe inv (collect_sets p ks w)"
proof (induction ks arbitrary: w)
  case (Cons k ks)
  then show ?case by (auto intro!: safe_get_one [OF _ safe_bind])
qed simp

lemma safe_sdiff:
  assumes "inv w" "\<And>d w'. inv w' \<Longrightarrow> set_wf d \<Longrightarrow> safe inv (f d w')"
  shows "safe inv (and_then (sdiff_of p e base others w) f)"
proof -
  have sub: "safe inv (and_then (subtract_sets a as w1) f)" if "inv w1" for a as w1
  proof -
    have "safe inv (and_then (Ok (fst (Set_Subtract s ss w1)), snd (Set_Subtract s ss w1)) f)"
      if s: "set_wf s" for s ss
    proof -
      have "inv (snd (Set_Subtract s ss w1))"
        using Set_Subtract_spec(3,4) [OF s, where ss = ss and w = w1] inv_heap_wf [OF \<open>inv w1\<close>]
        by (intro inv_world [OF \<open>inv w1\<close>]) (auto simp: extends_def live_def)
      then show ?thesis using assms(2) Set_Subtract_spec(2) [OF s, where ss = ss and w = w1] by simp
    qed
    then show ?thesis
      using heap_wfD [OF inv_heap_wf [OF that]] by (auto simp: subtract_sets_def deref_set_def split_beta split: option.split)
  qed
  show ?thesis
    unfolding sdiff_of_def using assms(1)
    by (auto simp: and_then_assoc intro!: safe_get_one safe_the_set safe_bind [OF collect_sets_safe] sub)
qed

lemma set_difference_safe:
  assumes "inv w"
  shows "safe inv (handleSDIFF p w)" "safe inv (handleSDIFFSTORE p w)"
  unfolding handleSDIFF_def handleSDIFFSTORE_def unfold_handler
  by (intro safe_value safe_sdiff safe_set_pointer safe_result; simp add: assms)+

lemma inter_sets_safe: "inv w \<Longrightarrow> safe inv (inter_sets p es w)"
proof (induction es arbitrary: w)
  case (Cons x es)
  then show ?case by (cases x) (auto intro!: safe_get_one [OF _ safe_the_set [OF _ safe_bind]])
qed simp

lemma few_sets:
  obtains "sets = []" | a where "sets = [a]" | a b where "sets = [a, b]" | "2 < length sets"
  by (cases sets; cases "tl sets"; cases "tl (tl sets)") auto

lemma Intersection_two_safe: "inv w \<Longrightarrow> safe inv (Intersection limit [a, b] w)"
  unfolding Intersection_two unfold_handler by (intro safe_deref safe_result; simp add: inter_loop_wf)

lemma Intersection_safe: "inv w \<Longrightarrow> safe inv (Intersection limit sets w)"
proof (induction "length sets" arbitrary: sets w rule: less_induct)
  case less
  show ?case
  proof (cases rule: few_sets [of sets])
    case 4
    note h = take_drop_halves(1,2) [OF 4]
    show ?thesis
      unfolding Intersection_more [OF 4] unfold_handler
      by (intro safe_bind safe_if safe_result less.hyps [OF h(1)] less.hyps [OF h(2)] Intersection_two_safe)
        (simp_all add: less.prems)
  qed (use less.prems in \<open>simp_all add: Intersection_none Intersection_one Intersection_two_safe\<close>)
qed

lemma Union_two_safe: "inv w \<Longrightarrow> safe inv (Union [a, b] w)"
  unfolding Union_two unfold_handler by (intro safe_deref safe_result) (auto intro!: inv_put Set_Add_wf)

lemma Union_safe: "inv w \<Longrightarrow> safe inv (Union sets w)"
proof (induction "length sets" arbitrary: sets w rule: less_induct)
  case less
  show ?case
  proof (cases rule: few_sets [of sets])
    case 4
    note h = take_drop_halves(1,2) [OF 4]
    show ?thesis
      unfolding Union_more [OF 4]
      by (intro safe_bind less.hyps [OF h(1)] less.hyps [OF h(2)] Union_two_safe) (simp_all add: less.prems)
  qed (use less.prems in \<open>simp_all add: Union_none Union_one Union_two_safe\<close>)
qed

lemma inter_collect_safe: "inv w \<Longrightarrow> safe inv (inter_collect p ks w)"
  by (simp add: inter_collect_def split_beta inter_sets_safe)

lemma set_intersections_safe:
  assumes "inv w"
  shows "safe inv (handleSINTER p w)" "safe inv (handleSINTERCARD p w)" "safe inv (handleSINTERSTORE p w)"
  unfolding handleSINTER_def handleSINTERCARD_def handleSINTERSTORE_def unfold_handler
  by (intro safe_value safe_set_pointer safe_bind [OF inter_collect_safe] safe_bind [OF inter_sets_safe]
      safe_bind [OF Intersection_safe] safe_option safe_if safe_deref safe_result; simp add: assms)+

lemma union_of_safe: "inv w \<Longrightarrow> safe inv (union_of p ks w)"
proof -
  have "inv w \<Longrightarrow> safe inv (union_sets es w)" for es :: "(string \<times> go_value) list" and w
  proof (induction es arbitrary: w)
    case (Cons x es)
    then show ?case by (cases x) (auto intro!: safe_the_set [OF _ safe_bind])
  qed simp
  then show "inv w \<Longrightarrow> safe inv (union_of p ks w)"
    unfolding union_of_def split_beta Let_def by (auto intro!: safe_get [OF _ safe_bind] Union_safe)
qed

lemma set_unions_safe:
  assumes "inv w"
  shows "safe inv (handleSUNION p w)" "safe inv (handleSUNIONSTORE p w)"
  unfolding handleSUNION_def handleSUNIONSTORE_def unfold_handler
  by (intro safe_value safe_set_pointer safe_bind [OF union_of_safe] safe_deref safe_result; simp add: assms)+

end

subsection \<open>Access control, connections, administration, publish and subscribe\<close>

lemma getUnauthorized_frames [simp]: "frames w (snd (getUnauthorized ms tag w))"
  by (simp add: frames_def getUnauthorized_def split_beta)

lemma frames_refl [simp]: "frames w w"
  by (simp add: frames_def)

lemma frames_branches:
  "frames w (snd x) \<Longrightarrow> frames w (snd y) \<Longrightarrow> frames w (snd (if b then x else y))"
  "frames w (snd x) \<Longrightarrow> (\<And>c. frames w (snd (f c))) \<Longrightarrow> frames w (snd (case z of None \<Rightarrow> x | Some c \<Rightarrow> f c))"
  by (auto split: option.split)

lemma authorize_user_frames [simp]: "frames w (snd (authorize_user a u comm cats k cmd w))"
  unfolding authorize_user_def Let_def split_beta by (intro frames_branches) simp_all

lemma authorization_frames: "frames w (snd (AuthorizeConnection a conn cmd c sub w))"
proof (cases "KeyExtractionFunc c cmd")
  case (Ok k)
  show ?thesis
  proof (cases "case sub of None \<Rightarrow> Ok k | Some sc \<Rightarrow> SubKeyExtractionFunc sc cmd")
    case (Ok k')
    then show ?thesis
      using \<open>KeyExtractionFunc c cmd = Ok k\<close> by (simp add: AuthorizeConnection_def Let_def split: option.split)
  qed (use Ok in \<open>simp_all add: AuthorizeConnection_def Let_def\<close>)
qed (simp_all add: AuthorizeConnection_def Let_def)

lemma Merge_frame: "frames w (snd (Merge u new w))"
  unfolding Merge_def by (rule Normalise_frame(1))

lemma load_all_frames: "frames w (snd (load_all merge us a w))"
proof (induction us arbitrary: a w)
  case (Cons u us)
  have "frames w (snd (load_user merge u a w))"
    by (simp add: load_user_def split_beta Let_def Normalise_frame frames_trans [OF Normalise_frame(1) Merge_frame]
        split: option.split)
  from frames_trans [OF this Cons.IH] show ?case by (simp add: split_beta)
qed simp

context kv_safe begin

lemma inv_frames: "frames w w' \<Longrightarrow> inv w \<Longrightarrow> inv w'"
  using inv_same by (simp add: frames_def)

lemma acl_reads_safe:
  assumes "inv w"
  shows "safe inv (handleCat p w)" "safe inv (handleUsers p w)" "safe inv (handleGetUser p w)" "safe inv (handleWhoAmI p w)"
    "safe inv (handleList p w)" "safe inv (handleSave p w)"
  unfolding handleCat_def handleUsers_def handleGetUser_def handleWhoAmI_def handleList_def handleSave_def unfold_handler
  by (intro safe_rules; simp add: assms)+

lemma SetUser_safe: "inv w \<Longrightarrow> safe inv (SetUser l cmd a w)"
  unfolding SetUser_def unfold_handler
  by (intro safe_rules; simp add: inv_frames [OF Normalise_frame(1)])

lemma acl_writes_safe:
  assumes "inv w"
  shows "safe inv (handleSetUser p w)" "safe inv (handleDelUser p w)" "safe inv (handleLoad p w)"
proof -
  show "safe inv (handleSetUser p w)"
    unfolding handleSetUser_def using assms by (intro safe_bind SetUser_safe) (simp_all add: acl_inv)
  show "safe inv (handleDelUser p w)"
    unfolding handleDelUser_def by (intro safe_rules; simp add: assms acl_inv)
  show "safe inv (handleLoad p w)"
    unfolding handleLoad_def unfold_handler
    by (intro safe_rules; simp add: assms acl_inv inv_frames [OF load_all_frames])
qed

lemma handleHello_safe: "inv w \<Longrightarrow> safe inv (handleHello p w)"
proof -
  have "safe inv (hello_login auth p w)" if "inv w" for auth w
    unfolding hello_login_def split_beta by (intro safe_rules; simp add: that acl_inv)
  then show "inv w \<Longrightarrow> safe inv (handleHello p w)"
    unfolding handleHello_def unfold_handler
    by (intro safe_if safe_value safe_result safe_bind; simp add: connection_inv)
qed

lemma connection_handlers_safe:
  assumes "inv w"
  shows "safe inv (handleAuth p w)" "safe inv (handlePing p w)" "safe inv (handleEcho p w)"
    "safe inv (handleSelect p w)" "safe inv (handleSwapDB p w)"
proof -
  show "safe inv (handleAuth p w)" "safe inv (handleSelect p w)" "safe inv (handleSwapDB p w)"
    unfolding handleAuth_def handleSelect_def handleSwapDB_def unfold_handler
    by (intro safe_rules; simp add: assms acl_inv connection_inv swap_inv)+
qed (simp_all add: handlePing_def handleEcho_def assms split: list.split)

lemma admin_handlers_safe:
  assumes "inv w"
  shows "safe inv (handleCommandDocs p w)" "safe inv (handleCommandCount p w)" "safe inv (handleCommandList p w)"
    "safe inv (handleAdminSave p w)" "safe inv (handleLastSave p w)" "safe inv (handleRewriteAOF p w)"
    "safe inv (handleModuleLoad p w)" "safe inv (handleModuleUnload p w)" "safe inv (handleModuleList p w)"
  unfolding handleCommandDocs_def handleCommandCount_def handleCommandList_def handleAdminSave_def
    handleLastSave_def handleRewriteAOF_def handleModuleLoad_def handleModuleUnload_def handleModuleList_def unfold_handler
  by (intro safe_if safe_result safe_bind snapshot_safe rewrite_safe load_safe; simp add: assms unload_inv)+

lemma pubsub_handlers_safe:
  assumes "inv w"
  shows "safe inv (handleSubscribe p w)" "safe inv (handleUnsubscribe p w)" "safe inv (handlePublish p w)"
    "safe inv (handlePubSubChannels p w)" "safe inv (handlePubSubNumPat p w)" "safe inv (handlePubSubNumSubs p w)"
    "safe inv (pubsub_handler p w)"
proof -
  have "safe inv (PS_Unsubscribe l conn names wp ps w)" if "inv w" for l conn names wp ps w
    unfolding PS_Unsubscribe_def unfold_handler by (intro safe_rules; simp add: that)
  then show "safe inv (handleUnsubscribe p w)"
    unfolding handleUnsubscribe_def split_beta by (intro safe_bind safe_result; simp add: assms pubsub_inv)
qed (auto simp: handleSubscribe_def handlePublish_def handlePubSubChannels_def handlePubSubNumPat_def
  handlePubSubNumSubs_def pubsub_handler_def unfold_handler pubsub_inv assms intro!: safe_rules)

lemma no_handler_safe: "safe inv (no_handler p w)"
  by (simp add: no_handler_def)

end

subsection \<open>The command tables\<close>

context kv_safe begin

text \<open>A command keeps the invariant: by its own handler and by those of its subcommands.\<close>

definition keeps :: "'s command \<Rightarrow> bool" where
  "keeps c \<longleftrightarrow> (\<forall>w. inv w \<longrightarrow> safe inv (HandlerFunc c p w)) \<and>
     (\<forall>sc\<in>set (SubCommands c). \<forall>w. inv w \<longrightarrow> safe inv (SubHandlerFunc sc p w))"

lemma keeps_mk [simp]: "keeps (mk_command name md cats sync kf h) \<longleftrightarrow> (\<forall>w. inv w \<longrightarrow> safe inv (h p w))"
  by (simp add: keeps_def mk_command_def)

lemma set_commands_keep: "list_all keeps set_commands"
  by (simp add: set_commands_def handleSADD_safe set_reads_safe set_difference_safe set_intersections_safe
      handleSMOVE_safe handleSPOP_safe handleSRANDMEMBER_safe handleSREM_safe set_unions_safe)

lemma list_commands_keep: "list_all keeps list_commands"
  by (simp add: list_commands_def handleLPush_def handleRPush_def list_reads_safe list_writes_safe
      handleLTrim_safe handleLMove_safe push_handler_safe safe_value)

lemma hash_commands_keep: "list_all keeps hash_commands"
  by (simp add: hash_commands_def hash_reads_safe handleHSET_safe handleHRANDFIELD_safe handleHINCRBY_safe handleHDEL_safe)

lemma string_commands_keep: "list_all keeps string_commands"
  by (simp add: string_commands_def string_handlers_safe)

lemma sortedset_commands_keep: "list_all keeps sortedset_commands"
  by (simp add: sortedset_commands_def zset_command_def zset_reads_safe zset_ranges_safe zset_algebra_safe
      zset_difference_safe zset_pops_safe zset_updates_safe)

lemma generic_commands_keep: "list_all (\<lambda>c. CommandName c \<in> {''flushall'', ''flushdb''} \<or> keeps c) generic_commands"
  by (simp add: generic_commands_def mk_command_def keeps_def handleSet_safe generic_reads_safe generic_writes_safe
      handleDel_safe handlePersist_safe expire_handlers_safe counters_safe handleRename_safe handleGetdel_safe)

lemma pubsub_commands_keep: "list_all keeps pubsub_commands"
  by (simp add: pubsub_commands_def keeps_def mk_command_def pubsub_sub_def pubsub_handlers_safe)

lemma acl_commands_keep: "list_all keeps acl_commands"
  by (simp add: acl_commands_def keeps_def acl_sub_def no_handler_safe acl_reads_safe acl_writes_safe)

lemma connection_commands_keep: "list_all keeps connection_commands"
  by (simp add: connection_commands_def no_key_command_def connection_handlers_safe handleHello_safe)

lemma admin_commands_keep: "list_all keeps admin_commands"
  by (simp add: admin_commands_def keeps_def no_key_command_def mk_command_def admin_parent_def admin_sub_def
      no_handler_safe admin_handlers_safe)

end

end
