(* ===== verification/ZSetSpecs.thy ===== *)
theory ZSetSpecs
  imports HandlerSafety HashSpecs
begin

text \<open>
  What the sorted set commands do: the members and scores of unions and intersections of any number of
  weighted sets, which the code computes by halving the list of them, and what a pop takes out.
\<close>

subsection \<open>Sorted sets as maps\<close>

lemma fold_update_map:
  "map_of (fold (\<lambda>(v, x) z. AList.update v x z) ms z) = map_of z ++ map_of (rev ms)"
  by (induction ms arbitrary: z) (auto simp: map_add_def fun_eq_iff split: option.split)

lemma NewSortedSet_map:
  assumes "gm_wf ms"
  shows "map_of (NewSortedSet ms) = map_of ms"
proof -
  have "map_of (rev ms) = map_of ms"
    using assms map_of_inject_set [of "rev ms" ms] by (simp add: gm_wf_def rev_map [symmetric])
  then show ?thesis by (simp add: NewSortedSet_def fold_update_map)
qed

lemma weigh_map: "map_of (weigh p) v = map_option (\<lambda>x. f_mul x (float_of_int (snd p))) (map_of (fst p) v)"
  by (simp add: weigh_def map_of_map [unfolded comp_def] split_beta)

lemma weigh_wf [simp]: "gm_wf (weigh p) = gm_wf (fst p)"
  by (simp add: gm_wf_def weigh_def split_beta comp_def)

definition merged :: "string \<Rightarrow> float64 option \<Rightarrow> float64 option \<Rightarrow> float64 option" where
  "merged agg x y =
     (case x of None \<Rightarrow> y
      | Some a \<Rightarrow> Some (case y of None \<Rightarrow> a | Some b \<Rightarrow> aggregate_scores agg a b))"

lemma map_of_filter_not: "map_of (filter (\<lambda>(v, x). v \<notin> A) r) v = (if v \<in> A then None else map_of r v)"
  by (induction r) auto

lemma union_params_map:
  "map_of (union_params agg l r) v = merged agg (map_of l v) (map_of r v)"
proof -
  have "map_of (map (\<lambda>(v, x). (v, if Z_Contains r v then aggregate_scores agg x (Z_Score r v) else x)) l) v =
      map_option (\<lambda>x. if Z_Contains r v then aggregate_scores agg x (Z_Score r v) else x) (map_of l v)"
    by (induction l) auto
  moreover have "v \<in> fst ` set l \<longleftrightarrow> map_of l v \<noteq> None" by (auto simp: map_of_eq_None_iff)
  ultimately show ?thesis
    by (simp add: union_params_def map_add_def map_of_filter_not merged_def Z_Contains_def Z_Score_def split: option.split)
qed

lemma union_params_wf: "gm_wf l \<Longrightarrow> gm_wf r \<Longrightarrow> gm_wf (union_params agg l r)"
  by (auto simp: gm_wf_def union_params_def comp_def split_beta distinct_map_filter image_iff)

lemma inter_params_map:
  "map_of (inter_params agg l r) v =
     (case (map_of l v, map_of r v) of (Some x, Some y) \<Rightarrow> Some (aggregate_scores agg x y) | _ \<Rightarrow> None)"
proof -
  have "map_of (inter_params agg l r) v =
      (if Z_Contains r v then map_option (\<lambda>x. aggregate_scores agg x (Z_Score r v)) (map_of l v) else None)"
    unfolding inter_params_def by (induction l) auto
  then show ?thesis by (simp add: Z_Contains_def Z_Score_def split: option.split)
qed

lemma inter_params_wf: "gm_wf l \<Longrightarrow> gm_wf (inter_params agg l r)"
  by (auto simp: gm_wf_def inter_params_def comp_def split_beta distinct_map_filter)

subsection \<open>Unions and intersections of any number of sets\<close>

text \<open>The weighted scores of a member in the sets that have it.\<close>

definition scores_in :: "(zset \<times> int) list \<Rightarrow> string \<Rightarrow> float64 set" where
  "scores_in ps v = {x. \<exists>p\<in>set ps. map_of (weigh p) v = Some x}"

definition well_formed :: "(zset \<times> int) list \<Rightarrow> bool" where
  "well_formed ps \<longleftrightarrow> list_all (\<lambda>p. gm_wf (fst p)) ps"

lemma halves: "set ps = set (take n ps) \<union> set (drop n ps)"
  by (metis append_take_drop_id set_append)

lemma scores_in_halves: "scores_in ps v = scores_in (take n ps) v \<union> scores_in (drop n ps) v"
  using halves [of ps n] by (auto simp: scores_in_def)

lemma well_formed_halves: "well_formed ps \<Longrightarrow> well_formed (take n ps) \<and> well_formed (drop n ps)"
  using halves [of ps n] by (auto simp: well_formed_def list_all_iff)

text \<open>
  Whatever holds of one weighted set and passes from two halves to the merge of them holds of the
  result, however the list is halved.
\<close>

definition both_scores :: "string \<Rightarrow> float64 option \<Rightarrow> float64 option \<Rightarrow> float64 option" where
  "both_scores agg x y = (case (x, y) of (Some a, Some b) \<Rightarrow> Some (aggregate_scores agg a b) | _ \<Rightarrow> None)"

lemma Z_Union_split:
  "2 < length ps \<Longrightarrow> Z_Union agg ps =
     NewSortedSet (union_params agg (Z_Union agg (take (length ps div 2) ps)) (Z_Union agg (drop (length ps div 2) ps)))"
  by (cases ps; cases "tl ps"; cases "tl (tl ps)") (simp_all add: Z_Union.simps [of agg "_ # _ # _ # _"])

lemma Z_Intersect_split:
  "2 < length ps \<Longrightarrow> Z_Intersect agg ps =
     NewSortedSet (inter_params agg (Z_Intersect agg (take (length ps div 2) ps)) (Z_Intersect agg (drop (length ps div 2) ps)))"
  by (cases ps; cases "tl ps"; cases "tl (tl ps)") (simp_all add: Z_Intersect.simps [of agg "_ # _ # _ # _"])

lemma Z_Union_one: "Z_Union agg [a] = NewSortedSet (weigh a)"
  by (subst Z_Union.simps) simp

lemma Z_Union_two: "Z_Union agg [a, b] = NewSortedSet (union_params agg (weigh a) (weigh b))"
  by (subst Z_Union.simps) simp

lemma Z_Intersect_one: "Z_Intersect agg [a] = NewSortedSet (weigh a)"
  by (subst Z_Intersect.simps) simp

lemma Z_Intersect_two: "Z_Intersect agg [a, b] = NewSortedSet (inter_params agg (weigh a) (weigh b))"
  by (subst Z_Intersect.simps) simp

lemma Z_Union_halving:
  assumes one: "\<And>a. P [a] (map_of (weigh a))"
    and two: "\<And>l r f g. P l f \<Longrightarrow> P r g \<Longrightarrow> P (l @ r) (\<lambda>v. merged agg (f v) (g v))"
    and "well_formed ps" "ps \<noteq> []"
  shows "P ps (map_of (Z_Union agg ps))"
  using assms(3,4)
proof (induction ps rule: length_induct)
  case (1 ps)
  let ?l = "take (length ps div 2) ps" and ?r = "drop (length ps div 2) ps"
  show ?case
  proof (cases "2 < length ps")
    case True
    then have "P ?l (map_of (Z_Union agg ?l))" "P ?r (map_of (Z_Union agg ?r))"
      using 1 well_formed_halves [of ps "length ps div 2"] by auto
    then have "P (?l @ ?r) (\<lambda>v. merged agg (map_of (Z_Union agg ?l) v) (map_of (Z_Union agg ?r) v))"
      by (rule two)
    moreover have "map_of (Z_Union agg ps) = (\<lambda>v. merged agg (map_of (Z_Union agg ?l) v) (map_of (Z_Union agg ?r) v))"
      by (simp add: Z_Union_split [OF True] NewSortedSet_map union_params_wf union_params_map fun_eq_iff)
    ultimately show ?thesis by simp
  next
    case False
    consider a where "ps = [a]" | a b where "ps = [a, b]"
      using False 1(3) by (cases ps; cases "tl ps") auto
    then show ?thesis
    proof cases
      case (1 a)
      then show ?thesis using one [of a] \<open>well_formed ps\<close>
        by (simp add: Z_Union_one NewSortedSet_map well_formed_def)
    next
      case (2 a b)
      have "map_of (Z_Union agg ps) = (\<lambda>v. merged agg (map_of (weigh a) v) (map_of (weigh b) v))"
        using 2 \<open>well_formed ps\<close>
        by (simp add: Z_Union_two NewSortedSet_map union_params_wf union_params_map well_formed_def fun_eq_iff)
      then show ?thesis using 2 two [OF one one, of a b] by simp
    qed
  qed
qed

lemma inter_params_both: "map_of (inter_params agg l r) v = both_scores agg (map_of l v) (map_of r v)"
  by (simp add: inter_params_map both_scores_def)

lemma Z_Intersect_halving:
  assumes one: "\<And>a. P [a] (map_of (weigh a))"
    and two: "\<And>l r f g. P l f \<Longrightarrow> P r g \<Longrightarrow> P (l @ r) (\<lambda>v. both_scores agg (f v) (g v))"
    and "well_formed ps" "ps \<noteq> []"
  shows "P ps (map_of (Z_Intersect agg ps))"
  using assms(3,4)
proof (induction ps rule: length_induct)
  case (1 ps)
  let ?l = "take (length ps div 2) ps" and ?r = "drop (length ps div 2) ps"
  show ?case
  proof (cases "2 < length ps")
    case True
    then have "P ?l (map_of (Z_Intersect agg ?l))" "P ?r (map_of (Z_Intersect agg ?r))"
      using 1 well_formed_halves [of ps "length ps div 2"] by auto
    then have "P (?l @ ?r) (\<lambda>v. both_scores agg (map_of (Z_Intersect agg ?l) v) (map_of (Z_Intersect agg ?r) v))"
      by (rule two)
    moreover have "map_of (Z_Intersect agg ps) = (\<lambda>v. both_scores agg (map_of (Z_Intersect agg ?l) v) (map_of (Z_Intersect agg ?r) v))"
      by (simp add: Z_Intersect_split [OF True] NewSortedSet_map inter_params_wf inter_params_both fun_eq_iff)
    ultimately show ?thesis by simp
  next
    case False
    consider a where "ps = [a]" | a b where "ps = [a, b]"
      using False 1(3) by (cases ps; cases "tl ps") auto
    then show ?thesis
    proof cases
      case (1 a)
      then show ?thesis using one [of a] \<open>well_formed ps\<close>
        by (simp add: Z_Intersect_one NewSortedSet_map well_formed_def)
    next
      case (2 a b)
      have "map_of (Z_Intersect agg ps) = (\<lambda>v. both_scores agg (map_of (weigh a) v) (map_of (weigh b) v))"
        using 2 \<open>well_formed ps\<close>
        by (simp add: Z_Intersect_two NewSortedSet_map inter_params_wf inter_params_both well_formed_def fun_eq_iff)
      then show ?thesis using 2 two [OF one one, of a b] by simp
    qed
  qed
qed

lemma scores_in_append: "scores_in (l @ r) v = scores_in l v \<union> scores_in r v"
  by (auto simp: scores_in_def)

lemma scores_in_one: "scores_in [a] v = set_option (map_of (weigh a) v)"
  by (auto simp: scores_in_def)

text \<open>C14: ZUNION and ZINTER of any number of sorted sets, halved and merged as the code does it: a member
  is in the union when it is in one of the sets, and in the intersection when it is in all of them,
  whatever the weights and the aggregate function.
\<close>

theorem Union_and_Intersect_members:
  assumes "well_formed ps" "ps \<noteq> []"
  shows "(Z_Contains (Z_Union agg ps) v \<longleftrightarrow> list_ex (\<lambda>p. Z_Contains (fst p) v) ps) \<and>
         (Z_Contains (Z_Intersect agg ps) v \<longleftrightarrow> list_all (\<lambda>p. Z_Contains (fst p) v) ps)"
proof -
  have "map_of (Z_Union agg ps) v \<noteq> None \<longleftrightarrow> list_ex (\<lambda>p. Z_Contains (fst p) v) ps"
    by (rule Z_Union_halving [where P = "\<lambda>ps f. f v \<noteq> None \<longleftrightarrow> list_ex (\<lambda>p. Z_Contains (fst p) v) ps", OF _ _ assms])
      (auto simp: weigh_map Z_Contains_def merged_def split: option.splits)
  moreover have "map_of (Z_Intersect agg ps) v \<noteq> None \<longleftrightarrow> list_all (\<lambda>p. Z_Contains (fst p) v) ps"
    by (rule Z_Intersect_halving [where P = "\<lambda>ps f. f v \<noteq> None \<longleftrightarrow> list_all (\<lambda>p. Z_Contains (fst p) v) ps", OF _ _ assms])
      (auto simp: weigh_map Z_Contains_def both_scores_def split: option.splits)
  ultimately show ?thesis
    by (simp add: Z_Contains_def)
qed

text \<open>With MIN the score is the least of the weighted scores, with MAX the greatest.\<close>

definition least_of :: "(float64 \<Rightarrow> float64 \<Rightarrow> bool) \<Rightarrow> float64 set \<Rightarrow> float64 \<Rightarrow> bool" where
  "least_of le A x \<longleftrightarrow> x \<in> A \<and> (\<forall>y\<in>A. le x y)"

lemma f_le_trans: "f_le x y \<Longrightarrow> f_le y z \<Longrightarrow> f_le x z"
  by (cases x; cases y; cases z) (auto simp: f_le_def f_eq_def f_less_def split: if_splits)

lemma aggregate_min: "aggregate_scores ''min'' x y = (if f_less y x then y else x)"
  by (simp add: aggregate_scores_def compareScores_def case_simps)

lemma aggregate_max: "aggregate_scores ''max'' x y = (if f_less x y then y else x)"
  by (simp add: aggregate_scores_def compareScores_def case_simps)

lemma least_of_Un:
  assumes "least_of le A x" "least_of le B y" "le x y" "\<And>z. le x y \<Longrightarrow> le y z \<Longrightarrow> le x z"
  shows "least_of le (A \<union> B) x"
  using assms unfolding least_of_def by blast

lemma least_of_min:
  assumes x: "least_of f_le A x" and y: "least_of f_le B y" and "FNaN \<notin> A \<union> B"
  shows "least_of f_le (A \<union> B) (aggregate_scores ''min'' x y)"
proof (cases "f_less y x")
  case True
  then have "f_le y x" by (simp add: f_le_def)
  then have "least_of f_le (B \<union> A) y" using f_le_trans by (rule least_of_Un [OF y x])
  with True show ?thesis by (simp add: aggregate_min Un_commute)
next
  case False
  have "x \<noteq> FNaN" "y \<noteq> FNaN" using assms unfolding least_of_def by auto
  then have "f_le x y" using False by (simp add: f_le_linear)
  then have "least_of f_le (A \<union> B) x" using f_le_trans by (rule least_of_Un [OF x y])
  with False show ?thesis by (simp add: aggregate_min)
qed

abbreviation f_ge :: "float64 \<Rightarrow> float64 \<Rightarrow> bool" where
  "f_ge x y \<equiv> f_le y x"

lemma least_of_max:
  assumes x: "least_of f_ge A x" and y: "least_of f_ge B y" and "FNaN \<notin> A \<union> B"
  shows "least_of f_ge (A \<union> B) (aggregate_scores ''max'' x y)"
proof (cases "f_less x y")
  case True
  then have "f_le x y" by (simp add: f_le_def)
  then have "least_of f_ge (B \<union> A) y" using f_le_trans by (rule least_of_Un [OF y x])
  with True show ?thesis by (simp add: aggregate_max Un_commute)
next
  case False
  have "x \<noteq> FNaN" "y \<noteq> FNaN" using assms unfolding least_of_def by auto
  then have "f_le y x" using False by (simp add: f_le_linear)
  then have "least_of f_ge (A \<union> B) x" using f_le_trans by (rule least_of_Un [OF x y])
  with False show ?thesis by (simp add: aggregate_max)
qed

text \<open>The score of a member in the result: none when no set has the member, else an extreme one.\<close>

definition extreme :: "(float64 \<Rightarrow> float64 \<Rightarrow> bool) \<Rightarrow> string \<Rightarrow> (zset \<times> int) list \<Rightarrow> (string \<Rightarrow> float64 option) \<Rightarrow> bool" where
  "extreme le v ps f \<longleftrightarrow>
     FNaN \<notin> scores_in ps v \<longrightarrow>
       (case f v of None \<Rightarrow> scores_in ps v = {} | Some x \<Rightarrow> least_of le (scores_in ps v) x)"

lemma extreme_one: "le = f_le \<or> le = f_ge \<Longrightarrow> extreme le v [a] (map_of (weigh a))"
  using f_le_linear [of "the (map_of (weigh a) v)" "the (map_of (weigh a) v)"]
  by (auto simp: extreme_def scores_in_one least_of_def split: option.split)

lemma extreme_min:
  assumes "extreme f_le v l f" "extreme f_le v r g"
  shows "extreme f_le v (l @ r) (\<lambda>v. merged ''min'' (f v) (g v))"
  using assms least_of_min [of "scores_in l v" "the (f v)" "scores_in r v" "the (g v)"]
  by (auto simp: extreme_def scores_in_append merged_def split: option.splits)

lemma extreme_max:
  assumes "extreme f_ge v l f" "extreme f_ge v r g"
  shows "extreme f_ge v (l @ r) (\<lambda>v. merged ''max'' (f v) (g v))"
  using assms least_of_max [of "scores_in l v" "the (f v)" "scores_in r v" "the (g v)"]
  by (auto simp: extreme_def scores_in_append merged_def split: option.splits)

text \<open>C24: a string that one of the sets has: its score in a ZUNION with AGGREGATE MIN is one of its weighted scores and the least
  of them, with AGGREGATE MAX the greatest, provided that no weighted score is not a number.
\<close>

theorem Union_MIN_MAX_scores:
  assumes "well_formed ps" "ps \<noteq> []" "FNaN \<notin> scores_in ps v" "scores_in ps v \<noteq> {}"
  shows "least_of f_le (scores_in ps v) (Z_Score (Z_Union ''min'' ps) v) \<and>
         least_of (\<lambda>x y. f_le y x) (scores_in ps v) (Z_Score (Z_Union ''max'' ps) v)"
proof -
  have "extreme f_le v ps (map_of (Z_Union ''min'' ps))"
    by (rule Z_Union_halving [OF extreme_one extreme_min assms(1,2)]) simp_all
  moreover have "extreme f_ge v ps (map_of (Z_Union ''max'' ps))"
    by (rule Z_Union_halving [OF extreme_one extreme_max assms(1,2)]) simp_all
  ultimately show ?thesis
    using assms(3,4) by (auto simp: extreme_def Z_Score_def split: option.splits)
qed

definition demo_sets :: "(zset \<times> int) list" where
  "demo_sets =
     [([(''a'', FFin 3), (''b'', FFin 1)], 2), ([(''a'', FFin 4)], 1), ([(''c'', FFin 0), (''a'', FFin 5)], 1)]"

lemma demo_sets_well_formed: "well_formed demo_sets" "demo_sets \<noteq> []"
  by (simp_all add: demo_sets_def well_formed_def gm_wf_def)

theorem Union_and_Intersect_members_witness:
  "(Z_Contains (Z_Union ''sum'' demo_sets) ''b'' \<and> \<not> Z_Contains (Z_Intersect ''sum'' demo_sets) ''b'') \<and>
   (Z_Contains (Z_Union ''sum'' demo_sets) ''a'' \<and> Z_Contains (Z_Intersect ''sum'' demo_sets) ''a'')"
  unfolding Union_and_Intersect_members [OF demo_sets_well_formed, THEN conjunct1]
    Union_and_Intersect_members [OF demo_sets_well_formed, THEN conjunct2]
  by (simp add: demo_sets_def Z_Contains_def)

lemma demo_scores: "scores_in demo_sets ''a'' = {f_mul (FFin 3) (float_of_int 2), f_mul (FFin 4) (float_of_int 1), f_mul (FFin 5) (float_of_int 1)}"
  by (auto simp: scores_in_def demo_sets_def weigh_map)

lemma float_of_int_not_nan: "float_of_int i \<noteq> FNaN"
  by (simp add: float_of_int_def to_float64_def Let_def)

lemma f_mul_int_not_nan: "q \<noteq> 0 \<Longrightarrow> f_mul (FFin q) (float_of_int i) \<noteq> FNaN"
  using float_of_int_not_nan [of i]
  by (cases "float_of_int i") (auto simp: f_mul_def to_float64_def Let_def)

lemma demo_scores_not_nan: "FNaN \<notin> scores_in demo_sets ''a''" "scores_in demo_sets ''a'' \<noteq> {}"
  using f_mul_int_not_nan [of 3 2] f_mul_int_not_nan [of 4 1] f_mul_int_not_nan [of 5 1]
  unfolding demo_scores by (auto dest: sym)

theorem Union_MIN_MAX_scores_witness:
  "least_of f_le (scores_in demo_sets ''a'') (Z_Score (Z_Union ''min'' demo_sets) ''a'') \<and>
   least_of (\<lambda>x y. f_le y x) (scores_in demo_sets ''a'') (Z_Score (Z_Union ''max'' demo_sets) ''a'')"
  by (rule Union_MIN_MAX_scores [OF demo_sets_well_formed demo_scores_not_nan])

subsection \<open>Pops\<close>

lemma f_compare_neg: "f_compare x y < 0 \<Longrightarrow> f_compare y x \<ge> 0"
  using f_less_asym [of x y] by (auto simp: f_compare_def split: if_splits)

lemma f_compare_nonneg: "f_compare x y \<ge> 0 \<Longrightarrow> f_compare y x \<le> 0"
  using f_less_asym [of x y] by (auto simp: f_compare_def split: if_splits)

lemma pop_order_min: "pop_order ''min'' a b = f_compare (snd a) (snd b)"
  by (simp add: pop_order_def)

lemma cmp_order_pop: "cmp_order (pop_order ''min'')"
  unfolding cmp_order_def pop_order_min using f_compare_neg f_compare_nonneg f_compare_trans by blast

lemma removed_map: "map_of (fold (\<lambda>(v, x) r. fst (Z_Remove r v)) ms z) = map_of z |` (- fst ` set ms)"
proof (induction ms arbitrary: z)
  case (Cons m ms)
  have "map_of (fst (Z_Remove z v)) = map_of z |` (- {v})" for v
    by (auto simp: Z_Remove_def Z_Contains_def AList.delete_conv' restrict_map_def fun_eq_iff)
  then show ?case using Cons by (cases m) (auto simp: restrict_map_def fun_eq_iff)
qed (simp add: restrict_map_def)

lemma added_map:
  "map_of (fst (add_members [] [] [] [] n ms)) = map_of (rev ms)"
proof -
  have "map_of (fst (add_members [] [] [] z n ms)) = map_of z ++ map_of (rev ms)" for z n
    by (induction ms arbitrary: z n) (auto simp: split_beta add_member_def compareScores_def case_simps map_add_def fun_eq_iff
        split: option.split)
  then show ?thesis by simp
qed

lemma pop_order_max: "pop_order ''max'' a b = f_compare (snd b) (snd a)"
  by (simp add: pop_order_def case_simps)

lemma cmp_order_pop_max: "cmp_order (pop_order ''max'')"
  unfolding cmp_order_def pop_order_max using f_compare_neg f_compare_nonneg f_compare_trans by blast

lemma map_of_same_mset:
  assumes "mset xs = mset ys" "gm_wf ys"
  shows "map_of xs = map_of ys" "gm_wf xs"
proof -
  have "mset (map fst xs) = mset (map fst ys)" using assms(1) by simp
  then show wf: "gm_wf xs" using assms(2) unfolding gm_wf_def by (metis mset_eq_imp_distinct_iff)
  show "map_of xs = map_of ys"
    using map_of_inject_set [of xs ys] wf assms mset_eq_setD [OF assms(1)] by (simp add: gm_wf_def)
qed

lemma map_of_split:
  assumes "gm_wf (l @ r)"
  shows "map_of l = map_of (l @ r) |` (fst ` set l)" "map_of r = map_of (l @ r) |` (- fst ` set l)"
    "gm_wf l" "gm_wf r"
  using assms by (auto simp: gm_wf_def restrict_map_def map_add_def fun_eq_iff map_of_eq_None_iff
      split: option.split) force+

text \<open>C23: ZPOPMIN and ZPOPMAX: as many members as asked for, or all of them, leave the set with their scores,
  the others stay with theirs, and no member that stays has a lower (for MAX a higher) score than one
  that was popped, in whatever order the members are ranged over.
\<close>

theorem Pop_takes_extreme_members:
  assumes "gm_wf z" "0 < n" "policy \<in> {''min'', ''max''}"
  shows "\<exists>popped rest w'. Z_Pop z n policy w = (Ok (popped, rest), w') \<and>
     card (dom (map_of popped)) = min (nat n) (length z) \<and>
     map_of popped = map_of z |` dom (map_of popped) \<and>
     map_of rest = map_of z |` (- dom (map_of popped)) \<and>
     (\<forall>x\<in>ran (map_of popped). \<forall>y\<in>ran (map_of rest).
        (if policy = ''min'' then f_compare x y else f_compare y x) \<le> 0)"
proof -
  define s where "s = sort_func (pop_order policy) (fst (go_range z w))"
  let ?l = "take (nat n) s" and ?r = "drop (nat n) s"
  have ms: "mset s = mset z" by (simp add: s_def)
  have wf: "gm_wf (?l @ ?r)" and m: "map_of (?l @ ?r) = map_of z"
    using map_of_same_mset [OF ms assms(1)] by simp_all
  have sorted: "sorted_wrt (\<lambda>a b. pop_order policy a b \<le> 0) (?l @ ?r)"
    using sorted_sort_func cmp_order_pop cmp_order_pop_max assms(3) unfolding s_def append_take_drop_id by blast
  have d: "dom (map_of ?l) = fst ` set ?l" by (rule dom_map_of_conv_image_fst)
  have l: "map_of (rev ?l) = map_of ?l"
    using map_of_same_mset(1) [of "rev ?l" ?l] map_of_split(3) [OF wf] by simp
  have card: "card (dom (map_of ?l)) = min (nat n) (length z)"
    using map_of_split(3) [OF wf] ms unfolding d gm_wf_def
    by (metis distinct_card length_map length_take list.set_map min.commute size_mset)
  have ord: "(if policy = ''min'' then f_compare x y else f_compare y x) \<le> 0"
    if "x \<in> ran (map_of ?l)" "y \<in> ran (map_of ?r)" for x y
  proof -
    have "x \<in> snd ` set ?l" "y \<in> snd ` set ?r"
      using that map_of_split(3,4) [OF wf] by (auto simp: gm_wf_def ran_distinct)
    then show ?thesis
      using sorted [unfolded sorted_wrt_append] assms(3) by (fastforce simp: pop_order_min pop_order_max)
  qed
  obtain p q w' where pop: "Z_Pop z n policy w = (Ok (p, q), w')"
    and p: "map_of p = map_of ?l" and q: "map_of q = map_of z |` (- fst ` set ?l)"
  proof -
    have "to_lower policy \<in> {''min'', ''max''}" using assms(3) by (auto simp: case_simps)
    then show thesis
      using assms(2) that
      by (simp add: Z_Pop_def Z_GetAll_def split_beta Let_def added_map removed_map l s_def [symmetric])
  qed
  have qr: "map_of q = map_of ?r" unfolding q m [symmetric] by (rule map_of_split(2) [OF wf, symmetric])
  show ?thesis
  proof (intro exI conjI ballI)
    show "Z_Pop z n policy w = (Ok (p, q), w')" by (rule pop)
    show "card (dom (map_of p)) = min (nat n) (length z)" unfolding p by (rule card)
    show "map_of p = map_of z |` dom (map_of p)"
      unfolding p d m [symmetric] by (rule map_of_split(1) [OF wf])
    show "map_of q = map_of z |` (- dom (map_of p))" unfolding p d by (rule q)
    show "(if policy = ''min'' then f_compare x y else f_compare y x) \<le> 0"
      if "x \<in> ran (map_of p)" "y \<in> ran (map_of q)" for x y
      using that unfolding p qr by (rule ord)
  qed
qed

definition demo_zset :: zset where
  "demo_zset = [(''a'', FFin 2), (''b'', FFin 1), (''c'', FFin 3)]"

lemma demo_zset_facts: "gm_wf demo_zset" "length demo_zset = 3"
  by (simp_all add: demo_zset_def gm_wf_def)

theorem Pop_takes_extreme_members_witness:
  "\<exists>popped rest w'. Z_Pop demo_zset 2 ''max'' (demo_world demo_config [] []) =
       (Ok (popped, rest), w') \<and>
     card (dom (map_of popped)) = 2 \<and>
     map_of popped = map_of demo_zset |` dom (map_of popped) \<and>
     map_of rest = map_of demo_zset |` (- dom (map_of popped)) \<and>
     (\<forall>x\<in>ran (map_of popped). \<forall>y\<in>ran (map_of rest). f_compare y x \<le> 0)"
  using Pop_takes_extreme_members
    [of demo_zset 2 "''max''" "demo_world demo_config [] []"]
  by (simp add: demo_zset_facts)

end
