(* ===== verification/ReplicaSpecs.thy ===== *)
theory ReplicaSpecs
  imports GenericSpecs EmbeddedSpecs Dispatch
begin

text \<open>
  The replicated state machine: what entries of the raft log do to a node is a function of what its keys
  hold, for commands whose handlers ask neither for the clock nor for random numbers; and it is not one
  for commands that do.
\<close>

subsection \<open>The wiring stays\<close>

text \<open>What no function of the server that a handler may use to read, write or delete keys changes.\<close>

definition wiring where
  "wiring (s :: server) =
     (commands s, libs s, config s, stateCopyInProgress s, tcpClients s, embedded s, appendStore s, preambleFile s)"

lemma wiring_eqD:
  assumes "wiring s' = wiring s"
  shows "commands s' = commands s" "libs s' = libs s" "config s' = config s" "stateCopyInProgress s' = stateCopyInProgress s"
    "tcpClients s' = tcpClients s" "embedded s' = embedded s" "appendStore s' = appendStore s" "preambleFile s' = preambleFile s"
  using assms by (simp_all add: wiring_def)

definition same_wiring :: "sworld \<Rightarrow> sworld \<Rightarrow> bool" where
  "same_wiring w w' \<longleftrightarrow> wiring (srv w') = wiring (srv w)"

lemma same_wiring_refl [simp]: "same_wiring w w"
  by (simp add: same_wiring_def)

lemma same_wiring_trans: "same_wiring w w1 \<Longrightarrow> same_wiring w1 w2 \<Longrightarrow> same_wiring w w2"
  by (simp add: same_wiring_def)

lemma and_then_wiring:
  assumes "same_wiring w (snd x)" "\<And>a w1. same_wiring w w1 \<Longrightarrow> same_wiring w (snd (f a w1))"
  shows "same_wiring w (snd (and_then x f))"
  using assms by (cases x; cases "fst x") (auto simp: and_then_def)

lemma cache_delete_wiring: "wiring (snd (cache_delete d k s)) = wiring s"
  by (simp add: cache_delete_def wiring_def split: option.split res.split)

lemma drop_key_wiring: "wiring (drop_key d k s) = wiring s"
  by (simp add: drop_key_def wiring_def split: option.split)

lemma wiring_upd:
  "wiring (s\<lparr>memUsed := n\<rparr>) = wiring s" "wiring (s\<lparr>keysWithExpiry := ks\<rparr>) = wiring s"
  by (simp_all add: wiring_def)

lemma deleteKey_wiring: "same_wiring w (snd (deleteKey cx k w))"
  unfolding deleteKey_def Let_def
  by (rule and_then_wiring)
    (simp_all add: same_wiring_def split_beta drop_key_wiring cache_delete_wiring wiring_upd)

lemma read_key_wiring: "same_wiring w (snd (read_key cx k w))"
  using deleteKey_wiring [of w cx k]
  by (auto simp: read_key_def Let_def split_beta raftApplyDeleteKey_def same_wiring_def wiring_def upd_def split: option.split res.split)

lemma read_keys_wiring: "same_wiring w (snd (read_keys cx ks m w))"
proof (induction ks arbitrary: m w)
  case (Cons k ks)
  show ?case by (simp, rule and_then_wiring [OF read_key_wiring]) (rule same_wiring_trans [OF _ Cons.IH])
qed simp

lemma getValues_wiring: "same_wiring w (snd (getValues cx ks w))"
  unfolding getValues_def by (rule and_then_wiring [OF read_keys_wiring]) (simp add: same_wiring_def wiring_def upd_def)

lemma write_key_wiring: "same_wiring w (snd (write_key cx k v w))"
  unfolding write_key_def Let_def
  by (rule and_then_wiring) (simp_all add: same_wiring_def wiring_def put_key_def upd_def)

lemma write_keys_wiring: "same_wiring w (snd (write_keys cx es w))"
proof (induction es arbitrary: w)
  case (Cons e es)
  obtain k v where e: "e = (k, v)" by force
  show ?case unfolding e write_keys.simps
    by (rule and_then_wiring [OF write_key_wiring]) (rule same_wiring_trans [OF _ Cons.IH])
qed simp

lemma setValues_wiring: "same_wiring w (snd (setValues cx es w))"
proof -
  let ?w1 = "upd (ensure_db (Database cx)) w"
  have "same_wiring w (snd (go_range es ?w1))"
    by (simp add: same_wiring_def wiring_def upd_def ensure_db_def createDatabase_def)
  moreover have "same_wiring w (snd (and_then (write_keys cx es' w2) (\<lambda>_ w3.
      (Ok (), upd (\<lambda>s. s\<lparr>tasks := tasks s @ [UpdateEach cx ks]\<rparr>) w3))))" if "same_wiring w w2" for es' ks w2
    by (rule and_then_wiring [OF same_wiring_trans [OF that write_keys_wiring]]) (simp add: same_wiring_def wiring_def upd_def)
  ultimately show ?thesis by (simp add: setValues_def Let_def split_beta)
qed

subsection \<open>A node as a store\<close>

text \<open>A node without a memory limit that has the commands it was built with.\<close>

definition node :: "sworld \<Rightarrow> bool" where
  "node w \<longleftrightarrow> unlimited w \<and> commands (srv w) = map info_of all_commands"

text \<open>A store with the wiring of another one.\<close>

definition wired_as :: "sworld \<Rightarrow> sworld \<Rightarrow> bool" where
  "wired_as base w \<longleftrightarrow> unlimited w \<and> same_wiring base w"

lemma wired_wiring: "wired_as base w \<Longrightarrow> unlimited w' \<Longrightarrow> same_wiring w w' \<Longrightarrow> wired_as base w'"
  by (simp add: wired_as_def same_wiring_def)

lemma write_through_wiring: "same_wiring w (write_through cx k v w)"
  by (simp add: write_through_def same_wiring_def wiring_def put_key_def upd_def split: option.split)

interpretation nd: kv_unlimited "getHandlerFuncParams cx cmd conn" "entry_of cx" memory_full "wired_as base"
  for cx cmd conn base
proof
  show "\<exists>m w'. GetValues (getHandlerFuncParams cx cmd conn) (Context (getHandlerFuncParams cx cmd conn)) ks w = (Ok m, w') \<and>
      wired_as base w' \<and> heap w' = heap w \<and> next_addr w' = next_addr w \<and> reaped (entry_of cx w) (entry_of cx w') \<and>
      (\<forall>k. gm_value m k = (if k \<in> set ks then live_value (entry_of cx w k) else VNil)) \<and>
      dom (map_of m) = set ks \<and> gm_wf m \<and>
      ((\<forall>k\<in>set ks. \<forall>v. entry_of cx w k \<noteq> Some (v, True)) \<longrightarrow>
        memory_full w' = memory_full w \<and> entry_of cx w' = entry_of cx w)" if "wired_as base w" for w ks
  proof -
    have node: "wired_as base w'" if "getValues cx ks w = (r, w')" "unlimited w'" for r w'
      using wired_wiring [OF \<open>wired_as base w\<close> that(2)] getValues_wiring [of w cx ks] that(1) by simp
    have "unlimited w" using that by (simp add: wired_as_def)
    then show ?thesis using un.get [of w cx cmd conn ks] node unfolding params_simps by blast
  qed
  show "\<exists>w'. SetValues (getHandlerFuncParams cx cmd conn) (Context (getHandlerFuncParams cx cmd conn)) es w = (Ok (), w') \<and>
      wired_as base w' \<and> heap w' = heap w \<and> next_addr w' = next_addr w \<and> entry_of cx w' = written es (entry_of cx w)"
    if "wired_as base w" "\<not> memory_full w" "gm_wf es" "\<And>v. v \<in> snd ` set es \<Longrightarrow> value_ok (heap w) v" for w es
  proof -
    have node: "wired_as base w'" if "setValues cx es w = (r, w')" "unlimited w'" for r w'
      using wired_wiring [OF \<open>wired_as base w\<close> that(2)] setValues_wiring [of w cx es] that(1) by simp
    have "unlimited w" using that(1) by (simp add: wired_as_def)
    then show ?thesis using un.set_ok [OF _ that(2-4), of cx cmd conn] node unfolding params_simps by blast
  qed
  show "\<exists>w'. DeleteKey (getHandlerFuncParams cx cmd conn) (Context (getHandlerFuncParams cx cmd conn)) k w = (Ok (), w') \<and>
      wired_as base w' \<and> heap w' = heap w \<and> next_addr w' = next_addr w \<and> entry_of cx w' = (entry_of cx w)(k := None)"
    if "wired_as base w" "entry_of cx w k \<noteq> None" for w k
  proof -
    have node: "wired_as base w'" if "deleteKey cx k w = (r, w')" "unlimited w'" for r w'
      using wired_wiring [OF \<open>wired_as base w\<close> that(2)] deleteKey_wiring [of w cx k] that(1) by simp
    have "unlimited w" using that(1) by (simp add: wired_as_def)
    then show ?thesis using un.delete [OF _ that(2), of cmd conn] node unfolding params_simps by blast
  qed
  show "wired_as base (WriteThrough (getHandlerFuncParams cx cmd conn) (Context (getHandlerFuncParams cx cmd conn)) k v w) \<and>
      heap (WriteThrough (getHandlerFuncParams cx cmd conn) (Context (getHandlerFuncParams cx cmd conn)) k v w) = heap w \<and>
      next_addr (WriteThrough (getHandlerFuncParams cx cmd conn) (Context (getHandlerFuncParams cx cmd conn)) k v w) = next_addr w \<and>
      memory_full (WriteThrough (getHandlerFuncParams cx cmd conn) (Context (getHandlerFuncParams cx cmd conn)) k v w) = memory_full w \<and>
      entry_of cx (WriteThrough (getHandlerFuncParams cx cmd conn) (Context (getHandlerFuncParams cx cmd conn)) k v w) =
        (entry_of cx w)(k := Some (v, b))"
    if "wired_as base w" "entry_of cx w k = Some (v0, b)" "value_ok (heap w) v" for w k v v0 b
    using un.through [OF _ that(2,3), of cmd conn] write_through_wiring [of w cx k v] that(1) wired_wiring [OF that(1)]
    unfolding params_simps wired_as_def by blast
  show "wired_as base w'" if "wired_as base w" "heap_wf w'" "srv w' = srv w" "\<And>a. live w a \<Longrightarrow> live w' a" for w w'
    using un.inv_world [OF _ that(2-4)] that(1,3) by (simp add: wired_as_def same_wiring_def)
  show "wired_as base w \<Longrightarrow> entry_of cx w k = Some (v, b) \<Longrightarrow> value_ok (heap w) v" for w k v b
    using unlimited_value_ok by (simp add: wired_as_def)
  show "wired_as base w \<Longrightarrow> heap_wf w" for w by (simp add: wired_as_def unlimited_heap_wf)
  show "wired_as base w \<Longrightarrow> \<not> memory_full w" for w by (simp add: wired_as_def unlimited_not_full)
qed (rule ks.exist ks.exist_dom ks.exist_wf | erule ks.set_full ks.entry_world ks.full_world)+

subsection \<open>Commands as functions of what the keys hold\<close>

text \<open>
  Entries that four kinds of commands make, the handler of each, and its effect on a map from keys to
  values: the reply and the new map.
\<close>

datatype entry_cmd = SetValue string string | DeleteKeys "string list" | Increment string | RenameKey string string

fun words_of :: "entry_cmd \<Rightarrow> string list" where
  "words_of (SetValue k v) = [''SET'', k, v]"
| "words_of (DeleteKeys ks) = ''DEL'' # ks"
| "words_of (Increment k) = [''INCR'', k]"
| "words_of (RenameKey k l) = [''RENAME'', k, l]"

fun handler_of :: "entry_cmd \<Rightarrow> 's handler" where
  "handler_of (SetValue k v) = handleSet"
| "handler_of (DeleteKeys ks) = handleDel"
| "handler_of (Increment k) = handleIncr"
| "handler_of (RenameKey k l) = handleRename"

definition value_in :: "(string \<Rightarrow> go_value option) \<Rightarrow> string \<Rightarrow> go_value" where
  "value_in m k = (case m k of None \<Rightarrow> VNil | Some v \<Rightarrow> v)"

fun effect :: "entry_cmd \<Rightarrow> (string \<Rightarrow> go_value option) \<Rightarrow> string res \<times> (string \<Rightarrow> go_value option)" where
  "effect (SetValue k v) m = (Ok OkResponse, m(k \<mapsto> AdaptType v))"
| "effect (DeleteKeys ks) m =
     (if ks = [] then (Err WrongArgsResponse, m)
      else (Ok (resp_int (int (card {k \<in> set ks. m k \<noteq> None}))), m |` (- set ks)))"
| "effect (Increment k) m =
     (case current_int (value_in m k) of
        Ok c \<Rightarrow> let n = (case c of None \<Rightarrow> 1 | Some i \<Rightarrow> i64 (i + 1)) in (Ok (resp_int n), m(k \<mapsto> VStr (itoa n)))
      | Err e \<Rightarrow> (Err e, m) | Panic e \<Rightarrow> (Panic e, m) | Diverge \<Rightarrow> (Diverge, m))"
| "effect (RenameKey k l) m =
     (if value_in m k = VNil then (Err ''no such key'', m)
      else (Ok OkResponse, (m(l \<mapsto> value_in m k))(k := None)))"

text \<open>The entries of a store in which no key is past its expiry.\<close>

definition held :: "(string \<Rightarrow> go_value option) \<Rightarrow> string \<Rightarrow> (go_value \<times> bool) option" where
  "held m k = map_option (\<lambda>v. (v, False)) (m k)"

lemma held_upd: "held (m(k := x)) = (held m)(k := map_option (\<lambda>v. (v, False)) x)"
  by (simp add: held_def fun_eq_iff)

lemma live_value_held [simp]: "live_value (held m k) = value_in m k"
  by (simp add: held_def value_in_def live_value_def split: option.split)

lemma written_held: "written [(k, v)] (held m) = held (m(k \<mapsto> v))"
  by (simp add: written_one held_upd) (simp add: held_def split: option.split)

context kv_unlimited begin

lemma read_held:
  assumes "inv w" "entry w = held m"
  obtains w1 where "get_one p k w = (Ok (value_in m k), w1)" "inv w1" "heap w1 = heap w" "entry w1 = held m"
proof -
  have "\<forall>v. entry w k \<noteq> Some (v, True)" using assms(2) by (simp add: held_def)
  then show thesis
    using get_one_ok [OF assms(1), of k] that assms(2) by (metis live_value_held)
qed

lemma write_held:
  assumes "inv w" "entry w = held m" "value_ok (heap w) v"
  obtains w1 where "SetValues p (Context p) [(k, v)] w = (Ok (), w1)" "inv w1" "entry w1 = held (m(k \<mapsto> v))"
  using set_one [OF assms(1) never_full [OF assms(1)] assms(3), of k] by (metis assms(2) written_held)

lemma handleSet_held:
  assumes "inv w" "entry w = held m" "Command p = words_of (SetValue k v)"
  shows "\<exists>w'. handleSet p w = (fst (effect (SetValue k v) m), w') \<and> inv w' \<and>
    entry w' = held (snd (effect (SetValue k v) m))"
proof -
  obtain w1 where "SetValues p (Context p) [(k, AdaptType v)] w = (Ok (), w1)" "inv w1"
    "entry w1 = held (m(k \<mapsto> AdaptType v))"
    by (rule write_held [OF assms(1,2) AdaptType_ok])
  then show ?thesis
    using assms(3) by (simp add: handleSet_def setKeyFunc_def writes_of_def no_options_def Let_def)
qed

lemma handleDel_held:
  assumes "inv w" "entry w = held m" "Command p = words_of (DeleteKeys ks)"
  shows "\<exists>w'. handleDel p w = (fst (effect (DeleteKeys ks) m), w') \<and> inv w' \<and>
    entry w' = held (snd (effect (DeleteKeys ks) m))"
proof (cases "ks = []")
  case False
  have "held m |` (- set ks) = held (m |` (- set ks))" by (auto simp: held_def restrict_map_def fun_eq_iff)
  then show ?thesis using handleDel_ok [of w "''DEL''" ks] assms False by (simp add: held_def)
qed (use assms in \<open>auto simp: handleDel_def delKeyFunc_def\<close>)

lemma handleIncr_held:
  assumes "inv w" "entry w = held m" "Command p = words_of (Increment k)"
  shows "\<exists>w'. handleIncr p w = (fst (effect (Increment k) m), w') \<and> inv w' \<and>
    entry w' = held (snd (effect (Increment k) m))"
proof -
  obtain w1 where w1: "get_one p k w = (Ok (value_in m k), w1)" "inv w1" "entry w1 = held m"
    using read_held [OF assms(1,2)] by metis
  have run: "handleIncr p w = counter k 1 (\<lambda>i. i64 (i + 1)) p w"
    using assms(3) by (simp add: handleIncr_def incrKeyFunc_def writes_of_def)
  show ?thesis
  proof (cases "current_int (value_in m k)")
    case (Ok c)
    let ?n = "case c of None \<Rightarrow> 1 | Some i \<Rightarrow> i64 (i + 1)"
    obtain w2 where "SetValues p (Context p) [(k, VStr (itoa ?n))] w1 = (Ok (), w2)" "inv w2"
      "entry w2 = held (m(k \<mapsto> VStr (itoa ?n)))"
      by (rule write_held [OF w1(2,3), of "VStr (itoa ?n)" k]) (simp_all add: value_ok_def)
    then show ?thesis using w1(1) Ok by (simp add: run counter_def Let_def)
  qed (use w1 in \<open>simp_all add: run counter_def\<close>)
qed

lemma handleRename_held:
  assumes "inv w" "entry w = held m" "Command p = words_of (RenameKey k l)"
  shows "\<exists>w'. handleRename p w = (fst (effect (RenameKey k l) m), w') \<and> inv w' \<and>
    entry w' = held (snd (effect (RenameKey k l) m))"
proof (cases "value_in m k = VNil")
  case True
  obtain w1 where "get_one p k w = (Ok VNil, w1)" "inv w1" "entry w1 = held m"
    using read_held [OF assms(1,2), of k] True by metis
  then show ?thesis using assms(3) True by (simp add: handleRename_def)
next
  case False
  then obtain v where v: "m k = Some v" "v \<noteq> VNil" by (auto simp: value_in_def split: option.splits)
  have "entry w k = Some (v, False)" using assms(2) v(1) by (simp add: held_def)
  moreover have "(held m)(l := Some (v, case held m l of None \<Rightarrow> False | Some (_, b) \<Rightarrow> b), k := None) =
      held (m(l \<mapsto> v, k := None))"
    by (auto simp: held_def fun_eq_iff split: option.split)
  ultimately show ?thesis
    using handleRename_live [OF assms(1) never_full [OF assms(1)], of "''RENAME''" k l v] assms(2,3) v False
    by (simp add: value_in_def)
qed

lemma entry_effect:
  assumes "inv w" "entry w = held m" "Command p = words_of c"
  shows "\<exists>w'. handler_of c p w = (fst (effect c m), w') \<and> inv w' \<and> entry w' = held (snd (effect c m))"
proof (cases c)
  case (SetValue k v)
  then show ?thesis using handleSet_held [of w m k v] assms by simp
next
  case (DeleteKeys ks)
  then show ?thesis using handleDel_held [of w m ks] assms by simp
next
  case (Increment k)
  then show ?thesis using handleIncr_held [of w m k] assms by simp
next
  case (RenameKey k l)
  then show ?thesis using handleRename_held [of w m k l] assms by simp
qed

end

subsection \<open>Entries of the log\<close>

definition del_command :: "server command" where
  "del_command = mk_command ''del'' ''generic'' [''keyspace'', ''write'', ''fast''] True delKeyFunc handleDel"

definition incr_command :: "server command" where
  "incr_command = mk_command ''incr'' ''generic'' [''write'', ''fast''] True incrKeyFunc handleIncr"

definition rename_command :: "server command" where
  "rename_command = mk_command ''rename'' ''generic'' [''keyspace'', ''write'', ''fast''] True renameKeyFunc handleRename"

lemma table_entries:
  "find (\<lambda>c. CommandName c = ''del'') all_commands = Some del_command"
  "find (\<lambda>c. CommandName c = ''incr'') all_commands = Some incr_command"
  "find (\<lambda>c. CommandName c = ''rename'') all_commands = Some rename_command"
  by (simp_all add: table_defs del_command_def incr_command_def rename_command_def)

lemma find_entries:
  "find (\<lambda>n. equal_fold n ''DEL'') (map CommandName all_commands) = Some ''del''"
  "find (\<lambda>n. equal_fold n ''INCR'') (map CommandName all_commands) = Some ''incr''"
  "find (\<lambda>n. equal_fold n ''RENAME'') (map CommandName all_commands) = Some ''rename''"
  by code_simp+

lemmas entry_command_defs = set_command_def del_command_def incr_command_def rename_command_def mk_command_def

lemma getCommand_entry:
  assumes "commands s = map info_of all_commands"
  obtains found where "getCommand s (hd (words_of c)) = Ok found" "SubCommands found = []" "HandlerFunc found = handler_of c"
    "IsWriteCommand found None"
  using getCommand_full [OF assms find_set table_set] getCommand_full [OF assms find_entries(1) table_entries(1)]
    getCommand_full [OF assms find_entries(2) table_entries(2)] getCommand_full [OF assms find_entries(3) table_entries(3)]
    that by (cases c) (simp_all add: entry_command_defs IsWriteCommand_def)

definition log_ctx :: "int \<Rightarrow> ctx" where
  "log_ctx d = \<lparr>ServerID = [], ConnectionName = [], Protocol = 0, Database = d, ConnectionID = []\<rparr>"

definition log_entry :: "int \<Rightarrow> (string \<times> string \<times> int) \<times> entry_cmd \<Rightarrow> apply_request" where
  "log_entry d e = (case e of ((sid, cid, protocol), c) \<Rightarrow> CommandRequest sid cid protocol d (words_of c))"

text \<open>The entries one after another; a node goes on whatever an entry returns.\<close>

fun apply_log :: "apply_request list \<Rightarrow> sworld \<Rightarrow> string res list \<times> sworld" where
  "apply_log [] w = ([], w)"
| "apply_log (req # reqs) w =
     (let (r, w1) = FSM_Apply req w; (rs, w2) = apply_log reqs w1 in (r # rs, w2))"

fun effects :: "entry_cmd list \<Rightarrow> (string \<Rightarrow> go_value option) \<Rightarrow> string res list \<times> (string \<Rightarrow> go_value option)" where
  "effects [] m = ([], m)"
| "effects (c # cs) m = (let (r, m1) = effect c m; (rs, m2) = effects cs m1 in (r # rs, m2))"

lemma apply_entry:
  assumes "node w" "entry_of (log_ctx d) w = held m"
  shows "\<exists>w'. FSM_Apply (log_entry d (h, c)) w = (fst (effect c m), w') \<and> node w' \<and>
    entry_of (log_ctx d) w' = held (snd (effect c m))"
proof -
  obtain sid cid protocol where h: "h = (sid, cid, protocol)" by (cases h)
  let ?cx = "\<lparr>ServerID = sid, ConnectionName = [], Protocol = protocol, Database = d, ConnectionID = cid\<rparr>"
  have cx: "entry_of ?cx = entry_of (log_ctx d)" by (simp add: entry_of_def log_ctx_def fun_eq_iff)
  obtain found where "getCommand (srv w) (hd (words_of c)) = Ok found" "SubCommands found = []"
    "HandlerFunc found = handler_of c"
    using getCommand_entry assms(1) unfolding node_def by blast
  moreover have "words_of c \<noteq> []" by (cases c) simp_all
  ultimately have "FSM_Apply (log_entry d (h, c)) w = handler_of c (getHandlerFuncParams ?cx (words_of c) None) w"
    by (simp add: FSM_Apply_def log_entry_def h GetSubCommand_def chosen_handler_def)
  then show ?thesis
    using nd.entry_effect [where cx = ?cx and cmd = "words_of c" and conn = None and base = w, of w m c] assms
    by (auto simp: cx node_def wired_as_def same_wiring_def wiring_def)
qed

lemma log_effects:
  assumes "node w" "entry_of (log_ctx d) w = held m"
  shows "\<exists>w'. apply_log (map (log_entry d) es) w = (fst (effects (map snd es) m), w') \<and> node w' \<and>
    entry_of (log_ctx d) w' = held (snd (effects (map snd es) m))"
  using assms
proof (induction es arbitrary: w m)
  case (Cons e es)
  obtain h c where e: "e = (h, c)" by (cases e)
  obtain w1 where w1: "FSM_Apply (log_entry d (h, c)) w = (fst (effect c m), w1)" "node w1"
    "entry_of (log_ctx d) w1 = held (snd (effect c m))"
    using apply_entry [OF Cons.prems] by blast
  then show ?case using Cons.IH [OF w1(2,3)] by (auto simp: e split_beta Let_def)
qed simp

text \<open>C3: The log makes replicas agree: two nodes without a memory limit whose keys hold the same values, none past its expiry, apply
  the same entries of SET, DEL, INCR and RENAME, successful or not; then all replies agree and the keys hold the same values
  again, whatever random choices, orders of iteration, memory counters and caches the two nodes have. Both are the effects of the
  commands on a map from keys to values.\<close>

theorem replicas_agree:
  assumes "node w1" "node w2" "entry_of (log_ctx d) w1 = held m" "entry_of (log_ctx d) w2 = held m"
  shows "fst (apply_log (map (log_entry d) es) w1) = fst (effects (map snd es) m) \<and>
    fst (apply_log (map (log_entry d) es) w2) = fst (effects (map snd es) m) \<and>
    entry_of (log_ctx d) (snd (apply_log (map (log_entry d) es) w1)) = held (snd (effects (map snd es) m)) \<and>
    entry_of (log_ctx d) (snd (apply_log (map (log_entry d) es) w2)) = held (snd (effects (map snd es) m))"
  using log_effects [OF assms(1,3), of es] log_effects [OF assms(2,4), of es] by auto

subsection \<open>An entry that draws\<close>

definition spop_command :: "server command" where
  "spop_command = mk_command ''spop'' ''set'' [''set'', ''write'', ''slow''] True spopKeyFunc handleSPOP"

lemma table_spop: "find (\<lambda>c. CommandName c = ''spop'') all_commands = Some spop_command"
  by (simp add: table_defs hash_commands_def list_commands_def pubsub_commands_def set_commands_def spop_command_def)

lemma find_spop: "find (\<lambda>n. equal_fold n ''SPOP'') (map CommandName all_commands) = Some ''spop''"
  by code_simp

text \<open>Whatever member of a set of at least two is named, there are random choices for which it is drawn.\<close>

lemma Set_Pop_draws:
  assumes "set_wf s" "x \<in> set (members s)" "1 < set_length s"
  shows "\<exists>c. \<forall>w. \<exists>s' w'. Set_Pop s 1 (w\<lparr>coins := c\<rparr>) = (Ok ([x], s'), w') \<and> heap w' = heap w \<and> srv w' = srv w \<and>
    set (members s') = set (members s) - {x}"
proof -
  let ?ms = "permute 0 (members s)"
  have ms: "x \<in> set ?ms" "?ms \<noteq> []" using assms(2) by (auto simp flip: length_greater_0_conv simp: length_permute)
  then obtain i where i: "i < length ?ms" "?ms ! i = x" by (metis in_set_conv_nth)
  define c :: coins where "c = (\<lambda>n. if n = 0 then 0 else i)"
  have "Set_Pop s 1 (w\<lparr>coins := c\<rparr>) =
      (Ok ([x], fst (Set_Remove s [x])), w\<lparr>coins := next_coins (next_coins c)\<rparr>)" for w :: "'a world"
    using assms(3) ms i
    by (simp add: Set_Pop_def Set_GetRandom_def Set_GetAll_def Set_Cardinality_def go_range_def flip_def AbsInt_def
        draw_distinct.simps [of "Suc 0"] draw_distinct.simps [of 0] c_def next_coins_def intn_def)
  then show ?thesis using assms(1,2) by (intro exI [of _ c]) (simp add: set_wf_def Set_Remove_def)
qed

lemma handleSPOP_draws:
  assumes "server_ok w" "entry_of cx w key = Some (VSet a, False)" "x \<in> set_at w a" "card (set_at w a) \<noteq> 1"
  shows "\<exists>c w'. handleSPOP (getHandlerFuncParams cx [''SPOP'', key] conn) (w\<lparr>coins := c\<rparr>) = (Ok (elems_reply [x]), w') \<and>
    set_at w' a = set_at w a - {x}"
proof -
  obtain s where s: "heap w a = Some s" using assms(3) by (auto simp: set_at_def split: option.splits)
  have wf: "set_wf s" using heap_wfD [OF server_heap_wf [OF assms(1)] s] .
  have at: "set_at w a = set (members s)" using s by (simp add: set_at_def)
  have "card (set (members s)) = length (members s)" using wf distinct_card by (auto simp: set_wf_def)
  then have "length (members s) \<noteq> 1" "length (members s) \<noteq> 0" using assms(3,4) by (auto simp: at)
  then have "1 < length (members s)" by linarith
  then have "1 < set_length s" using wf by (simp add: set_wf_def)
  then obtain c where c: "\<And>w :: sworld. \<exists>s' w'. Set_Pop s 1 (w\<lparr>coins := c\<rparr>) = (Ok ([x], s'), w') \<and> heap w' = heap w \<and>
      srv w' = srv w \<and> set (members s') = set (members s) - {x}"
    using Set_Pop_draws [OF wf, of x] assms(3) unfolding at by blast
  let ?w = "w\<lparr>coins := c\<rparr>" and ?task = "\<lambda>s. s\<lparr>tasks := tasks s @ [UpdateKeys cx [key]]\<rparr>"
  have e: "entry_of cx ?w = entry_of cx w" by (rule entry_of_cong) simp
  have "read_keys cx [key] [] ?w = (Ok [(key, VSet a)], ?w)"
    using assms(2) unfolding e [symmetric] by (auto simp: read_key_def entry_of_def split: option.splits)
  then have get: "get_one (getHandlerFuncParams cx [''SPOP'', key] conn) key ?w = (Ok (VSet a), (upd ?task w)\<lparr>coins := c\<rparr>)"
    by (simp add: get_one_def getValues_def upd_def gm_value_def)
  obtain s' w' where pop: "Set_Pop s 1 ((upd ?task w)\<lparr>coins := c\<rparr>) = (Ok ([x], s'), w')" "heap w' = heap (upd ?task w)"
      "set (members s') = set (members s) - {x}"
    using c [of "upd ?task w"] by blast
  have "gm_bool (keysExist cx [key] ?w) key" using assms(2) by (simp add: keysExist_spec e)
  moreover have "heap ((upd ?task w)\<lparr>coins := c\<rparr>) a = Some s" using s by (simp add: upd_def)
  ultimately have "handleSPOP (getHandlerFuncParams cx [''SPOP'', key] conn) ?w = (Ok (elems_reply [x]), put_set a s' w')"
    using get pop(1)
    by (simp add: handleSPOP_def spopKeyFunc_def writes_of_def set_count_arg_def the_set_def deref_set_def)
  then show ?thesis using pop(3) at by (intro exI [of _ c]) (auto simp: set_at_def put_set_def)
qed

text \<open>C11: An entry of SPOP does not make replicas agree: two nodes that are alike in everything but the random choices they will make
  can reply with, and lose, any two different members of the set.\<close>

theorem SPOP_entries_diverge:
  assumes "server_ok w" "commands (srv w) = map info_of all_commands"
    and "entry_of (log_ctx d) w key = Some (VSet a, False)" "x \<in> set_at w a" "y \<in> set_at w a" "x \<noteq> y"
  shows "\<exists>c c'. let req = CommandRequest sid cid protocol d [''SPOP'', key];
      (r, w1) = FSM_Apply req (w\<lparr>coins := c\<rparr>); (r', w2) = FSM_Apply req (w\<lparr>coins := c'\<rparr>)
    in r = Ok (elems_reply [x]) \<and> r' = Ok (elems_reply [y]) \<and> set_at w1 a = set_at w a - {x} \<and> set_at w2 a = set_at w a - {y}"
proof -
  let ?cx = "\<lparr>ServerID = sid, ConnectionName = [], Protocol = protocol, Database = d, ConnectionID = cid\<rparr>"
  have entry: "entry_of ?cx w key = Some (VSet a, False)" using assms(3) by (simp add: entry_of_def log_ctx_def)
  have card: "card (set_at w a) \<noteq> 1" using assms(4-6) by (metis card_1_singletonE singletonD)
  have "getCommand (srv w) ''SPOP'' = Ok spop_command"
    by (rule getCommand_full [OF assms(2) find_spop table_spop]) (simp add: spop_command_def mk_command_def)
  then have run: "FSM_Apply (CommandRequest sid cid protocol d [''SPOP'', key]) (w\<lparr>coins := c\<rparr>) =
      handleSPOP (getHandlerFuncParams ?cx [''SPOP'', key] None) (w\<lparr>coins := c\<rparr>)" for c
    by (simp add: FSM_Apply_def GetSubCommand_def chosen_handler_def spop_command_def mk_command_def)
  obtain c w1 where "handleSPOP (getHandlerFuncParams ?cx [''SPOP'', key] None) (w\<lparr>coins := c\<rparr>) = (Ok (elems_reply [x]), w1)"
    "set_at w1 a = set_at w a - {x}"
    using handleSPOP_draws [OF assms(1) entry assms(4) card, of None] by blast
  moreover obtain c' w2 where
    "handleSPOP (getHandlerFuncParams ?cx [''SPOP'', key] None) (w\<lparr>coins := c'\<rparr>) = (Ok (elems_reply [y]), w2)"
    "set_at w2 a = set_at w a - {y}"
    using handleSPOP_draws [OF assms(1) entry assms(5) card, of None] by blast
  ultimately show ?thesis by (intro exI [of _ c] exI [of _ c']) (simp add: run)
qed

text \<open>Two nodes with the counter three: one holds its text, and has drawn other numbers so far.\<close>

definition demo_node :: "coins \<Rightarrow> goset list \<Rightarrow> (string \<times> keydata) list \<Rightarrow> sworld" where
  "demo_node c sets es =
     upd (\<lambda>s. s\<lparr>commands := map info_of all_commands\<rparr>) ((demo_world demo_config sets es)\<lparr>coins := c\<rparr>)"

lemma demo_node_entry: "entry_of (log_ctx 0) (demo_node c sets es) = entry_of demo_ctx (demo_world demo_config sets es)"
  by (rule ext) (simp add: entry_of_def demo_node_def log_ctx_def upd_def lookup_key_def db_of_def expired_def split: option.split)

lemma demo_node:
  assumes "unlimited (demo_world demo_config sets es)"
  shows "node (demo_node c sets es)"
proof -
  have "unlimited (demo_node c sets es)"
    by (rule unlimited_frame [OF assms]) (simp_all add: demo_node_def upd_def)
  then show ?thesis by (simp add: node_def demo_node_def upd_def)
qed

theorem replicas_agree_witness:
  "(let req = log_entry 0 ((''s'', ''c'', 2), Increment ''n'');
        a = apply_log [req, req] (demo_node (\<lambda>_. 0) [] [(''n'', kept (VStr ''3''))]);
        b = apply_log [req, req] (demo_node (\<lambda>n. n) [] [(''n'', kept (VStr ''3''))])
    in fst a = fst b \<and> entry_of (log_ctx 0) (snd a) = entry_of (log_ctx 0) (snd b))"
proof -
  let ?es = "[(''n'', kept (VStr ''3''))]" and ?h = "((''s'', ''c'', 2), Increment ''n'')"
  have "unlimited (demo_world demo_config [] ?es)" by (rule demo_unlimited) simp_all
  then have "node (demo_node c [] ?es)" for c by (rule demo_node)
  moreover have "entry_of (log_ctx 0) (demo_node c [] ?es) = held [''n'' \<mapsto> VStr ''3'']" for c
    by (simp add: demo_node_entry held_def fun_eq_iff)
  ultimately show ?thesis
    using replicas_agree [of "demo_node (\<lambda>_. 0) [] ?es" "demo_node (\<lambda>n. n) [] ?es" 0 "[''n'' \<mapsto> VStr ''3'']" "[?h, ?h]"]
    by (simp add: Let_def)
qed

theorem SPOP_entries_diverge_witness:
  "\<exists>c c'. let req = CommandRequest ''s'' ''c'' 2 0 [''SPOP'', ''k''];
      w = demo_node (\<lambda>_. 0) [NewSet [''a'', ''b'', ''c'']] [(''k'', kept (VSet 0))];
      (r, w1) = FSM_Apply req (w\<lparr>coins := c\<rparr>); (r', w2) = FSM_Apply req (w\<lparr>coins := c'\<rparr>)
    in r = Ok (elems_reply [''a'']) \<and> r' = Ok (elems_reply [''b'']) \<and> set_at w1 0 = {''b'', ''c''} \<and> set_at w2 0 = {''a'', ''c''}"
proof -
  let ?es = "[(''k'', kept (VSet 0))]" and ?sets = "[NewSet [''a'', ''b'', ''c'']]"
  let ?w = "demo_node (\<lambda>_. 0) ?sets ?es"
  have "unlimited (demo_world demo_config ?sets ?es)" by (rule demo_unlimited) simp_all
  then have "node ?w" by (rule demo_node)
  then have n: "server_ok ?w" "commands (srv ?w) = map info_of all_commands" by (simp_all add: node_def unlimited_def)
  have e: "entry_of (log_ctx 0) ?w ''k'' = Some (VSet 0, False)" by (simp add: demo_node_entry)
  have at: "set_at ?w 0 = {''a'', ''b'', ''c''}" by (simp add: demo_node_def upd_def set_at_def)
  have "{''a'', ''b'', ''c''} - {''a''} = {''b'', ''c''}" "{''a'', ''b'', ''c''} - {''b''} = {''a'', ''c''}" by auto
  then show ?thesis
    using SPOP_entries_diverge [OF n e, of "''a''" "''b''" "''s''" "''c''" 2] by (simp add: at Let_def)
qed

end
