(* ===== verification/RestartSpecs.thy ===== *)
theory RestartSpecs
  imports ReplicaSpecs LogSpecs
begin

text \<open>
  A standalone server from end to end: the commands that a program sends are handled and logged, and a
  server that starts from the log handles them again. What the keys hold before and after is compared by
  the effects of the commands (theory \<open>ReplicaSpecs\<close>).
\<close>

subsection \<open>One command\<close>

lemma current_int_cases: "(\<exists>c. current_int v = Ok c) \<or> (\<exists>e. current_int v = Err e)"
  by (cases v) (auto simp: current_int_def split: option.split)

lemma effect_result: "(\<exists>a. fst (effect c m) = Ok a) \<or> (\<exists>e. effect c m = (Err e, m))"
proof (cases c)
  case (Increment k)
  then show ?thesis using current_int_cases [of "value_in m k"] by (auto simp: Let_def)
qed auto

lemma effect_cases:
  obtains a where "fst (effect c m) = Ok a" | e where "fst (effect c m) = Err e" "snd (effect c m) = m"
  using effect_result [of c m] by auto

lemma words_not_quit: "\<not> equal_fold (hd (words_of c)) ''quit''" "\<not> equal_fold (hd (words_of c)) ''select''"
  by (cases c; simp only: words_of.simps list.sel; code_simp)+

lemma words_not_empty: "words_of c \<noteq> []"
  by (cases c) simp_all

definition standalone :: "sworld \<Rightarrow> bool" where
  "standalone w \<longleftrightarrow> unlimited w \<and> serving (srv w) \<and> reads_resp (libs (srv w)) \<and> map_of (tcpClients (srv w)) None = None"

lemma standalone_wiring:
  assumes "standalone w" "unlimited w'" "wiring (srv w') = wiring ((srv w)\<lparr>appendStore := st\<rparr>)"
  shows "standalone w'"
  using assms by (simp add: standalone_def wiring_def serving_def isInCluster_def)

text \<open>What a command leaves in the log: nothing when it fails or is itself replayed.\<close>

definition logged :: "bool \<Rightarrow> string res \<Rightarrow> entry_cmd \<Rightarrow> append_store \<Rightarrow> append_store" where
  "logged replay r c st =
     (case r of Ok _ \<Rightarrow> if replay then st else Log_Write 0 (EncodeCommand (words_of c)) st | _ \<Rightarrow> st)"

lemma command_handled:
  assumes "standalone w" "entry_of (log_ctx 0) w = held m" "Database (command_context (srv w) cx None replay emb) = 0"
  shows "\<exists>w'. handleCommand cx (EncodeCommand (words_of c)) None replay emb w = Some (fst (effect c m), w') \<and>
    standalone w' \<and> entry_of (log_ctx 0) w' = held (snd (effect c m)) \<and>
    wiring (srv w') = wiring ((srv w)\<lparr>appendStore := logged replay (fst (effect c m)) c (appendStore (srv w))\<rparr>)"
proof -
  let ?cx = "command_context (srv w) cx None replay emb" and ?w0 = "begin_mutation True w" and ?m = "EncodeCommand (words_of c)"
  have s: "serving (srv w)" "reads_resp (libs (srv w))" "unlimited w" "map_of (tcpClients (srv w)) None = None"
    using assms(1) by (simp_all add: standalone_def)
  have table: "commands (srv w) = map info_of all_commands" using s(1) by (simp add: serving_def)
  obtain found where f: "getCommand (srv w) (hd (words_of c)) = Ok found" "SubCommands found = []"
    "HandlerFunc found = handler_of c" "IsWriteCommand found None"
    by (rule getCommand_entry [OF table])
  have run: "handleCommand cx ?m None replay emb w =
      Some (run_command found None ?cx (words_of c) ?m None replay ?w0)"
    using handle_allowed [OF plain_dispatched [OF s(2) f(1,2) words_not_empty words_not_quit(1)] allowed_open [of None emb]]
      f(4) s(1) by (simp add: serving_def)
  have cx: "entry_of ?cx = entry_of (log_ctx 0)" using assms(3) by (simp add: entry_of_def log_ctx_def fun_eq_iff)
  have w0: "unlimited ?w0" by (rule unlimited_frame [OF s(3)]) (simp_all add: begin_mutation_def upd_def)
  have "entry_of ?cx ?w0 = entry_of ?cx w" by (rule entry_of_frame) (simp_all add: begin_mutation_def upd_def)
  then have e0: "entry_of ?cx ?w0 = held m" using assms(2) cx by simp
  have "wired_as ?w0 ?w0" using w0 by (simp add: wired_as_def)
  then obtain w1 where w1: "handler_of c (getHandlerFuncParams ?cx (words_of c) None) ?w0 = (fst (effect c m), w1)"
    "wired_as ?w0 w1" "entry_of ?cx w1 = held (snd (effect c m))"
    using nd.entry_effect [where cx = ?cx and cmd = "words_of c" and conn = None and base = ?w0, of ?w0 m c] e0 by auto
  have wires: "wiring (srv w1) = wiring (srv w)"
    using w1(2) by (simp add: wired_as_def same_wiring_def) (simp add: begin_mutation_def upd_def wiring_def)
  note same = wiring_eqD [OF wires]
  have alone: "\<not> isInCluster (srv w)" "\<not> isInCluster (srv w1)"
    using s(1) same(3) by (simp_all add: serving_def isInCluster_def)
  have conn: "ConnDatabase (connInfo (srv w1) None) = 0" using s(4) same(5) by (simp add: connInfo_def no_conn_info_def)
  show ?thesis
  proof (cases rule: effect_cases [of c m])
    case (1 a)
    let ?w2 = "end_mutation (if replay then w1 else snd (log_command None ?m w1))"
    have "handleCommand cx ?m None replay emb w = Some (Ok a, ?w2)"
      using 1 w1(1) f(3,4) alone
      by (simp add: run run_command_def run_local_def chosen_handler_def log_command_def Let_def)
    moreover have "unlimited ?w2"
      by (rule unlimited_frame [of w1]) (use w1(2) alone in \<open>simp_all add: wired_as_def end_mutation_def upd_def log_command_def Let_def\<close>)
    moreover have "entry_of ?cx ?w2 = entry_of ?cx w1"
      by (rule entry_of_frame) (use alone in \<open>simp_all add: end_mutation_def upd_def log_command_def Let_def\<close>)
    moreover have "wiring (srv ?w2) = wiring ((srv w)\<lparr>appendStore := logged replay (Ok a) c (appendStore (srv w))\<rparr>)"
      using same conn alone by (simp add: wiring_def logged_def end_mutation_def upd_def log_command_def Let_def)
    ultimately show ?thesis
      using 1 w1(3) standalone_wiring [OF assms(1)] unfolding cx by (intro exI [of _ ?w2]) simp
  next
    case (2 e)
    have "handleCommand cx ?m None replay emb w = Some (Err e, w1)"
      using 2 w1(1) f(3,4) alone by (simp add: run run_command_def run_local_def chosen_handler_def)
    moreover have "wiring (srv w1) = wiring ((srv w)\<lparr>appendStore := logged replay (Err e) c (appendStore (srv w))\<rparr>)"
      using wires by (simp add: logged_def)
    ultimately show ?thesis
      using 2 w1(2,3) standalone_wiring [OF assms(1)] unfolding cx wired_as_def by (intro exI [of _ w1]) simp
  qed
qed

subsection \<open>Many commands\<close>

text \<open>The calls of a program that embeds the server.\<close>

fun run_calls :: "entry_cmd list \<Rightarrow> sworld \<Rightarrow> sworld" where
  "run_calls [] w = w"
| "run_calls (c # cs) w = run_calls cs (snd (ExecuteCommand (words_of c) w))"

text \<open>The commands that succeed; the others change nothing.\<close>

fun succeeded :: "entry_cmd list \<Rightarrow> (string \<Rightarrow> go_value option) \<Rightarrow> entry_cmd list" where
  "succeeded [] m = []"
| "succeeded (c # cs) m =
     (case fst (effect c m) of Ok _ \<Rightarrow> [c] | _ \<Rightarrow> []) @ succeeded cs (snd (effect c m))"

lemma effects_succeeded: "snd (effects (succeeded cs m) m) = snd (effects cs m)"
proof (induction cs arbitrary: m)
  case (Cons c cs)
  then show ?case by (cases rule: effect_cases [of c m]) (simp_all add: split_beta)
qed simp

definition on_database :: "int \<Rightarrow> entry_cmd list \<Rightarrow> (int \<times> string list) list" where
  "on_database d cs = map (\<lambda>c. (d, words_of c)) cs"

lemma calls_logged:
  assumes "standalone w" "entry_of (log_ctx 0) w = held m" "ConnDatabase (embedded (srv w)) = 0"
  shows "standalone (run_calls cs w) \<and> entry_of (log_ctx 0) (run_calls cs w) = held (snd (effects cs m)) \<and>
    appendStore (srv (run_calls cs w)) = log_all (on_database 0 (succeeded cs m)) (appendStore (srv w))"
  using assms
proof (induction cs arbitrary: w m)
  case (Cons c cs)
  have "Database (command_context (srv w) server_context None False True) = 0"
    using Cons.prems(3) by (simp add: command_context_def Let_def)
  from command_handled [OF Cons.prems(1,2) this, of c]
  obtain w1 where w1: "handleCommand server_context (EncodeCommand (words_of c)) None False True w = Some (fst (effect c m), w1)"
    "standalone w1" "entry_of (log_ctx 0) w1 = held (snd (effect c m))"
    "wiring (srv w1) = wiring ((srv w)\<lparr>appendStore := logged False (fst (effect c m)) c (appendStore (srv w))\<rparr>)"
    by blast
  note same = wiring_eqD [OF w1(4)]
  have "ConnDatabase (embedded (srv w1)) = 0" using same(6) Cons.prems(3) by simp
  moreover have "run_calls (c # cs) w = run_calls cs w1" by (simp add: ExecuteCommand_def w1(1))
  moreover have "log_all (on_database 0 (succeeded (c # cs) m)) (appendStore (srv w)) =
      log_all (on_database 0 (succeeded cs (snd (effect c m)))) (appendStore (srv w1))"
    using same(7) by (cases rule: effect_cases [of c m]) (simp_all add: logged_def on_database_def log_all_def)
  ultimately show ?case using Cons.IH [OF w1(2,3)] by (simp add: split_beta)
qed (simp add: on_database_def log_all_def)

text \<open>Replaying goes on after errors, logs nothing, and finds no connection: every command runs on database 0.\<close>

lemma replay_effects:
  assumes "standalone w" "entry_of (log_ctx 0) w = held m"
  shows "\<exists>w'. replay_commands (map (\<lambda>(d, c). (d, EncodeCommand (words_of c))) es) w = (Ok (), w') \<and>
    entry_of (log_ctx 0) w' = held (snd (effects (map snd es) m))"
  using assms
proof (induction es arbitrary: w m)
  case (Cons e es)
  obtain d c where e: "e = (d, c)" by (cases e)
  have "Database (command_context (srv w) (replay_ctx d) None True False) = 0"
    using Cons.prems(1) by (simp add: command_context_def standalone_def connInfo_def no_conn_info_def)
  from command_handled [OF Cons.prems this, of c]
  obtain w1 where w1: "handleCommand (replay_ctx d) (EncodeCommand (words_of c)) None True False w = Some (fst (effect c m), w1)"
    "standalone w1" "entry_of (log_ctx 0) w1 = held (snd (effect c m))"
    by blast
  then show ?case
    using Cons.IH [OF w1(2,3)] by (cases rule: effect_cases [of c m]) (simp_all add: e split_beta)
qed simp

text \<open>Starting from a log without a preamble.\<close>

lemma restored_effects:
  assumes "standalone v" "entry_of (log_ctx 0) v = held m" "preambleFile (srv v) \<in> {None, Some None}"
    and "list_all (\<lambda>(d, c). 0 \<le> d \<and> d \<le> 9) es"
    and "log_file (appendStore (srv v)) =
      log_file (log_all (map (\<lambda>(d, c). (d, words_of c)) es) (NewAppendStore (Some [])))"
  shows "\<exists>v'. AOF_Restore v = (Ok (), v') \<and> entry_of (log_ctx 0) v' = held (snd (effects (map snd es) m))"
proof -
  let ?xs = "map (\<lambda>(d, c). (d, words_of c)) es"
  have "list_all loggable ?xs"
    using assms(4) words_not_empty words_not_quit(2) by (auto simp: list_all_iff loggable_def)
  moreover have "reads_resp (libs (srv v))" using assms(1) by (simp add: standalone_def)
  ultimately have "Log_Restore (libs (srv v)) (appendStore (srv v)) = (map (\<lambda>(d, ws). (d, EncodeCommand ws)) ?xs, Ok ())"
    using log_written_restored [of "libs (srv v)" ?xs] assms(5) by (simp add: Log_Restore_def)
  then have log: "Log_Restore (libs (srv v)) (appendStore (srv v)) =
      (map (\<lambda>(d, c). (d, EncodeCommand (words_of c))) es, Ok ())"
    by (simp add: comp_def split_beta)
  have "Preamble_Restore v = (Ok (), v)" using assms(3) by (auto simp: Preamble_Restore_def)
  then show ?thesis
    using replay_effects [OF assms(1,2), of es] by (auto simp: AOF_Restore_def wrap_err_def log)
qed

text \<open>C2: What a standalone server without a memory limit is told survives its end: after any calls of SET (of a key and a value, without
  options), DEL (of any keys), INCR and RENAME by the embedding program, on database 0 and successful or not, a server that starts
  from the log with the keys of the first one's start holds the same keys with the same values as the first one at its end.
  Both servers are outside of a cluster, have no memory limit and hold no key past its expiry, now or meanwhile; the log is empty
  when the first one starts and the second one has no preamble to restore; and what the RESP reader returns for an encoded command
  are its words.\<close>

theorem restart_restores_keys:
  assumes "standalone w" "ConnDatabase (embedded (srv w)) = 0" "appendStore (srv w) = NewAppendStore (Some [])"
    and "entry_of (log_ctx 0) w = held m"
    and "standalone v" "preambleFile (srv v) \<in> {None, Some None}" "entry_of (log_ctx 0) v = held m"
    and "log_file (appendStore (srv v)) = log_file (appendStore (srv (run_calls cs w)))"
  shows "\<exists>v'. AOF_Restore v = (Ok (), v') \<and> entry_of (log_ctx 0) v' = entry_of (log_ctx 0) (run_calls cs w)"
proof -
  note run = calls_logged [OF assms(1,4,2), of cs]
  have "map (\<lambda>(d, c). (d, words_of c)) (map (\<lambda>c. (0, c)) (succeeded cs m)) = on_database 0 (succeeded cs m)"
    by (simp add: on_database_def comp_def)
  then obtain v' where "AOF_Restore v = (Ok (), v')" "entry_of (log_ctx 0) v' = held (snd (effects (succeeded cs m) m))"
    using restored_effects [OF assms(5,7,6), of "map (\<lambda>c. (0, c)) (succeeded cs m)"] assms(3,8) run
    by (auto simp: list_all_iff comp_def)
  then show ?thesis using run effects_succeeded [of cs m] by simp
qed

definition demo_alone :: "string option \<Rightarrow> sworld" where
  "demo_alone bytes =
     upd (\<lambda>s. s\<lparr>commands := map info_of all_commands, libs := with_reader demo_libs, appendStore := NewAppendStore bytes\<rparr>)
       (demo_world demo_config [] [])"

lemma demo_alone:
  "standalone (demo_alone bytes)" "entry_of (log_ctx 0) (demo_alone bytes) = held Map.empty"
  "ConnDatabase (embedded (srv (demo_alone bytes))) = 0" "preambleFile (srv (demo_alone bytes)) \<in> {None, Some None}"
  "appendStore (srv (demo_alone bytes)) = NewAppendStore bytes"
proof -
  have "unlimited (demo_world demo_config [] [])" by (rule demo_unlimited) simp_all
  then have "unlimited (demo_alone bytes)"
    by (rule unlimited_frame) (simp_all add: demo_alone_def upd_def)
  then show "standalone (demo_alone bytes)"
    using reader_reads [of demo_libs]
    by (simp add: standalone_def serving_def demo_alone_def upd_def demo_server_def demo_world_def isInCluster_def demo_config_def)
  show "entry_of (log_ctx 0) (demo_alone bytes) = held Map.empty"
    by (rule ext) (simp add: entry_of_def held_def lookup_key_def db_of_def demo_alone_def upd_def demo_world_def demo_server_def log_ctx_def)
qed (simp_all add: demo_alone_def upd_def demo_world_def demo_server_def)

theorem restart_restores_keys_witness:
  "let w1 = run_calls [SetValue ''k'' ''v'', Increment ''k'', RenameKey ''k'' ''l''] (demo_alone (Some []));
       v = demo_alone (log_file (appendStore (srv w1)))
   in \<exists>v'. AOF_Restore v = (Ok (), v') \<and> entry_of (log_ctx 0) v' = entry_of (log_ctx 0) w1"
  unfolding Let_def
  by (rule restart_restores_keys [OF demo_alone(1,3) _ demo_alone(2) demo_alone(1,4,2)])
    (simp_all add: demo_alone(5) NewAppendStore_def)

text \<open>C10: A restart merges the databases: whichever of the databases 0 to 9 each command of the log was written for, a server that starts
  from it runs all of them on database 0, one after another. This is for logs of SET without options, DEL, INCR and
  RENAME, and for a server outside of a cluster, without a memory limit, with no key past its expiry and no preamble to
  restore, whose RESP reader returns for an encoded command its words.\<close>

theorem restart_merges_databases:
  assumes "standalone v" "entry_of (log_ctx 0) v = held m" "preambleFile (srv v) \<in> {None, Some None}"
    and "list_all (\<lambda>(d, c). 0 \<le> d \<and> d \<le> 9) es"
    and "log_file (appendStore (srv v)) =
      log_file (log_all (map (\<lambda>(d, c). (d, words_of c)) es) (NewAppendStore (Some [])))"
  shows "\<exists>v'. AOF_Restore v = (Ok (), v') \<and> entry_of (log_ctx 0) v' = held (snd (effects (map snd es) m))"
  by (rule restored_effects [OF assms])

theorem restart_merges_databases_witness:
  "let log = log_all [(3, [''SET'', ''k'', ''v'']), (5, [''RENAME'', ''k'', ''l''])] (NewAppendStore (Some []));
       v = demo_alone (log_file log)
   in \<exists>v'. AOF_Restore v = (Ok (), v') \<and> entry_of (log_ctx 0) v' ''l'' = Some (AdaptType ''v'', False) \<and>
        entry_of (log_ctx 0) v' ''k'' = None"
proof -
  let ?es = "[(3 :: int, SetValue ''k'' ''v''), (5, RenameKey ''k'' ''l'')]"
  let ?v = "demo_alone (log_file (log_all (map (\<lambda>(d, c). (d, words_of c)) ?es) (NewAppendStore (Some []))))"
  have "\<exists>v'. AOF_Restore ?v = (Ok (), v') \<and> entry_of (log_ctx 0) v' = held (snd (effects (map snd ?es) Map.empty))"
    by (rule restart_merges_databases [OF demo_alone(1,2,4)]) (simp_all add: demo_alone(5) NewAppendStore_def)
  then show ?thesis by (auto simp: held_def value_in_def)
qed

end
