(* ===== verification/ServerSafety.thy ===== *)
theory ServerSafety
  imports HandlerSafety StartUp Cluster
begin

text \<open>
  The keyspace as a store that keeps its invariant, and what follows: every command but the flushing
  ones, every goroutine, every entry of the raft log and every turn of a connection keeps the invariant,
  and so it holds in every state that a server can reach.
\<close>

subsection \<open>The invariant and the fields it does not depend on\<close>

lemma server_ok_cong:
  assumes "server_ok w" "heap w' = heap w" "next_addr w' = next_addr w"
    and "store (srv w') = store (srv w)" "keysWithExpiry (srv w') = keysWithExpiry (srv w)"
    and "lfuCache (srv w') = lfuCache (srv w)" "lruCache (srv w') = lruCache (srv w)"
    and "memUsed (srv w') = memUsed (srv w)" "raft_apply (srv w') = raft_apply (srv w)"
  shows "server_ok w'"
  using assms sinv_cong [of w w'] by (simp add: server_ok_def raft_sane_def)

lemma server_ok_frames: "frames w w' \<Longrightarrow> server_ok w \<Longrightarrow> server_ok w'"
  by (rule server_ok_cong [of w]) (simp_all add: frames_def)

definition has_db :: "int \<Rightarrow> sworld \<Rightarrow> bool" where
  "has_db d w \<longleftrightarrow> map_of (store (srv w)) d \<noteq> None"

lemma has_db_entry: "entry_of cx w k \<noteq> None \<Longrightarrow> has_db (Database cx) w"
  using lookup_db_exists [of "srv w" "Database cx" k] by (auto simp: has_db_def entry_of_def split: option.splits)

lemma deleteKey_keeps:
  assumes "server_ok w" "has_db (Database cx) w"
  shows "\<exists>w'. deleteKey cx k w = (Ok (), w') \<and> server_ok w' \<and> (\<forall>d. has_db d w' = has_db d w)"
proof -
  have "sinv w" "raft_sane (srv w)" using assms(1) by (simp_all add: server_ok_def)
  from deleteKey_spec [OF this(1) assms(2) [unfolded has_db_def], of k]
  obtain w' mem where w': "deleteKey cx k w = (Ok (), w')" "sinv w'"
    "memUsed (srv w') = i64 (memUsed (srv w) - mem - sizeof_string - int (length k))" by blast
  have "raft_sane (srv w')" using deleteKey_raft [of cx k w] w'(1) \<open>raft_sane (srv w)\<close> by (simp add: raft_sane_def)
  moreover have "has_db d w' = has_db d w" for d
    using deleteKey_store_dom [of cx k w d] w'(1) by (simp add: has_db_def)
  ultimately show ?thesis using w' by (simp add: server_ok_def)
qed

lemma read_key_db: "has_db d (snd (read_key cx k w)) = has_db d w"
  using deleteKey_store_dom [of cx k w d]
  by (simp add: read_key_def raftApplyDeleteKey_def has_db_def split_beta Let_def split: option.split res.split)

lemma read_keys_db: "has_db d (snd (read_keys cx ks m w)) = has_db d w"
proof (induction ks arbitrary: m w)
  case (Cons k ks)
  show ?case
    using Cons.IH read_key_db [of d cx k w] by (cases "fst (read_key cx k w)") (simp_all add: and_then_def)
qed simp

lemma getValues_db: "getValues cx ks w = (Ok m, w') \<Longrightarrow> has_db d w' = has_db d w"
  using read_keys_db [of d cx ks "[]" w]
  by (cases "fst (read_keys cx ks [] w)") (auto simp: getValues_def and_then_def has_db_def)

lemma write_keys_db: "has_db d w \<Longrightarrow> has_db d (snd (write_keys cx es w))"
proof (induction es arbitrary: w)
  case (Cons x es)
  obtain k v where x: "x = (k, v)" by force
  have "has_db d (snd (write_key cx k v w))"
    using Cons.prems dom_store_put
    by (auto simp: write_key_def and_then_def has_db_def Let_def put_key_def split: res.split)
  then show ?case
    using Cons.IH by (cases "fst (write_key cx k v w)") (simp_all add: x and_then_def)
qed simp

lemma setValues_db: "setValues cx es w = (Ok u, w') \<Longrightarrow> has_db (Database cx) w'"
proof -
  let ?w1 = "upd (ensure_db (Database cx)) w"
  have "has_db (Database cx) (snd (go_range es ?w1))"
    using ensure_db_dom [of "Database cx" "srv w"] by (auto simp: has_db_def)
  from write_keys_db [OF this, of cx "fst (go_range es ?w1)"]
  show "setValues cx es w = (Ok u, w') \<Longrightarrow> has_db (Database cx) w'"
    by (cases "fst (write_keys cx (fst (go_range es ?w1)) (snd (go_range es ?w1)))")
      (auto simp: setValues_def and_then_def split_beta Let_def has_db_def split: if_splits)
qed

lemma setValues_dangling:
  assumes "server_ok w" "heap w a = None"
  shows "safe server_ok (setValues cx [(k, VSet a)] w)"
proof -
  have "permute c [x] = [x]" for c and x :: "string \<times> go_value"
    using set_permute [of c "[x]"] length_permute [of c "[x]"] by (cases "permute c [x]") auto
  then have "fst (go_range [x] w1) = [x]" for x :: "string \<times> go_value" and w1 :: sworld
    by (simp add: go_range_def split_beta)
  then show ?thesis
    using assms by (simp add: setValues_def split_beta Let_def write_key_def KeyData_GetMem.simps)
qed

lemma update_update: "AList.update k x (AList.update k y m) = AList.update k x m"
  by (induction m) auto

text \<open>An expiry that is set on an absent key of a database creates the key, holding nil.\<close>

lemma setExpiry_absent:
  assumes "lookup_key (srv w) (Database cx) k = None" "has_db (Database cx) w"
  shows "setExpiry cx k t touch w =
    setExpiry cx k t touch (upd (put_key (Database cx) k \<lparr>Value = VNil, ExpireAt = None\<rparr>) w)"
proof -
  obtain db where db: "map_of (store (srv w)) (Database cx) = Some db" using assms(2) by (auto simp: has_db_def)
  have p: "put_key d k e (put_key d k e0 s) = put_key d k e s" for d e e0 and s :: server
    by (simp add: put_key_def db_of_def update_update map_of_update)
  have v: "volatile_keys (put_key d k e s) = volatile_keys s" for d e and s :: server
    by (rule volatile_cong) (simp add: put_key_def)
  show ?thesis
    using db assms(1) by (simp add: setExpiry_def Let_def p v) (simp add: put_key_def)
qed

lemma setExpiry_safe:
  assumes "server_ok w"
  shows "safe server_ok (setExpiry cx k t touch w)"
proof -
  have present: "safe server_ok (setExpiry cx k t touch w)"
    if "server_ok w" "lookup_key (srv w) (Database cx) k = Some e" for w e
    using setExpiry_spec [OF _ that(2), of t touch] that(1) by (auto simp: server_ok_def writes_def raft_sane_def)
  show ?thesis
  proof (cases "lookup_key (srv w) (Database cx) k")
    case None
    show ?thesis
    proof (cases "has_db (Database cx) w")
      case True
      let ?w0 = "upd (put_key (Database cx) k \<lparr>Value = VNil, ExpireAt = None\<rparr>) w"
      have "sinv ?w0"
        using assms True by (intro sinv_put_key) (simp_all add: server_ok_def has_db_def)
      then have "server_ok ?w0" using assms by (simp add: server_ok_def raft_sane_def put_key_def)
      moreover have "lookup_key (srv ?w0) (Database cx) k = Some \<lparr>Value = VNil, ExpireAt = None\<rparr>" by simp
      ultimately show ?thesis unfolding setExpiry_absent [OF None True] by (rule present)
    qed (simp add: setExpiry_def Let_def has_db_def)
  qed (rule present [OF assms])
qed

lemma now_millis_frame: "server_ok w \<Longrightarrow> server_ok (snd (now_millis w))"
  by (rule server_ok_cong [of w]) (simp_all add: now_millis_def split_beta Let_def)

subsection \<open>Touching keys and making room\<close>

lemma server_ok_lfu:
  assumes "server_ok w" "map_of (lfuCache (srv w)) d = Some c0" "lfu_inv c"
  shows "server_ok (upd (\<lambda>s. s\<lparr>lfuCache := AList.update d c (lfuCache s)\<rparr>) w)"
  using assms sinv_set_lfu [of w d c0 c] by (simp add: server_ok_def raft_sane_def)

lemma server_ok_lru:
  assumes "server_ok w" "map_of (lruCache (srv w)) d = Some c0" "lru_inv c"
  shows "server_ok (upd (\<lambda>s. s\<lparr>lruCache := AList.update d c (lruCache s)\<rparr>) w)"
  using assms sinv_set_lru [of w d c0 c] by (simp add: server_ok_def raft_sane_def)

lemma lfu_touch_safe: "server_ok w \<Longrightarrow> safe server_ok (lfu_touch cx k w)"
proof (cases "map_of (lfuCache (srv w)) (Database cx)")
  case (Some c)
  assume ok: "server_ok w"
  then have "lfu_inv c" using Some sinvD(3) [of w] by (auto simp: server_ok_def caches_inv_def)
  then obtain c' where "LFU_Update (fst (now_millis w)) k c = Ok c'" "lfu_inv c'" using LFU_Update_inv by blast
  then show ?thesis
    using Some server_ok_lfu [OF now_millis_frame [OF ok], of "Database cx" c c']
    by (simp add: lfu_touch_def split_beta)
qed (simp add: lfu_touch_def)

lemma lru_touch_safe: "server_ok w \<Longrightarrow> safe server_ok (lru_touch cx k w)"
proof (cases "map_of (lruCache (srv w)) (Database cx)")
  case (Some c)
  assume ok: "server_ok w"
  then have "lru_inv c" using Some sinvD(3) [of w] by (auto simp: server_ok_def caches_inv_def)
  then obtain c' where "LRU_Update (fst (now_millis w)) (fst (now_millis (snd (now_millis w)))) k c = Ok c'" "lru_inv c'"
    using LRU_Update_spec by blast
  then show ?thesis
    using Some server_ok_lru [OF now_millis_frame [OF now_millis_frame [OF ok]], of "Database cx" c c']
    by (simp add: lru_touch_def split_beta)
qed (simp add: lru_touch_def)

lemma touch_keys_safe: "server_ok w \<Longrightarrow> safe server_ok (touch_keys cx ks n w)"
proof (induction ks arbitrary: n w)
  case (Cons k ks)
  have "safe server_ok (touch_key cx k e w)" for e
    using Cons.prems by (simp add: touch_key_def Let_def lfu_touch_safe lru_touch_safe)
  then show ?case
    using Cons by (auto intro!: safe_bind split: option.split)
qed simp

lemma evict_one_safe:
  assumes "server_ok w" "has_db (Database cx) w"
  shows "safe server_ok (evict_one cx k w)" "has_db d (snd (evict_one cx k w)) = has_db d w"
proof -
  have r: "server_ok (w\<lparr>srv := (srv w)\<lparr>raftLog := l\<rparr>\<rparr>)" for l
    by (rule server_ok_cong [OF assms(1)]) simp_all
  obtain w' where w': "deleteKey cx k w = (Ok (), w')" "server_ok w'" "\<forall>d. has_db d w' = has_db d w"
    using deleteKey_keeps [OF assms] by blast
  then show "safe server_ok (evict_one cx k w)" "has_db d (snd (evict_one cx k w)) = has_db d w"
    using assms(1) by (auto simp: evict_one_def raftApplyDeleteKey_def Let_def has_db_def intro!: safe_result r)
qed

lemma server_ok_lfu_db: "server_ok w \<Longrightarrow> map_of (lfuCache (srv w)) d = Some c \<Longrightarrow> has_db d w \<and> lfu_inv c"
  using db_caches(1) [of w d] sinvD(3) [of w] by (auto simp: server_ok_def has_db_def caches_inv_def)

lemma server_ok_lru_db: "server_ok w \<Longrightarrow> map_of (lruCache (srv w)) d = Some c \<Longrightarrow> has_db d w \<and> lru_inv c"
  using db_caches(2) [of w d] sinvD(3) [of w] by (auto simp: server_ok_def has_db_def caches_inv_def)

lemma safe_wrap [simp]: "safe I (wrap_err m r, w) = safe I (r, w)"
  by (cases r) (simp_all add: wrap_err_def)

text \<open>The common end of a turn of the eviction loops: the key is evicted, then the loop ends or goes on.\<close>

definition evict_turn ::
    "(sworld \<Rightarrow> (unit res \<times> sworld) option) \<Rightarrow> string \<Rightarrow> ctx \<Rightarrow> string \<Rightarrow> sworld \<Rightarrow> (unit res \<times> sworld) option" where
  "evict_turn loop msg cx k w =
     (let rw = evict_one cx k w
      in case fst rw of
           Ok _ \<Rightarrow> if below_max (srv (snd rw)) then Some (Ok (), snd rw) else loop (snd rw)
         | _ \<Rightarrow> Some (wrap_err msg (fst rw), snd rw))"

lemma evict_turn_safe:
  assumes "evict_turn loop msg cx k w = Some r" "server_ok w" "has_db (Database cx) w"
    and "\<And>w1. loop w1 = Some r \<Longrightarrow> server_ok w1 \<Longrightarrow> safe server_ok r"
  shows "safe server_ok r"
proof -
  obtain r0 w0 where e: "evict_one cx k w = (r0, w0)" by force
  then have "safe server_ok (r0, w0)" using evict_one_safe(1) [OF assms(2,3), of k] by simp
  with assms(1) [unfolded evict_turn_def Let_def e] assms(4)
  show ?thesis by (cases r0) (auto simp: wrap_err_def split: if_splits)
qed

lemma lfu_loop_safe:
  assumes "lfu_evict_loop cx w = Some r" "server_ok w"
  shows "safe server_ok r"
proof -
  have "server_ok w \<longrightarrow> safe server_ok r" if "lfu_evict_loop cx w = Some r" for w r
    using that
  proof (induction rule: lfu_evict_loop.raw_induct [rotated, consumes 1, case_names 1])
    case (1 loop cx w r)
    show ?case
    proof (intro impI)
      assume ok: "server_ok w"
      show "safe server_ok r"
      proof (cases "map_of (lfuCache (srv w)) (Database cx)")
        case (Some c)
        note c = server_ok_lfu_db [OF ok Some]
        show ?thesis
        proof (cases "LFU_Len c = 0")
          case False
          then obtain k c' where p: "LFU_HeapPop c = Ok (k, c')" "lfu_inv c'"
            using LFU_HeapPop_spec [of c] c by (auto simp: LFU_Len_def)
          let ?w1 = "upd (\<lambda>s. s\<lparr>lfuCache := AList.update (Database cx) c' (lfuCache s)\<rparr>) w"
          have "evict_turn (loop cx) ''adjustMemoryUsage -> LFU cache eviction: '' cx k ?w1 = Some r"
            using 1(2) Some False p(1) by (simp add: evict_turn_def)
          then show ?thesis
            by (rule evict_turn_safe) (use 1(1) server_ok_lfu [OF ok Some p(2)] c in \<open>auto simp: has_db_def\<close>)
        qed (use 1(2) Some ok in auto)
      qed (use 1(2) in auto)
    qed
  qed
  then show ?thesis using assms by blast
qed

lemma lru_loop_safe:
  assumes "lru_evict_loop cx w = Some r" "server_ok w"
  shows "safe server_ok r"
proof -
  have "server_ok w \<longrightarrow> safe server_ok r" if "lru_evict_loop cx w = Some r" for w r
    using that
  proof (induction rule: lru_evict_loop.raw_induct [rotated, consumes 1, case_names 1])
    case (1 loop cx w r)
    show ?case
    proof (intro impI)
      assume ok: "server_ok w"
      show "safe server_ok r"
      proof (cases "map_of (lruCache (srv w)) (Database cx)")
        case (Some c)
        note c = server_ok_lru_db [OF ok Some]
        show ?thesis
        proof (cases "LRU_Len c = 0")
          case False
          then obtain k c' where p: "LRU_HeapPop c = Ok (k, c')" "lru_inv c'"
            using LRU_HeapPop_spec [of c] c by (auto simp: LRU_Len_def)
          let ?w1 = "upd (\<lambda>s. s\<lparr>lruCache := AList.update (Database cx) c' (lruCache s)\<rparr>) w"
          have "evict_turn (loop cx) ''adjustMemoryUsage -> LRU cache eviction: '' cx k ?w1 = Some r"
            using 1(2) Some False p(1) by (simp add: evict_turn_def)
          then show ?thesis
            by (rule evict_turn_safe) (use 1(1) server_ok_lru [OF ok Some p(2)] c in \<open>auto simp: has_db_def\<close>)
        qed (use 1(2) Some ok in auto)
      qed (use 1(2) in auto)
    qed
  qed
  then show ?thesis using assms by blast
qed

lemma server_ok_flip: "server_ok w \<Longrightarrow> server_ok (snd (flip w))"
  by (rule server_ok_cong [of w]) simp_all

lemma server_ok_range: "server_ok w \<Longrightarrow> server_ok (snd (go_range xs w))"
  by (rule server_ok_cong [of w]) simp_all

lemma has_db_key: "k \<in> set (gm_keys (db_of (srv w) d)) \<Longrightarrow> has_db d w"
  by (cases "map_of (store (srv w)) d") (simp_all add: has_db_def db_of_def gm_keys_def)

lemma volatile_key_db: "server_ok w \<Longrightarrow> k \<in> set (volatile_keys (srv w) d) \<Longrightarrow> has_db d w"
  using lookup_db_exists [of "srv w" d k]
  by (fastforce simp: server_ok_def sinv_def volatile_inv_def has_db_def)

lemma random_loop_safe:
  assumes "random_evict_loop cx w = Some r" "server_ok w"
  shows "safe server_ok r"
proof -
  have "server_ok w \<longrightarrow> safe server_ok r" if "random_evict_loop cx w = Some r" for w r
    using that
  proof (induction rule: random_evict_loop.raw_induct [rotated, consumes 1, case_names 1])
    case (1 loop cx w r)
    let ?kw = "go_range (gm_keys (db_of (srv w) (Database cx))) (snd (flip w))"
    let ?i = "intn (fst (flip w)) (length (store (srv w)))"
    show ?case
    proof (intro impI)
      assume ok: "server_ok w"
      then have ok': "server_ok (snd ?kw)" by (intro server_ok_range server_ok_flip)
      consider "store (srv w) = []" | "store (srv w) \<noteq> []" "\<not> ?i < length (fst ?kw)"
        | "store (srv w) \<noteq> []" "?i < length (fst ?kw)" by blast
      then show "safe server_ok r"
      proof cases
        case 3
        then have t: "evict_turn (loop cx) ''adjustMemoryUsage -> all keys random: '' cx (fst ?kw ! ?i) (snd ?kw) = Some r"
          using 1(2) by (simp add: evict_turn_def Let_def)
        have "fst ?kw ! ?i \<in> set (gm_keys (db_of (srv w) (Database cx)))" using 3(2) nth_mem by fastforce
        then have "has_db (Database cx) (snd ?kw)" using has_db_key [of _ w] by (simp add: has_db_def)
        then show ?thesis using evict_turn_safe [OF t ok'] 1(1) by blast
      qed (use 1 ok ok' in \<open>auto simp: Let_def\<close>)
    qed
  qed
  then show ?thesis using assms by blast
qed

lemma volatile_loop_safe:
  assumes "volatile_evict_loop cx w = Some r" "server_ok w"
  shows "safe server_ok r"
proof -
  have "server_ok w \<longrightarrow> safe server_ok r" if "volatile_evict_loop cx w = Some r" for w r
    using that
  proof (induction rule: volatile_evict_loop.raw_induct [rotated, consumes 1, case_names 1])
    case (1 loop cx w r)
    let ?ks = "volatile_keys (srv w) (Database cx)"
    let ?i = "intn (fst (flip w)) (length (keysWithExpiry (srv w)))"
    show ?case
    proof (intro impI)
      assume ok: "server_ok w"
      consider "keysWithExpiry (srv w) = []" | "keysWithExpiry (srv w) \<noteq> []" "length ?ks \<le> ?i"
        | "keysWithExpiry (srv w) \<noteq> []" "?i < length ?ks" by linarith
      then show "safe server_ok r"
      proof cases
        case 3
        then have t: "evict_turn (loop cx) ''adjustMemoryUsage -> volatile keys random: '' cx (?ks ! ?i) (snd (flip w)) = Some r"
          using 1(2) by (simp add: evict_turn_def Let_def)
        have "has_db (Database cx) (snd (flip w))"
          using volatile_key_db [OF ok nth_mem [OF 3(2)]] by (simp add: has_db_def)
        then show ?thesis using evict_turn_safe [OF t server_ok_flip [OF ok]] 1(1) by blast
      qed (use 1(2) in \<open>auto simp: Let_def\<close>)
    qed
  qed
  then show ?thesis using assms by blast
qed

lemma adjustMemoryUsage_safe: "server_ok w \<Longrightarrow> safe server_ok (adjustMemoryUsage cx w)"
  by (auto simp: adjustMemoryUsage_def Let_def returned_def split: option.split
      intro: lfu_loop_safe lru_loop_safe random_loop_safe volatile_loop_safe)

lemma adjust_all_safe: "server_ok w \<Longrightarrow> safe server_ok (adjust_all cx ds w)"
proof (induction ds arbitrary: w)
  case (Cons d ds)
  obtain r w1 where a: "adjustMemoryUsage (cx\<lparr>Database := d\<rparr>) w = (r, w1)" by force
  have s: "safe server_ok (r, w1)" using adjustMemoryUsage_safe [OF Cons.prems, of "cx\<lparr>Database := d\<rparr>"] a by simp
  show ?case
  proof (cases r)
    case (Err e)
    have "safe server_ok (adjust_all cx ds w1)" using Cons.IH s Err by simp
    then show ?thesis
      using a Err by (cases "adjust_all cx ds w1"; cases "fst (adjust_all cx ds w1)") simp_all
  qed (use Cons.IH s a in simp_all)
qed simp

lemma updateKeysInCache_safe: "server_ok w \<Longrightarrow> safe server_ok (updateKeysInCache cx ks w)"
proof -
  have a: "safe server_ok (wrap_err m (fst (adjust_all cx ds w)), snd (adjust_all cx ds w))" if "server_ok w" for m ds w
    using adjust_all_safe [OF that, of cx ds] by simp
  show "server_ok w \<Longrightarrow> safe server_ok (updateKeysInCache cx ks w)"
    unfolding updateKeysInCache_def split_beta Let_def
    by (intro safe_if safe_result safe_bind [OF touch_keys_safe] safe_bind [OF a] server_ok_range)
qed

text \<open>The goroutines that reads and writes start.\<close>

lemma touch_each_safe: "server_ok w \<Longrightarrow> safe server_ok (touch_each cx ks w)"
proof (induction ks arbitrary: w)
  case (Cons k ks)
  then show ?case
    using updateKeysInCache_safe [OF Cons.prems, of cx "[k]"]
    by (cases "updateKeysInCache cx [k] w"; cases "fst (updateKeysInCache cx [k] w)") simp_all
qed simp

lemma run_task_safe: "server_ok w \<Longrightarrow> safe server_ok (run_task t w)"
proof (cases t)
  case (UpdateKeys cx ks)
  assume "server_ok w"
  from updateKeysInCache_safe [OF this, of cx ks] show ?thesis
    using UpdateKeys by (cases "updateKeysInCache cx ks w"; cases "fst (updateKeysInCache cx ks w)") simp_all
qed (simp add: split_beta touch_each_safe server_ok_range)

subsection \<open>The interpretation\<close>

lemma server_ok_ensure_db: "server_ok w \<Longrightarrow> server_ok (upd (ensure_db d) w)"
  using sinv_ensure_db [of w d] by (simp add: server_ok_def raft_sane_def)

lemma setConnectionInfo_keeps:
  assumes "server_ok w"
  shows "server_ok (upd (setConnectionInfo c name protocol d) w)"
  by (rule server_ok_cong [OF server_ok_ensure_db [OF assms, of d]]) (simp_all add: setConnectionInfo_def Let_def)

lemma SwapDBs_keeps: "server_ok w \<Longrightarrow> server_ok (upd (SwapDBs d1 d2) w)"
proof -
  assume ok: "server_ok w"
  then have "sinv (upd (SwapDBs d1 d2) w)" using SwapDBs_spec(1) by (simp add: server_ok_def)
  moreover have "memUsed (SwapDBs d1 d2 (srv w)) = memUsed (srv w)" "raft_apply (SwapDBs d1 d2 (srv w)) = raft_apply (srv w)"
    by (simp_all add: SwapDBs_def Let_def)
  ultimately show ?thesis using ok by (simp add: server_ok_def raft_sane_def)
qed

lemma RewriteLog_safe: "server_ok w \<Longrightarrow> safe server_ok (RewriteLog w)"
proof -
  have p: "safe server_ok (CreatePreamble w)" if "server_ok w" for w
    unfolding CreatePreamble_def
    by (intro safe_value safe_option safe_result that server_ok_cong [OF that]) simp_all
  assume ok: "server_ok w"
  have "server_ok (upd (\<lambda>s. s\<lparr>rewriteAOFInProgress := True\<rparr>) w)" by (rule server_ok_cong [OF ok]) simp_all
  note p = p [OF this]
  obtain r w1 where c: "CreatePreamble (upd (\<lambda>s. s\<lparr>rewriteAOFInProgress := True\<rparr>) w) = (r, w1)" by force
  have d: "server_ok w1 \<Longrightarrow> server_ok (upd (\<lambda>s. s\<lparr>rewriteAOFInProgress := False\<rparr>) (upd (\<lambda>s. s\<lparr>appendStore := st\<rparr>) w1))"
    "server_ok w1 \<Longrightarrow> server_ok (upd (\<lambda>s. s\<lparr>rewriteAOFInProgress := False\<rparr>) w1)" for st
    by (rule server_ok_cong [of w1]; simp)+
  show ?thesis using p d by (cases r) (auto simp: RewriteLog_def c Let_def split: res.split)
qed

lemma server_ok_fields:
  assumes "server_ok w"
  shows "server_ok (upd (acl_update f) w)" "server_ok (upd (pubSub_update g) w)" "server_ok (upd (unloadModule m) w)"
    "server_ok (upd (\<lambda>s. s\<lparr>snapshotsStarted := n s\<rparr>) w)"
  by (rule server_ok_cong [OF assms]; simp add: unloadModule_def)+

lemma write_through_absent: "entry_of cx w k = None \<Longrightarrow> write_through cx k v w = w"
  by (simp add: write_through_def entry_of_def split: option.splits)

lemma other_functions:
  "TouchKeys (getHandlerFuncParams cx cmd conn) = updateKeysInCache"
  "SwapDatabases (getHandlerFuncParams cx cmd conn) = (\<lambda>d1 d2. upd (SwapDBs d1 d2))"
  "PutACL (getHandlerFuncParams cx cmd conn) = (\<lambda>a. upd (acl_update (\<lambda>_. a)))"
  "PutPubSub (getHandlerFuncParams cx cmd conn) = (\<lambda>ps. upd (pubSub_update (\<lambda>_. ps)))"
  "SetConnectionInfo (getHandlerFuncParams cx cmd conn) =
     (\<lambda>c name protocol d. upd (setConnectionInfo c name protocol d))"
  "TakeSnapshot (getHandlerFuncParams cx cmd conn) = takeSnapshot"
  "RewriteAOF (getHandlerFuncParams cx cmd conn) = rewriteAOF"
  "LoadModule (getHandlerFuncParams cx cmd conn) = loadModule"
  "UnloadModule (getHandlerFuncParams cx cmd conn) = (\<lambda>m. upd (unloadModule m))"
  by (simp_all add: getHandlerFuncParams_def)

interpretation safe: kv_safe "getHandlerFuncParams cx cmd conn" "entry_of cx" memory_full server_ok "has_db (Database cx)"
  for cx cmd conn
proof unfold_locales
  show "has_db (Database cx) w" if "entry_of cx w k \<noteq> None" for w k using that by (rule has_db_entry)
  show "has_db (Database cx) w' = has_db (Database cx) w" if "srv w' = srv w" for w w' :: sworld
    using that by (simp add: has_db_def)
  show "safe server_ok (SetExpiry (getHandlerFuncParams cx cmd conn) (Context (getHandlerFuncParams cx cmd conn)) k t touch w)"
    if "server_ok w" for w k t touch using setExpiry_safe [OF that] by simp
  show "\<exists>w'. DeleteKey (getHandlerFuncParams cx cmd conn) (Context (getHandlerFuncParams cx cmd conn)) k w = (Ok (), w') \<and>
      server_ok w' \<and> has_db (Database cx) w'" if "server_ok w" "has_db (Database cx) w" for w k
    using deleteKey_keeps [OF that] that(2) by auto
  show "safe server_ok (ObjectIdleTime (getHandlerFuncParams cx cmd conn) (Context (getHandlerFuncParams cx cmd conn)) k w)"
    if "server_ok w" for w k
    by (auto simp: getHandlerFuncParams_def getObjectIdleTime_def split_beta that now_millis_frame server_ok_flip
        intro!: safe_option safe_value)
  show "server_ok (snd (RandomKey (getHandlerFuncParams cx cmd conn) (Context (getHandlerFuncParams cx cmd conn)) w))"
    if "server_ok w" for w
    by (simp add: getHandlerFuncParams_def randomKey_def split_beta that server_ok_range server_ok_flip Let_def)
qed (simp_all add: getValues_db setValues_db setValues_dangling other_functions server_ok_fields updateKeysInCache_safe
    SwapDBs_keeps setConnectionInfo_keeps rewriteAOF_def RewriteLog_safe takeSnapshot_def loadModule_def write_through_absent)

end
