(* ===== verification/Reachability.thy ===== *)
theory Reachability
  imports ServerSafety StartUpSpecs EmbeddedSpecs
begin

text \<open>
  The states a server reaches: one rule for every way in which the server, its clients and the other
  nodes of a cluster act on it, and the invariant of the keyspace in every state that is reached. What
  flushing a database breaks, and why it is not among the steps.
\<close>

subsection \<open>Commands\<close>

definition flushing :: "'s command \<Rightarrow> bool" where
  "flushing c \<longleftrightarrow> CommandName c \<in> {''flushall'', ''flushdb''}"

lemma list_all_weaken: "list_all P xs \<Longrightarrow> list_all (\<lambda>x. Q x \<or> P x) xs"
  by (simp add: list_all_iff)

lemma tables_keep: "list_all (\<lambda>c. flushing c \<or> safe.keeps cx cmd conn c) all_commands"
  unfolding all_commands_def list_all_append flushing_def
  by (intro conjI safe.generic_commands_keep list_all_weaken safe.acl_commands_keep safe.admin_commands_keep
      safe.connection_commands_keep safe.hash_commands_keep safe.list_commands_keep safe.pubsub_commands_keep
      safe.set_commands_keep safe.sortedset_commands_keep safe.string_commands_keep)

lemma getCommand_table:
  assumes "getCommand s name = Ok c"
  obtains i c0 where "c0 \<in> set all_commands" "c = kept_subs i c0"
proof -
  obtain i where i: "find (\<lambda>i. equal_fold (InfoName i) name) (commands s) = Some i"
    using assms by (auto simp: getCommand_def split: option.splits)
  then obtain c0 where "find (\<lambda>c. CommandName c = InfoName i) all_commands = Some c0" "c = kept_subs i c0"
    using assms by (auto simp: getCommand_def split: option.splits)
  then show thesis using that by (metis find_Some_iff nth_mem)
qed

lemma command_keeps:
  assumes "getCommand s name = Ok c" "\<not> flushing c"
  shows "safe.keeps cx cmd conn c"
proof -
  obtain i c0 where c: "c0 \<in> set all_commands" "c = kept_subs i c0" using getCommand_table [OF assms(1)] .
  then have "\<not> flushing c0" using assms(2) by (simp add: flushing_def kept_subs_def)
  then have "safe.keeps cx cmd conn c0" using tables_keep c(1) by (auto simp: list_all_iff)
  then show ?thesis by (simp add: c(2) safe.keeps_def kept_subs_def)
qed

lemma GetSubCommand_in: "GetSubCommand c cmd = Ok (Some sc) \<Longrightarrow> sc \<in> set (SubCommands c)"
  by (auto simp: GetSubCommand_def find_Some_iff split: if_splits option.splits)

lemma chosen_handler_safe:
  assumes "getCommand s name = Ok c" "\<not> flushing c" "GetSubCommand c cmd' = Ok sub" "server_ok w"
  shows "safe server_ok (chosen_handler c sub (getHandlerFuncParams cx cmd conn) w)"
  using command_keeps [OF assms(1,2), of cx cmd conn] GetSubCommand_in [of c cmd'] assms(3,4)
  by (auto simp: safe.keeps_def chosen_handler_def split: option.split)

lemma raftApplyCommand_safe: "server_ok w \<Longrightarrow> safe server_ok (raftApplyCommand cx cmd w)"
  unfolding raftApplyCommand_def Let_def by (rule safe_result, rule server_ok_cong [of w]) simp_all

lemma run_command_safe:
  assumes "getCommand s name = Ok c" "\<not> flushing c" "GetSubCommand c cmd' = Ok sub" "server_ok w"
  shows "safe server_ok (run_command c sub cx cmd m conn replay w)"
proof -
  have e: "server_ok (end_mutation w1)" if "server_ok w1" for w1
    by (rule server_ok_cong [OF that]) (simp_all add: end_mutation_def)
  have l: "safe server_ok (log_command conn m w1)" if "server_ok w1" for w1
    using server_ok_cong [OF that] by (simp add: log_command_def Let_def)
  have f: "server_ok (upd (\<lambda>s. s\<lparr>forwardedCommands := forwardedCommands s @ [m]\<rparr>) w)"
    by (rule server_ok_cong [OF assms(4)]) simp_all
  show ?thesis
    unfolding run_command_def run_local_def
    by (intro safe_if safe_bind [OF chosen_handler_safe [OF assms]] safe_bind [OF safe_if] l safe_result e f
        raftApplyCommand_safe assms(4))
qed

text \<open>What a message finds.\<close>

definition flushes :: "server \<Rightarrow> string \<Rightarrow> bool" where
  "flushes s m \<longleftrightarrow>
     (case Decode (libs s) m of
        Ok (name # _) \<Rightarrow> (case getCommand s name of Ok c \<Rightarrow> flushing c | _ \<Rightarrow> False)
      | _ \<Rightarrow> False)"

lemma handleCommand_safe:
  assumes "handleCommand cx m conn replay emb w = Some z" "server_ok w" "\<not> flushes (srv w) m"
  shows "safe server_ok z"
proof (cases "Decode (libs (srv w)) m")
  case (Ok cmd)
  show ?thesis
  proof (cases "cmd = [] \<or> equal_fold (hd cmd) ''quit''")
    case False
    then obtain name rest where cmd: "cmd = name # rest" by (cases cmd) auto
    show ?thesis
    proof (cases "getCommand (srv w) name")
      case c: (Ok c)
      then have nf: "\<not> flushing c" using assms(3) Ok cmd by (simp add: flushes_def)
      show ?thesis
      proof (cases "GetSubCommand c cmd")
        case sub: (Ok sub)
        obtain r w1 where a: "authorize conn emb cmd c sub w = (r, w1)" by force
        have "frames w w1"
          using a authorization_frames [of w "acl (srv w)" conn cmd c sub]
          by (auto simp: authorize_def frames_def split_beta split: if_splits)
        then have w1: "server_ok w1" using server_ok_frames assms(2) by blast
        have "server_ok (begin_mutation b w1)" for b
          by (rule server_ok_cong [OF w1]) (simp_all add: begin_mutation_def)
        from run_command_safe [OF c nf sub this]
        show ?thesis
          using assms(1) Ok cmd c sub a w1 False
          by (cases r) (auto simp: handleCommand_def Let_def split: if_splits)
      qed (use assms Ok cmd c False in \<open>auto simp: handleCommand_def Let_def\<close>)
    qed (use assms Ok cmd False in \<open>auto simp: handleCommand_def Let_def\<close>)
  qed (use assms Ok in \<open>cases "cmd = []"; auto simp: handleCommand_def Let_def\<close>)
qed (use assms in \<open>auto simp: handleCommand_def Let_def\<close>)


subsection \<open>The log of the cluster\<close>

text \<open>
  An entry that deletes a key of a database the node does not have either panics, on the cache of the
  database, or leaves an empty list of volatile keys for it.
\<close>

lemma deleteKey_no_db:
  assumes "server_ok w" "\<not> has_db (Database cx) w"
  shows "safe server_ok (deleteKey cx k w)"
proof -
  let ?d = "Database cx"
  let ?s = "volatile_drop ?d k (drop_key ?d k
    ((srv w)\<lparr>memUsed := i64 (memUsed (srv w) - sizeof_time - sizeof_string - int (length k))\<rparr>))"
  have ok: "sinv w" "raft_sane (srv w)" using assms(1) by (simp_all add: server_ok_def)
  have db: "map_of (store (srv w)) ?d = None" using assms(2) by (simp add: has_db_def)
  then have none: "lookup_key (srv w) ?d k' = None" for k' by (simp add: lookup_key_def db_of_def)
  then have mem: "KeyData_GetMem (heap w) (case lookup_key (srv w) ?d k of None \<Rightarrow> zero_keydata | Some e \<Rightarrow> e) = Ok sizeof_time"
    by (simp add: zero_keydata_def KeyData_GetMem.simps)
  have caches: "map_of (lfuCache (srv w)) ?d = None" "map_of (lruCache (srv w)) ?d = None"
    using db_caches [OF ok(1), of ?d] db by simp_all
  have "volatile_keys (srv w) ?d = []"
    using sinvD(4) [OF ok(1)] none unfolding volatile_inv_def by (metis list.set_intros(1) neq_Nil_conv)
  then have vol: "volatile_keys ?s = volatile_keys (srv w)"
    using db by (auto simp: fun_eq_iff volatile_drop_def drop_key_def volatile_keys_def update_conv' split: option.splits)
  have st: "store ?s = store (srv w)" "lfuCache ?s = lfuCache (srv w)" "lruCache ?s = lruCache (srv w)"
    using db by (simp_all add: volatile_drop_def drop_key_def)
  have "store_inv ?s"
    using sinvD(2) [OF ok(1)] st by (auto simp: store_inv_def db_of_def volatile_drop_def)
  then have "sinv (w\<lparr>srv := ?s\<rparr>)"
    using ok(1) st vol lookup_cong [OF st(1)]
    by (simp add: sinv_def heap_wf_def caches_inv_def volatile_inv_def values_inv_def)
  then have "server_ok (w\<lparr>srv := ?s\<rparr>)"
    using ok(2) by (simp add: server_ok_def raft_sane_def volatile_drop_def drop_key_def split: option.split)
  moreover have "deleteKey cx k w = (fst (cache_delete ?d k ?s), w\<lparr>srv := snd (cache_delete ?d k ?s)\<rparr>)"
    by (simp add: deleteKey_unfold [OF mem] Let_def)
  ultimately show ?thesis using caches st by (simp add: cache_delete_def)
qed

lemma deleteKey_safe:
  assumes "server_ok w"
  shows "safe server_ok (deleteKey cx k w)"
  using deleteKey_keeps [of w cx k] deleteKey_no_db [of w cx k] assms by (cases "has_db (Database cx) w") auto

fun flush_entry :: "server \<Rightarrow> apply_request \<Rightarrow> bool" where
  "flush_entry s (DeleteKeyRequest sid protocol d k) \<longleftrightarrow> False"
| "flush_entry s (CommandRequest sid cid protocol d cmd) \<longleftrightarrow>
     (case cmd of [] \<Rightarrow> False | name # _ \<Rightarrow> (case getCommand s name of Ok c \<Rightarrow> flushing c | _ \<Rightarrow> False))"

lemma FSM_Apply_safe:
  assumes "server_ok w" "\<not> flush_entry (srv w) req"
  shows "safe server_ok (FSM_Apply req w)"
proof (cases req)
  case (DeleteKeyRequest sid protocol d k)
  let ?cx = "\<lparr>ServerID = sid, ConnectionName = [], Protocol = protocol, Database = d, ConnectionID = ''nil''\<rparr>"
  show ?thesis
    using deleteKey_safe [OF assms(1), of ?cx k]
    by (cases "deleteKey ?cx k w"; cases "fst (deleteKey ?cx k w)") (simp_all add: FSM_Apply_def DeleteKeyRequest)
next
  case (CommandRequest sid cid protocol d cmd)
  show ?thesis
  proof (cases cmd)
    case (Cons name rest)
    show ?thesis
    proof (cases "getCommand (srv w) name")
      case c: (Ok c)
      then have nf: "\<not> flushing c" using assms(2) Cons CommandRequest by simp
      show ?thesis
        using chosen_handler_safe [OF c nf _ assms(1)] assms(1)
        by (cases "GetSubCommand c cmd") (simp_all add: FSM_Apply_def CommandRequest c Cons)
    qed (use assms(1) in \<open>simp_all add: FSM_Apply_def CommandRequest Cons\<close>)
  qed (simp add: FSM_Apply_def CommandRequest)
qed

lemma printed_safe: "safe I m \<Longrightarrow> safe I (printed m)"
  by (cases m; cases "fst m") (simp_all add: printed_def)

lemma NotifyMsg_safe:
  assumes "server_ok w"
  shows "safe server_ok (fst (NotifyMsg raft_add m cs w))"
proof -
  have "safe server_ok (raftApplyDeleteKey cx k w)" for cx k
    unfolding raftApplyDeleteKey_def Let_def by (rule safe_result, rule server_ok_cong [OF assms]) simp_all
  then show ?thesis
    using assms
    by (auto simp: NotifyMsg_def Let_def split_beta printed_safe raftApplyCommand_safe safe_result split: res.split)
qed

subsection \<open>Connections and tickers\<close>

lemma open_connection_safe: "server_ok w \<Longrightarrow> safe server_ok (open_connection c w)"
  unfolding open_connection_def by (intro safe_value safe_result; (rule server_ok_cong [of w])?) simp_all

text \<open>A sample that is not empty shows that the database exists.\<close>

lemma sample_volatile_db:
  assumes "sample_volatile d i (Suc n) keys w = (Ok ks, w')" "server_ok w"
  shows "has_db d w"
proof -
  obtain rw where rw: "draw_volatile d keys w = Some rw"
    using assms(1) by (cases "draw_volatile d keys w") (simp_all add: returned_def)
  then obtain k :: string where "fst rw = Ok k" using assms(1) by (cases rw; cases "fst rw") (simp_all add: returned_def)
  then have "k \<in> set (volatile_keys (srv w) d)"
    using draw_volatile_Some [of d keys w "fst rw" "snd rw"] rw by (cases rw) simp
  then show ?thesis by (rule volatile_key_db [OF assms(2)])
qed

lemma sample_volatile_ok: "server_ok w \<Longrightarrow> server_ok (snd (sample_volatile d i n keys w))"
  using server_ok_frames [of w "snd (sample_volatile d i n keys w)"] sample_volatile_srv [of d i n keys w]
  by (simp add: frames_def)

lemma evict_sampled_safe: "server_ok w \<Longrightarrow> ks = [] \<or> has_db (Database cx) w \<Longrightarrow> safe server_ok (evict_sampled cx ks n w)"
proof (induction ks arbitrary: n w)
  case (Cons k ks)
  obtain r w1 where e: "evict_one cx k w = (r, w1)" by force
  have "safe server_ok (r, w1)" "has_db (Database cx) w1"
    using evict_one_safe [where w = w and cx = cx and k = k] Cons.prems e by force+
  then show ?case using e Cons.IH [of w1 "n + 1"] by (cases r) (simp_all add: wrap_err_def)
qed simp

lemma evict_ttl_locked_safe: "server_ok w \<Longrightarrow> safe server_ok (evict_ttl_locked cx w)"
proof -
  assume ok: "server_ok w"
  let ?m = "sample_volatile (Database cx) 0 (sample_size (Database cx) (srv w))
    (replicate (sample_size (Database cx) (srv w)) []) w"
  have "server_ok (snd ?m)" using sample_volatile_ok [OF ok] .
  then show ?thesis using ok by (cases ?m; cases "fst ?m") (simp_all add: evict_ttl_locked_def Let_def)
qed

lemma evictKeysWithExpiredTTL_safe:
  assumes "server_ok w"
  shows "safe server_ok (evictKeysWithExpiredTTL cx w)"
proof -
  let ?n = "sample_size (Database cx) (srv w)"
  obtain r w1 where r: "sample_volatile (Database cx) 0 ?n (replicate ?n []) w = (r, w1)" by force
  have w1: "server_ok w1" "srv w1 = srv w"
    using sample_volatile_ok [OF assms, of "Database cx" 0 ?n "replicate ?n []"]
      sample_volatile_srv [of "Database cx" 0 ?n "replicate ?n []" w] r by simp_all
  have "ks = [] \<or> has_db (Database cx) w1" if "r = Ok ks" for ks
  proof (cases ?n)
    case 0
    then show ?thesis using r that by simp
  next
    case (Suc n)
    then have "has_db (Database cx) w" using sample_volatile_db [OF r [unfolded Suc that] assms] by simp
    then show ?thesis using w1(2) by (simp add: has_db_def)
  qed
  then have "safe server_ok (and_then (r, w1) (\<lambda>keys w1.
       and_then (evict_sampled cx keys 0 w1) (\<lambda>deleted w2.
         if ?n = 0 then (Ok (), w2)
         else if 20 \<le> (deleted div int ?n) * 100 then evict_ttl_locked cx w2 else (Ok (), w2))))"
    using w1(1) by (intro safe_value safe_bind [OF evict_sampled_safe] safe_if evict_ttl_locked_safe) simp_all
  then show ?thesis using assms by (simp add: evictKeysWithExpiredTTL_def Let_def r)
qed

lemma evict_databases_safe: "server_ok w \<Longrightarrow> safe server_ok (evict_databases ds w)"
proof (induction ds arbitrary: w)
  case (Cons d ds)
  show ?case
    using evictKeysWithExpiredTTL_safe [OF Cons.prems, of "background_ctx d"] Cons.IH
    by (cases "evictKeysWithExpiredTTL (background_ctx d) w"; cases "fst (evictKeysWithExpiredTTL (background_ctx d) w)")
      simp_all
qed simp

lemma eviction_tick_safe: "server_ok w \<Longrightarrow> safe server_ok (eviction_tick w)"
  by (simp add: eviction_tick_def split_beta evict_databases_safe server_ok_range)

lemma Engine_TakeSnapshot_safe:
  assumes "server_ok w"
  shows "safe server_ok (Engine_TakeSnapshot w)"
proof -
  have p: "server_ok (upd (\<lambda>s. s\<lparr>snapshotInProgress := b\<rparr>) w)" "server_ok (upd create_manifest w)"
    "server_ok (upd (write_snapshot out t) w)" if "server_ok w" for b w out t
    by (rule server_ok_cong [OF that]; simp add: create_manifest_def write_snapshot_def)+
  have "safe server_ok (TakeSnapshot_body w)" if "server_ok w" for w
    unfolding TakeSnapshot_body_def Let_def by (intro safe_if safe_value safe_result p that)
  then have "safe server_ok (TakeSnapshot_body (upd (\<lambda>s. s\<lparr>snapshotInProgress := True\<rparr>) w))"
    using p(1) [OF assms] by blast
  then show ?thesis
    by (cases "TakeSnapshot_body (upd (\<lambda>s. s\<lparr>snapshotInProgress := True\<rparr>) w)";
        cases "fst (TakeSnapshot_body (upd (\<lambda>s. s\<lparr>snapshotInProgress := True\<rparr>) w))")
      (simp_all add: Engine_TakeSnapshot_def p)
qed

lemma snapshot_tick_safe: "server_ok w \<Longrightarrow> safe server_ok (snapshot_tick n w)"
  by (simp add: snapshot_tick_def Engine_TakeSnapshot_safe)

subsection \<open>The states a server reaches\<close>

text \<open>
  One step of the server: an operation runs to its end, with a result or an error; a panic ends the
  program, and an operation that waits forever holds what it locked. The last two rules are the
  environment's: the clock goes on, and the choices that are still to be made may be any.
\<close>

definition ended :: "'a res \<Rightarrow> bool" where
  "ended r \<longleftrightarrow> (case r of Ok _ \<Rightarrow> True | Err _ \<Rightarrow> True | _ \<Rightarrow> False)"

inductive step :: "sworld \<Rightarrow> sworld \<Rightarrow> bool" where
  message: "handleCommand cx m conn replay emb w = Some (r, w') \<Longrightarrow> ended r \<Longrightarrow> \<not> flushes (srv w) m \<Longrightarrow> step w w'"
| connect: "open_connection c w = (r, w') \<Longrightarrow> ended r \<Longrightarrow> step w w'"
| goroutine: "t \<in> set (tasks (srv w)) \<Longrightarrow> run_task t w = (r, w') \<Longrightarrow> ended r \<Longrightarrow> step w w'"
| evict: "eviction_tick w = (r, w') \<Longrightarrow> ended r \<Longrightarrow> step w w'"
| snapshot_due: "snapshot_tick n w = (r, w') \<Longrightarrow> ended r \<Longrightarrow> step w w'"
| snapshot_asked: "0 < snapshotsStarted (srv w) \<Longrightarrow> Engine_TakeSnapshot w = (r, w') \<Longrightarrow> ended r \<Longrightarrow> step w w'"
| log_entry: "FSM_Apply req w = (r, w') \<Longrightarrow> ended r \<Longrightarrow> \<not> flush_entry (srv w) req \<Longrightarrow> step w w'"
| gossip: "NotifyMsg raft_add msg cs w = ((r, w'), cs') \<Longrightarrow> ended r \<Longrightarrow> step w w'"
| select: "SelectDB d (srv w) = (r, s') \<Longrightarrow> step w (w\<lparr>srv := s'\<rparr>)"
| protocol: "SetProtocol n (srv w) = (r, s') \<Longrightarrow> step w (w\<lparr>srv := s'\<rparr>)"
| clock: "clockNow (srv w) \<le> t \<Longrightarrow> step w (upd (\<lambda>s. s\<lparr>clockNow := t\<rparr>) w)"
| choices: "step w (w\<lparr>coins := cs\<rparr>)"

inductive reachable :: "environment \<Rightarrow> (config_data \<Rightarrow> config_data) list \<Rightarrow> sworld \<Rightarrow> bool"
  for env options where
  start: "NewSugarDB env options cs = (Ok (), w) \<Longrightarrow> reachable env options w"
| more: "reachable env options w \<Longrightarrow> step w w' \<Longrightarrow> reachable env options w'"

lemma safe_ended: "safe I (r, w) \<Longrightarrow> ended r \<Longrightarrow> I w"
  by (cases r) (simp_all add: ended_def)

lemma SelectDB_keeps:
  assumes "server_ok w"
  shows "server_ok (w\<lparr>srv := snd (SelectDB d (srv w))\<rparr>)"
proof -
  have "server_ok (w\<lparr>srv := (ensure_db d (srv w))\<lparr>embedded := i\<rparr>\<rparr>)" for i
    by (rule server_ok_cong [OF server_ok_ensure_db [OF assms, of d]]) simp_all
  then show ?thesis using assms by (simp add: SelectDB_def)
qed

lemma SetProtocol_keeps:
  assumes "server_ok w"
  shows "server_ok (w\<lparr>srv := snd (SetProtocol n (srv w))\<rparr>)"
proof (cases "n \<in> {2, 3}")
  case True
  then have "snd (SetProtocol n (srv w)) = (srv w)\<lparr>embedded := (embedded (srv w))\<lparr>ConnProtocol := n\<rparr>\<rparr>"
    by (auto simp: SetProtocol_def)
  then show ?thesis by (intro server_ok_cong [OF assms]) simp_all
qed (use assms in \<open>simp add: SetProtocol_def\<close>)

lemma step_keeps: "step w w' \<Longrightarrow> server_ok w \<Longrightarrow> server_ok w'"
proof (induction rule: step.induct)
  case (message cx m conn replay emb w r w')
  show ?case using safe_ended [OF handleCommand_safe [OF message(1,4,3)] message(2)] .
next
  case (connect c w r w')
  show ?case by (rule safe_ended [OF open_connection_safe [OF connect(3), of c, unfolded connect(1)] connect(2)])
next
  case (goroutine t w r w')
  show ?case by (rule safe_ended [OF run_task_safe [OF goroutine(4), of t, unfolded goroutine(2)] goroutine(3)])
next
  case (evict w r w')
  show ?case by (rule safe_ended [OF eviction_tick_safe [OF evict(3), unfolded evict(1)] evict(2)])
next
  case (snapshot_due n w r w')
  show ?case by (rule safe_ended [OF snapshot_tick_safe [OF snapshot_due(3), of n, unfolded snapshot_due(1)] snapshot_due(2)])
next
  case (snapshot_asked w r w')
  show ?case by (rule safe_ended [OF Engine_TakeSnapshot_safe [OF snapshot_asked(4), unfolded snapshot_asked(2)] snapshot_asked(3)])
next
  case (log_entry req w r w')
  show ?case by (rule safe_ended [OF FSM_Apply_safe [OF log_entry(4,3), unfolded log_entry(1)] log_entry(2)])
next
  case (gossip raft_add msg cs w r w' cs')
  show ?case by (rule safe_ended [OF NotifyMsg_safe [OF gossip(3), of raft_add msg cs, unfolded gossip(1) fst_conv] gossip(2)])
next
  case (select d w r s')
  then show ?case using SelectDB_keeps [of w d] by simp
next
  case (protocol n w r s')
  then show ?case using SetProtocol_keeps [of w n] by simp
next
  case (clock w t)
  show ?case by (rule server_ok_cong [OF clock(2)]) simp_all
next
  case (choices w cs)
  show ?case by (rule server_ok_cong [OF choices]) simp_all
qed

lemma reachable_ok:
  assumes "reachable env options w" "raft_sane (fresh_server env (final_config env options))"
    and "\<not> CfgRestoreAOF (final_config env options)" "\<not> CfgRestoreSnapshot (final_config env options)"
  shows "server_ok w"
  using assms(1)
proof (induction rule: reachable.induct)
  case (start cs w)
  then show ?case using new_server_facts [OF _ assms(2-4)] by blast
next
  case (more w w')
  then show ?case by (blast intro: step_keeps)
qed

text \<open>A call of an embedding program is a step.\<close>

lemma call_is_step:
  assumes "ExecuteCommand cmd w = (Ok r, w')" "\<not> flushes (srv w) (EncodeCommand cmd)"
  shows "step w w'"
proof (rule step.message)
  show "handleCommand server_context (EncodeCommand cmd) None False True w = Some (Ok r, w')"
    using assms(1) by (simp add: ExecuteCommand_def split: option.splits)
qed (simp_all add: ended_def assms(2))

text \<open>C1: In every state that a server reaches from its start the invariant holds: by messages on connections and calls of the
  embedding program that run a command or choose its database or protocol, in any order, by the goroutines these start, by evictions and snapshots, by entries of the raft log, those
  that delete a key of a database the node does not have included, and by messages of other nodes. So every database has its
  two caches and its list of volatile keys, the caches are heaps, every key with an expiry is listed once, a stored set
  exists, no stored value has a type that no command accepts, and reading any keys then returns what is stored and not
  past its expiry. Excepted are FLUSHALL and FLUSHDB, as messages and as entries of the log, operations that panic or never end,
  the restoring of a snapshot by raft, servers that restore a log or a snapshot at their start, and consensus libraries whose calls do not return.\<close>

theorem reachable_states_are_ok:
  assumes "reachable env options w" "raft_sane (fresh_server env (final_config env options))"
    and "\<not> CfgRestoreAOF (final_config env options)" "\<not> CfgRestoreSnapshot (final_config env options)"
  shows "server_ok w \<and> (\<exists>m w'. getValues cx ks w = (Ok m, w') \<and> server_ok w' \<and>
    gm_value m k = (if k \<in> set ks then live_value (entry_of cx w k) else VNil))"
proof -
  have ok: "server_ok w" by (rule reachable_ok [OF assms])
  moreover obtain m w' where "getValues cx ks w = (Ok m, w')" "server_ok w'"
    "\<forall>k. gm_value m k = (if k \<in> set ks then live_value (entry_of cx w k) else VNil)"
    using getValues_store [OF ok] by blast
  ultimately show ?thesis by blast
qed

definition reader_env :: environment where
  "reader_env = demo_env\<lparr>env_libs := with_reader demo_libs\<rparr>"

text \<open>A server of the default configuration that was built, and on which a key was set.\<close>

lemma reader_start:
  obtains w where "NewSugarDB reader_env [] (\<lambda>_. 0) = (Ok (), w)" "reachable reader_env [] w" "unlimited w"
    "reads_resp (libs (srv w))" "serving (srv w)" "\<And>cx. entry_of cx w = (\<lambda>_. None)"
proof -
  let ?conf = "DefaultConfig (env_address demo_env)"
  let ?w0 = "\<lparr>heap = (\<lambda>_. None), next_addr = 0, coins = (\<lambda>_. 0), srv = fresh_server reader_env ?conf\<rparr>"
  obtain a w1 where acl: "NewACL (env_libs reader_env) (acl_settings ?conf) ?w0 = (Ok a, w1)"
    using NewACL_total [of "env_libs reader_env" "acl_settings ?conf" ?w0]
    by (auto simp: reader_env_def with_reader_def demo_env_def demo_libs_def acl_settings_def DefaultConfig_def)
  have c: "start_tickers ?conf = Ok ()" "\<not> CfgTLS ?conf" "\<not> CfgRestoreAOF ?conf" "\<not> CfgRestoreSnapshot ?conf"
    by (simp_all add: start_tickers_def NewTicker_def DefaultConfig_def NoEviction_def clustered_def)
  have adr: "env_address reader_env = env_address demo_env" by (simp add: reader_env_def)
  obtain w where w: "NewSugarDB reader_env [] (\<lambda>_. 0) = (Ok (), w)"
    using acl c by (simp add: NewSugarDB_def Let_def restore_at_start_def adr)
  have conf: "final_config reader_env [] = ?conf" by (simp add: final_config_def adr)
  obtain a where s: "srv w = (fresh_server reader_env ?conf)\<lparr>acl := a, lfuCache := [], lruCache := []\<rparr>" and ok: "server_ok w"
    using new_server_facts [OF w, unfolded conf] c
    by (auto simp: raft_sane_def fresh_server_def reader_env_def demo_env_def)
  show thesis
  proof (rule that [OF w reachable.start [OF w]])
    show "unlimited w" using ok by (simp add: unlimited_def s fresh_server_def server_config_def DefaultConfig_def)
    show "reads_resp (libs (srv w))"
      using reader_reads [of demo_libs] by (simp add: s fresh_server_def reader_env_def)
    show "serving (srv w)"
      by (simp add: serving_def s fresh_server_def isInCluster_def server_config_def DefaultConfig_def)
    show "entry_of cx w = (\<lambda>_. None)" for cx
      by (simp add: entry_of_def lookup_key_def db_of_def s fresh_server_def fun_eq_iff)
  qed
qed

theorem reachable_states_are_ok_witness:
  "\<exists>w. reachable reader_env [] w \<and> entry_of (embedded_ctx (srv w)) w ''k'' = Some (AdaptType ''v'', False) \<and>
     server_ok w \<and> (\<exists>m w'. getValues (embedded_ctx (srv w)) [''k''] w = (Ok m, w') \<and> gm_value m ''k'' = AdaptType ''v'')"
proof -
  obtain w where w: "reachable reader_env [] w" "unlimited w" "reads_resp (libs (srv w))" "serving (srv w)"
    "entry_of (embedded_ctx (srv w)) w = (\<lambda>_. None)" using reader_start by metis
  obtain w1 where w1: "API_Set ''k'' ''v'' plain_set w = (Ok ([], True), w1)" "plumbing (srv w1) = plumbing (srv w)"
    "entry_of (embedded_ctx (srv w)) w1 ''k'' = Some (AdaptType ''v'', False)"
    using Set_call [OF w(3,4,2), of "''k''" "''v''"] w(5) by auto
  then obtain r where "ExecuteCommand [''SET'', ''k'', ''v''] w = (Ok r, w1)"
    by (cases "ExecuteCommand [''SET'', ''k'', ''v''] w"; cases "fst (ExecuteCommand [''SET'', ''k'', ''v''] w)")
      (auto simp: API_Set_def api_call_def set_words_def plain_set_def opt_word_def split: res.splits)
  moreover have "\<not> flushes (srv w) (EncodeCommand [''SET'', ''k'', ''v''])"
    using SET_dispatched [OF w(3,4), of "[''k'', ''v'']"]
    by (simp add: flushes_def dispatched_def flushing_def set_command_def mk_command_def)
  ultimately have "reachable reader_env [] w1" using reachable.more [OF w(1) call_is_step] by blast
  moreover have "embedded_ctx (srv w1) = embedded_ctx (srv w)" by (rule embedded_ctx_plumbing [OF w1(2)])
  ultimately show ?thesis
    using reachable_states_are_ok [of reader_env "[]" w1 "embedded_ctx (srv w)" "[''k'']" "''k''"] w1(3)
    by (fastforce simp: final_config_def DefaultConfig_def raft_sane_def fresh_server_def reader_env_def demo_env_def)
qed

subsection \<open>What flushing leaves behind\<close>

text \<open>C28: Flushing a database empties it, and nothing else is put right: the counter of the memory in use stays what it was, and in the
  list of its volatile keys every name is replaced by the empty one. This is why the steps above leave FLUSHALL and FLUSHDB out.\<close>

theorem Flush_leaves_empty_names:
  assumes "server_ok w" "has_db d w" "d \<noteq> - 1"
  shows "\<exists>w'. Flush d w = (Ok (), w') \<and> db_of (srv w') d = [] \<and> memUsed (srv w') = memUsed (srv w) \<and>
    volatile_keys (srv w') d = replicate (length (volatile_keys (srv w) d)) []"
proof -
  have "map_of (lfuCache (srv w)) d \<noteq> None" "map_of (lruCache (srv w)) d \<noteq> None"
    using assms(1,2) db_caches [of w d] by (simp_all add: server_ok_def has_db_def)
  moreover have "map_of (keysWithExpiry (srv w)) d \<noteq> None"
    using assms(1,2) unfolding server_ok_def sinv_def store_inv_def has_db_def by (metis domIff subsetD)
  ultimately show ?thesis
    using assms(2,3)
    by (auto simp: Flush_def flush_db_def Let_def has_db_def db_of_def volatile_keys_def map_replicate_const)
qed

theorem Flush_leaves_empty_names_witness:
  "\<exists>w'. Flush 0 (demo_world demo_config [] [(''k'', until 7000 (VInt 1)), (''l'', kept (VInt 2))]) = (Ok (), w') \<and>
     db_of (srv w') 0 = [] \<and> volatile_keys (srv w') 0 = [[]]"
proof -
  let ?w = "demo_world demo_config [] [(''k'', until 7000 (VInt 1)), (''l'', kept (VInt 2))]"
  have "server_ok ?w" by (rule demo_ok) simp_all
  moreover have "has_db 0 ?w" "volatile_keys (srv ?w) 0 = [''k'']"
    by (simp_all add: has_db_def demo_world_def demo_server_def volatile_keys_def)
  ultimately show ?thesis using Flush_leaves_empty_names [of ?w 0] by auto
qed

end
