(* ===== verification/CommandApi.thy ===== *)
theory CommandApi
  imports Dispatch
begin

text \<open>
  Commands that the embedding program adds (\<open>sugardb/api_admin.go\<close>). A command's functions are the
  program's own, so they come with the options; the table is the list of commands with their functions,
  which the state of the server keeps without them (theory \<open>Dispatch\<close>).
\<close>

subsection \<open>Options\<close>

record public_keys =
  PubReadKeys :: "string list"
  PubWriteKeys :: "string list"

text \<open>The functions of the server that a handler of the program is given.\<close>

record 's public_params =
  PubContext :: ctx
  PubCommand :: "string list"
  PubKeysExist :: "ctx \<Rightarrow> string list \<Rightarrow> 's world \<Rightarrow> (string, bool) gomap"
  PubGetValues :: "ctx \<Rightarrow> string list \<Rightarrow> 's world \<Rightarrow> (string, go_value) gomap res \<times> 's world"
  PubSetValues :: "ctx \<Rightarrow> (string, go_value) gomap \<Rightarrow> 's world \<Rightarrow> unit res \<times> 's world"

type_synonym 's public_handler = "'s public_params \<Rightarrow> 's world \<Rightarrow> string res \<times> 's world"

record 's subcommand_options =
  OptSubName :: string
  OptSubModule :: string
  OptSubCategories :: "string list"
  OptSubSync :: bool
  OptSubKeys :: "string list \<Rightarrow> public_keys res"
  OptSubHandler :: "'s public_handler"

record 's command_options =
  OptName :: string
  OptModule :: string
  OptCategories :: "string list"
  OptSubs :: "'s subcommand_options list"
  OptSync :: bool
  OptKeys :: "string list \<Rightarrow> public_keys res"
  OptHandler :: "'s public_handler"

subsection \<open>The command that is added\<close>

definition narrowed_params :: "'s params \<Rightarrow> 's public_params" where
  "narrowed_params p =
     \<lparr>PubContext = Context p, PubCommand = Command p, PubKeysExist = KeysExist p,
      PubGetValues = GetValues p, PubSetValues = SetValues p\<rparr>"

definition wrap_keys :: "(string list \<Rightarrow> public_keys res) \<Rightarrow> string list \<Rightarrow> key_result res" where
  "wrap_keys f cmd =
     map_res (\<lambda>k. \<lparr>Channels = [], ReadKeys = PubReadKeys k, WriteKeys = PubWriteKeys k, ReadEnd = None\<rparr>) (f cmd)"

definition wrap_handler :: "'s public_handler \<Rightarrow> 's handler" where
  "wrap_handler h p w = h (narrowed_params p) w"

definition plain_command :: "'s command_options \<Rightarrow> 's command" where
  "plain_command opts =
     \<lparr>CommandName = OptName opts, Module = to_lower (OptModule opts), Categories = map to_lower (OptCategories opts),
      SubCommands = [], Sync = OptSync opts, KeyExtractionFunc = wrap_keys (OptKeys opts),
      HandlerFunc = wrap_handler (OptHandler opts)\<rparr>"

text \<open>An element of a new slice of subcommands: no name, and functions that are nil.\<close>

definition nil_sub_command :: "'s sub_command" where
  "nil_sub_command =
     \<lparr>SubCommandName = [], SubModule = [], SubCategories = [], SubSync = False,
      SubKeyExtractionFunc = (\<lambda>_. Panic nil_deref), SubHandlerFunc = (\<lambda>_ w. (Panic nil_deref, w))\<rparr>"

definition added_sub :: "string \<Rightarrow> 's subcommand_options \<Rightarrow> 's sub_command" where
  "added_sub mod_name sc =
     \<lparr>SubCommandName = OptSubName sc, SubModule = to_lower mod_name, SubCategories = map to_lower (OptSubCategories sc),
      SubSync = OptSubSync sc, SubKeyExtractionFunc = wrap_keys (OptSubKeys sc),
      SubHandlerFunc = wrap_handler (OptSubHandler sc)\<rparr>"

text \<open>A subcommand whose name is there already is passed over, which leaves its element of the slice as it was made.\<close>

fun fill_subs :: "string \<Rightarrow> nat \<Rightarrow> 's subcommand_options list \<Rightarrow> 's sub_command list \<Rightarrow> 's sub_command list" where
  "fill_subs mod_name i [] elems = elems"
| "fill_subs mod_name i (sc # scs) elems =
     (if list_ex (\<lambda>s. equal_fold (SubCommandName s) (OptSubName sc)) elems
      then fill_subs mod_name (Suc i) scs elems
      else fill_subs mod_name (Suc i) scs (elems[i := added_sub mod_name sc]))"

definition parent_command :: "'s command_options \<Rightarrow> 's command" where
  "parent_command opts =
     \<lparr>CommandName = OptName opts, Module = OptModule opts, Categories = map to_lower (OptCategories opts),
      SubCommands = fill_subs (OptModule opts) 0 (OptSubs opts) (replicate (length (OptSubs opts)) nil_sub_command),
      Sync = OptSync opts, KeyExtractionFunc = (\<lambda>_. Ok no_keys), HandlerFunc = (\<lambda>_ w. (Ok [], w))\<rparr>"

definition AddCommand :: "'s command_options \<Rightarrow> 's command list \<Rightarrow> 's command list res" where
  "AddCommand opts cs =
     (if list_ex (\<lambda>c. equal_fold (CommandName c) (OptName opts)) cs
      then Err (''command '' @ OptName opts @ '' already exists'')
      else Ok (cs @ [if OptSubs opts = [] then plain_command opts else parent_command opts]))"

text \<open>The lookup in a table with its functions.\<close>

definition find_command :: "'s command list \<Rightarrow> string \<Rightarrow> 's command res" where
  "find_command cs name =
     (case find (\<lambda>c. equal_fold (CommandName c) name) cs of
        None \<Rightarrow> Err (''command '' @ name @ '' not supported'')
      | Some c \<Rightarrow> Ok c)"

subsection \<open>Looking it up\<close>

lemma find_append_option: "find P (xs @ ys) = (case find P xs of None \<Rightarrow> find P ys | Some x \<Rightarrow> Some x)"
  by (induction xs) auto

lemma find_none_ex: "find P xs = None \<longleftrightarrow> \<not> list_ex P xs"
  by (induction xs) auto

text \<open>Adding a command changes what a name finds for its own name only.\<close>

lemma AddCommand_found:
  assumes "AddCommand opts cs = Ok cs'"
  shows "find_command cs' name =
    (if equal_fold (OptName opts) name then Ok (last cs') else find_command cs name)"
proof -
  have new: "\<not> list_ex (\<lambda>c. equal_fold (CommandName c) (OptName opts)) cs"
    and cs': "cs' = cs @ [if OptSubs opts = [] then plain_command opts else parent_command opts]"
    using assms by (auto simp: AddCommand_def split: if_splits)
  have "\<not> list_ex (\<lambda>c. equal_fold (CommandName c) name) cs" if "equal_fold (OptName opts) name"
    using new that by (auto simp: list_ex_iff equal_fold_def)
  then show ?thesis
    using find_none_ex [of "\<lambda>c. equal_fold (CommandName c) name" cs]
    by (cases "find (\<lambda>c. equal_fold (CommandName c) name) cs")
      (auto simp: find_command_def cs' find_append_option plain_command_def parent_command_def)
qed

subsection \<open>Subcommands of one name\<close>

text \<open>The elements that are still to be filled are as they were made.\<close>

definition unfilled :: "nat \<Rightarrow> 's sub_command list \<Rightarrow> bool" where
  "unfilled i elems \<longleftrightarrow> (\<forall>k. i \<le> k \<longrightarrow> k < length elems \<longrightarrow> elems ! k = nil_sub_command)"

lemma unfilled_Suc: "unfilled i elems \<Longrightarrow> unfilled (Suc i) elems" "unfilled i elems \<Longrightarrow> unfilled (Suc i) (elems[i := s])"
  by (auto simp: unfilled_def)

lemma fill_subs_nth: "k < i \<Longrightarrow> fill_subs mod_name i scs elems ! k = elems ! k"
  by (induction mod_name i scs elems rule: fill_subs.induct) auto

lemma fill_subs_length [simp]: "length (fill_subs mod_name i scs elems) = length elems"
  by (induction mod_name i scs elems rule: fill_subs.induct) auto

text \<open>Only elements that were never filled have the empty name.\<close>

definition named :: "'s sub_command \<Rightarrow> bool" where
  "named s \<longleftrightarrow> s = nil_sub_command \<or> \<not> equal_fold (SubCommandName s) []"

lemma fill_subs_named:
  "list_all named elems \<Longrightarrow> unfilled i elems \<Longrightarrow> i + length scs = length elems \<Longrightarrow>
    list_all named (fill_subs mod_name i scs elems)"
proof (induction mod_name i scs elems rule: fill_subs.induct)
  case (2 mod_name i sc scs elems)
  have slot: "elems ! i = nil_sub_command" "i < length elems" using 2(4,5) by (auto simp: unfilled_def)
  show ?case
  proof (cases "list_ex (\<lambda>s. equal_fold (SubCommandName s) (OptSubName sc)) elems")
    case True
    then show ?thesis using 2(1) 2(3-5) unfilled_Suc [OF 2(4)] by auto
  next
    case False
    then have "\<not> equal_fold (SubCommandName (elems ! i)) (OptSubName sc)" using slot(2) by (auto simp: list_ex_iff)
    then have "named (added_sub mod_name sc)"
      using slot(1) by (auto simp: named_def added_sub_def nil_sub_command_def equal_fold_def)
    moreover have "list_all named (elems[i := x])" if "named x" for x
      using 2(3) that by (auto simp: list_all_iff dest: set_update_subset_insert [THEN subsetD])
    ultimately show ?thesis using False 2(2) 2(5) unfilled_Suc(2) [OF 2(4)] by auto
  qed
qed simp

lemma fill_subs_skips:
  "list_ex (\<lambda>s. equal_fold (SubCommandName s) (OptSubName (scs ! j))) elems \<Longrightarrow> j < length scs \<Longrightarrow>
    unfilled i elems \<Longrightarrow> i + length scs = length elems \<Longrightarrow> fill_subs mod_name i scs elems ! (i + j) = nil_sub_command"
proof (induction mod_name i scs elems arbitrary: j rule: fill_subs.induct)
  case (2 mod_name i sc scs elems)
  have slot: "elems ! i = nil_sub_command" "i < length elems" using 2(5,6) by (auto simp: unfilled_def)
  show ?case
  proof (cases j)
    case 0
    then show ?thesis using 2(3) slot(1) fill_subs_nth [of i "Suc i" mod_name scs elems] by simp
  next
    case (Suc j')
    let ?new = "elems[i := added_sub mod_name sc]"
    have "list_ex (\<lambda>s. equal_fold (SubCommandName s) (OptSubName (scs ! j'))) ?new"
    proof -
      obtain k where k: "k < length elems" "equal_fold (SubCommandName (elems ! k)) (OptSubName (scs ! j'))"
        using 2(3) Suc by (auto simp: list_ex_iff in_set_conv_nth)
      define k' where "k' = (if k = i then Suc i + j' else k)"
      have "k' < length elems" "k' \<noteq> i" "SubCommandName (elems ! k') = SubCommandName (elems ! k)"
        using k(1) 2(4-6) Suc slot by (auto simp: k'_def unfilled_def)
      moreover have "?new ! k' \<in> set ?new" using \<open>k' < length elems\<close> by simp
      ultimately show ?thesis using k(2) unfolding list_ex_iff by (metis nth_list_update_neq)
    qed
    then show ?thesis using 2(1) [of j'] 2(2) [of j'] 2(3-6) Suc unfilled_Suc [OF 2(5)] by auto
  qed
qed simp

lemma fill_subs_duplicate:
  "a < b \<Longrightarrow> b < length scs \<Longrightarrow> equal_fold (OptSubName (scs ! a)) (OptSubName (scs ! b)) \<Longrightarrow>
    unfilled i elems \<Longrightarrow> i + length scs = length elems \<Longrightarrow> fill_subs mod_name i scs elems ! (i + b) = nil_sub_command"
proof (induction mod_name i scs elems arbitrary: a b rule: fill_subs.induct)
  case (2 mod_name i sc scs elems)
  obtain b' where b: "b = Suc b'" using 2(3) by (cases b) auto
  have i: "i < length elems" using 2(7) by simp
  show ?case
  proof (cases a)
    case 0
    let ?same = "\<lambda>s. equal_fold (SubCommandName s) (OptSubName (scs ! b'))"
    have "list_ex ?same elems" if "list_ex (\<lambda>s. equal_fold (SubCommandName s) (OptSubName sc)) elems"
      using that 2(5) 0 b by (auto simp: list_ex_iff equal_fold_def)
    moreover have "list_ex ?same (elems[i := added_sub mod_name sc])"
      using 2(5) 0 b i by (auto simp: list_ex_iff added_sub_def set_update_memI intro: bexI [of _ "added_sub mod_name sc"])
    ultimately show ?thesis
      using fill_subs_skips [of scs b' _ "Suc i" mod_name] 2(4,6,7) b unfilled_Suc [OF 2(6)] by auto
  next
    case (Suc a')
    then show ?thesis using 2(1,2) [of a' b'] 2(3-7) b unfilled_Suc [OF 2(6)] by auto
  qed
qed simp

text \<open>C40: A command with two subcommands of one name, whatever their case, can be added, and then a client that sends the
  command with an empty word makes the server call a nil function: the second subcommand leaves an element of the slice
  as it was made, and the empty word is its name.\<close>

theorem duplicate_subcommand_panics:
  assumes "AddCommand opts cs = Ok cs'" "a < b" "b < length (OptSubs opts)"
    and "equal_fold (OptSubName (OptSubs opts ! a)) (OptSubName (OptSubs opts ! b))"
  shows "\<exists>c sc. find_command cs' (OptName opts) = Ok c \<and> GetSubCommand c [OptName opts, []] = Ok (Some sc) \<and>
    (\<forall>p w. SubHandlerFunc sc p w = (Panic nil_deref, w))"
proof -
  let ?n = "length (OptSubs opts)"
  let ?subs = "fill_subs (OptModule opts) 0 (OptSubs opts) (replicate ?n nil_sub_command)"
  let ?empty = "\<lambda>sc. equal_fold (SubCommandName sc) []"
  have start: "unfilled 0 (replicate ?n nil_sub_command)" by (simp add: unfilled_def)
  have "?subs ! b = nil_sub_command"
    using fill_subs_duplicate [OF assms(2,3,4) start, of "OptModule opts"] by simp
  then have "nil_sub_command \<in> set ?subs" using assms(3) by (metis fill_subs_length length_replicate nth_mem)
  moreover have "?empty nil_sub_command" by (simp add: nil_sub_command_def)
  ultimately have "list_ex ?empty ?subs" unfolding list_ex_iff by blast
  then obtain sc where sc: "find ?empty ?subs = Some sc" using find_none_ex [of ?empty ?subs] by auto
  have "list_all named (replicate ?n nil_sub_command)" by (simp add: list_all_iff named_def)
  then have "list_all named ?subs" using start by (rule fill_subs_named) simp
  moreover have "sc \<in> set ?subs" "?empty sc" using sc find_Some_iff [of ?empty ?subs sc] by auto
  ultimately have "sc = nil_sub_command" unfolding list_all_iff named_def by blast
  moreover have "last cs' = parent_command opts"
    using assms(1,3) by (auto simp: AddCommand_def split: if_splits)
  moreover have "OptSubs opts \<noteq> []" "?subs \<noteq> []" using assms(3) by (auto simp flip: length_greater_0_conv)
  ultimately show ?thesis
    using AddCommand_found [OF assms(1), of "OptName opts"] sc
    by (intro exI [of _ "parent_command opts"] exI [of _ sc])
      (simp add: GetSubCommand_def, simp add: parent_command_def nil_sub_command_def)
qed

definition demo_sub :: "string \<Rightarrow> server subcommand_options" where
  "demo_sub name =
     \<lparr>OptSubName = name, OptSubModule = ''m'', OptSubCategories = [], OptSubSync = False,
      OptSubKeys = (\<lambda>_. Ok \<lparr>PubReadKeys = [], PubWriteKeys = []\<rparr>), OptSubHandler = (\<lambda>_ w. (Ok OkResponse, w))\<rparr>"

definition demo_options :: "server command_options" where
  "demo_options =
     \<lparr>OptName = ''copy'', OptModule = ''m'', OptCategories = [], OptSubs = [demo_sub ''all'', demo_sub ''one'', demo_sub ''ALL''],
      OptSync = False, OptKeys = (\<lambda>_. Ok \<lparr>PubReadKeys = [], PubWriteKeys = []\<rparr>), OptHandler = (\<lambda>_ w. (Ok OkResponse, w))\<rparr>"

theorem duplicate_subcommand_panics_witness:
  "\<exists>c sc. find_command [parent_command demo_options] ''copy'' = Ok c \<and> GetSubCommand c [''copy'', []] = Ok (Some sc) \<and>
    (\<forall>p w. SubHandlerFunc sc p w = (Panic nil_deref, w))"
proof -
  have "AddCommand demo_options [] = Ok [parent_command demo_options]"
    by (simp add: AddCommand_def demo_options_def)
  moreover have "equal_fold ''all'' ''ALL''" by code_simp
  ultimately show ?thesis
    using duplicate_subcommand_panics [of demo_options "[]" _ 0 2] by (simp add: demo_options_def demo_sub_def)
qed

end
