(* ===== verification/Spec2Isabelle.thy ===== *)
theory Spec2Isabelle
  imports KeyspaceProps SetSpecs ListSpecs PubSubSpecs AclSpecs DispatchSpecs LogSpecs EmbeddedSpecs EmbeddedPubSub StartUpSpecs HashSpecs GenericSpecs ZSetSpecs RestartSpecs Reachability CommandApi
begin

text \<open>
  SugarDB, an in-memory data store with a Redis-like protocol, written in Go: a server that runs
  alone, embedded in a Go program, or in a cluster that agrees by raft and gossips by memberlist.

  \<^bold>\<open>The program.\<close> A connection (\<open>handleConnection\<close> in \<open>sugardb/sugardb.go\<close>) or a function of the
  embedded interface (\<open>sugardb/api_*.go\<close>) hands the bytes of a command to \<open>handleCommand\<close>
  (\<open>sugardb/modules.go\<close>). It decodes them, finds the command in the table of the modules, asks the
  access control whether the connection may run it, and calls the command's handler with the
  functions of the server that handlers may use (\<open>getHandlerFuncParams\<close>); in a cluster a
  synchronised command goes through the raft log instead, or is forwarded to the leader. Handlers
  read and write keys through the keyspace (\<open>sugardb/keyspace.go\<close>), which counts memory, keeps the
  volatile keys and, by its goroutines, the eviction caches. A write that succeeds is appended to
  the log (\<open>internal/aof\<close>); snapshots (\<open>internal/snapshot\<close>) and the raft state machine copy the whole
  state. At the start the log or the latest snapshot is read back.

  \<^bold>\<open>The model.\<close> All state is one record, \<open>server\<close> (theory \<open>Keyspace\<close>): the databases, the memory
  counter, the volatile keys, the caches, the connections, the clock, the access control, the
  channels, the command table, the files, and what was handed to raft and to gossip. It stands in a
  \<open>world\<close> with a heap for the sets, which the program shares by pointer, and a stream of coins for what
  Go leaves open: the order in which a map is iterated and random numbers. A Go map is an
  association list without repeated keys (\<open>gomap\<close>), iterated in an order the coins choose, so a
  theorem that leaves the coins free holds for every order. An operation takes the world and
  returns a result and a world; a result (\<open>res\<close>) is \<open>Ok\<close>, \<open>Err\<close> with the error's text, \<open>Panic\<close>, or
  \<open>Diverge\<close> for a call that never returns. Strings are sequences of bytes; \<open>int\<close> is an integer with
  the wrap-around at 64 bits written out (\<open>i64\<close>, \<open>u64\<close>); \<open>float64\<close> is an exact dyadic number with
  rounding to 53 bits, infinities and NaN (\<open>GoFloat\<close>, \<open>GoFloatOps\<close>).

  \<^bold>\<open>Theories and sources.\<close>
  \<^item> \<open>Prelude\<close>: machine integers, decimal text, maps, results, and the simplifier sets of the rest.
  \<open>GoFloat\<close>, \<open>GoFloatOps\<close>: parsing, rounding, printing and arithmetic of floats. \<open>GoHeap\<close>: Go's
  \<open>container/heap\<close>, as the locale \<open>go_heap\<close>. \<open>GoText\<close>: UTF-8, \<open>%v\<close> and \<open>%g\<close>, durations.
  \<^item> \<open>ModuleTypes\<close>, \<open>GoValues\<close>: the types of \<open>internal/types.go\<close>, values and what a handler is given.
  \<^item> \<open>SetData\<close>: \<open>internal/modules/set/set.go\<close>. \<open>ZSetData\<close>: \<open>sorted_set/sorted_set.go\<close>, \<open>utils.go\<close>.
  \<^item> \<open>Eviction\<close>: \<open>internal/eviction\<close>, with the interpretations \<open>lfu\<close> and \<open>lru\<close> of \<open>go_heap\<close>.
  \<^item> \<open>Keyspace\<close>, \<open>Memory\<close>: \<open>sugardb/keyspace.go\<close>. \<open>KeyspaceInv\<close>, \<open>MemoryInv\<close>: the invariant \<open>sinv\<close> and what
  each function does to an entry.
  \<^item> \<open>KvStore\<close>: the locale \<open>kv_store\<close>, what handlers rely on, \<open>kv_unlimited\<close>, which extends it for a
  store without a memory limit, and their interpretations \<open>ks\<close> and \<open>un\<close> on the keyspace.
  \<^item> \<open>SetCommands\<close>, \<open>ListCommands\<close>, \<open>HashCommands\<close>, \<open>StringCommands\<close>, \<open>GenericCommands\<close>, \<open>ZSetCommands\<close>,
  \<open>PubSub\<close>, \<open>AclCommands\<close>, \<open>ConnectionCommands\<close>: the handlers, key functions and tables of
  \<open>internal/modules\<close>, the admin and connection modules in the last. \<open>AccessControl\<close>: \<open>acl/user.go\<close>, \<open>acl.go\<close>.
  \<^item> \<open>RespParse\<close>: messages and replies (\<open>internal/utils.go\<close>). \<open>RespReader\<close>: the contract \<open>reads_resp\<close> of the RESP
  library, and a reader that meets it.
  \<^item> \<open>AppendLog\<close>: \<open>internal/aof/log\<close>. \<open>Snapshots\<close>: \<open>internal/aof/engine.go\<close> and \<open>preamble\<close>, \<open>internal/snapshot\<close>,
  \<open>internal/raft/fsm.go\<close>, \<open>fsm_snapshot.go\<close>. \<open>ServerOps\<close>: the functions of the server that handlers reach.
  \<open>Persistence\<close>: what is read back at the start.
  \<^item> \<open>Dispatch\<close>: \<open>sugardb/modules.go\<close>, \<open>cluster.go\<close>, the chunks of a reply, the apply function of
  \<open>internal/raft/fsm.go\<close>. \<open>Cluster\<close>: \<open>internal/memberlist\<close>, the members of \<open>internal/raft/raft.go\<close>.
  \<^item> \<open>EmbeddedApi\<close>, \<open>EmbeddedData\<close>, \<open>EmbeddedPubSub\<close>: \<open>sugardb/api_*.go\<close>; \<open>API_X\<close> is the method \<open>X\<close>.
  \<open>CommandApi\<close>: \<open>AddCommand\<close> of \<open>sugardb/api_admin.go\<close>, and that two subcommands of one name leave a nil function
  that a client can make the server call.
  \<^item> \<open>Configuration\<close>: \<open>internal/config\<close>, \<open>sugardb/config.go\<close>. \<open>StartUp\<close>: \<open>NewSugarDB\<close>, the caches, the tickers and
  the loop of a connection in \<open>sugardb/sugardb.go\<close>.

  \<^bold>\<open>What is shown.\<close>
  \<^item> \<open>KeyspaceProps\<close>: reading deletes what has expired and nothing else, writing refines an update of
  a map, expiry and memory accounting round trips, the order of eviction of both caches, and that
  making room for memory returns under four policies and never under the other two.
  \<^item> \<open>SetSpecs\<close>, \<open>ListSpecs\<close>: the functional behaviour of the set and list commands, proved inside the
  locale, the repairs they need included: what an alias makes of a stored set, what LREM skips.
  \<^item> \<open>KvExpiry\<close>: the interface \<open>kv_store\<close> extended by the expiry times themselves, with the laws that reads and
  writes change none and a deletion removes its own; interpreted on the keyspace.
  \<^item> \<open>KeyWords\<close>: the key extraction functions of the whole command table fail or return words of the message,
  for every message that names the command.
  \<^item> \<open>HashSpecs\<close>: a hash as a partial map: HSET overrides it, HDEL restricts it.
  \<^item> \<open>GenericSpecs\<close>: counters modulo the 64-bit integers, RENAME, DEL for every order of iteration, and
  the time to live that EXPIRE sets and TTL reports, with what each does to the expiry times.
  \<^item> \<open>ZSetSpecs\<close>: an induction principle for the halving by which the code computes unions and intersections
  of sorted sets, the members and the extreme scores of the result by it, and what a pop takes out.
  \<^item> \<open>HandlerSafety\<close>, \<open>ServerSafety\<close>, \<open>Reachability\<close>: a calculus for operations that keep an invariant; a
  locale of what a handler needs of the server for that, in which every handler of the command table (the
  two that flush excepted) is shown to keep it; its interpretation on the server; the step relation of the
  server and the invariant in every state that it reaches.
  \<^item> \<open>ReplicaSpecs\<close>, \<open>RestartSpecs\<close>: four kinds of commands as functions of a map from keys to values (\<open>effect\<close>);
  that the raft state machine and the handling of a call refine them, whatever the random choices, so that
  replicas agree and a restart from the log restores the keys; that SPOP has no such function, and that a
  restart runs the commands of all databases on database 0.
  \<^item> \<open>PubSubSpecs\<close>: the module as a transition system with the goroutines of channels and
  connections; in every reachable state no message was written more often than it was published.
  \<^item> \<open>AclSpecs\<close>: the form of a normalised user, what the key check asks for, and that the check can
  change the command it checks. \<open>DispatchSpecs\<close>: what happens around every handler.
  \<^item> \<open>LogSpecs\<close>: the log is replayed as it was written for databases 0 to 9, and for no other
  its SELECT line is well formed. \<open>EmbeddedSpecs\<close>: a value set is the value read back, through
  encoding, decoding, dispatch, handler and reading of the reply. \<open>StartUpSpecs\<close>: a server that
  was built satisfies the invariant that every other theorem asks for, whatever its options.

  \<^bold>\<open>Loops.\<close> Loops over lists and maps are structural. \<open>reply_chunks\<close>, the heap loops and the digits
  end by a measure. The eviction loops of \<open>Memory\<close> may not end: they are \<open>partial_function (option)\<close>,
  \<open>None\<close> is a run without end, and where they return that is proved. \<open>Diverge\<close> stands for a lock taken
  twice. The readers of nested arrays in \<open>RespReader\<close>, which stand in for the library in examples,
  take the length of their input as fuel, and every step consumes at least one byte.

  \<^bold>\<open>Parameters.\<close> Libraries are functions of the record \<open>libs\<close> of the server: compiling a glob, SHA-256, the
  RESP reader, the file of users. MD5, raft's \<open>Apply\<close>, the decoders of configuration files, the
  environment of a start are parameters as well. Theorems state what they need of them as
  hypotheses, and their examples give functions that meet them.

  \<^bold>\<open>Not modelled.\<close>
  \<^item> Loading plugins (\<open>LoadModule\<close> never finds one); the descriptions of commands in the reply of COMMANDS;
  dispatching a command of \<open>AddCommand\<close>, which \<open>CommandApi\<close> models on a table of its own: the state of the
  server keeps the commands without their functions.
  \<^item> Failures of file operations and crashes between them; the raft and memberlist libraries
  and their start; listening, TLS, signals and \<open>cmd/main.go\<close>.
  \<^item> Hashes, lists and sorted sets are values: a handler that changes the stored object in place
  writes it back (\<open>WriteThrough\<close>), so two keys do not come to share one by RENAME or GETDEL. Sets are
  shared as in the program. A list without elements is not distinguished from nil.
  \<^item> Interleaving is modelled where it matters to the module (publish and subscribe, the goroutines
  that reads and writes start, which run after the command); a handler and the eviction tick run
  without interruption. Channels do not fill up and writes to a pipe do not wait.
  \<^item> \<open>slices.SortFunc\<close> is the insertion sort it uses for up to twelve elements; for longer slices only a
  consistent order gives the same result. Slices of command words have room beyond their end as
  the decoder allocates them, up to 512 words.
  \<^item> Upper and lower case, \<open>TrimSpace\<close> and \<open>strconv.Quote\<close> beyond ASCII. \<open>time.Now()\<close> is the clock of the server.
\<close>

end
